(* ===== verification/TSN_Prelude.thy ===== *)
theory TSN_Prelude
  imports Main "HOL-Library.Word" "HOL-Library.Monad_Syntax"
begin

text \<open>
  What every component of the development shares: the machine integers of the program, the
  Rust integer operations it calls (\<open>saturating_add\<close>, \<open>div_ceil\<close>, \<open>abs_diff\<close>), big-endian
  byte strings in both directions, the byte reader that stands for \<open>Cursor\<close>, and the
  collections of lemmas the component proofs use.
\<close>

unbundle bit_operations_syntax

named_theorems wire_len \<open>lengths of encoded fields\<close>
named_theorems wire_rt \<open>a decoder applied to what its encoder wrote\<close>

type_synonym u8 = "8 word"
type_synonym u16 = "16 word"
type_synonym u32 = "32 word"
type_synonym u64 = "64 word"
type_synonym u128 = "128 word"
type_synonym bytes = "u8 list"

section \<open>Rust integer operations\<close>

text \<open>\<open>saturating_add\<close> on an unsigned integer: the sum, or the largest value when it overflows.\<close>

definition saturating_add :: "'a::len word \<Rightarrow> 'a word \<Rightarrow> 'a word" where
  "saturating_add a b = (if a + b < a then - 1 else a + b)"

text \<open>\<open>div_ceil\<close>: the quotient, plus one when the division leaves a remainder.\<close>

definition div_ceil :: "'a::len word \<Rightarrow> 'a word \<Rightarrow> 'a word" where
  "div_ceil a b = (if a mod b = 0 then a div b else a div b + 1)"

text \<open>\<open>abs_diff\<close>: the distance of two unsigned values.\<close>

definition abs_diff :: "'a::len word \<Rightarrow> 'a word \<Rightarrow> 'a word" where
  "abs_diff a b = (if a < b then b - a else a - b)"

lemma unat_lt: "unat a < 2 ^ LENGTH('a)" for a :: "'a::len word"
  by (fact unsigned_less)

lemma unat_minus_1: "unat (- 1 :: 'a::len word) = 2 ^ LENGTH('a) - 1"
  by (simp add: unsigned_minus_1_eq_mask mask_eq_exp_minus_1)

lemma unat_ucast_up [simp]:
  "LENGTH('a) \<le> LENGTH('b) \<Longrightarrow> unat (ucast w :: 'b::len word) = unat w" for w :: "'a::len word"
  by (simp add: unsigned_ucast_eq take_bit_nat_eq_self_iff)
    (meson order_less_le_trans unat_lt one_le_numeral power_increasing)

lemma unat_ucast_mod:
  "unat (ucast w :: 'b::len word) = unat w mod 2 ^ LENGTH('b)" for w :: "'a::len word"
  by (simp add: unsigned_ucast_eq take_bit_eq_mod)

lemma unat_max: "unat (max a b) = max (unat a) (unat b)" for a b :: "'a::len word"
  by (simp add: max_def word_le_nat_alt)

lemma unat_min: "unat (min a b) = min (unat a) (unat b)" for a b :: "'a::len word"
  by (simp add: min_def word_le_nat_alt)

lemma unat_saturating_add:
  "unat (saturating_add a b) = min (unat a + unat b) (2 ^ LENGTH('a) - 1)"
  for a b :: "'a::len word"
proof -
  have ua: "unat a < 2 ^ LENGTH('a)" and ub: "unat b < 2 ^ LENGTH('a)"
    by (rule unat_lt)+
  show ?thesis
  proof (cases "unat a + unat b < 2 ^ LENGTH('a)")
    case True
    then have "unat (a + b) = unat a + unat b"
      by (simp add: unat_word_ariths)
    with True show ?thesis
      by (simp add: saturating_add_def word_less_nat_alt)
  next
    case False
    then have "unat a + unat b - 2 ^ LENGTH('a) < 2 ^ LENGTH('a)"
      using ua ub by linarith
    with False have "unat (a + b) = unat a + unat b - 2 ^ LENGTH('a)"
      by (simp add: unat_word_ariths le_mod_geq)
    then have "a + b < a"
      using ub ua False unfolding word_less_nat_alt by linarith
    then show ?thesis
      using False by (simp add: saturating_add_def unat_minus_1)
  qed
qed

lemma saturating_add_ge: "a \<le> saturating_add a b"
  for a b :: "'a::len word"
proof -
  have "unat a \<le> 2 ^ LENGTH('a) - 1"
    using unat_lt [of a] by linarith
  then show ?thesis
    by (simp add: word_le_nat_alt unat_saturating_add)
qed

lemma saturating_add_1_less:
  fixes a :: "'a::len word"
  assumes "a \<noteq> - 1"
  shows "a < saturating_add a 1"
proof -
  have "unat a < 2 ^ LENGTH('a)" by (rule unat_lt)
  moreover have "unat a \<noteq> 2 ^ LENGTH('a) - 1"
    using assms by (metis unat_minus_1 word_unat_eq_iff)
  ultimately have "unat a + 1 \<le> 2 ^ LENGTH('a) - 1" by linarith
  then show ?thesis
    by (simp add: word_less_nat_alt unat_saturating_add)
qed

lemma saturating_add_max [simp]: "saturating_add (- 1) b = (- 1 :: 'a::len word)"
proof -
  have "unat (saturating_add (- 1) b) = unat (- 1 :: 'a word)"
    by (simp add: unat_saturating_add unat_minus_1)
  then show ?thesis by (simp only: word_unat_eq_iff)
qed

lemma unat_div_ceil:
  fixes a b :: "'a::len word"
  assumes "b \<noteq> 0"
  shows "unat (div_ceil a b) = (unat a + unat b - 1) div unat b"
proof (cases "unat a mod unat b = 0")
  case True
  then obtain k where k: "unat a = unat b * k" by auto
  have b0: "0 < unat b" using assms by (simp add: unat_gt_0)
  have "unat b * k + unat b - 1 = (unat b - 1) + unat b * k"
    using b0 by simp
  then have "(unat b * k + unat b - 1) div unat b = k"
    using b0 by (simp only: div_mult_self2) simp
  moreover have "a mod b = 0"
    using True by (simp add: word_unat_eq_iff unat_mod)
  ultimately show ?thesis
    using b0 by (simp add: div_ceil_def unat_div k)
next
  case False
  have b0: "0 < unat b" using assms by (simp add: unat_gt_0)
  define q r where "q = unat a div unat b" and "r = unat a mod unat b"
  have a: "unat a = r + unat b * q" and r: "0 < r" "r < unat b"
    using False b0 by (auto simp: q_def r_def)
  have "(unat a + unat b - 1) div unat b = ((r - 1) + unat b * (q + 1)) div unat b"
    using r by (simp add: a algebra_simps)
  also have "\<dots> = q + 1"
    using r b0 by (simp only: div_mult_self2) simp
  finally have rhs: "(unat a + unat b - 1) div unat b = q + 1" .
  have "q + 1 \<le> unat a"
  proof -
    have "q \<le> unat b * q" using b0 by simp
    then show ?thesis using a r by linarith
  qed
  then have "q + 1 < 2 ^ LENGTH('a)"
    using unat_lt [of a] by linarith
  then have "unat (a div b + 1) = q + 1"
    by (simp add: unat_word_ariths q_def unat_div)
  moreover have "a mod b \<noteq> 0"
    using False by (simp add: word_unat_eq_iff unat_mod)
  ultimately have "unat (div_ceil a b) = q + 1"
    by (simp add: div_ceil_def)
  then show ?thesis by (simp only: rhs)
qed

lemma abs_diff_commute: "abs_diff a b = abs_diff b a"
  by (auto simp: abs_diff_def not_less)

section \<open>Big-endian byte strings\<close>

text \<open>
  \<open>to_be_bytes\<close> and \<open>from_be_bytes\<close>. The width is the number of bytes written, most
  significant byte first; \<open>write_u16::<BigEndian>\<close> and its kin write the same bytes (the unit
  tests under \<^verbatim>\<open>src/common/src/l2_types.rs\<close> pin the order down).
\<close>

primrec be_bytes :: "nat \<Rightarrow> 'a::len word \<Rightarrow> bytes" where
  "be_bytes 0 w = []"
| "be_bytes (Suc n) w = ucast (drop_bit (8 * n) w) # be_bytes n w"

definition from_be :: "bytes \<Rightarrow> 'a::len word" where
  "from_be bs = foldl (\<lambda>acc b. push_bit 8 acc OR ucast b) 0 bs"

abbreviation be16 :: "u16 \<Rightarrow> bytes" where "be16 \<equiv> be_bytes 2"
abbreviation be32 :: "u32 \<Rightarrow> bytes" where "be32 \<equiv> be_bytes 4"
abbreviation be64 :: "u64 \<Rightarrow> bytes" where "be64 \<equiv> be_bytes 8"

lemma length_be_bytes [simp, wire_len]: "length (be_bytes n w) = n"
  by (induction n) simp_all

lemma foldl_be_bytes:
  "foldl (\<lambda>acc b. push_bit 8 acc OR ucast b) acc (be_bytes n w)
     = push_bit (8 * n) acc OR take_bit (8 * n) w"
  for w acc :: "'a::len word"
proof (induction n arbitrary: acc)
  case 0
  then show ?case by simp
next
  case (Suc n)
  have "push_bit (8 * n) (push_bit 8 acc OR ucast (ucast (drop_bit (8 * n) w) :: u8))
          OR take_bit (8 * n) w
        = push_bit (8 * Suc n) acc OR take_bit (8 * Suc n) w"
    by (rule bit_word_eqI) (auto simp: bit_simps add.commute [of 8])
  then show ?case by (simp only: be_bytes.simps foldl_Cons Suc.IH)
qed

lemma from_be_be_bytes [simp, wire_rt]:
  "LENGTH('a) \<le> 8 * n \<Longrightarrow> from_be (be_bytes n w) = w" for w :: "'a::len word"
  by (simp add: from_be_def foldl_be_bytes take_bit_word_eq_self)

lemma be_bytes_snoc: "be_bytes (Suc n) w = be_bytes n (drop_bit 8 w) @ [ucast w]"
  by (induction n) (simp_all add: ac_simps)

lemma from_be_snoc: "from_be (bs @ [b]) = (push_bit 8 (from_be bs) OR ucast b :: 'a::len word)"
  by (simp add: from_be_def)

lemma bit_from_be_less: "bit (from_be bs :: 'a::len word) k \<Longrightarrow> k < 8 * length bs"
proof (induction bs arbitrary: k rule: rev_induct)
  case Nil
  then show ?case by (simp add: from_be_def)
next
  case (snoc b bs)
  from snoc.prems have "(8 \<le> k \<and> bit (from_be bs :: 'a word) (k - 8)) \<or> bit b k"
    by (auto simp: from_be_snoc bit_simps)
  then show ?case
  proof
    assume "8 \<le> k \<and> bit (from_be bs :: 'a word) (k - 8)"
    with snoc.IH [of "k - 8"] show ?thesis by simp
  next
    assume "bit b k"
    then have "k < 8" using bit_imp_le_length by fastforce
    then show ?thesis by simp
  qed
qed

lemma be_bytes_from_be [simp]:
  "8 * length bs \<le> LENGTH('a) \<Longrightarrow> be_bytes (length bs) (from_be bs :: 'a::len word) = bs"
proof (induction bs rule: rev_induct)
  case Nil
  then show ?case by simp
next
  case (snoc b bs)
  let ?w = "push_bit 8 (from_be bs) OR ucast b :: 'a word"
  have lo: "ucast ?w = b"
    using snoc.prems by (intro bit_word_eqI) (auto simp: bit_simps)
  have "drop_bit 8 ?w = from_be bs"
  proof (rule bit_word_eqI)
    fix k
    assume "k < LENGTH('a)"
    have "\<not> bit b (8 + k)"
      using bit_imp_le_length [of b "8 + k"] by auto
    moreover have "bit (from_be bs :: 'a word) k \<Longrightarrow> 8 + k < LENGTH('a)"
      using bit_from_be_less [of bs k] snoc.prems by fastforce
    ultimately show "bit (drop_bit 8 ?w) k = bit (from_be bs :: 'a word) k"
      by (auto simp: bit_simps)
  qed
  with snoc lo show ?case
    by (simp add: be_bytes_snoc from_be_snoc del: be_bytes.simps)
qed

lemma take_2_nth: "i + 2 \<le> length bs \<Longrightarrow> take 2 (drop i bs) = [bs ! i, bs ! (i + 1)]"
  by (simp add: list_eq_iff_nth_eq less_Suc_eq numeral_2_eq_2)

lemma take_4_nth:
  "i + 4 \<le> length bs \<Longrightarrow>
     take 4 (drop i bs) = [bs ! i, bs ! (i + 1), bs ! (i + 2), bs ! (i + 3)]"
  by (simp add: list_eq_iff_nth_eq less_Suc_eq numeral_eq_Suc)

section \<open>MAC addresses\<close>

text \<open>The six octets of an Ethernet address, in transmission order.\<close>

datatype mac_addr = MacAddr u8 u8 u8 u8 u8 u8

primrec octets :: "mac_addr \<Rightarrow> bytes" where
  "octets (MacAddr a b c d e f) = [a, b, c, d, e, f]"

lemma length_octets [simp, wire_len]: "length (octets m) = 6"
  by (cases m) simp

lemma octets_inject [simp]: "octets m = octets n \<longleftrightarrow> m = n"
  by (cases m; cases n) simp

section \<open>Reading from a cursor\<close>

text \<open>
  A \<open>Cursor\<close> over a byte slice is the bytes not yet read. A read that wants more bytes than
  are left fails (\<open>UnexpectedEof\<close>, \<open>None\<close> here) and otherwise returns the value and the rest.
\<close>

definition read_u8 :: "bytes \<Rightarrow> (u8 \<times> bytes) option" where
  "read_u8 bs = (case bs of [] \<Rightarrow> None | b # rest \<Rightarrow> Some (b, rest))"

definition read_be :: "nat \<Rightarrow> bytes \<Rightarrow> ('a::len word \<times> bytes) option" where
  "read_be n bs = (if length bs < n then None else Some (from_be (take n bs), drop n bs))"

definition read_exact :: "nat \<Rightarrow> bytes \<Rightarrow> (bytes \<times> bytes) option" where
  "read_exact n bs = (if length bs < n then None else Some (take n bs, drop n bs))"

lemma read_u8_Cons [simp]: "read_u8 (b # bs) = Some (b, bs)"
  by (simp add: read_u8_def)

lemma read_u8_Nil [simp]: "read_u8 [] = None"
  by (simp add: read_u8_def)

lemma read_be_be_bytes [simp, wire_rt]:
  "LENGTH('a) \<le> 8 * n \<Longrightarrow> read_be n (be_bytes n w @ rest) = Some (w, rest)" for w :: "'a::len word"
  by (simp add: read_be_def)

lemma read_exact_append [simp, wire_rt]:
  "length bs = n \<Longrightarrow> read_exact n (bs @ rest) = Some (bs, rest)"
  by (simp add: read_exact_def)

lemma read_u8_SomeD: "read_u8 bs = Some (b, rest) \<Longrightarrow> bs = b # rest"
  by (cases bs) simp_all

lemma read_be_SomeD:
  "read_be n bs = Some (w, rest) \<Longrightarrow> 8 * n \<le> LENGTH('a) \<Longrightarrow> bs = be_bytes n w @ rest"
  for w :: "'a::len word"
proof -
  assume r: "read_be n bs = Some (w, rest)" and n: "8 * n \<le> LENGTH('a)"
  from r have len: "length (take n bs) = n" and w: "w = from_be (take n bs)"
    and rest: "rest = drop n bs"
    by (auto simp: read_be_def split: if_splits)
  from n have "be_bytes n w = take n bs"
    using be_bytes_from_be [of "take n bs", where 'a = 'a] unfolding w len by blast
  with rest show ?thesis by simp
qed

lemma read_exact_SomeD: "read_exact n bs = Some (x, rest) \<Longrightarrow> bs = x @ rest \<and> length x = n"
  by (auto simp: read_exact_def split: if_splits)

section \<open>Wire formats\<close>

text \<open>
  The contract of a header that is written in front of other bytes and read back from the
  start of a buffer: the reader undoes the writer whatever follows (\<open>prefix_reader\<close>), and,
  where the format is canonical, it accepts nothing else (\<open>prefix_codec\<close>).
\<close>

locale prefix_reader =
  fixes wr :: "'a \<Rightarrow> bytes"
    and rd :: "bytes \<Rightarrow> 'e + 'a"
    and ok :: "'a \<Rightarrow> bool"
  assumes rd_wr: "ok x \<Longrightarrow> rd (wr x @ rest) = Inr x"
begin

lemma wr_prefix_free: "ok x \<Longrightarrow> ok y \<Longrightarrow> wr x @ r = wr y @ s \<Longrightarrow> x = y \<and> r = s"
  by (metis rd_wr same_append_eq sum.inject(2))

lemma rd_wr_exact: "ok x \<Longrightarrow> rd (wr x) = Inr x"
  using rd_wr [of x "[]"] by simp

end

locale prefix_codec = prefix_reader +
  assumes rd_InrD: "rd bs = Inr x \<Longrightarrow> ok x \<and> (\<exists>rest. bs = wr x @ rest)"
begin

lemma rd_iff: "rd bs = Inr x \<longleftrightarrow> ok x \<and> (\<exists>rest. bs = wr x @ rest)"
  using rd_InrD rd_wr by blast

lemma rd_extend: "rd bs = Inr x \<Longrightarrow> rd (bs @ more) = Inr x"
  by (auto simp: rd_iff)

end

end
