(* ===== verification/Slave_Api_Types.thy ===== *)
theory Slave_Api_Types
  imports TSN_Prelude
begin

text \<open>
  The management interface's data, as \<^verbatim>\<open>src/common/proto/slave-api.proto\<close> declares it: each
  proto enum is a datatype with its wire numbers, each message a record. An enum field of a
  message is the \<open>i32\<close> that travels on the wire (an \<open>int\<close> here), so a received field can hold a
  number no constructor has; the conversions \<open>*_try_from\<close> are \<open>None\<close> there. Messages that hold
  a single field are passed as that field.
\<close>

section \<open>Enumerations\<close>

datatype device_state = Init | DiscoverySync | PreOp | SafeOp | Op | Error | Shutdown

datatype status_code =
    NoError | ErrPtpSyncLost | ErrCycleCounter | ErrDeadlineMissed | ErrStreamIdUnknown
  | ErrInvalidLen | ErrAppNotResponding | ErrPeripheralFault | ErrNotReady | ErrAccessDenied
  | ErrAuthFailed | ErrStateConflict | ErrParamInvalid | ErrNoMemory | ErrVersionMismatch
  | ErrNotSupported | ErrAlreadyRunning | ErrOsFailure | ErrIpConflict | ErrFrameParsing
  | ErrFrameWithErrorStatus | ErrSocketChannel | ErrHardwareAccess | ErrTimeout
  | ErrInvalidResponse | ErrInvalidEthertype

datatype sync_status = Synced | Syncing | SyncLost

datatype log_reason =
  Heartbeat | StateChange | StatusCodeChange | SyncStatusChange | MissedCycle | TemperatureChange

datatype data_type =
    DtBool | DtInt8 | DtUint8 | DtInt16 | DtUint16 | DtInt32 | DtUint32 | DtInt64 | DtUint64
  | DtFloat32 | DtFloat64 | DtArray

datatype direction = Input | Output

datatype ip_source = Unspecified | Sdcp | Dhcp | Manuell

primrec state_num :: "device_state \<Rightarrow> int" where
  "state_num Init = 0"
| "state_num DiscoverySync = 1"
| "state_num PreOp = 2"
| "state_num SafeOp = 3"
| "state_num Op = 4"
| "state_num Error = 5"
| "state_num Shutdown = 6"

primrec status_num :: "status_code \<Rightarrow> int" where
  "status_num NoError = 0"
| "status_num ErrPtpSyncLost = 1"
| "status_num ErrCycleCounter = 2"
| "status_num ErrDeadlineMissed = 3"
| "status_num ErrStreamIdUnknown = 4"
| "status_num ErrInvalidLen = 5"
| "status_num ErrAppNotResponding = 6"
| "status_num ErrPeripheralFault = 7"
| "status_num ErrNotReady = 8"
| "status_num ErrAccessDenied = 9"
| "status_num ErrAuthFailed = 10"
| "status_num ErrStateConflict = 11"
| "status_num ErrParamInvalid = 12"
| "status_num ErrNoMemory = 13"
| "status_num ErrVersionMismatch = 14"
| "status_num ErrNotSupported = 16"
| "status_num ErrAlreadyRunning = 17"
| "status_num ErrOsFailure = 18"
| "status_num ErrIpConflict = 19"
| "status_num ErrFrameParsing = 20"
| "status_num ErrFrameWithErrorStatus = 21"
| "status_num ErrSocketChannel = 22"
| "status_num ErrHardwareAccess = 23"
| "status_num ErrTimeout = 24"
| "status_num ErrInvalidResponse = 25"
| "status_num ErrInvalidEthertype = 26"

primrec sync_num :: "sync_status \<Rightarrow> int" where
  "sync_num Synced = 0"
| "sync_num Syncing = 1"
| "sync_num SyncLost = 2"

primrec log_reason_num :: "log_reason \<Rightarrow> int" where
  "log_reason_num Heartbeat = 0"
| "log_reason_num StateChange = 1"
| "log_reason_num StatusCodeChange = 2"
| "log_reason_num SyncStatusChange = 3"
| "log_reason_num MissedCycle = 4"
| "log_reason_num TemperatureChange = 5"

primrec data_type_num :: "data_type \<Rightarrow> int" where
  "data_type_num DtBool = 0"
| "data_type_num DtInt8 = 1"
| "data_type_num DtUint8 = 2"
| "data_type_num DtInt16 = 3"
| "data_type_num DtUint16 = 4"
| "data_type_num DtInt32 = 5"
| "data_type_num DtUint32 = 6"
| "data_type_num DtInt64 = 7"
| "data_type_num DtUint64 = 8"
| "data_type_num DtFloat32 = 9"
| "data_type_num DtFloat64 = 10"
| "data_type_num DtArray = 11"

primrec direction_num :: "direction \<Rightarrow> int" where
  "direction_num Input = 0"
| "direction_num Output = 1"

primrec ip_source_num :: "ip_source \<Rightarrow> int" where
  "ip_source_num Unspecified = 0"
| "ip_source_num Sdcp = 1"
| "ip_source_num Dhcp = 2"
| "ip_source_num Manuell = 3"

text \<open>\<open>try_from(i32)\<close>: the constructor with that wire number, if the enum declares one.\<close>

definition state_try_from :: "int \<Rightarrow> device_state option" where
  "state_try_from n =
     find (\<lambda>s. state_num s = n) [Init, DiscoverySync, PreOp, SafeOp, Op, Error, Shutdown]"

definition status_codes :: "status_code list" where
  "status_codes =
     [NoError, ErrPtpSyncLost, ErrCycleCounter, ErrDeadlineMissed, ErrStreamIdUnknown,
      ErrInvalidLen, ErrAppNotResponding, ErrPeripheralFault, ErrNotReady, ErrAccessDenied,
      ErrAuthFailed, ErrStateConflict, ErrParamInvalid, ErrNoMemory, ErrVersionMismatch,
      ErrNotSupported, ErrAlreadyRunning, ErrOsFailure, ErrIpConflict, ErrFrameParsing,
      ErrFrameWithErrorStatus, ErrSocketChannel, ErrHardwareAccess, ErrTimeout,
      ErrInvalidResponse, ErrInvalidEthertype]"

definition status_try_from :: "int \<Rightarrow> status_code option" where
  "status_try_from n = find (\<lambda>c. status_num c = n) status_codes"

definition direction_try_from :: "int \<Rightarrow> direction option" where
  "direction_try_from n = find (\<lambda>d. direction_num d = n) [Input, Output]"

definition ip_source_try_from :: "int \<Rightarrow> ip_source option" where
  "ip_source_try_from n =
     find (\<lambda>s. ip_source_num s = n) [Unspecified, Sdcp, Dhcp, Manuell]"

text \<open>\<open>code as u8\<close>: every declared number fits a byte.\<close>

definition status_u8 :: "status_code \<Rightarrow> u8" where
  "status_u8 c = word_of_int (status_num c)"

definition ip_source_u8 :: "ip_source \<Rightarrow> u8" where
  "ip_source_u8 s = word_of_int (ip_source_num s)"

section \<open>Messages\<close>

record device_info =
  di_mac_address :: bytes
  di_ip_address :: bytes
  di_ip_source :: int
  di_netmask :: bytes
  di_gateway :: bytes
  di_vendor_id :: u32
  di_device_id :: u32
  di_serial_number :: u32
  di_firmware_version :: u32
  di_capabilities :: u32

record device_status =
  ds_status_code :: int
  ds_state :: int
  ds_sync_status :: int
  ds_missed_cycles :: u32
  ds_min_cycle_time :: u32
  ds_max_cycle_time :: u32
  ds_temperature :: int
  ds_timestamp :: u64
  ds_receive_cycle_min_ns :: u64
  ds_receive_cycle_max_ns :: u64
  ds_receive_cycle_avg_ns :: u64
  ds_send_cycle_min_ns :: u64
  ds_send_cycle_max_ns :: u64
  ds_send_cycle_avg_ns :: u64

record log_entry =
  le_log_reason :: int
  le_device_status :: "device_status option"

record process_variable =
  pv_name :: string
  pv_data_type :: int
  pv_direction :: int
  pv_byte_offset :: u32
  pv_bit_offset :: u32
  pv_bit_len :: u32

record position =
  pos_byte_offset :: u32
  pos_bit_offset :: u32
  pos_bit_len :: u32

record stream_config =
  sc_stream_id :: u32
  sc_destination_mac :: bytes
  sc_vlan_id_pcp :: u32
  sc_cycle_time_nano :: u32
  sc_direction :: int
  sc_stream_content :: "position option"

section \<open>The conversions\<close>

lemma state_try_from_num [simp]: "state_try_from (state_num s) = Some s"
  by (cases s) (simp_all add: state_try_from_def)

lemma status_try_from_num [simp]: "status_try_from (status_num c) = Some c"
  by (cases c) (simp_all add: status_try_from_def status_codes_def)

lemma direction_try_from_num [simp]: "direction_try_from (direction_num d) = Some d"
  by (cases d) (simp_all add: direction_try_from_def)

lemma ip_source_try_from_num [simp]: "ip_source_try_from (ip_source_num s) = Some s"
  by (cases s) (simp_all add: ip_source_try_from_def)

lemma state_num_inject [simp]: "state_num s = state_num t \<longleftrightarrow> s = t"
  by (metis option.inject state_try_from_num)

lemma status_num_inject [simp]: "status_num c = status_num d \<longleftrightarrow> c = d"
  by (metis option.inject status_try_from_num)

lemma direction_num_inject [simp]: "direction_num a = direction_num b \<longleftrightarrow> a = b"
  by (metis option.inject direction_try_from_num)

lemma state_try_from_SomeD: "state_try_from n = Some s \<Longrightarrow> n = state_num s"
  unfolding state_try_from_def find_Some_iff by auto

lemma status_try_from_SomeD: "status_try_from n = Some c \<Longrightarrow> n = status_num c"
  unfolding status_try_from_def find_Some_iff by auto

lemma direction_try_from_SomeD: "direction_try_from n = Some d \<Longrightarrow> n = direction_num d"
  unfolding direction_try_from_def find_Some_iff by auto

lemma uint_status_u8 [simp]: "uint (status_u8 c) = status_num c"
  by (cases c) (simp_all add: status_u8_def)

lemma uint_ip_source_u8 [simp]: "uint (ip_source_u8 s) = ip_source_num s"
  by (cases s) (simp_all add: ip_source_u8_def)

lemma status_u8_inject [simp]: "status_u8 c = status_u8 d \<longleftrightarrow> c = d"
  by (metis status_num_inject uint_status_u8)

end
