(* ===== verification/State_Machine.thy ===== *)
theory State_Machine
  imports Slave_Api_Types
begin

text \<open>
  \<^verbatim>\<open>src/common/src/state_machine.rs\<close>: the device state machine. A manager is the state
  behind its mutex; \<open>set_target_state\<close> runs under the lock, so concurrent callers are a
  sequence of requests. \<open>documented_transition\<close> is the table of the function's doc comment.
\<close>

definition state_manager_new :: device_state where
  "state_manager_new = Init"

fun set_target_state :: "device_state \<Rightarrow> device_state \<Rightarrow> (status_code + unit) \<times> device_state" where
  "set_target_state Init DiscoverySync = (Inr (), DiscoverySync)"
| "set_target_state DiscoverySync PreOp = (Inr (), PreOp)"
| "set_target_state PreOp SafeOp = (Inr (), SafeOp)"
| "set_target_state SafeOp PreOp = (Inr (), PreOp)"
| "set_target_state SafeOp Op = (Inr (), Op)"
| "set_target_state SafeOp Shutdown = (Inr (), Shutdown)"
| "set_target_state Op SafeOp = (Inr (), SafeOp)"
| "set_target_state Op Shutdown = (Inr (), Shutdown)"
| "set_target_state Error Init = (Inr (), Init)"
| "set_target_state c t =
     (if c = t then (Inr (), c)
      else if t = Error then (Inr (), t)
      else (Inl ErrStateConflict, c))"

text \<open>A history of requests, one after the other; a refused request leaves the state.\<close>

definition run_requests :: "device_state \<Rightarrow> device_state list \<Rightarrow> device_state" where
  "run_requests s targets = foldl (\<lambda>s t. snd (set_target_state s t)) s targets"

inductive documented_transition :: "device_state \<Rightarrow> device_state \<Rightarrow> bool" where
  init_disc: "documented_transition Init DiscoverySync"
| init_err: "documented_transition Init Error"
| disc_preop: "documented_transition DiscoverySync PreOp"
| disc_err: "documented_transition DiscoverySync Error"
| preop_safeop: "documented_transition PreOp SafeOp"
| preop_err: "documented_transition PreOp Error"
| safeop_preop: "documented_transition SafeOp PreOp"
| safeop_op: "documented_transition SafeOp Op"
| safeop_shutdown: "documented_transition SafeOp Shutdown"
| safeop_err: "documented_transition SafeOp Error"
| op_safeop: "documented_transition Op SafeOp"
| op_shutdown: "documented_transition Op Shutdown"
| op_err: "documented_transition Op Error"
| err_init: "documented_transition Error Init"
| same: "documented_transition s s"

inductive_simps documented_from [simp]:
  "documented_transition Init t" "documented_transition DiscoverySync t"
  "documented_transition PreOp t" "documented_transition SafeOp t"
  "documented_transition Op t" "documented_transition Error t" "documented_transition Shutdown t"

lemma set_target_state_outcome:
  "set_target_state c t = (Inr (), t) \<or> set_target_state c t = (Inl ErrStateConflict, c)"
  by (cases c; cases t) simp_all

lemma set_target_state_Inl:
  "fst (set_target_state c t) = Inl e \<Longrightarrow> e = ErrStateConflict \<and> snd (set_target_state c t) = c"
  using set_target_state_outcome [of c t] by auto

lemma set_target_state_Inr:
  "fst (set_target_state c t) = Inr () \<Longrightarrow> snd (set_target_state c t) = t"
  using set_target_state_outcome [of c t] by auto

lemma set_target_state_same [simp]: "set_target_state c c = (Inr (), c)"
  by (cases c) simp_all

lemma set_target_state_error [simp]: "set_target_state c Error = (Inr (), Error)"
  by (cases c) simp_all

text \<open>The code accepts the documented transitions and one more: out of \<open>Shutdown\<close>.\<close>

lemma accepted_iff_documented:
  "fst (set_target_state c t) = Inr () \<longleftrightarrow>
     documented_transition c t \<or> (c = Shutdown \<and> t = Error)"
  by (cases c; cases t) simp_all

lemma run_requests_Nil [simp]: "run_requests s [] = s"
  by (simp add: run_requests_def)

lemma run_requests_snoc [simp]:
  "run_requests s (ts @ [t]) = snd (set_target_state (run_requests s ts) t)"
  by (simp add: run_requests_def)

lemma run_requests_append: "run_requests s (ts @ us) = run_requests (run_requests s ts) us"
  by (simp add: run_requests_def)

text \<open>The state before the last change, for each operational state.\<close>

lemma entered_from:
  "snd (set_target_state c t) = s \<Longrightarrow> c \<noteq> s \<Longrightarrow>
     (s = Op \<longrightarrow> c = SafeOp) \<and> (s = SafeOp \<longrightarrow> c = PreOp \<or> c = Op) \<and>
     (s = PreOp \<longrightarrow> c = DiscoverySync \<or> c = SafeOp) \<and> (s = DiscoverySync \<longrightarrow> c = Init) \<and>
     (s = Shutdown \<longrightarrow> c = SafeOp \<or> c = Op) \<and> (s = Init \<longrightarrow> c = Error)"
  by (cases c; cases t) auto

text \<open>
  \<open>staged [s1, s2, ...] ts\<close>: the history was in \<open>s1\<close>, before that in \<open>s2\<close>, and so on.
\<close>

fun staged :: "device_state list \<Rightarrow> device_state list \<Rightarrow> bool" where
  "staged [] ts = True"
| "staged (s # ss) ts =
     (\<exists>n \<le> length ts. run_requests Init (take n ts) = s \<and> staged ss (take n ts))"

lemma staged_append: "staged ss ts \<Longrightarrow> staged ss (ts @ us)"
proof (cases ss)
  case (Cons s ss')
  assume "staged ss ts"
  with Cons obtain n where "n \<le> length ts" "run_requests Init (take n ts) = s"
    "staged ss' (take n ts)" by auto
  then have "n \<le> length (ts @ us) \<and> run_requests Init (take n (ts @ us)) = s \<and>
      staged ss' (take n (ts @ us))" by simp
  then show ?thesis unfolding Cons staged.simps by blast
qed simp

lemma staged_tl: "staged (s # ss) ts \<Longrightarrow> staged ss ts"
  using staged_append [of ss "take n ts" "drop n ts" for n] by auto

lemma staged_now: "run_requests Init ts = s \<Longrightarrow> staged ss ts \<Longrightarrow> staged (s # ss) (ts @ [t])"
  by (auto intro!: exI [of _ "length ts"])

text \<open>The state history each operational state has behind it.\<close>

primrec required_stages :: "device_state \<Rightarrow> device_state list" where
  "required_stages Init = []"
| "required_stages DiscoverySync = []"
| "required_stages PreOp = [DiscoverySync]"
| "required_stages SafeOp = [PreOp, DiscoverySync]"
| "required_stages Op = [SafeOp, PreOp, DiscoverySync]"
| "required_stages Error = []"
| "required_stages Shutdown = [SafeOp, PreOp, DiscoverySync]"

lemma staged_step:
  assumes "staged (required_stages c) ts" and "run_requests Init ts = c"
  shows "staged (required_stages (snd (set_target_state c t))) (ts @ [t])"
proof -
  have keep: "staged (required_stages c) (ts @ [t])"
    using assms(1) by (rule staged_append)
  have now: "staged (c # required_stages c) (ts @ [t])"
    using assms(2,1) by (rule staged_now)
  show ?thesis
    using keep now staged_tl [of PreOp "[DiscoverySync]" "ts @ [t]"]
      staged_tl [of SafeOp "[PreOp, DiscoverySync]" "ts @ [t]"]
      staged_tl [of Op "[SafeOp, PreOp, DiscoverySync]" "ts @ [t]"]
    by (cases c; cases t) (simp_all del: staged.simps(2))
qed

lemma run_staged: "staged (required_stages (run_requests Init ts)) ts"
proof (induction ts rule: rev_induct)
  case (snoc t ts)
  then show ?case using staged_step [OF snoc.IH refl] by simp
qed simp

section \<open>Properties\<close>

text \<open>
  The transitions: a request is granted exactly when the documented diagram has the transition,
  or it leads from \<open>Shutdown\<close> to \<open>Error\<close>, which the documentation excludes; a granted request
  enters its target and a refused one reports \<open>ErrStateConflict\<close> and keeps the state.
\<close>

lemma granted_transitions:
  "set_target_state c t =
     (if documented_transition c t \<or> c = Shutdown \<and> t = Error then (Inr (), t)
      else (Inl ErrStateConflict, c))"
  using accepted_iff_documented [of c t] set_target_state_outcome [of c t] by auto

text \<open>
  C15 The way to operation: whatever requests are made, in whatever order, a device that is in \<open>Op\<close>
  was in \<open>SafeOp\<close> before, in \<open>PreOp\<close> before that and in \<open>DiscoverySync\<close> before that, and
  likewise for the other states, so no sequence of requests skips discovery or configuration.
\<close>

theorem lifecycle_order:
  "staged (required_stages (run_requests state_manager_new ts)) ts"
  using run_staged by (simp add: state_manager_new_def)

end
