(* ===== verification/Device_Access.thy ===== *)
theory Device_Access
  imports Slave_Api_Types
begin

text \<open>
  The device-information and network-interface traits of
  \<^verbatim>\<open>src/common/src/hardware_abstraction.rs\<close>: what a manufacturer implements over its own state
  \<open>'p\<close>, as records of functions. A method that changes the device returns the new state.
\<close>

record 'p device_info_access =
  read_device_info :: "'p \<Rightarrow> status_code + device_info"
  write_device_info :: "'p \<Rightarrow> device_info \<Rightarrow> (status_code + unit) \<times> 'p"

record 'p network_interface_access =
  apply_ip_config :: "'p \<Rightarrow> bytes \<Rightarrow> bytes \<Rightarrow> bytes \<Rightarrow> (status_code + unit) \<times> 'p"

end
