(* ===== verification/Device_Status.thy ===== *)
theory Device_Status
  imports Slave_Api_Types
begin

text \<open>
  \<^verbatim>\<open>src/slave/src/device_status.rs\<close>: the device's status, the bounded log of status changes and
  the broadcast to subscribers. Each method holds the status lock for its whole body. The wall
  clock it reads is the argument \<open>now\<close>; the broadcast channel is the list of what was sent, the
  oldest first; the log deque is a list with its front first.
\<close>

section \<open>State and operations\<close>

definition LOG_CAPACITY :: nat where "LOG_CAPACITY = (60 div 60) * 60"
definition TEMPERATURE_THRESHOLD :: nat where "TEMPERATURE_THRESHOLD = 5"

lemma LOG_CAPACITY_eq [simp]: "LOG_CAPACITY = 60"
  by (simp add: LOG_CAPACITY_def)

record status_store =
  st_current :: device_status
  st_sent :: "device_status list"
  st_log :: "log_entry list"

definition initial_status :: "u64 \<Rightarrow> device_status" where
  "initial_status now =
     \<lparr>ds_status_code = status_num NoError, ds_state = state_num Init,
      ds_sync_status = sync_num Syncing, ds_missed_cycles = 0, ds_min_cycle_time = 0,
      ds_max_cycle_time = 0, ds_temperature = 0, ds_timestamp = now, ds_receive_cycle_min_ns = 0,
      ds_receive_cycle_max_ns = 0, ds_receive_cycle_avg_ns = 0, ds_send_cycle_min_ns = 0,
      ds_send_cycle_max_ns = 0, ds_send_cycle_avg_ns = 0\<rparr>"

definition status_store_new :: "u64 \<Rightarrow> status_store" where
  "status_store_new now = \<lparr>st_current = initial_status now, st_sent = [], st_log = []\<rparr>"

definition append_log :: "log_reason \<Rightarrow> device_status \<Rightarrow> status_store \<Rightarrow> status_store" where
  "append_log reason status s =
     (let log = st_log s;
          log = (if length log = LOG_CAPACITY then butlast log else log)
      in s\<lparr>st_log := \<lparr>le_log_reason = log_reason_num reason, le_device_status = Some status\<rparr> # log\<rparr>)"

text \<open>The end of every publishing update: log the new status, then broadcast it.\<close>

definition publish :: "log_reason \<Rightarrow> status_store \<Rightarrow> status_store" where
  "publish reason s =
     (let status = st_current s;
          s' = append_log reason status s
      in s'\<lparr>st_sent := st_sent s' @ [status]\<rparr>)"

definition update_status_code :: "status_code \<Rightarrow> status_store \<Rightarrow> status_store" where
  "update_status_code code s =
     (let c = st_current s;
          c = (if ds_status_code c \<noteq> status_num code then c\<lparr>ds_status_code := status_num code\<rparr> else c)
      in publish StatusCodeChange (s\<lparr>st_current := c\<rparr>))"

definition update_state :: "device_state \<Rightarrow> u64 \<Rightarrow> status_store \<Rightarrow> status_store" where
  "update_state state now s =
     (let c = st_current s;
          c = (if ds_state c \<noteq> state_num state
               then c\<lparr>ds_state := state_num state, ds_timestamp := now\<rparr> else c)
      in publish StateChange (s\<lparr>st_current := c\<rparr>))"

definition update_sync_status :: "sync_status \<Rightarrow> u64 \<Rightarrow> status_store \<Rightarrow> status_store" where
  "update_sync_status sync now s =
     (let c = st_current s;
          c = (if ds_sync_status c \<noteq> sync_num sync
               then c\<lparr>ds_sync_status := sync_num sync, ds_timestamp := now\<rparr> else c)
      in publish SyncStatusChange (s\<lparr>st_current := c\<rparr>))"

definition increment_missed_cycles_by :: "u32 \<Rightarrow> u64 \<Rightarrow> status_store \<Rightarrow> status_store" where
  "increment_missed_cycles_by count now s =
     (if count = 0 then s
      else
        (let c = st_current s;
             c = c\<lparr>ds_missed_cycles := saturating_add (ds_missed_cycles c) count, ds_timestamp := now\<rparr>
         in publish MissedCycle (s\<lparr>st_current := c\<rparr>)))"

definition update_min_cycle_time :: "u32 \<Rightarrow> u64 \<Rightarrow> status_store \<Rightarrow> status_store" where
  "update_min_cycle_time new_value now s =
     (let c = st_current s
      in if new_value < ds_min_cycle_time c
         then s\<lparr>st_current := c\<lparr>ds_min_cycle_time := new_value, ds_timestamp := now\<rparr>\<rparr> else s)"

definition update_max_cycle_time :: "u32 \<Rightarrow> u64 \<Rightarrow> status_store \<Rightarrow> status_store" where
  "update_max_cycle_time new_value now s =
     (let c = st_current s
      in if ds_max_cycle_time c < new_value
         then s\<lparr>st_current := c\<lparr>ds_max_cycle_time := new_value, ds_timestamp := now\<rparr>\<rparr> else s)"

definition update_receive_cycle_metrics :: "u64 \<Rightarrow> u64 \<Rightarrow> u64 \<Rightarrow> u64 \<Rightarrow> status_store \<Rightarrow> status_store" where
  "update_receive_cycle_metrics min_ns max_ns average_ns now s =
     s\<lparr>st_current := (st_current s)\<lparr>ds_receive_cycle_min_ns := min_ns,
        ds_receive_cycle_max_ns := max_ns, ds_receive_cycle_avg_ns := average_ns,
        ds_timestamp := now\<rparr>\<rparr>"

definition update_send_cycle_metrics :: "u64 \<Rightarrow> u64 \<Rightarrow> u64 \<Rightarrow> u64 \<Rightarrow> status_store \<Rightarrow> status_store" where
  "update_send_cycle_metrics min_ns max_ns average_ns now s =
     s\<lparr>st_current := (st_current s)\<lparr>ds_send_cycle_min_ns := min_ns,
        ds_send_cycle_max_ns := max_ns, ds_send_cycle_avg_ns := average_ns,
        ds_timestamp := now\<rparr>\<rparr>"

definition update_temperature :: "int \<Rightarrow> u64 \<Rightarrow> status_store \<Rightarrow> status_store" where
  "update_temperature new_value now s =
     (let c = st_current s;
          c = (if ds_temperature c \<noteq> new_value
               then c\<lparr>ds_temperature := new_value, ds_timestamp := now\<rparr> else c)
      in publish TemperatureChange (s\<lparr>st_current := c\<rparr>))"

definition get_log :: "nat \<Rightarrow> nat \<Rightarrow> status_store \<Rightarrow> u32 \<times> log_entry list" where
  "get_log offset limit s =
     (let log = st_log s in (of_nat (length log), take limit (drop offset log)))"

section \<open>Background tasks\<close>

text \<open>
  One turn of the temperature task and of the heartbeat task. \<open>blocking_read\<close> is the library
  call that reads the status from inside the task: \<open>None\<close> is the panic its documentation
  announces inside an asynchronous context. The difference of two \<open>i16\<close> readings is \<open>None\<close> where
  the subtraction overflows, which panics under overflow checks.
\<close>

datatype 'a turn = Continue 'a | Stop | Panic

definition i16_minus :: "int \<Rightarrow> int \<Rightarrow> int option" where
  "i16_minus a b = (let d = a - b in if - 32768 \<le> d \<and> d \<le> 32767 then Some d else None)"

definition stopping :: "device_status \<Rightarrow> bool" where
  "stopping c \<longleftrightarrow> ds_state c = state_num Error \<or> ds_state c = state_num Shutdown"

definition temperature_turn ::
    "(device_status \<Rightarrow> device_status option) \<Rightarrow> status_code + int \<Rightarrow> u64 \<Rightarrow>
       int \<times> status_store \<Rightarrow> (int \<times> status_store) turn" where
  "temperature_turn blocking_read reading now task =
     (let (last_published, s) = task in
      case blocking_read (st_current s) of
        None \<Rightarrow> Panic
      | Some c \<Rightarrow>
          if stopping c then Stop
          else case reading of
                 Inl _ \<Rightarrow> Continue (last_published, s)
               | Inr temperature \<Rightarrow>
                   (case i16_minus temperature last_published of
                      None \<Rightarrow> Panic
                    | Some d \<Rightarrow>
                        if TEMPERATURE_THRESHOLD \<le> nat \<bar>d\<bar>
                        then Continue (temperature, update_temperature temperature now s)
                        else Continue (last_published, s)))"

definition heartbeat_turn ::
    "(device_status \<Rightarrow> device_status option) \<Rightarrow> status_store \<Rightarrow> status_store turn" where
  "heartbeat_turn blocking_read s =
     (case blocking_read (st_current s) of
        None \<Rightarrow> Panic
      | Some c \<Rightarrow> if stopping c then Stop else Continue (append_log Heartbeat (st_current s) s))"

section \<open>Histories\<close>

datatype status_op =
    StatusCodeOp status_code
  | StateOp device_state u64
  | SyncOp sync_status u64
  | MissedOp u32 u64
  | MinOp u32 u64
  | MaxOp u32 u64
  | ReceiveOp u64 u64 u64 u64
  | SendOp u64 u64 u64 u64
  | TemperatureOp int u64
  | HeartbeatOp

fun status_apply :: "status_op \<Rightarrow> status_store \<Rightarrow> status_store" where
  "status_apply (StatusCodeOp c) s = update_status_code c s"
| "status_apply (StateOp d t) s = update_state d t s"
| "status_apply (SyncOp y t) s = update_sync_status y t s"
| "status_apply (MissedOp n t) s = increment_missed_cycles_by n t s"
| "status_apply (MinOp v t) s = update_min_cycle_time v t s"
| "status_apply (MaxOp v t) s = update_max_cycle_time v t s"
| "status_apply (ReceiveOp a b c t) s = update_receive_cycle_metrics a b c t s"
| "status_apply (SendOp a b c t) s = update_send_cycle_metrics a b c t s"
| "status_apply (TemperatureOp v t) s = update_temperature v t s"
| "status_apply HeartbeatOp s = append_log Heartbeat (st_current s) s"

definition status_run :: "status_op list \<Rightarrow> status_store \<Rightarrow> status_store" where
  "status_run ops s = fold status_apply ops s"

text \<open>The reason an operation logs its outcome under, if it logs at all.\<close>

fun op_reason :: "status_op \<Rightarrow> log_reason option" where
  "op_reason (StatusCodeOp c) = Some StatusCodeChange"
| "op_reason (StateOp d t) = Some StateChange"
| "op_reason (SyncOp y t) = Some SyncStatusChange"
| "op_reason (MissedOp n t) = (if n = 0 then None else Some MissedCycle)"
| "op_reason (TemperatureOp v t) = Some TemperatureChange"
| "op_reason HeartbeatOp = Some Heartbeat"
| "op_reason _ = None"

text \<open>The complete history: an unbounded log and everything broadcast.\<close>

definition entry :: "log_reason \<Rightarrow> device_status \<Rightarrow> log_entry" where
  "entry reason c = \<lparr>le_log_reason = log_reason_num reason, le_device_status = Some c\<rparr>"

fun history :: "status_op list \<Rightarrow> status_store \<Rightarrow> (log_reason \<times> device_status) list" where
  "history [] s = []"
| "history (q # qs) s =
     (let s' = status_apply q s
      in case op_reason q of
           None \<Rightarrow> history qs s'
         | Some r \<Rightarrow> (r, st_current s') # history qs s')"

lemmas status_updates = update_status_code_def update_state_def update_sync_status_def
  increment_missed_cycles_by_def update_min_cycle_time_def update_max_cycle_time_def
  update_receive_cycle_metrics_def update_send_cycle_metrics_def update_temperature_def

lemma append_log_take:
  "length (st_log s) \<le> 60 \<Longrightarrow> append_log r c s = s\<lparr>st_log := take 60 (entry r c # st_log s)\<rparr>"
  by (auto simp: append_log_def entry_def butlast_conv_take Let_def)

lemma publish_take:
  "length (st_log s) \<le> 60 \<Longrightarrow>
   publish r s = s\<lparr>st_log := take 60 (entry r (st_current s) # st_log s),
                   st_sent := st_sent s @ [st_current s]\<rparr>"
  by (simp add: publish_def append_log_take Let_def)

text \<open>What one operation does to log and broadcasts, in terms of the status it leaves.\<close>

lemma status_apply_log:
  assumes "length (st_log s) \<le> 60"
  shows "st_log (status_apply q s) =
     (case op_reason q of None \<Rightarrow> st_log s
      | Some r \<Rightarrow> take 60 (entry r (st_current (status_apply q s)) # st_log s))"
  using assms by (cases q) (auto simp: status_updates publish_take append_log_take Let_def)

lemma status_apply_sent:
  assumes "length (st_log s) \<le> 60"
  shows "st_sent (status_apply q s) =
     (case op_reason q of None \<Rightarrow> st_sent s
      | Some r \<Rightarrow> st_sent s @ (if r = Heartbeat then [] else [st_current (status_apply q s)]))"
  using assms by (cases q) (auto simp: status_updates publish_take append_log_take Let_def)

lemma status_run_simps [simp]:
  "status_run [] s = s"
  "status_run (q # qs) s = status_run qs (status_apply q s)"
  by (simp_all add: status_run_def)

lemma length_status_log: "length (st_log s) \<le> 60 \<Longrightarrow> length (st_log (status_apply q s)) \<le> 60"
  by (simp add: status_apply_log split: option.splits)

lemma take_append_take: "take n (xs @ take n ys) = take n (xs @ ys)"
  by simp

lemma status_run_log:
  "length (st_log s) \<le> 60 \<Longrightarrow>
   st_log (status_run qs s) = take 60 (rev (map (case_prod entry) (history qs s)) @ st_log s)"
proof (induction qs arbitrary: s)
  case (Cons q qs)
  let ?s = "status_apply q s"
  have "st_log (status_run qs ?s) = take 60 (rev (map (case_prod entry) (history qs ?s)) @ st_log ?s)"
    using Cons length_status_log by blast
  also have "\<dots> = take 60 (rev (map (case_prod entry) (history (q # qs) s)) @ st_log s)"
    by (cases "op_reason q")
       (simp_all add: status_apply_log [OF Cons.prems] Let_def take_append_take
          del: take_append take_Cons_numeral)
  finally show ?case by simp
qed simp

lemma status_run_sent:
  "length (st_log s) \<le> 60 \<Longrightarrow>
   st_sent (status_run qs s) = st_sent s @ map snd (filter (\<lambda>(r, _). r \<noteq> Heartbeat) (history qs s))"
proof (induction qs arbitrary: s)
  case (Cons q qs)
  then show ?case
    using status_apply_sent [OF Cons.prems] length_status_log [OF Cons.prems]
    by (auto simp: Let_def split: option.splits)
qed simp

text \<open>Pages of a fixed size, read one after the other, are the log.\<close>

lemma get_log_pages:
  "concat (map (\<lambda>i. snd (get_log (i * limit) limit s)) [0..<n]) = take (n * limit) (st_log s)"
proof (induction n)
  case (Suc n)
  have "Suc n * limit = n * limit + limit" by simp
  with Suc show ?case by (simp only: take_add) (simp add: get_log_def Let_def)
qed simp

lemma status_apply_counters:
  "ds_min_cycle_time (st_current (status_apply q s)) = (case q of
      MinOp v t \<Rightarrow> min (ds_min_cycle_time (st_current s)) v | _ \<Rightarrow> ds_min_cycle_time (st_current s))"
  "ds_max_cycle_time (st_current (status_apply q s)) = (case q of
      MaxOp v t \<Rightarrow> max (ds_max_cycle_time (st_current s)) v | _ \<Rightarrow> ds_max_cycle_time (st_current s))"
  "ds_missed_cycles (st_current (status_apply q s)) = (case q of
      MissedOp n t \<Rightarrow> saturating_add (ds_missed_cycles (st_current s)) n
    | _ \<Rightarrow> ds_missed_cycles (st_current s))"
  by (cases q; auto simp: status_updates publish_def append_log_def Let_def min_def max_def
        saturating_add_def)+

lemma fold_saturating_add:
  "unat (fold (\<lambda>n m. saturating_add m n) ns (m :: u32)) =
     min (unat m + sum_list (map unat ns)) (2 ^ 32 - 1)"
proof (induction ns arbitrary: m)
  case Nil
  then show ?case using unat_lt [of m] by simp
qed (simp add: unat_saturating_add min_def)

definition missed_counts :: "status_op list \<Rightarrow> u32 list" where
  "missed_counts qs = List.map_filter (\<lambda>q. case q of MissedOp n _ \<Rightarrow> Some n | _ \<Rightarrow> None) qs"

definition max_values :: "status_op list \<Rightarrow> u32 list" where
  "max_values qs = List.map_filter (\<lambda>q. case q of MaxOp v _ \<Rightarrow> Some v | _ \<Rightarrow> None) qs"

lemma missed_max_simps [simp]:
  "missed_counts [] = []"
  "missed_counts (q # qs) = (case q of MissedOp n _ \<Rightarrow> [n] | _ \<Rightarrow> []) @ missed_counts qs"
  "max_values [] = []"
  "max_values (q # qs) = (case q of MaxOp v _ \<Rightarrow> [v] | _ \<Rightarrow> []) @ max_values qs"
  by (auto simp: missed_counts_def max_values_def map_filter_simps split: status_op.splits)

lemma status_run_counters:
  "ds_missed_cycles (st_current (status_run qs s)) =
     fold (\<lambda>n m. saturating_add m n) (missed_counts qs) (ds_missed_cycles (st_current s))"
  "ds_max_cycle_time (st_current (status_run qs s)) =
     fold max (max_values qs) (ds_max_cycle_time (st_current s))"
  "ds_min_cycle_time (st_current s) = 0 \<Longrightarrow> ds_min_cycle_time (st_current (status_run qs s)) = 0"
proof (induction qs arbitrary: s)
  case (Cons q qs)
  { case 1 show ?case by (simp add: Cons(1) status_apply_counters split: status_op.split) }
  { case 2 show ?case by (simp add: Cons(2) status_apply_counters max.commute split: status_op.split) }
  { case 3 then show ?case
      by (simp add: Cons(3) status_apply_counters split: status_op.split) }
qed simp_all

section \<open>Properties\<close>

text \<open>
  C25 The bounded log refines the unbounded history: after any sequence of updates the log holds
  the last 60 published states in reverse order of publication, each with its reason and the
  status at that moment, and the subscribers were sent every published state except the
  heartbeats, in order.
\<close>

theorem status_log_refines_history:
  "st_log (status_run qs (status_store_new t)) =
     take LOG_CAPACITY (rev (map (case_prod entry) (history qs (status_store_new t)))) \<and>
   st_sent (status_run qs (status_store_new t)) =
     map snd (filter (\<lambda>(r, _). r \<noteq> Heartbeat) (history qs (status_store_new t)))"
  using status_run_log [of "status_store_new t" qs] status_run_sent [of "status_store_new t" qs]
  by (simp add: status_store_new_def)

text \<open>
  Counters over any sequence of updates: the missed cycles are the sum of the reported counts
  capped at the largest 32-bit value, the maximal cycle time is the largest reported value, and
  the minimal cycle time is 0 for ever: it starts at 0 and only a smaller value replaces it, so
  no report of a cycle time is ever stored there.
\<close>

lemma status_counters:
  "unat (ds_missed_cycles (st_current (status_run qs (status_store_new t)))) =
     min (sum_list (map unat (missed_counts qs))) (2 ^ 32 - 1) \<and>
   ds_max_cycle_time (st_current (status_run qs (status_store_new t))) =
     fold max (max_values qs) 0 \<and>
   ds_min_cycle_time (st_current (status_run qs (status_store_new t))) = 0"
  using fold_saturating_add [of "missed_counts qs" 0]
  by (simp add: status_run_counters status_store_new_def initial_status_def)

end
