(* ===== verification/Security.thy ===== *)
theory Security
  imports Slave_Api_Types
begin

text \<open>
  \<^verbatim>\<open>src/common/src/security/auth_footer.rs\<close>, \<^verbatim>\<open>crypto.rs\<close> and \<^verbatim>\<open>shared_secret.rs\<close>: the
  16-byte footer (sequence number, truncated tag) every authenticated frame ends with, the
  keyed tag and its comparison, and the parsing of the shared secret. BLAKE3 and the hex
  decoder are crates the code calls: the keyed hash and the decoder are parameters.
\<close>

section \<open>The security footer\<close>

definition AUTH_TAG_SIZE :: nat where "AUTH_TAG_SIZE = 8"
definition SECURITY_FOOTER_SIZE :: nat where "SECURITY_FOOTER_SIZE = 8 + AUTH_TAG_SIZE"

lemmas footer_sizes [simp] = AUTH_TAG_SIZE_def SECURITY_FOOTER_SIZE_def

record security_footer =
  sf_sequence_number :: u64
  sf_auth_tag :: bytes

text \<open>The tag is an array of eight bytes: its length is part of its Rust type.\<close>

definition footer_ok :: "security_footer \<Rightarrow> bool" where
  "footer_ok f \<longleftrightarrow> length (sf_auth_tag f) = AUTH_TAG_SIZE"

definition footer_write_to :: "security_footer \<Rightarrow> bytes \<Rightarrow> bytes" where
  "footer_write_to f output = (output @ be64 (sf_sequence_number f)) @ sf_auth_tag f"

definition footer_read_from :: "bytes \<Rightarrow> status_code + security_footer" where
  "footer_read_from input =
     (if length input \<noteq> SECURITY_FOOTER_SIZE then Inl ErrInvalidLen
      else Inr \<lparr>sf_sequence_number = from_be (take 8 input),
               sf_auth_tag = take AUTH_TAG_SIZE (drop 8 input)\<rparr>)"

definition split_payload_and_footer :: "bytes \<Rightarrow> status_code + bytes \<times> security_footer" where
  "split_payload_and_footer payload =
     (if length payload < SECURITY_FOOTER_SIZE then Inl ErrInvalidLen
      else let footer_start = length payload - SECURITY_FOOTER_SIZE
           in case footer_read_from (drop footer_start payload) of
                Inl e \<Rightarrow> Inl e
              | Inr footer \<Rightarrow> Inr (take footer_start payload, footer))"

lemma length_footer_write_to [wire_len]:
  "footer_ok f \<Longrightarrow> length (footer_write_to f out) = length out + SECURITY_FOOTER_SIZE"
  by (simp add: footer_write_to_def footer_ok_def)

lemma footer_read_write [wire_rt]: "footer_ok f \<Longrightarrow> footer_read_from (footer_write_to f []) = Inr f"
  by (simp add: footer_read_from_def footer_write_to_def footer_ok_def)

lemma footer_read_InrD: "footer_read_from bs = Inr f \<Longrightarrow> footer_ok f \<and> bs = footer_write_to f []"
  using be_bytes_from_be [of "take 8 bs", where 'a = 64]
  by (auto simp: footer_read_from_def footer_write_to_def footer_ok_def min_def split: if_splits)

lemma footer_write_to_append: "footer_write_to f out = out @ footer_write_to f []"
  by (simp add: footer_write_to_def)

lemma split_write [wire_rt]:
  assumes "footer_ok f"
  shows "split_payload_and_footer (footer_write_to f p) = Inr (p, f)"
proof -
  have "length (footer_write_to f p) = length p + 16"
    using length_footer_write_to [OF assms] by simp
  moreover have "drop (length p) (footer_write_to f p) = footer_write_to f []"
    by (simp add: footer_write_to_append [of f p])
  moreover have "take (length p) (footer_write_to f p) = p"
    by (simp add: footer_write_to_append [of f p])
  ultimately show ?thesis
    by (simp add: split_payload_and_footer_def footer_read_write [OF assms])
qed

lemma split_InrD:
  assumes "split_payload_and_footer bs = Inr (p, f)"
  shows "footer_ok f \<and> bs = footer_write_to f p"
proof -
  from assms have p: "p = take (length bs - 16) bs"
    and f: "footer_read_from (drop (length bs - 16) bs) = Inr f"
    by (auto simp: split_payload_and_footer_def Let_def split: if_splits sum.splits)
  from footer_read_InrD [OF f] have "footer_ok f" "drop (length bs - 16) bs = footer_write_to f []"
    by auto
  then show ?thesis
    using p by (metis append_take_drop_id footer_write_to_append)
qed

lemma split_iff:
  "split_payload_and_footer bs = Inr (p, f) \<longleftrightarrow> footer_ok f \<and> bs = footer_write_to f p"
  using split_InrD split_write by blast

lemma split_InlD: "split_payload_and_footer bs = Inl e \<Longrightarrow> e = ErrInvalidLen \<and> length bs < 16"
  by (auto simp: split_payload_and_footer_def footer_read_from_def Let_def
        split: if_splits sum.splits)

section \<open>Keyed tags\<close>

text \<open>
  The keyed BLAKE3 hasher is a parameter: a function of the key and of the bytes absorbed, in
  the order of the \<open>update\<close> calls. What the code relies on is that the digest has 32 bytes.
\<close>

type_synonym keyed_hash = "bytes \<Rightarrow> bytes \<Rightarrow> bytes"

definition keyed_hash_ok :: "keyed_hash \<Rightarrow> bool" where
  "keyed_hash_ok H \<longleftrightarrow> (\<forall>key msg. length (H key msg) = 32)"

definition calculate_hmac :: "keyed_hash \<Rightarrow> bytes \<Rightarrow> bytes list \<Rightarrow> bytes" where
  "calculate_hmac H secret parts =
     (let absorbed = foldl (\<lambda>hasher part. hasher @ part) [] parts;
          full = H secret absorbed
      in take AUTH_TAG_SIZE full)"

definition verify_hmac :: "keyed_hash \<Rightarrow> bytes \<Rightarrow> bytes list \<Rightarrow> bytes \<Rightarrow> bool" where
  "verify_hmac H secret parts expected_tag =
     (let calculated = calculate_hmac H secret parts;
          diff = foldl (\<lambda>diff (left, right). diff OR (left XOR right)) 0
                   (zip calculated expected_tag)
      in diff = (0 :: u8))"

lemma foldl_append_concat: "foldl (\<lambda>h p. h @ p) acc parts = acc @ concat parts"
  by (induction parts arbitrary: acc) simp_all

lemma calculate_hmac_eq: "calculate_hmac H secret parts = take 8 (H secret (concat parts))"
  by (simp add: calculate_hmac_def foldl_append_concat)

lemma length_calculate_hmac [wire_len]:
  "keyed_hash_ok H \<Longrightarrow> length (calculate_hmac H secret parts) = AUTH_TAG_SIZE"
  by (simp add: calculate_hmac_eq keyed_hash_ok_def)

lemma word_or_eq_0: "a OR b = 0 \<longleftrightarrow> a = 0 \<and> b = 0" for a b :: "'a::len word"
  by (auto simp: bit_eq_iff bit_simps)

lemma word_xor_eq_0: "a XOR b = 0 \<longleftrightarrow> a = b" for a b :: "'a::len word"
  by (auto simp: bit_eq_iff bit_simps)

lemma foldl_diff_eq_0:
  "foldl (\<lambda>diff (left, right). diff OR (left XOR right)) d xys = (0 :: u8) \<longleftrightarrow>
     d = 0 \<and> (\<forall>(x, y) \<in> set xys. x = y)"
  by (induction xys arbitrary: d) (auto simp: word_or_eq_0 word_xor_eq_0)

text \<open>The constant-time accumulation decides equality of the two tags.\<close>

lemma verify_hmac_iff:
  assumes "keyed_hash_ok H" and "length tag = AUTH_TAG_SIZE"
  shows "verify_hmac H secret parts tag \<longleftrightarrow> tag = calculate_hmac H secret parts"
proof -
  let ?c = "calculate_hmac H secret parts"
  have len: "length ?c = length tag"
    using assms by (simp add: length_calculate_hmac)
  have "(\<forall>(x, y) \<in> set (zip ?c tag). x = y) \<longleftrightarrow> ?c = tag"
    using len by (simp only: list_eq_iff_zip_eq [of ?c tag] simp_thms)
  then show ?thesis
    by (auto simp: verify_hmac_def foldl_diff_eq_0)
qed

lemma verify_hmac_own: "verify_hmac H secret parts (calculate_hmac H secret parts)"
  by (auto simp: verify_hmac_def foldl_diff_eq_0 set_zip Let_def)

section \<open>The shared secret\<close>

text \<open>
  The string is ASCII here: any other character is refused by the hex decoder, which is a
  parameter (\<open>Inl\<close> is its error text). \<open>trim\<close> drops ASCII white space at both ends,
  \<open>strip_prefix\<close> one leading \<open>0x\<close>.
\<close>

definition ascii_space :: "char \<Rightarrow> bool" where
  "ascii_space c \<longleftrightarrow> c \<in> set [CHR '' '', CHR 0x09, CHR 0x0A, CHR 0x0B, CHR 0x0C, CHR 0x0D]"

definition trim :: "string \<Rightarrow> string" where
  "trim s = rev (dropWhile ascii_space (rev (dropWhile ascii_space s)))"

definition strip_0x :: "string \<Rightarrow> string" where
  "strip_0x s = (case s of a # b # rest \<Rightarrow> if a = CHR ''0'' \<and> b = CHR ''x'' then rest else s
                 | _ \<Rightarrow> s)"

definition parse_shared_secret_hex ::
    "(string \<Rightarrow> string + bytes) \<Rightarrow> string \<Rightarrow> string + bytes" where
  "parse_shared_secret_hex hex_decode raw_secret =
     (let trimmed_secret = trim raw_secret;
          without_prefix = strip_0x trimmed_secret
      in case hex_decode without_prefix of
           Inl err \<Rightarrow> Inl (''Invalid shared secret hex: '' @ err)
         | Inr decoded \<Rightarrow>
             if length decoded \<noteq> 32 then Inl ''Shared secret must decode to exactly 32 bytes''
             else Inr decoded)"

lemma parse_shared_secret_hex_length:
  "parse_shared_secret_hex hex raw = Inr secret \<Longrightarrow> length secret = 32"
  by (auto simp: parse_shared_secret_hex_def Let_def split: sum.splits if_splits)

text \<open>
  \<open>load_shared_secret_from_env\<close>: \<open>env\<close> is the result of reading \<open>SHARED_SLAVE_KEY\<close> once the
  optional \<open>.env\<close> file is loaded, its \<open>Inl\<close> the text of the error.
\<close>

definition load_shared_secret_from_env ::
    "(string \<Rightarrow> string + bytes) \<Rightarrow> string + string \<Rightarrow> string + bytes" where
  "load_shared_secret_from_env hex_decode env =
     (case env of
        Inl err \<Rightarrow> Inl (''Missing env var SHARED_SLAVE_KEY: '' @ err @
          ''. Ensure it is exported or present in a .env file.'')
      | Inr raw_secret \<Rightarrow> parse_shared_secret_hex hex_decode raw_secret)"

text \<open>A concrete keyed function, for examples: 32 copies of the sum of key and message.\<close>

definition checksum_hash :: keyed_hash where
  "checksum_hash key msg = replicate 32 (foldl (+) 0 (key @ msg))"

lemma checksum_hash_ok: "keyed_hash_ok checksum_hash"
  by (simp add: keyed_hash_ok_def checksum_hash_def)

end
