(* ===== verification/Token_Store.thy ===== *)
theory Token_Store
  imports Security
begin

text \<open>
  \<^verbatim>\<open>src/slave/src/token_store.rs\<close>: issuing and validating the access tokens of the management
  interface. The code reads the monotonic clock, the wall clock and the system's random source;
  the values it reads are arguments here. SHA-256 and the base64 encoder are crates the code
  calls and are parameters. An \<open>Instant\<close> is a number of nanoseconds.
\<close>

section \<open>State and operations\<close>

type_synonym token_hasher = "string \<Rightarrow> bytes"

definition pre_shared_key_from_bytes :: "bytes \<Rightarrow> bytes option" where
  "pre_shared_key_from_bytes bytes = (if length bytes \<noteq> 32 then None else Some bytes)"

record token_record =
  tr_token_hash :: bytes
  tr_expires_at :: nat

record token_store =
  ts_expected_shared_key :: bytes
  ts_tokens :: "bytes \<rightharpoonup> nat"

definition token_store_new :: "bytes \<Rightarrow> token_store" where
  "token_store_new expected_shared_key =
     \<lparr>ts_expected_shared_key = expected_shared_key, ts_tokens = Map.empty\<rparr>"

definition token_store_from_env ::
    "(string \<Rightarrow> string + bytes) \<Rightarrow> string + string \<Rightarrow> string + token_store" where
  "token_store_from_env hex_decode env =
     (case load_shared_secret_from_env hex_decode env of
        Inl e \<Rightarrow> Inl e
      | Inr shared_key \<Rightarrow> Inr (token_store_new shared_key))"

text \<open>\<open>{timestamp:x}\<close>: lower-case hexadecimal without leading zeros.\<close>

definition hex_digit :: "nat \<Rightarrow> char" where
  "hex_digit d = ''0123456789abcdef'' ! d"

fun hex_text :: "nat \<Rightarrow> string" where
  "hex_text n = (if n < 16 then [hex_digit n] else hex_text (n div 16) @ [hex_digit (n mod 16)])"

declare hex_text.simps [simp del]

text \<open>One token request reads: 32 random bytes, the nanoseconds since the epoch, and the
  monotonic clock twice, before the insertion and inside it.\<close>

record token_inputs =
  ti_random :: bytes
  ti_timestamp :: nat
  ti_issued :: nat
  ti_inserted :: nat

definition generate_token :: "(bytes \<Rightarrow> string) \<Rightarrow> token_inputs \<Rightarrow> string" where
  "generate_token encode i = encode (ti_random i) @ ''.'' @ hex_text (ti_timestamp i)"

definition prune_expired_locked :: "nat \<Rightarrow> (bytes \<rightharpoonup> nat) \<Rightarrow> (bytes \<rightharpoonup> nat)" where
  "prune_expired_locked now tokens =
     (\<lambda>h. case tokens h of None \<Rightarrow> None
                         | Some expires_at \<Rightarrow> if now < expires_at then Some expires_at else None)"

definition insert_token :: "nat \<Rightarrow> token_record \<Rightarrow> token_store \<Rightarrow> token_store" where
  "insert_token now r s =
     (let tokens = prune_expired_locked now (ts_tokens s)
      in s\<lparr>ts_tokens := tokens(tr_token_hash r \<mapsto> tr_expires_at r)\<rparr>)"

definition is_shared_key_valid :: "bytes \<Rightarrow> token_store \<Rightarrow> bool" where
  "is_shared_key_valid shared_key s =
     (case pre_shared_key_from_bytes shared_key of
        Some key \<Rightarrow> key = ts_expected_shared_key s
      | None \<Rightarrow> False)"

definition issue_token ::
    "token_hasher \<Rightarrow> (bytes \<Rightarrow> string) \<Rightarrow> bytes \<Rightarrow> nat \<Rightarrow> token_inputs \<Rightarrow> token_store \<Rightarrow>
       (status_code + string) \<times> token_store" where
  "issue_token hash_token encode shared_key ttl i s =
     (if \<not> is_shared_key_valid shared_key s then (Inl ErrAuthFailed, s)
      else
        (let token = generate_token encode i;
             token_hash = hash_token token;
             expires_at = ti_issued i + ttl
         in (Inr token,
             insert_token (ti_inserted i)
               \<lparr>tr_token_hash = token_hash, tr_expires_at = expires_at\<rparr> s)))"

definition validate_token :: "token_hasher \<Rightarrow> nat \<Rightarrow> string \<Rightarrow> token_store \<Rightarrow> bool \<times> token_store" where
  "validate_token hash_token now token s =
     (let token_hash = hash_token token;
          tokens = prune_expired_locked now (ts_tokens s)
      in case tokens token_hash of
           Some expires_at \<Rightarrow>
             if now < expires_at then (True, s\<lparr>ts_tokens := tokens\<rparr>)
             else (False, s\<lparr>ts_tokens := tokens(token_hash := None)\<rparr>)
         | None \<Rightarrow> (False, s\<lparr>ts_tokens := tokens\<rparr>))"

section \<open>The ledger the store implements\<close>

text \<open>
  What clients may rely on is simpler than what the store keeps: a ledger of the expiry of every
  token hash ever issued, which never forgets, and a token is valid while the clock is below its
  expiry. Pruning is an implementation detail as long as the clock does not run backwards.
\<close>

definition ledger_ok :: "nat \<Rightarrow> (bytes \<rightharpoonup> nat) \<Rightarrow> token_store \<Rightarrow> bool" where
  "ledger_ok now ledger s \<longleftrightarrow>
     (\<forall>h. prune_expired_locked now (ts_tokens s) h = prune_expired_locked now ledger h)"

datatype token_request =
    Issue bytes nat token_inputs
  | Validate nat string

fun token_step ::
    "token_hasher \<Rightarrow> (bytes \<Rightarrow> string) \<Rightarrow> token_request \<Rightarrow> token_store \<Rightarrow>
       (status_code + string + bool) \<times> token_store" where
  "token_step H enc (Issue key ttl i) s =
     (case issue_token H enc key ttl i s of
        (Inl e, s') \<Rightarrow> (Inl e, s') | (Inr t, s') \<Rightarrow> (Inr (Inl t), s'))"
| "token_step H enc (Validate now t) s =
     (let (v, s') = validate_token H now t s in (Inr (Inr v), s'))"

fun ledger_step ::
    "token_hasher \<Rightarrow> (bytes \<Rightarrow> string) \<Rightarrow> bytes \<Rightarrow> token_request \<Rightarrow> (bytes \<rightharpoonup> nat) \<Rightarrow>
       (status_code + string + bool) \<times> (bytes \<rightharpoonup> nat)" where
  "ledger_step H enc secret (Issue key ttl i) ledger =
     (if length key = 32 \<and> key = secret
      then let t = generate_token enc i in (Inr (Inl t), ledger(H t \<mapsto> ti_issued i + ttl))
      else (Inl ErrAuthFailed, ledger))"
| "ledger_step H enc secret (Validate now t) ledger =
     (Inr (Inr (\<exists>e. ledger (H t) = Some e \<and> now < e)), ledger)"

fun token_run where
  "token_run H enc [] s = []"
| "token_run H enc (q # qs) s = (let (r, s') = token_step H enc q s in r # token_run H enc qs s')"

fun ledger_run where
  "ledger_run H enc secret [] l = []"
| "ledger_run H enc secret (q # qs) l =
     (let (r, l') = ledger_step H enc secret q l in r # ledger_run H enc secret qs l')"

text \<open>The clock values of a list of requests, in the order they are read.\<close>

fun clock :: "token_request list \<Rightarrow> nat list" where
  "clock [] = []"
| "clock (Issue _ _ i # qs) = ti_issued i # ti_inserted i # clock qs"
| "clock (Validate now _ # qs) = now # clock qs"

lemma prune_apply:
  "prune_expired_locked now m h = Some e \<longleftrightarrow> m h = Some e \<and> now < e"
  by (auto simp: prune_expired_locked_def split: option.splits)

lemma prune_idem: "t \<le> t' \<Longrightarrow> prune_expired_locked t' (prune_expired_locked t m) = prune_expired_locked t' m"
  by (auto simp: prune_expired_locked_def fun_eq_iff split: option.splits)

lemma ledger_ok_later:
  assumes "ledger_ok t ledger s" and "t \<le> t'"
  shows "ledger_ok t' ledger s"
proof -
  have "prune_expired_locked t (ts_tokens s) = prune_expired_locked t ledger"
    using assms(1) by (simp add: ledger_ok_def fun_eq_iff)
  then have "prune_expired_locked t' (ts_tokens s) = prune_expired_locked t' ledger"
    using prune_idem [OF assms(2)] by metis
  then show ?thesis by (simp add: ledger_ok_def)
qed

lemma prune_upd:
  "prune_expired_locked t (m(h \<mapsto> e)) =
     (if t < e then (prune_expired_locked t m)(h \<mapsto> e) else (prune_expired_locked t m)(h := None))"
  by (auto simp: prune_expired_locked_def fun_eq_iff)

lemma ledger_ok_iff:
  "ledger_ok t ledger s \<longleftrightarrow> prune_expired_locked t (ts_tokens s) = prune_expired_locked t ledger"
  by (simp add: ledger_ok_def fun_eq_iff)

lemma is_shared_key_valid_iff:
  "is_shared_key_valid key s \<longleftrightarrow> length key = 32 \<and> key = ts_expected_shared_key s"
  by (simp add: is_shared_key_valid_def pre_shared_key_from_bytes_def)

lemma validate_token_eq:
  "validate_token H now t s =
     ((\<exists>e. ts_tokens s (H t) = Some e \<and> now < e),
      s\<lparr>ts_tokens := prune_expired_locked now (ts_tokens s)\<rparr>)"
  by (auto simp: validate_token_def Let_def prune_expired_locked_def split: option.splits)

lemma issue_token_eq:
  "issue_token H enc key ttl i s =
     (if length key = 32 \<and> key = ts_expected_shared_key s
      then (Inr (generate_token enc i), s\<lparr>ts_tokens :=
              (prune_expired_locked (ti_inserted i) (ts_tokens s))
                (H (generate_token enc i) \<mapsto> ti_issued i + ttl)\<rparr>)
      else (Inl ErrAuthFailed, s))"
  by (auto simp: issue_token_def is_shared_key_valid_iff insert_token_def Let_def)

text \<open>One request keeps the correspondence and has the same answer on both sides.\<close>

lemma token_step_refines:
  assumes ok: "ledger_ok t ledger s" and sorted: "sorted (t # clock [q])"
  shows "fst (token_step H enc q s) = fst (ledger_step H enc (ts_expected_shared_key s) q ledger)"
    and "ledger_ok (last (t # clock [q])) (snd (ledger_step H enc (ts_expected_shared_key s) q ledger))
           (snd (token_step H enc q s))"
    and "ts_expected_shared_key (snd (token_step H enc q s)) = ts_expected_shared_key s"
proof -
  consider (issue) key ttl i where "q = Issue key ttl i" | (validate) now tok where "q = Validate now tok"
    by (cases q)
  then have "fst (token_step H enc q s) = fst (ledger_step H enc (ts_expected_shared_key s) q ledger) \<and>
    ledger_ok (last (t # clock [q])) (snd (ledger_step H enc (ts_expected_shared_key s) q ledger))
      (snd (token_step H enc q s)) \<and>
    ts_expected_shared_key (snd (token_step H enc q s)) = ts_expected_shared_key s"
  proof cases
    case issue
    have "ledger_ok (ti_inserted i) ledger s"
      using ok sorted issue by (intro ledger_ok_later [OF ok]) simp
    with issue show ?thesis
      by (auto simp: issue_token_eq ledger_ok_iff prune_upd prune_idem Let_def)
  next
    case validate
    have "ledger_ok now ledger s"
      using ok sorted validate by (intro ledger_ok_later [OF ok]) simp
    moreover from this have "(\<exists>e. ts_tokens s (H tok) = Some e \<and> now < e) =
        (\<exists>e. ledger (H tok) = Some e \<and> now < e)"
      by (simp add: ledger_ok_iff flip: prune_apply)
    ultimately show ?thesis
      using validate by (simp add: validate_token_eq ledger_ok_iff prune_idem)
  qed
  then show "fst (token_step H enc q s) = fst (ledger_step H enc (ts_expected_shared_key s) q ledger)"
    and "ledger_ok (last (t # clock [q])) (snd (ledger_step H enc (ts_expected_shared_key s) q ledger))
           (snd (token_step H enc q s))"
    and "ts_expected_shared_key (snd (token_step H enc q s)) = ts_expected_shared_key s" by auto
qed

lemma clock_Cons: "clock (q # qs) = clock [q] @ clock qs"
  by (cases q) simp_all

lemma token_run_refines:
  "ledger_ok t ledger s \<Longrightarrow> sorted (t # clock qs) \<Longrightarrow>
   token_run H enc qs s = ledger_run H enc (ts_expected_shared_key s) qs ledger"
proof (induction qs arbitrary: t ledger s)
  case (Cons q qs)
  let ?s = "snd (token_step H enc q s)"
    and ?l = "snd (ledger_step H enc (ts_expected_shared_key s) q ledger)"
  have srt: "sorted ((t # clock [q]) @ clock qs)"
    using Cons.prems(2) by (simp only: clock_Cons [of q qs] append_Cons)
  then have "sorted (t # clock [q])" by (simp only: sorted_append)
  note step = token_step_refines [OF Cons.prems(1) this, of H enc]
  have "sorted (last (t # clock [q]) # clock qs)"
    using srt last_in_set [of "t # clock [q]"] by (simp only: sorted_append sorted_simps) blast
  from Cons.IH [OF step(2) this] step(1,3) show ?case
    by (simp add: case_prod_beta)
qed simp

section \<open>Properties\<close>

text \<open>
  C18 The token store refines the ledger: along every list of token requests and validations with
  a clock that does not run backwards, a fresh store gives the answers of the ledger that never
  forgets. A token is issued only for the 32-byte shared key, and is valid from then until
  exactly its expiry; pruning and removal are never observed.
\<close>

theorem token_store_refines_ledger:
  assumes "sorted (clock qs)"
  shows "token_run H enc qs (token_store_new secret) = ledger_run H enc secret qs Map.empty"
  using token_run_refines [of 0 Map.empty "token_store_new secret" qs H enc] assms
  by (simp add: ledger_ok_def token_store_new_def)

theorem token_store_refines_ledger_witness:
  "let i = \<lparr>ti_random = [], ti_timestamp = 255, ti_issued = 10, ti_inserted = 11\<rparr>;
       t = ''.ff''; H = (\<lambda>t. map (\<lambda>c. of_char c) t)
   in token_run H (\<lambda>_. []) [Validate 5 t, Issue (replicate 32 1) 100 i, Validate 109 t, Validate 110 t]
        (token_store_new (replicate 32 1)) =
      [Inr (Inr False), Inr (Inl t), Inr (Inr True), Inr (Inr False)]"
  using token_store_refines_ledger [of
      "[Validate 5 ''.ff'', Issue (replicate 32 1) 100
         \<lparr>ti_random = [], ti_timestamp = 255, ti_issued = 10, ti_inserted = 11\<rparr>,
        Validate 109 ''.ff'', Validate 110 ''.ff'']" "\<lambda>t. map (\<lambda>c. of_char c) t" "\<lambda>_. []"
      "replicate 32 1"]
  by (simp add: generate_token_def hex_text.simps hex_digit_def)

end
