(* ===== verification/Float64.thy ===== *)
theory Float64
  imports Complex_Main TSN_Prelude
begin

text \<open>
  Rust's \<open>f64\<close> rounding, for the one place where the protocol computes in floating point
  (\<open>tolerance_ticks\<close> of \<^verbatim>\<open>src/common/src/l2_utils.rs\<close>): the result of an operation is the
  exact real value rounded to a 53-bit significand, to nearest, ties to even. Subnormal and
  infinite results do not occur for the operands of the program and are not modelled.
\<close>

definition round_even :: "real \<Rightarrow> int" where
  "round_even y =
     (let n = \<lfloor>y\<rfloor>; d = y - of_int n in
      if d < 1 / 2 then n else if d > 1 / 2 then n + 1 else if even n then n else n + 1)"

definition f64_ulp :: "real \<Rightarrow> real" where
  "f64_ulp x = 2 powr (of_int \<lfloor>log 2 \<bar>x\<bar>\<rfloor> - 52)"

definition f64_round :: "real \<Rightarrow> real" where
  "f64_round x = (if x = 0 then 0 else f64_ulp x * of_int (round_even (x / f64_ulp x)))"

definition f64_mul :: "real \<Rightarrow> real \<Rightarrow> real" where
  "f64_mul x y = f64_round (x * y)"

definition f64_div :: "real \<Rightarrow> real \<Rightarrow> real" where
  "f64_div x y = f64_round (x / y)"

lemma round_even_of_int [simp]: "round_even (of_int n) = n"
  by (simp add: round_even_def)

lemma round_even_error: "\<bar>of_int (round_even y) - y\<bar> \<le> 1 / 2"
  unfolding round_even_def Let_def by (simp split: if_splits)

lemma f64_ulp_pos [simp]: "0 < f64_ulp x"
  by (simp add: f64_ulp_def)

lemma f64_ulp_nonzero [simp]: "f64_ulp x \<noteq> 0"
  using f64_ulp_pos [of x] by linarith

lemma abs_f64_ulp [simp]: "\<bar>f64_ulp x\<bar> = f64_ulp x"
  using f64_ulp_pos [of x] by linarith

lemma f64_round_error: "\<bar>f64_round x - x\<bar> \<le> f64_ulp x / 2"
proof (cases "x = 0")
  case False
  let ?u = "f64_ulp x"
  have "f64_round x - x = ?u * (of_int (round_even (x / ?u)) - x / ?u)"
    using False f64_ulp_pos [of x] by (simp add: f64_round_def right_diff_distrib)
  then have "\<bar>f64_round x - x\<bar> = ?u * \<bar>of_int (round_even (x / ?u)) - x / ?u\<bar>"
    by (simp add: abs_mult)
  also have "\<dots> \<le> ?u * (1 / 2)"
    by (intro mult_left_mono round_even_error) (simp add: less_imp_le)
  finally show ?thesis by simp
qed (simp add: f64_round_def less_imp_le)

lemma f64_ulp_le: "x \<noteq> 0 \<Longrightarrow> \<bar>x\<bar> < 2 ^ k \<Longrightarrow> f64_ulp x \<le> 2 powr (of_nat k - 53)"
proof -
  assume x: "x \<noteq> 0" "\<bar>x\<bar> < 2 ^ k"
  then have "log 2 \<bar>x\<bar> < of_nat k"
    by (simp add: log_less_iff powr_realpow)
  then have "\<lfloor>log 2 \<bar>x\<bar>\<rfloor> \<le> int k - 1" by linarith
  then have "real_of_int \<lfloor>log 2 \<bar>x\<bar>\<rfloor> \<le> real k - 1" by linarith
  then show ?thesis by (simp add: f64_ulp_def)
qed

text \<open>A multiple of \<open>2 powr -k\<close> of magnitude below \<open>2 powr (53 - k)\<close> is represented exactly.\<close>

lemma f64_round_exact:
  assumes "x * 2 ^ k \<in> \<int>" and "\<bar>x\<bar> < 2 ^ m" and "m + k \<le> 53"
  shows "f64_round x = x"
proof (cases "x = 0")
  case False
  define e where "e = \<lfloor>log 2 \<bar>x\<bar>\<rfloor>"
  from False assms(2) have "log 2 \<bar>x\<bar> < of_nat m"
    by (simp add: log_less_iff powr_realpow)
  then have "e \<le> int m - 1" unfolding e_def by linarith
  with assms(3) have "0 \<le> 52 - int k - e" by linarith
  then obtain j where j: "52 - int k - e = int j" using nonneg_int_cases by blast
  have "x / f64_ulp x = x * 2 powr (52 - of_int e)"
    by (simp add: f64_ulp_def e_def powr_minus_divide [symmetric] divide_inverse powr_minus [symmetric])
  also have "52 - real_of_int e = real (k + j)"
    using j by linarith
  also have "2 powr real (k + j) = (2 :: real) ^ k * 2 ^ j"
    by (simp only: powr_realpow zero_less_numeral power_add)
  finally have "x / f64_ulp x = (x * 2 ^ k) * 2 ^ j" by simp
  then have "x / f64_ulp x \<in> \<int>"
    using assms(1) by simp
  then obtain n where n: "x / f64_ulp x = of_int n" by (rule Ints_cases)
  have "f64_ulp x * of_int n = x"
    using f64_ulp_pos [of x] by (simp flip: n)
  then show ?thesis by (simp add: f64_round_def n)
qed (simp add: f64_round_def)

text \<open>
  The ceiling of a quotient \<open>p / q\<close> is not changed by rounding when the quotient is below
  \<open>2 ^ 18\<close> and the denominator below \<open>2 ^ 34\<close>: the rounding error is smaller than the distance
  of \<open>p / q\<close> to the next integer.
\<close>

lemma ceiling_f64_quotient:
  fixes p q :: int
  assumes q: "0 < q" "q < 2 ^ 34" and p: "0 < p" and less: "of_int p / of_int q < (2 :: real) ^ 18"
  shows "\<lceil>f64_round (of_int p / of_int q)\<rceil> = \<lceil>of_int p / of_int q :: real\<rceil>"
proof -
  let ?x = "of_int p / of_int q :: real"
  have x0: "0 < ?x" using q p by simp
  show ?thesis
  proof (cases "?x \<in> \<int>")
    case True
    then have "?x * 2 ^ 0 \<in> \<int>" by simp
    then have "f64_round ?x = ?x"
      by (rule f64_round_exact [where m = 18]) (use less x0 in auto)
    then show ?thesis by simp
  next
    case False
    have "f64_ulp ?x \<le> 2 powr (of_nat 18 - 53)"
      by (rule f64_ulp_le) (use x0 less in auto)
    also have "\<dots> = 1 / 2 ^ 35"
      by (simp add: powr_minus_divide)
    finally have err: "\<bar>f64_round ?x - ?x\<bar> \<le> 1 / 2 ^ 36"
      using f64_round_error [of ?x] by simp
    define n where "n = p div q"
    define r where "r = p mod q"
    have pq: "p = q * n + r" and r: "0 \<le> r" "r < q"
      using q by (simp_all add: n_def r_def)
    have xr: "?x = of_int n + of_int r / of_int q"
      using q by (simp add: pq field_simps)
    have "r \<noteq> 0" using False xr by auto
    then have "1 \<le> r" "r \<le> q - 1" using r by auto
    then have lo: "1 / of_int q \<le> of_int r / (of_int q :: real)"
      and hi: "of_int r / (of_int q :: real) \<le> 1 - 1 / of_int q"
      using q by (simp_all add: field_simps)
    have "1 / 2 ^ 34 < 1 / (of_int q :: real)"
      using q by (simp add: field_simps)
    moreover have "(1 :: real) / 2 ^ 36 < 1 / 2 ^ 34" by simp
    ultimately have "of_int n < f64_round ?x" "f64_round ?x < of_int n + 1"
      using err lo hi xr by linarith+
    then have "\<lceil>f64_round ?x\<rceil> = n + 1" by linarith
    moreover have "0 < 1 / (of_int q :: real)" using q by simp
    then have "of_int n < ?x" "?x \<le> of_int n + 1" using xr lo hi by linarith+
    then have "\<lceil>?x\<rceil> = n + 1" by linarith
    ultimately show ?thesis by simp
  qed
qed

end
