(* ===== verification/L2_Types.thy ===== *)
theory L2_Types
  imports Security
begin

text \<open>
  \<^verbatim>\<open>src/common/src/l2_types.rs\<close>: the 7-byte header of a cyclic frame, the frame builder
  (always VLAN-tagged) and the frame parser (tagged or untagged), with their round trips.
\<close>

section \<open>Header\<close>

definition ETHERTYPE_L2_PROTOCOL :: u16 where "ETHERTYPE_L2_PROTOCOL = 0x88B6"
definition L2_PROTOCOL_VERSION :: u8 where "L2_PROTOCOL_VERSION = 0x01"
definition L2_PROTOCOL_FLAGS :: u8 where "L2_PROTOCOL_FLAGS = 0x00"
definition L2_HEADER_SIZE :: nat where "L2_HEADER_SIZE = 7"
definition VLAN_ETHERTYPE :: u16 where "VLAN_ETHERTYPE = 0x8100"

record l2_header =
  l2_version :: u8
  l2_stream_id :: u16
  l2_cycle_counter :: u16
  l2_status :: u8
  l2_flags :: u8

definition l2_header_new :: "u16 \<Rightarrow> u16 \<Rightarrow> u8 \<Rightarrow> l2_header" where
  "l2_header_new stream_id cycle_counter status =
     \<lparr>l2_version = L2_PROTOCOL_VERSION, l2_stream_id = stream_id,
      l2_cycle_counter = cycle_counter, l2_status = status, l2_flags = L2_PROTOCOL_FLAGS\<rparr>"

definition l2_header_write_to :: "l2_header \<Rightarrow> bytes \<Rightarrow> bytes" where
  "l2_header_write_to h buf =
     ((((buf @ [l2_version h]) @ be16 (l2_stream_id h)) @ be16 (l2_cycle_counter h))
        @ [l2_status h]) @ [l2_flags h]"

definition l2_header_read_from :: "bytes \<Rightarrow> unit + l2_header" where
  "l2_header_read_from buf =
     (case do {
        (version, r) \<leftarrow> read_u8 buf;
        (stream_id, r) \<leftarrow> read_be 2 r;
        (cycle_counter, r) \<leftarrow> read_be 2 r;
        (status, r) \<leftarrow> read_u8 r;
        (flags, r) \<leftarrow> read_u8 r;
        Some \<lparr>l2_version = version, l2_stream_id = stream_id, l2_cycle_counter = cycle_counter,
              l2_status = status, l2_flags = flags\<rparr>
      } of None \<Rightarrow> Inl () | Some h \<Rightarrow> Inr h)"

definition l2_header_bytes :: "l2_header \<Rightarrow> bytes" where
  "l2_header_bytes h = l2_header_write_to h []"

lemma l2_header_write_to_append: "l2_header_write_to h buf = buf @ l2_header_bytes h"
  by (simp add: l2_header_write_to_def l2_header_bytes_def)

lemma length_l2_header_bytes [simp, wire_len]: "length (l2_header_bytes h) = 7"
  by (simp add: l2_header_bytes_def l2_header_write_to_def)

lemma l2_header_read_write: "l2_header_read_from (l2_header_bytes h @ rest) = Inr h"
  by (simp add: l2_header_read_from_def l2_header_bytes_def l2_header_write_to_def)

lemma l2_header_read_InrD:
  assumes "l2_header_read_from bs = Inr h"
  shows "\<exists>rest. bs = l2_header_bytes h @ rest"
proof -
  from assms obtain v r1 s r2 c r3 t r4 f r5 where
    "read_u8 bs = Some (v, r1)" "read_be 2 r1 = Some (s :: u16, r2)"
    "read_be 2 r2 = Some (c :: u16, r3)" "read_u8 r3 = Some (t, r4)" "read_u8 r4 = Some (f, r5)"
    and h: "h = \<lparr>l2_version = v, l2_stream_id = s, l2_cycle_counter = c,
              l2_status = t, l2_flags = f\<rparr>"
    by (auto simp: l2_header_read_from_def split: option.splits Option.bind_splits)
  then have "bs = v # be16 s @ be16 c @ t # f # r5"
    by (auto dest!: read_u8_SomeD read_be_SomeD)
  then have "bs = l2_header_bytes h @ r5"
    by (simp add: h l2_header_bytes_def l2_header_write_to_def)
  then show ?thesis ..
qed

lemma l2_header_read_long: "7 \<le> length bs \<Longrightarrow> \<exists>h. l2_header_read_from bs = Inr h"
proof -
  assume "7 \<le> length bs"
  then obtain a b c d e f g rest where "bs = a # b # c # d # e # f # g # rest"
    by (auto simp: numeral_eq_Suc Suc_le_length_iff)
  then show ?thesis by (simp add: l2_header_read_from_def read_be_def)
qed

interpretation l2h: prefix_codec l2_header_bytes l2_header_read_from "\<lambda>_. True"
  by unfold_locales (auto simp: l2_header_read_write dest: l2_header_read_InrD)

section \<open>Frames\<close>

record parsed_l2_frame =
  pf_destination :: mac_addr
  pf_source :: mac_addr
  pf_vlan_id_pcp :: u16
  pf_header :: l2_header
  pf_payload :: bytes
  pf_sequence_number :: u64
  pf_auth_tag :: bytes

definition build_l2_frame ::
    "mac_addr \<Rightarrow> mac_addr \<Rightarrow> u16 \<Rightarrow> l2_header \<Rightarrow> bytes \<Rightarrow> security_footer \<Rightarrow> bytes" where
  "build_l2_frame source destination vlan_id_pcp header payload footer =
     (let frame = octets destination;
          frame = frame @ octets source;
          frame = frame @ be16 VLAN_ETHERTYPE;
          frame = frame @ be16 vlan_id_pcp;
          frame = frame @ be16 ETHERTYPE_L2_PROTOCOL;
          frame = l2_header_write_to header frame;
          frame = frame @ payload
      in footer_write_to footer frame)"

definition mac_at :: "bytes \<Rightarrow> nat \<Rightarrow> mac_addr" where
  "mac_at frame i = MacAddr (frame ! i) (frame ! (i + 1)) (frame ! (i + 2)) (frame ! (i + 3))
                       (frame ! (i + 4)) (frame ! (i + 5))"

definition be16_at :: "bytes \<Rightarrow> nat \<Rightarrow> u16" where
  "be16_at frame i = from_be [frame ! i, frame ! (i + 1)]"

text \<open>The VLAN tag and the offset of the L2 header, or the error the frame is refused with.\<close>

definition l2_frame_tag :: "bytes \<Rightarrow> status_code + u16 \<times> nat" where
  "l2_frame_tag frame =
     (let ethertype = be16_at frame 12 in
      if ethertype = VLAN_ETHERTYPE then
        if length frame < 18 + L2_HEADER_SIZE then Inl ErrInvalidLen
        else let vlan_id_pcp = be16_at frame 14; inner_ethertype = be16_at frame 16 in
          if inner_ethertype \<noteq> ETHERTYPE_L2_PROTOCOL then Inl ErrInvalidEthertype
          else Inr (vlan_id_pcp, 18)
      else if ethertype = ETHERTYPE_L2_PROTOCOL then Inr (0, 14)
      else Inl ErrInvalidEthertype)"

definition parse_l2_frame :: "bytes \<Rightarrow> status_code + parsed_l2_frame" where
  "parse_l2_frame frame =
     (if length frame < 14 + L2_HEADER_SIZE then Inl ErrInvalidLen
      else case l2_frame_tag frame of
        Inl e \<Rightarrow> Inl e
      | Inr (vlan_id_pcp, l2_header_offset) \<Rightarrow>
          (case l2_header_read_from (take L2_HEADER_SIZE (drop l2_header_offset frame)) of
             Inl _ \<Rightarrow> Inl ErrFrameParsing
           | Inr header \<Rightarrow>
               (case split_payload_and_footer (drop (l2_header_offset + L2_HEADER_SIZE) frame) of
                  Inl e \<Rightarrow> Inl e
                | Inr (payload, footer) \<Rightarrow>
                    Inr \<lparr>pf_destination = mac_at frame 0, pf_source = mac_at frame 6,
                         pf_vlan_id_pcp = vlan_id_pcp, pf_header = header, pf_payload = payload,
                         pf_sequence_number = sf_sequence_number footer,
                         pf_auth_tag = sf_auth_tag footer\<rparr>)))"

text \<open>The untagged form, which the parser also accepts and nothing in the program builds.\<close>

definition untagged_l2_frame ::
    "mac_addr \<Rightarrow> mac_addr \<Rightarrow> l2_header \<Rightarrow> bytes \<Rightarrow> security_footer \<Rightarrow> bytes" where
  "untagged_l2_frame source destination header payload footer =
     footer_write_to footer
       (octets destination @ octets source @ be16 ETHERTYPE_L2_PROTOCOL
          @ l2_header_bytes header @ payload)"

lemmas l2_sizes [simp] = L2_HEADER_SIZE_def

lemma be16_at_append [simp]:
  "length xs = i \<Longrightarrow> be16_at (xs @ be16 w @ ys) i = w"
  using from_be_be_bytes [of 2 w]
  by (simp add: be16_at_def nth_append numeral_2_eq_2)

lemma mac_at_append [simp]: "length xs = i \<Longrightarrow> mac_at (xs @ octets m @ ys) i = m"
  by (cases m) (simp add: mac_at_def nth_append)

lemma mac_at_append_0 [simp]: "mac_at (octets m @ ys) 0 = m"
  using mac_at_append [of "[]" 0] by simp

lemma build_l2_frame_eq:
  "build_l2_frame src dst vlan h payload f =
     octets dst @ octets src @ be16 VLAN_ETHERTYPE @ be16 vlan @ be16 ETHERTYPE_L2_PROTOCOL
       @ l2_header_bytes h @ footer_write_to f payload"
  by (simp add: build_l2_frame_def l2_header_write_to_append footer_write_to_def)

lemma untagged_l2_frame_eq:
  "untagged_l2_frame src dst h payload f =
     octets dst @ octets src @ be16 ETHERTYPE_L2_PROTOCOL
       @ l2_header_bytes h @ footer_write_to f payload"
  by (simp add: untagged_l2_frame_def footer_write_to_def)

lemma be16_be16_at:
  assumes "i + 2 \<le> length bs"
  shows "be16 (be16_at bs i) = take 2 (drop i bs)"
proof -
  let ?p = "[bs ! i, bs ! (i + 1)]"
  have "length ?p = 2" by simp
  then have "be16 (from_be ?p) = ?p"
    using be_bytes_from_be [of ?p, where 'a = 16] by (simp only: len_num1 len_bit0 len_bit1 mult_2_right)
  then show ?thesis by (simp only: be16_at_def take_2_nth [OF assms])
qed

lemma octets_mac_at: "i + 6 \<le> length bs \<Longrightarrow> octets (mac_at bs i) = take 6 (drop i bs)"
  by (simp add: mac_at_def list_eq_iff_nth_eq numeral_eq_Suc less_Suc_eq All_less_Suc)

lemma ethernet_split:
  assumes "14 \<le> length bs"
  shows "bs = octets (mac_at bs 0) @ octets (mac_at bs 6) @ be16 (be16_at bs 12) @ drop 14 bs"
proof -
  have "bs = take 6 bs @ take 6 (drop 6 bs) @ take 2 (drop 12 bs) @ drop 14 bs"
    using append_take_drop_id [of 6 bs] append_take_drop_id [of 6 "drop 6 bs"]
      append_take_drop_id [of 2 "drop 12 bs"] by simp
  with assms show ?thesis by (simp add: octets_mac_at be16_be16_at)
qed

lemma tag_split:
  assumes "4 + i \<le> length bs"
  shows "drop i bs = be16 (be16_at bs i) @ be16 (be16_at bs (i + 2)) @ drop (i + 4) bs"
proof -
  have "drop i bs = take 2 (drop i bs) @ take 2 (drop (i + 2) bs) @ drop (i + 4) bs"
    using append_take_drop_id [of 2 "drop i bs"] append_take_drop_id [of 2 "drop (i + 2) bs"]
    by (simp add: numeral_eq_Suc)
  with assms show ?thesis by (simp add: be16_be16_at)
qed

text \<open>What the parser does after the Ethernet part, whatever the offset of the L2 header.\<close>

lemma l2_body_read:
  assumes "length pre = off"
  shows "l2_header_read_from (take 7 (drop off (pre @ l2_header_bytes h @ rest))) = Inr h"
  using assms l2h.rd_wr_exact [of h] by simp

lemma l2_body_split:
  assumes "off + 7 \<le> length frame"
    and "l2_header_read_from (take 7 (drop off frame)) = Inr h"
    and "split_payload_and_footer (drop (off + 7) frame) = Inr (p, f)"
  shows "footer_ok f \<and> drop off frame = l2_header_bytes h @ footer_write_to f p"
proof -
  from l2_header_read_InrD [OF assms(2)] assms(1)
  have "take 7 (drop off frame) = l2_header_bytes h"
    by (metis append_eq_conv_conj append_self_conv length_l2_header_bytes length_take min.absorb2
        le_diff_conv2 length_drop add.commute add_leD1 take_all_iff order_refl)
  moreover have "drop off frame = take 7 (drop off frame) @ drop (off + 7) frame"
    using append_take_drop_id [of 7 "drop off frame"] by (simp add: ac_simps)
  ultimately show ?thesis
    using split_InrD [OF assms(3)] by simp
qed

lemmas ethertypes = VLAN_ETHERTYPE_def ETHERTYPE_L2_PROTOCOL_def

lemma length_build_l2_frame:
  "footer_ok f \<Longrightarrow> length (build_l2_frame src dst vlan h payload f) = 41 + length payload"
  by (simp add: build_l2_frame_eq length_footer_write_to)

lemma length_untagged_l2_frame:
  "footer_ok f \<Longrightarrow> length (untagged_l2_frame src dst h payload f) = 37 + length payload"
  by (simp add: untagged_l2_frame_eq length_footer_write_to)

lemma l2_frame_tag_build:
  assumes "footer_ok f"
  shows "l2_frame_tag (build_l2_frame src dst vlan h payload f) = Inr (vlan, 18)"
proof -
  let ?fr = "build_l2_frame src dst vlan h payload f"
  have "be16_at ?fr 12 = VLAN_ETHERTYPE"
    using be16_at_append [of "octets dst @ octets src" 12]
    by (simp add: build_l2_frame_eq)
  moreover have "be16_at ?fr 14 = vlan"
    using be16_at_append [of "octets dst @ octets src @ be16 VLAN_ETHERTYPE" 14]
    by (simp add: build_l2_frame_eq del: be_bytes.simps)
  moreover have "be16_at ?fr 16 = ETHERTYPE_L2_PROTOCOL"
    using be16_at_append [of "octets dst @ octets src @ be16 VLAN_ETHERTYPE @ be16 vlan" 16]
    by (simp add: build_l2_frame_eq del: be_bytes.simps)
  ultimately show ?thesis
    using assms by (simp add: l2_frame_tag_def Let_def length_build_l2_frame)
qed

lemma l2_frame_tag_untagged:
  "l2_frame_tag (untagged_l2_frame src dst h payload f) = Inr (0, 14)"
  using be16_at_append [of "octets dst @ octets src" 12 ETHERTYPE_L2_PROTOCOL]
  by (simp add: untagged_l2_frame_eq l2_frame_tag_def ethertypes)

lemma parse_build_l2_frame:
  assumes "footer_ok f"
  shows "parse_l2_frame (build_l2_frame src dst vlan h payload f) =
     Inr \<lparr>pf_destination = dst, pf_source = src, pf_vlan_id_pcp = vlan, pf_header = h,
          pf_payload = payload, pf_sequence_number = sf_sequence_number f,
          pf_auth_tag = sf_auth_tag f\<rparr>"
proof -
  let ?fr = "build_l2_frame src dst vlan h payload f"
  let ?pre = "octets dst @ octets src @ be16 VLAN_ETHERTYPE @ be16 vlan @ be16 ETHERTYPE_L2_PROTOCOL"
  have fr: "?fr = ?pre @ l2_header_bytes h @ footer_write_to f payload"
    by (simp add: build_l2_frame_eq)
  have "l2_header_read_from (take 7 (drop 18 ?fr)) = Inr h"
    unfolding fr by (rule l2_body_read) simp
  moreover have "drop 25 ?fr = footer_write_to f payload"
    unfolding fr by simp
  moreover have "mac_at ?fr 0 = dst" "mac_at ?fr 6 = src"
    using mac_at_append [of "octets dst" 6 src] by (simp_all add: build_l2_frame_eq)
  ultimately show ?thesis
    using assms
    by (simp add: parse_l2_frame_def l2_frame_tag_build length_build_l2_frame split_write)
qed

lemma parse_untagged_l2_frame:
  assumes "footer_ok f"
  shows "parse_l2_frame (untagged_l2_frame src dst h payload f) =
     Inr \<lparr>pf_destination = dst, pf_source = src, pf_vlan_id_pcp = 0, pf_header = h,
          pf_payload = payload, pf_sequence_number = sf_sequence_number f,
          pf_auth_tag = sf_auth_tag f\<rparr>"
proof -
  let ?fr = "untagged_l2_frame src dst h payload f"
  let ?pre = "octets dst @ octets src @ be16 ETHERTYPE_L2_PROTOCOL"
  have fr: "?fr = ?pre @ l2_header_bytes h @ footer_write_to f payload"
    by (simp add: untagged_l2_frame_eq)
  have "l2_header_read_from (take 7 (drop 14 ?fr)) = Inr h"
    unfolding fr by (rule l2_body_read) simp
  moreover have "drop 21 ?fr = footer_write_to f payload"
    unfolding fr by simp
  moreover have "mac_at ?fr 0 = dst" "mac_at ?fr 6 = src"
    using mac_at_append [of "octets dst" 6 src] by (simp_all add: untagged_l2_frame_eq)
  ultimately show ?thesis
    using assms
    by (simp add: parse_l2_frame_def l2_frame_tag_untagged length_untagged_l2_frame split_write)
qed

text \<open>The footer and the frame a parsed view stands for.\<close>

definition pf_footer :: "parsed_l2_frame \<Rightarrow> security_footer" where
  "pf_footer p = \<lparr>sf_sequence_number = pf_sequence_number p, sf_auth_tag = pf_auth_tag p\<rparr>"

definition pf_rebuild :: "parsed_l2_frame \<Rightarrow> bytes" where
  "pf_rebuild p = build_l2_frame (pf_source p) (pf_destination p) (pf_vlan_id_pcp p)
     (pf_header p) (pf_payload p) (pf_footer p)"

definition pf_rebuild_untagged :: "parsed_l2_frame \<Rightarrow> bytes" where
  "pf_rebuild_untagged p = untagged_l2_frame (pf_source p) (pf_destination p)
     (pf_header p) (pf_payload p) (pf_footer p)"

lemma parse_l2_frame_InrE:
  assumes "parse_l2_frame frame = Inr p"
  obtains off where
    "l2_frame_tag frame = Inr (pf_vlan_id_pcp p, off)" "21 \<le> length frame"
    "l2_header_read_from (take 7 (drop off frame)) = Inr (pf_header p)"
    "split_payload_and_footer (drop (off + 7) frame) = Inr (pf_payload p, pf_footer p)"
    "pf_destination p = mac_at frame 0" "pf_source p = mac_at frame 6"
  using assms
  by (fastforce simp: parse_l2_frame_def pf_footer_def split: if_splits sum.splits prod.splits)

lemma l2_frame_tag_InrD:
  "l2_frame_tag frame = Inr (vlan, off) \<Longrightarrow>
     (off = 18 \<and> 25 \<le> length frame \<and> be16_at frame 12 = VLAN_ETHERTYPE \<and>
        be16_at frame 14 = vlan \<and> be16_at frame 16 = ETHERTYPE_L2_PROTOCOL) \<or>
     (off = 14 \<and> vlan = 0 \<and> be16_at frame 12 = ETHERTYPE_L2_PROTOCOL)"
  by (auto simp: l2_frame_tag_def Let_def split: if_splits)

text \<open>Nothing but a built frame is accepted: the parser is the inverse of the two layouts.\<close>

lemma parse_l2_frame_canonical:
  assumes "parse_l2_frame frame = Inr p"
  shows "footer_ok (pf_footer p) \<and>
     (frame = pf_rebuild p \<or> pf_vlan_id_pcp p = 0 \<and> frame = pf_rebuild_untagged p)"
proof -
  from parse_l2_frame_InrE [OF assms] obtain off where
    tag: "l2_frame_tag frame = Inr (pf_vlan_id_pcp p, off)" and len: "21 \<le> length frame"
    and hd: "l2_header_read_from (take 7 (drop off frame)) = Inr (pf_header p)"
    and sp: "split_payload_and_footer (drop (off + 7) frame) = Inr (pf_payload p, pf_footer p)"
    and mac: "pf_destination p = mac_at frame 0" "pf_source p = mac_at frame 6" .
  have off: "off + 7 \<le> length frame"
    using l2_frame_tag_InrD [OF tag] len by auto
  from l2_body_split [OF off hd sp]
  have ok: "footer_ok (pf_footer p)"
    and body: "drop off frame = l2_header_bytes (pf_header p) @ footer_write_to (pf_footer p) (pf_payload p)"
    by auto
  have eth: "frame = octets (mac_at frame 0) @ octets (mac_at frame 6) @ be16 (be16_at frame 12) @ drop 14 frame"
    using ethernet_split [of frame] len by simp
  from l2_frame_tag_InrD [OF tag] show ?thesis
  proof (elim disjE conjE)
    assume "off = 18" "25 \<le> length frame" "be16_at frame 12 = VLAN_ETHERTYPE"
      "be16_at frame 14 = pf_vlan_id_pcp p" "be16_at frame 16 = ETHERTYPE_L2_PROTOCOL"
    then have "frame = pf_rebuild p"
      using eth tag_split [of 14 frame] body
      by (simp add: pf_rebuild_def build_l2_frame_eq mac del: be_bytes.simps)
    with ok show ?thesis by simp
  next
    assume "off = 14" "pf_vlan_id_pcp p = 0" "be16_at frame 12 = ETHERTYPE_L2_PROTOCOL"
    then have "frame = pf_rebuild_untagged p"
      using eth body
      by (simp add: pf_rebuild_untagged_def untagged_l2_frame_eq mac del: be_bytes.simps)
    with ok \<open>pf_vlan_id_pcp p = 0\<close> show ?thesis by simp
  qed
qed

section \<open>Refused frames\<close>

text \<open>
  The parser is total with two errors only: \<open>ErrFrameParsing\<close> is unreachable, because the
  length is checked before the header is read.
\<close>

lemma parse_l2_frame_InlD:
  assumes "parse_l2_frame frame = Inl e"
  shows "e = ErrInvalidLen \<or> e = ErrInvalidEthertype"
proof (cases "l2_frame_tag frame")
  case (Inl e')
  with assms show ?thesis
    by (auto simp: parse_l2_frame_def l2_frame_tag_def Let_def split: if_splits)
next
  case (Inr r)
  obtain vlan off where r: "r = (vlan, off)" by (cases r)
  show ?thesis
  proof (cases "length frame < 21")
    case True
    with assms show ?thesis by (simp add: parse_l2_frame_def)
  next
    case False
    then have "off + 7 \<le> length frame"
      using l2_frame_tag_InrD [OF Inr [unfolded r]] by auto
    then obtain h where "l2_header_read_from (take 7 (drop off frame)) = Inr h"
      using l2_header_read_long [of "take 7 (drop off frame)"] by auto
    with assms Inr r False show ?thesis
      by (auto simp: parse_l2_frame_def split: sum.splits prod.splits dest: split_InlD)
  qed
qed

text \<open>When exactly a frame is another protocol's, which the receivers skip silently.\<close>

definition foreign_frame :: "bytes \<Rightarrow> bool" where
  "foreign_frame frame \<longleftrightarrow> 21 \<le> length frame \<and>
     (if be16_at frame 12 = VLAN_ETHERTYPE
      then 25 \<le> length frame \<and> be16_at frame 16 \<noteq> ETHERTYPE_L2_PROTOCOL
      else be16_at frame 12 \<noteq> ETHERTYPE_L2_PROTOCOL)"

lemma parse_l2_frame_foreign:
  "parse_l2_frame frame = Inl ErrInvalidEthertype \<longleftrightarrow> foreign_frame frame"
  by (auto simp: parse_l2_frame_def foreign_frame_def l2_frame_tag_def Let_def ethertypes
        split: if_splits sum.splits prod.splits dest: split_InlD)

section \<open>Padded frames\<close>

text \<open>
  The parser takes the footer from the end of the buffer. A frame that was padded to the
  Ethernet minimum on the way carries the padding there: with 16 or more bytes of zero padding
  the sequence number that is read is 0 and the real footer is part of the payload.
\<close>

lemma be_bytes_0: "be_bytes n 0 = replicate n 0"
  by (induction n) simp_all

lemma padded_footer:
  assumes "16 \<le> n"
  shows "footer_write_to f payload @ replicate n 0 =
     footer_write_to \<lparr>sf_sequence_number = 0, sf_auth_tag = replicate 8 0\<rparr>
       (footer_write_to f payload @ replicate (n - 16) 0)"
proof -
  have "replicate n (0 :: u8) = replicate (n - 16) 0 @ replicate 8 0 @ replicate 8 0"
    using assms by (simp flip: replicate_add)
  then show ?thesis by (simp add: footer_write_to_def be_bytes_0)
qed

lemma parse_padded_l2_frame:
  assumes "16 \<le> n"
  shows "parse_l2_frame (build_l2_frame src dst vlan h payload f @ replicate n 0) =
     Inr \<lparr>pf_destination = dst, pf_source = src, pf_vlan_id_pcp = vlan, pf_header = h,
          pf_payload = footer_write_to f payload @ replicate (n - 16) 0,
          pf_sequence_number = 0, pf_auth_tag = replicate 8 0\<rparr>"
proof -
  let ?f = "\<lparr>sf_sequence_number = 0, sf_auth_tag = replicate 8 0\<rparr>"
  have "build_l2_frame src dst vlan h payload f @ replicate n 0 =
      build_l2_frame src dst vlan h (footer_write_to f payload @ replicate (n - 16) 0) ?f"
    by (simp add: build_l2_frame_eq padded_footer [OF assms] del: replicate_append_same)
  then show ?thesis
    using parse_build_l2_frame [of ?f] by (simp add: footer_ok_def)
qed

section \<open>Properties\<close>

text \<open>
  C24 The frame codec: \<open>parse_l2_frame\<close> succeeds on exactly the byte strings \<open>build_l2_frame\<close> can
  write, and on their form without a VLAN tag, and returns the addresses, tag, header, payload,
  number and authentication tag they were built from.
\<close>

theorem l2_frame_codec:
  "parse_l2_frame frame = Inr p \<longleftrightarrow>
     length (pf_auth_tag p) = 8 \<and>
     (frame = build_l2_frame (pf_source p) (pf_destination p) (pf_vlan_id_pcp p) (pf_header p)
        (pf_payload p) \<lparr>sf_sequence_number = pf_sequence_number p, sf_auth_tag = pf_auth_tag p\<rparr> \<or>
      pf_vlan_id_pcp p = 0 \<and>
      frame = untagged_l2_frame (pf_source p) (pf_destination p) (pf_header p) (pf_payload p)
        \<lparr>sf_sequence_number = pf_sequence_number p, sf_auth_tag = pf_auth_tag p\<rparr>)"
  using parse_l2_frame_canonical [of frame p]
  by (auto simp: footer_ok_def pf_footer_def pf_rebuild_def pf_rebuild_untagged_def
      parse_build_l2_frame parse_untagged_l2_frame)

text \<open>A frame that belongs to the protocol as far as it goes and is too short for its parts.\<close>

definition short_frame :: "bytes \<Rightarrow> bool" where
  "short_frame frame \<longleftrightarrow>
     length frame < 21 \<or>
     (if be16_at frame 12 = VLAN_ETHERTYPE
      then length frame < 25 \<or> be16_at frame 16 = ETHERTYPE_L2_PROTOCOL \<and> length frame < 41
      else be16_at frame 12 = ETHERTYPE_L2_PROTOCOL \<and> length frame < 37)"

lemma parse_l2_frame_short: "parse_l2_frame frame = Inl ErrInvalidLen \<longleftrightarrow> short_frame frame"
proof
  assume "parse_l2_frame frame = Inl ErrInvalidLen"
  then show "short_frame frame"
    by (auto simp: parse_l2_frame_def short_frame_def l2_frame_tag_def Let_def ethertypes
        split: if_splits sum.splits prod.splits dest: split_InlD)
next
  assume s: "short_frame frame"
  show "parse_l2_frame frame = Inl ErrInvalidLen"
  proof (cases "parse_l2_frame frame")
    case (Inl e)
    moreover have "e \<noteq> ErrInvalidEthertype"
      using Inl s parse_l2_frame_foreign [of frame]
      by (auto simp: short_frame_def foreign_frame_def ethertypes split: if_splits)
    ultimately show ?thesis using parse_l2_frame_InlD by blast
  next
    case (Inr p)
    from parse_l2_frame_InrE [OF this] obtain off where
      tag: "l2_frame_tag frame = Inr (pf_vlan_id_pcp p, off)" and "21 \<le> length frame"
      and "split_payload_and_footer (drop (off + 7) frame) = Inr (pf_payload p, pf_footer p)" .
    then have "16 \<le> length (drop (off + 7) frame)"
      unfolding split_payload_and_footer_def by (auto split: if_splits)
    then have "off + 23 \<le> length frame" by simp
    with s l2_frame_tag_InrD [OF tag] show ?thesis
      by (auto simp: short_frame_def ethertypes)
  qed
qed

text \<open>
  The refusals of the parser, for every byte string: \<open>ErrInvalidEthertype\<close> exactly for other
  protocols, which the receivers skip silently, \<open>ErrInvalidLen\<close> exactly for frames that are too
  short for their headers and footer, and no other error.
\<close>

lemma l2_frame_refusals:
  "(parse_l2_frame frame = Inl ErrInvalidEthertype \<longleftrightarrow> foreign_frame frame) \<and>
   (parse_l2_frame frame = Inl ErrInvalidLen \<longleftrightarrow> short_frame frame) \<and>
   ((\<exists>p. parse_l2_frame frame = Inr p) \<longleftrightarrow> \<not> (foreign_frame frame \<or> short_frame frame))"
proof -
  have "(\<exists>p. parse_l2_frame frame = Inr p) \<longleftrightarrow> \<not> (\<exists>e. parse_l2_frame frame = Inl e)"
    by (cases "parse_l2_frame frame") simp_all
  then show ?thesis
    using parse_l2_frame_foreign parse_l2_frame_short parse_l2_frame_InlD by blast
qed

end
