(* ===== verification/L2_Utils.thy ===== *)
theory L2_Utils
  imports Float64 L2_Types
begin

text \<open>
  \<^verbatim>\<open>src/common/src/l2_utils.rs\<close> and the process-image trait of
  \<^verbatim>\<open>src/common/src/hardware_abstraction.rs\<close>: cycle arithmetic (greatest common divisor of the
  cycle times, counter, ticks and tolerance), the hand-over between frames and process image,
  and the cycle statistics.
\<close>

section \<open>The process image\<close>

text \<open>
  \<open>dyn ProcessImageAccess\<close>: the three methods of the trait, over a state \<open>'p\<close> of the device's
  choice. \<open>read_outputs\<close> and \<open>get_layout\<close> take \<open>&self\<close> and return data; \<open>write_inputs\<close> changes
  the image through its lock.
\<close>

record 'p process_image_access =
  get_layout :: "'p \<Rightarrow> status_code + process_variable list"
  read_outputs :: "'p \<Rightarrow> position \<Rightarrow> status_code + bytes"
  write_inputs :: "'p \<Rightarrow> bytes \<Rightarrow> position \<Rightarrow> (status_code + unit) \<times> 'p"

definition bit_len_to_byte_len :: "u32 \<Rightarrow> nat" where
  "bit_len_to_byte_len bit_len = unat (div_ceil bit_len 8)"

definition handle_input_packet ::
    "'p process_image_access \<Rightarrow> 'p \<Rightarrow> stream_config \<Rightarrow> bytes \<Rightarrow> (status_code + unit) \<times> 'p" where
  "handle_input_packet access img stream payload =
     (case sc_stream_content stream of
        None \<Rightarrow> (Inl ErrParamInvalid, img)
      | Some content \<Rightarrow>
          let expected_len = bit_len_to_byte_len (pos_bit_len content) in
          if length payload < expected_len then (Inl ErrInvalidLen, img)
          else (case write_inputs access img (take expected_len payload) content of
                  (Inl code, img') \<Rightarrow> (Inl code, img')
                | (Inr _, img') \<Rightarrow> (Inr (), img')))"

definition build_frame_payload ::
    "'p process_image_access \<Rightarrow> 'p \<Rightarrow> stream_config \<Rightarrow> status_code + bytes" where
  "build_frame_payload access img stream =
     (case sc_stream_content stream of
        None \<Rightarrow> Inl ErrParamInvalid
      | Some content \<Rightarrow> read_outputs access img content)"

lemma unat_bit_len_to_byte_len: "bit_len_to_byte_len n = (unat n + 7) div 8"
  by (simp add: bit_len_to_byte_len_def unat_div_ceil)

section \<open>Cycle arithmetic\<close>

definition CYCLE_COUNTER_TICK_NS :: u64 where "CYCLE_COUNTER_TICK_NS = 31250"

text \<open>\<open>1.5\<close> as \<open>f32\<close>, and so as \<open>f64\<close>, is exact.\<close>

definition ALLOWED_MULTIPLE_OVER_CYCLE_TIME :: real where
  "ALLOWED_MULTIPLE_OVER_CYCLE_TIME = 3 / 2"

function gcd_u32 :: "u32 \<Rightarrow> u32 \<Rightarrow> u32" where
  "gcd_u32 a b = (if b \<noteq> 0 then let tmp = a mod b in gcd_u32 b tmp else a)"
  by pat_completeness auto
termination
  by (relation "measure (\<lambda>(a, b). unat b)")
    (auto simp: unat_mod unat_gt_0 intro!: mod_less_divisor)

declare gcd_u32.simps [simp del]

definition gcd_all :: "u32 list \<Rightarrow> u32" where
  "gcd_all values = (case values of [] \<Rightarrow> 0 | first # rest \<Rightarrow> foldl gcd_u32 first rest)"

text \<open>
  The counter is computed from the microseconds since the epoch (\<open>u128\<close>, far from overflow),
  in ticks of 31.25 microseconds, reduced modulo \<open>0xFFFF\<close>.
\<close>

definition cycle_counter :: "nat \<Rightarrow> u16" where
  "cycle_counter total_micros =
     (let ticks = (total_micros * 4) div 125 in of_nat (ticks mod 0xFFFF))"

definition ticks_per_cycle :: "u32 \<Rightarrow> u32" where
  "ticks_per_cycle cycle_time_nano =
     (let cycle_ns = ucast (max cycle_time_nano 1) :: u64;
          ticks = div_ceil cycle_ns CYCLE_COUNTER_TICK_NS
      in ucast (max ticks 1))"

text \<open>\<open>x as u32\<close> on a float saturates at both ends of the range.\<close>

definition f64_as_u32 :: "real \<Rightarrow> u32" where
  "f64_as_u32 x = (if x < 0 then 0 else if 2 ^ 32 \<le> x then - 1 else of_int \<lfloor>x\<rfloor>)"

definition tolerance_ticks :: "u32 \<Rightarrow> u32" where
  "tolerance_ticks cycle_time_nano =
     (let cycle_ns = real (unat (max cycle_time_nano 1));
          tolerance_ns = f64_mul cycle_ns ALLOWED_MULTIPLE_OVER_CYCLE_TIME;
          ticks = f64_as_u32 (of_int \<lceil>f64_div tolerance_ns (real (unat CYCLE_COUNTER_TICK_NS))\<rceil>)
      in max ticks 1)"

text \<open>The destination octets are indexed: fewer than six is a panic, \<open>None\<close>.\<close>

definition parse_destination_mac :: "stream_config \<Rightarrow> mac_addr option" where
  "parse_destination_mac stream =
     (let m = sc_destination_mac stream in
      if length m < 6 then None
      else Some (MacAddr (m ! 0) (m ! 1) (m ! 2) (m ! 3) (m ! 4) (m ! 5)))"

definition absolute_cycle_jitter_ns :: "u64 \<Rightarrow> u64 \<Rightarrow> u64" where
  "absolute_cycle_jitter_ns observed_cycle_ns target_cycle_ns =
     abs_diff observed_cycle_ns target_cycle_ns"

section \<open>Cycle statistics\<close>

record cycle_metrics =
  cm_min_ns :: "u64 option"
  cm_max_ns :: "u64 option"
  cm_total_ns :: u128
  cm_samples :: u64

definition cycle_metrics_default :: cycle_metrics where
  "cycle_metrics_default =
     \<lparr>cm_min_ns = None, cm_max_ns = None, cm_total_ns = 0, cm_samples = 0\<rparr>"

definition metrics_record :: "cycle_metrics \<Rightarrow> u64 \<Rightarrow> cycle_metrics" where
  "metrics_record m cycle_ns =
     m\<lparr>cm_min_ns := Some (case cm_min_ns m of None \<Rightarrow> cycle_ns | Some v \<Rightarrow> min v cycle_ns),
       cm_max_ns := Some (case cm_max_ns m of None \<Rightarrow> cycle_ns | Some v \<Rightarrow> max v cycle_ns),
       cm_total_ns := saturating_add (cm_total_ns m) (ucast cycle_ns),
       cm_samples := saturating_add (cm_samples m) 1\<rparr>"

definition average_ns :: "cycle_metrics \<Rightarrow> u64 option" where
  "average_ns m = (if cm_samples m = 0 then None
                   else Some (ucast (cm_total_ns m div ucast (cm_samples m))))"

definition metrics_values :: "cycle_metrics \<Rightarrow> (u64 \<times> u64 \<times> u64) option" where
  "metrics_values m = do {
     mn \<leftarrow> cm_min_ns m;
     mx \<leftarrow> cm_max_ns m;
     av \<leftarrow> average_ns m;
     Some (mn, mx, av)
   }"

section \<open>What the arithmetic computes\<close>

lemma unat_gcd_u32: "unat (gcd_u32 a b) = gcd (unat a) (unat b)"
proof (induction a b rule: gcd_u32.induct)
  case (1 a b)
  show ?case
  proof (cases "b = 0")
    case True
    then show ?thesis by (simp add: gcd_u32.simps)
  next
    case False
    then have "unat (gcd_u32 a b) = gcd (unat b) (unat a mod unat b)"
      using "1.IH" by (simp add: gcd_u32.simps [of a b] unat_mod)
    then show ?thesis by (simp add: gcd.commute flip: gcd_red_nat)
  qed
qed

lemma unat_foldl_gcd: "unat (foldl gcd_u32 a xs) = gcd (unat a) (Gcd (unat ` set xs))"
  by (induction xs arbitrary: a) (simp_all add: unat_gcd_u32 gcd.assoc)

lemma unat_gcd_all: "unat (gcd_all xs) = Gcd (unat ` set xs)"
  by (cases xs) (simp_all add: gcd_all_def unat_foldl_gcd)

lemma unat_tolerance_ticks:
  "unat (tolerance_ticks c) = (3 * unat (max c 1) + 62499) div 62500"
proof -
  define n where "n = int (unat (max c 1))"
  have n: "1 \<le> n" "n < 2 ^ 32"
    using unat_lt [of "max c 1"] by (simp_all add: n_def unat_max)
  have half: "f64_mul (real_of_int n) (3 / 2) = of_int n * (3 / 2)"
    unfolding f64_mul_def
  proof (rule f64_round_exact [where k = 1 and m = 33])
    show "real_of_int n * (3 / 2) * 2 ^ 1 \<in> \<int>" by simp
    have "real_of_int n < 2 ^ 32" using n by (metis of_int_less_iff of_int_numeral of_int_power)
    then show "\<bar>real_of_int n * (3 / 2)\<bar> < 2 ^ 33" using n by simp
  qed simp
  define z where "z = \<lceil>of_int (3 * n) / of_int 62500 :: real\<rceil>"
  have "real_of_int n < 2 ^ 32" using n by (metis of_int_less_iff of_int_numeral of_int_power)
  then have "\<lceil>f64_round (of_int (3 * n) / of_int 62500)\<rceil> = z"
    unfolding z_def using n by (intro ceiling_f64_quotient) simp_all
  moreover have "real_of_int n * (3 / 2) / 31250 = of_int (3 * n) / of_int 62500" by simp
  ultimately have ceil: "\<lceil>f64_div (f64_mul (of_int n) (3 / 2)) 31250\<rceil> = z"
    by (simp only: half f64_div_def)
  have z: "z = (3 * n + 62499) div 62500"
  proof -
    define k where "k = (3 * n + 62499) div 62500"
    have "62500 * k = 3 * n + 62499 - (3 * n + 62499) mod 62500"
      unfolding k_def by (rule minus_mod_eq_mult_div [symmetric])
    moreover have "0 \<le> (3 * n + 62499) mod 62500" "(3 * n + 62499) mod 62500 < 62500"
      by simp_all
    ultimately have "62500 * k \<le> 3 * n + 62499" "3 * n + 62499 < 62500 * k + 62500"
      by linarith+
    then have "of_int (k - 1) < (of_int (3 * n) / of_int 62500 :: real)"
      "of_int (3 * n) / of_int 62500 \<le> (of_int k :: real)"
      by (simp_all add: field_simps)
    then show ?thesis unfolding z_def k_def [symmetric] by linarith
  qed
  have zr: "1 \<le> z" "z < 2 ^ 32" using n unfolding z by auto
  have "real (unat (max c 1)) = of_int n" by (simp add: n_def)
  then have "tolerance_ticks c = max (f64_as_u32 (of_int z)) 1"
    using ceil
    by (simp add: tolerance_ticks_def ALLOWED_MULTIPLE_OVER_CYCLE_TIME_def CYCLE_COUNTER_TICK_NS_def)
  also have "f64_as_u32 (of_int z) = of_nat (nat z)"
    using zr by (simp add: f64_as_u32_def)
  finally have "tolerance_ticks c = max (of_nat (nat z)) 1" .
  moreover have "unat (of_nat (nat z) :: u32) = nat z"
    by (simp only: unat_of_nat) (use zr in \<open>simp add: nat_less_iff\<close>)
  ultimately have "unat (tolerance_ticks c) = max (nat z) 1"
    by (simp only: unat_max) simp
  moreover have "1 \<le> nat z" using zr by simp
  moreover have "nat z = (3 * unat (max c 1) + 62499) div 62500"
    by (simp add: z n_def nat_div_distrib nat_add_distrib nat_mult_distrib)
  ultimately show ?thesis by simp
qed

lemma unat_ticks_per_cycle:
  "unat (ticks_per_cycle c) = (unat (max c 1) + 31249) div 31250"
proof -
  let ?n = "unat (max c 1)"
  have n: "1 \<le> ?n" "?n < 2 ^ 32"
    using unat_lt [of "max c 1"] by (simp_all add: unat_max)
  have "unat (div_ceil (ucast (max c 1) :: u64) 31250) = (?n + 31249) div 31250"
    using n by (simp add: unat_div_ceil)
  moreover have "1 \<le> (?n + 31249) div 31250" "(?n + 31249) div 31250 < 2 ^ 32" using n by auto
  ultimately show ?thesis
    by (simp add: ticks_per_cycle_def CYCLE_COUNTER_TICK_NS_def unat_ucast_mod unat_max)
qed

text \<open>
  The counter lives modulo \<open>0xFFFF\<close>, the receivers compare it modulo \<open>2 ^ 16\<close>: each time the
  counter wraps, a sample is one tick ahead of what the receiver expects.
\<close>

definition elapsed_ticks :: "nat \<Rightarrow> nat" where
  "elapsed_ticks total_micros = (total_micros * 4) div 125"

lemma cycle_counter_eq: "cycle_counter t = of_nat (elapsed_ticks t mod 65535)"
  by (simp add: cycle_counter_def elapsed_ticks_def)

lemma of_nat_65535_mult: "(of_nat (65535 * k) :: u16) = - of_nat k"
proof -
  have "(of_nat (65535 * k) + of_nat k :: u16) = of_nat (65536 * k)"
    by (simp flip: of_nat_add)
  also have "\<dots> = 0"
    by (simp only: word_unat_eq_iff unat_of_nat) simp
  finally show ?thesis by (simp add: eq_neg_iff_add_eq_0)
qed

lemma cycle_counter_advance:
  assumes "elapsed_ticks t' = elapsed_ticks t + d"
  shows "cycle_counter t' - (cycle_counter t + of_nat d) =
     of_nat ((elapsed_ticks t mod 65535 + d) div 65535)"
proof -
  define r where "r = elapsed_ticks t mod 65535"
  define k where "k = (r + d) div 65535"
  have new: "cycle_counter t' = of_nat ((r + d) mod 65535)"
    by (simp add: cycle_counter_eq assms r_def mod_simps)
  have "r + d = (r + d) mod 65535 + 65535 * k"
    by (simp add: k_def)
  then have "(of_nat r + of_nat d :: u16) = of_nat ((r + d) mod 65535) + of_nat (65535 * k)"
    by (metis of_nat_add)
  then have "cycle_counter t + of_nat d = cycle_counter t' - of_nat k"
    unfolding of_nat_65535_mult new by (simp add: cycle_counter_eq flip: r_def)
  then show ?thesis unfolding k_def r_def by simp
qed

section \<open>Statistics of a run\<close>

definition record_all :: "u64 list \<Rightarrow> cycle_metrics" where
  "record_all xs = foldl metrics_record cycle_metrics_default xs"

lemma record_all_snoc: "record_all (xs @ [x]) = metrics_record (record_all xs) x"
  by (simp add: record_all_def)

lemma record_all_samples:
  "length xs < 2 ^ 64 \<Longrightarrow> unat (cm_samples (record_all xs)) = length xs"
proof (induction xs rule: rev_induct)
  case Nil
  then show ?case by (simp add: record_all_def cycle_metrics_default_def)
next
  case (snoc x xs)
  then show ?case by (simp add: record_all_snoc metrics_record_def unat_saturating_add)
qed

lemma sum_list_unat_bound: "sum_list (map unat (xs :: u64 list)) \<le> length xs * (2 ^ 64 - 1)"
proof (induction xs)
  case (Cons x xs)
  have "unat x \<le> 2 ^ 64 - 1" using unat_lt [of x] by simp
  with Cons show ?case by simp
qed simp

lemma record_all_total:
  "length xs < 2 ^ 64 \<Longrightarrow> unat (cm_total_ns (record_all xs)) = sum_list (map unat xs)"
proof (induction xs rule: rev_induct)
  case Nil
  then show ?case by (simp add: record_all_def cycle_metrics_default_def)
next
  case (snoc x xs)
  have "sum_list (map unat (xs @ [x])) \<le> length (xs @ [x]) * (2 ^ 64 - 1)"
    by (rule sum_list_unat_bound)
  also have "\<dots> \<le> (2 ^ 64 - 1) * (2 ^ 64 - 1)"
    using snoc.prems by (intro mult_le_mono1) simp
  finally have "sum_list (map unat xs) + unat x \<le> 2 ^ 128 - 1" by simp
  with snoc show ?case
    by (simp add: record_all_snoc metrics_record_def unat_saturating_add)
qed

lemma record_all_min_max:
  "xs \<noteq> [] \<Longrightarrow> cm_min_ns (record_all xs) = Some (Min (set xs)) \<and>
     cm_max_ns (record_all xs) = Some (Max (set xs))"
proof (induction xs rule: rev_induct)
  case (snoc x xs)
  show ?case
  proof (cases "xs = []")
    case True
    then show ?thesis by (simp add: record_all_def metrics_record_def cycle_metrics_default_def)
  next
    case False
    with snoc.IH show ?thesis
      by (simp add: record_all_snoc metrics_record_def min.commute max.commute)
  qed
qed simp

lemma record_all_average:
  assumes "xs \<noteq> []" and "length xs < 2 ^ 64"
  obtains av where "average_ns (record_all xs) = Some av"
    and "unat av = sum_list (map unat xs) div length xs"
proof -
  let ?m = "record_all xs"
  have n: "unat (cm_samples ?m) = length xs" and t: "unat (cm_total_ns ?m) = sum_list (map unat xs)"
    using assms(2) by (simp_all add: record_all_samples record_all_total)
  then have ne: "cm_samples ?m \<noteq> 0" using assms(1) by auto
  have "sum_list (map unat xs) div length xs \<le> 2 ^ 64 - 1"
    using sum_list_unat_bound [of xs] assms(1)
    by (metis div_le_mono length_greater_0_conv nonzero_mult_div_cancel_left neq0_conv)
  moreover have "unat (ucast (cm_samples ?m) :: u128) = length xs"
    by (simp add: n)
  ultimately have "unat (ucast (cm_total_ns ?m div ucast (cm_samples ?m)) :: u64)
      = sum_list (map unat xs) div length xs"
    by (simp only: unat_ucast_mod [where 'b = 64] unat_div t) simp
  with ne that show thesis by (simp add: average_ns_def)
qed

text \<open>The reported triple: smallest, largest and mean sample, without any overflow.\<close>

lemma metrics_values_record_all:
  assumes "xs \<noteq> []" and "length xs < 2 ^ 64"
  shows "\<exists>av. metrics_values (record_all xs) = Some (Min (set xs), Max (set xs), av) \<and>
     unat av = sum_list (map unat xs) div length xs"
  using record_all_min_max [OF assms(1)] record_all_average [OF assms]
  by (metis (no_types, lifting) bind.bind_lunit metrics_values_def)

lemma metrics_values_empty: "metrics_values (record_all []) = None"
  by (simp add: record_all_def metrics_values_def cycle_metrics_default_def)

section \<open>Properties\<close>

text \<open>
  C29 The cycle arithmetic against its mathematics, for all 32-bit arguments: the loop of \<open>gcd_u32\<close>
  ends and \<open>gcd_all\<close> is the greatest common divisor of its list, \<open>ticks_per_cycle\<close> is the cycle time
  in ticks of 31.25 microseconds rounded up, and \<open>tolerance_ticks\<close>, although computed in floating
  point, is exactly one and a half cycle times in ticks rounded up.
\<close>

theorem cycle_arithmetic:
  "unat (gcd_all xs) = Gcd (unat ` set xs) \<and>
   int (unat (ticks_per_cycle c)) = \<lceil>real (unat (max c 1)) / 31250\<rceil> \<and>
   int (unat (tolerance_ticks c)) = \<lceil>3 / 2 * real (unat (max c 1)) / 31250\<rceil>"
proof (intro conjI)
  have ceil: "\<lceil>real a / real b\<rceil> = int ((a + (b - 1)) div b)" if "0 < b" for a b
  proof -
    define q where "q = (a + (b - 1)) div b"
    have "b * q \<le> a + (b - 1)" "a + (b - 1) < b * q + b"
      using that mult_div_mod_eq [of b "a + (b - 1)"] mod_less_divisor [OF that, of "a + (b - 1)"]
      unfolding q_def by linarith+
    then have "real b * (real q - 1) < real a" "real a \<le> real b * real q"
      using that by (simp_all add: algebra_simps flip: of_nat_mult of_nat_add)
    with that show ?thesis
      unfolding q_def [symmetric] by (intro ceiling_unique) (simp_all add: field_simps)
  qed
  show "unat (gcd_all xs) = Gcd (unat ` set xs)" by (rule unat_gcd_all)
  show "int (unat (ticks_per_cycle c)) = \<lceil>real (unat (max c 1)) / 31250\<rceil>"
    using ceil [of 31250 "unat (max c 1)"] by (simp add: unat_ticks_per_cycle)
  show "int (unat (tolerance_ticks c)) = \<lceil>3 / 2 * real (unat (max c 1)) / 31250\<rceil>"
    using ceil [of 62500 "3 * unat (max c 1)"] by (simp add: unat_tolerance_ticks)
qed

text \<open>
  The statistics of a run: after any number of samples below 2 to the 64 the reported triple is
  the smallest, the largest and the mean sample, rounded down; no counter overflows or saturates.
\<close>

lemma cycle_statistics:
  assumes "xs \<noteq> []" and "length xs < 2 ^ 64"
  shows "\<exists>av. metrics_values (foldl metrics_record cycle_metrics_default xs) =
      Some (Min (set xs), Max (set xs), av) \<and> unat av = sum_list (map unat xs) div length xs"
  using metrics_values_record_all [OF assms] by (simp add: record_all_def)

lemma cycle_statistics_example:
  "\<exists>av. metrics_values (foldl metrics_record cycle_metrics_default [3, 1, 7]) = Some (1, 7, av) \<and>
     unat av = 3"
  using cycle_statistics [of "[3, 1, 7]"] by simp

end
