(* ===== verification/Replay_Guard.thy ===== *)
theory Replay_Guard
  imports TSN_Prelude "HOL-Library.Sublist"
begin

text \<open>
  The interfaces the two authenticated protocols share. A sender numbers its messages per key
  with a saturating 64-bit counter and tags them (\<open>sequence_source\<close>); a receiver keeps, per key,
  the last number it accepted and takes an authentic message only above it (\<open>replay_guard\<close>). Two
  ends that hold the same secret form an \<open>authenticated_channel\<close>. The stream store of the cyclic
  protocol and the device table of the discovery protocol provide all three.
\<close>

lemma subseq_set: "subseq xs ys \<Longrightarrow> set xs \<subseteq> set ys"
  by (induction rule: list_emb.induct) auto

lemma sorted_wrt_subseq: "subseq xs ys \<Longrightarrow> sorted_wrt P ys \<Longrightarrow> sorted_wrt P xs"
  by (induction rule: list_emb.induct) (auto dest: subseq_set)

text \<open>A list that is ordered by a number, and whose elements are all in another such list, is a
  subsequence of it.\<close>

lemma subseq_sorted:
  fixes f :: "'a \<Rightarrow> 'b :: linorder"
  assumes "sorted_wrt (<) (map f xs)" and "sorted_wrt (<) (map f ys)" and "set xs \<subseteq> set ys"
  shows "subseq xs ys"
  using assms
proof (induction ys arbitrary: xs)
  case (Cons y ys)
  show ?case
  proof (cases xs)
    case (Cons x xs')
    show ?thesis
    proof (cases "x = y")
      case True
      have "set xs' \<subseteq> set ys" using Cons Cons.prems True by auto
      then show ?thesis using Cons.IH [of xs'] Cons.prems Cons True by simp
    next
      case False
      then have "x \<in> set ys" using Cons Cons.prems(3) by auto
      then have "f y < f x" using Cons.prems(2) by auto
      then have "y \<notin> set xs" using Cons Cons.prems(1) by auto
      then have "subseq xs ys" using Cons.prems by (intro Cons.IH) auto
      then show ?thesis by (rule list_emb_Cons)
    qed
  qed simp
qed simp

section \<open>Numbering the messages of a key\<close>

locale sequence_source =
  fixes issue :: "'m \<Rightarrow> 's \<Rightarrow> (u64 \<times> 't) option \<times> 's"
    and key :: "'m \<Rightarrow> 'k"
    and nextseq :: "'s \<Rightarrow> 'k \<Rightarrow> u64 option"
  assumes issue_known: "nextseq s (key m) = Some n \<Longrightarrow>
      \<exists>t s'. issue m s = (Some (n, t), s') \<and>
        nextseq s' = (nextseq s)(key m \<mapsto> saturating_add n 1)"
    and issue_unknown: "nextseq s (key m) = None \<Longrightarrow> issue m s = (None, s)"
begin

text \<open>What a list of messages is sent as: each message the source numbers, with its number and
  tag.\<close>

primrec sent :: "'m list \<Rightarrow> 's \<Rightarrow> ('m \<times> u64 \<times> 't) list" where
  "sent [] s = []"
| "sent (m # ms) s =
     (case issue m s of
        (None, s') \<Rightarrow> sent ms s'
      | (Some (n, t), s') \<Rightarrow> (m, n, t) # sent ms s')"

definition numbers :: "'k \<Rightarrow> ('m \<times> u64 \<times> 't) list \<Rightarrow> u64 list" where
  "numbers k xs = map (\<lambda>(_, n, _). n) (filter (\<lambda>(m, _, _). key m = k) xs)"

lemma numbers_simps [simp]:
  "numbers k [] = []"
  "numbers k ((m, n, t) # xs) = (if key m = k then n # numbers k xs else numbers k xs)"
  by (simp_all add: numbers_def)

lemma succ_consecutive:
  "map (\<lambda>i. n + 1 + of_nat i) [0..<c] = map (\<lambda>i. n + of_nat (Suc i) :: u64) [0..<c]"
  by (simp add: ac_simps)

text \<open>The numbers of one key are consecutive, whatever is sent for the other keys in between.\<close>

lemma sent_consecutive:
  assumes "nextseq s k = Some n"
    and "unat n + length (filter (\<lambda>m. key m = k) ms) \<le> 2 ^ 64"
  shows "numbers k (sent ms s) =
         map (\<lambda>i. n + of_nat i) [0..<length (filter (\<lambda>m. key m = k) ms)]"
  using assms
proof (induction ms arbitrary: s n)
  case (Cons m ms)
  let ?c = "length (filter (\<lambda>m. key m = k) ms)"
  show ?case
  proof (cases "nextseq s (key m)")
    case None
    then have "key m \<noteq> k" using Cons.prems(1) by auto
    with Cons issue_unknown [OF None] show ?thesis by simp
  next
    case (Some l)
    from issue_known [OF this] obtain t s' where i: "issue m s = (Some (l, t), s')"
      and s': "nextseq s' = (nextseq s)(key m \<mapsto> saturating_add l 1)" by blast
    show ?thesis
    proof (cases "key m = k")
      case True
      with Some Cons.prems have ln: "l = n" and c: "unat n + Suc ?c \<le> 2 ^ 64" by auto
      show ?thesis
      proof (cases "?c = 0")
        case z: True
        then have "\<forall>x \<in> set ms. key x \<noteq> k" by (simp add: filter_empty_conv)
        then have "numbers k (sent ms s') = []" for s'
        proof (induction ms arbitrary: s')
          case (Cons a ms) then show ?case by (auto split: prod.splits option.splits)
        qed simp
        with True i ln z show ?thesis by simp
      next
        case False
        then have less: "unat n + 1 < 2 ^ 64" using c by linarith
        have n1: "saturating_add n 1 = n + 1"
          using less by (simp add: word_unat_eq_iff unat_saturating_add unat_word_ariths)
        then have "nextseq s' k = Some (n + 1)" and "unat (n + 1) + ?c \<le> 2 ^ 64"
          using s' True ln c less by (simp_all add: unat_word_ariths)
        from Cons.IH [OF this] have "numbers k (sent ms s') =
            map (\<lambda>i. n + of_nat (Suc i)) [0..<?c]" by (simp only: succ_consecutive)
        then have "numbers k (sent (m # ms) s) = map (\<lambda>i. n + of_nat i) [0..<Suc ?c]"
          using i ln True by (simp add: upt_conv_Cons map_Suc_upt [symmetric] comp_def
              del: upt_Suc of_nat_Suc)
        then show ?thesis using True by simp
      qed
    next
      case False
      with s' Cons.prems have "nextseq s' k = Some n" by simp
      from Cons.IH [OF this] Cons.prems(2) False i show ?thesis by simp
    qed
  qed
qed simp

lemma inj_consecutive:
  assumes "unat n + c \<le> 2 ^ 64"
  shows "inj_on (\<lambda>i. n + of_nat i :: u64) {0..<c}"
proof (rule inj_onI)
  fix i j
  assume ij: "i \<in> {0..<c}" "j \<in> {0..<c}" "n + of_nat i = n + of_nat j"
  then have "unat (of_nat i :: u64) = unat (of_nat j :: u64)" by simp
  then have "i mod 2 ^ 64 = j mod 2 ^ 64" by (simp add: unat_of_nat)
  with ij assms show "i = j" by simp
qed

text \<open>No number is used twice under one key: a tag never covers two messages.\<close>

lemma sent_distinct:
  assumes "nextseq s k = Some n"
    and "unat n + length (filter (\<lambda>m. key m = k) ms) \<le> 2 ^ 64"
  shows "distinct (numbers k (sent ms s))"
  using inj_consecutive [OF assms(2)]
  by (simp add: sent_consecutive [OF assms] distinct_map inj_on_def)

lemma sent_sorted:
  assumes "nextseq s k = Some n"
    and "unat n + length (filter (\<lambda>m. key m = k) ms) \<le> 2 ^ 64"
  shows "sorted_wrt (<) (numbers k (sent ms s))"
    and "\<forall>q \<in> set (numbers k (sent ms s)). n \<le> q"
proof -
  have u: "unat (n + of_nat i) = unat n + i"
    if "i < length (filter (\<lambda>m. key m = k) ms)" for i
    using assms(2) that by (simp add: unat_word_ariths unat_of_nat)
  show "sorted_wrt (<) (numbers k (sent ms s))"
    by (simp add: sent_consecutive [OF assms] sorted_wrt_iff_nth_less word_less_nat_alt u)
  show "\<forall>q \<in> set (numbers k (sent ms s)). n \<le> q"
    by (auto simp: sent_consecutive [OF assms] word_le_nat_alt u)
qed

end

section \<open>Accepting the messages of a key\<close>

locale replay_guard =
  fixes check :: "'m \<Rightarrow> u64 \<Rightarrow> 't \<Rightarrow> 's \<Rightarrow> bool \<times> 's"
    and key :: "'m \<Rightarrow> 'k"
    and lastseq :: "'s \<Rightarrow> 'k \<Rightarrow> u64 option"
    and authentic :: "'s \<Rightarrow> 'm \<Rightarrow> u64 \<Rightarrow> 't \<Rightarrow> bool"
  assumes check_iff: "fst (check m n t s) \<longleftrightarrow>
      (\<exists>l. lastseq s (key m) = Some l \<and> l < n) \<and> authentic s m n t"
    and check_accept: "fst (check m n t s) \<Longrightarrow>
      lastseq (snd (check m n t s)) = (lastseq s)(key m \<mapsto> n)"
    and check_reject: "\<not> fst (check m n t s) \<Longrightarrow> snd (check m n t s) = s"
    and check_authentic: "authentic (snd (check m n t s)) = authentic s"
begin

text \<open>The verdicts on a list of received messages, and those accepted.\<close>

primrec verdicts :: "('m \<times> u64 \<times> 't) list \<Rightarrow> 's \<Rightarrow> bool list" where
  "verdicts [] s = []"
| "verdicts (x # xs) s =
     (case x of (m, n, t) \<Rightarrow> fst (check m n t s) # verdicts xs (snd (check m n t s)))"

primrec accepted :: "('m \<times> u64 \<times> 't) list \<Rightarrow> 's \<Rightarrow> ('k \<times> u64) list" where
  "accepted [] s = []"
| "accepted (x # xs) s =
     (case x of (m, n, t) \<Rightarrow>
        (let (v, s') = check m n t s
         in if v then (key m, n) # accepted xs s' else accepted xs s'))"

text \<open>The accepted messages themselves, with their numbers.\<close>

primrec taken :: "('m \<times> u64 \<times> 't) list \<Rightarrow> 's \<Rightarrow> ('m \<times> u64) list" where
  "taken [] s = []"
| "taken (x # xs) s =
     (case x of (m, n, t) \<Rightarrow>
        (let (v, s') = check m n t s
         in if v then (m, n) # taken xs s' else taken xs s'))"

lemma accepted_taken: "accepted xs s = map (\<lambda>(m, n). (key m, n)) (taken xs s)"
  by (induction xs arbitrary: s) (simp_all add: case_prod_beta)

lemma taken_authentic:
  "(m, n) \<in> set (taken xs s) \<Longrightarrow> \<exists>t. (m, n, t) \<in> set xs \<and> authentic s m n t"
proof (induction xs arbitrary: s)
  case (Cons x xs)
  obtain m' q t where x: "x = (m', q, t)" by (cases x)
  have auth: "authentic (snd (check m' q t s)) = authentic s" by (rule check_authentic)
  from Cons.prems x consider "m = m'" "n = q" "fst (check m' q t s)"
    | "(m, n) \<in> set (taken xs (snd (check m' q t s)))"
    by (auto simp: case_prod_beta split: if_splits)
  then show ?case
  proof cases
    case 1
    then show ?thesis using x check_iff by auto
  next
    case 2
    from Cons.IH [OF this] show ?thesis using x auth by auto
  qed
qed simp

lemma accepted_Cons_accept:
  "fst (check m n t s) \<Longrightarrow>
   accepted ((m, n, t) # xs) s = (key m, n) # accepted xs (snd (check m n t s))"
  by (simp add: case_prod_beta)

lemma accepted_Cons_reject:
  "\<not> fst (check m n t s) \<Longrightarrow> accepted ((m, n, t) # xs) s = accepted xs s"
  by (simp add: case_prod_beta check_reject)

lemma accepted_above:
  "(k, n) \<in> set (accepted xs s) \<Longrightarrow> \<exists>l. lastseq s k = Some l \<and> l < n"
proof (induction xs arbitrary: s)
  case (Cons x xs)
  obtain m q t where x: "x = (m, q, t)" by (cases x)
  show ?case
  proof (cases "fst (check m q t s)")
    case True
    from Cons.prems x accepted_Cons_accept [OF True]
    consider "k = key m" "n = q" | "(k, n) \<in> set (accepted xs (snd (check m q t s)))"
      by (auto simp del: accepted.simps)
    then show ?thesis
    proof cases
      case 1
      with check_iff True show ?thesis by auto
    next
      case 2
      from Cons.IH [OF this] check_accept [OF True]
      have "\<exists>l. ((lastseq s)(key m \<mapsto> q)) k = Some l \<and> l < n" by simp
      then show ?thesis
        using check_iff [of m q t s] True by (auto split: if_splits intro: less_trans)
    qed
  next
    case False
    with Cons.prems x have "(k, n) \<in> set (accepted xs s)"
      by (simp add: accepted_Cons_reject del: accepted.simps)
    then show ?thesis by (rule Cons.IH)
  qed
qed simp

text \<open>Nothing is accepted twice, whatever an attacker replays or reorders.\<close>

lemma accepted_distinct: "distinct (accepted xs s)"
proof (induction xs arbitrary: s)
  case (Cons x xs)
  obtain m q t where x: "x = (m, q, t)" by (cases x)
  show ?case
  proof (cases "fst (check m q t s)")
    case True
    then have "lastseq (snd (check m q t s)) (key m) = Some q"
      using check_accept by simp
    then have "(key m, q) \<notin> set (accepted xs (snd (check m q t s)))"
      using accepted_above by fastforce
    with Cons.IH x accepted_Cons_accept [OF True] show ?thesis by simp
  qed (use Cons.IH x accepted_Cons_reject in simp)
qed simp

text \<open>The numbers accepted for one key increase.\<close>

lemma accepted_increasing:
  "sorted_wrt (<) (map snd (filter (\<lambda>(k', _). k' = k) (accepted xs s)))"
proof (induction xs arbitrary: s)
  case (Cons x xs)
  obtain m q t where x: "x = (m, q, t)" by (cases x)
  show ?case
  proof (cases "fst (check m q t s)")
    case True
    have "\<forall>(k', n) \<in> set (accepted xs (snd (check m q t s))). k' = key m \<longrightarrow> q < n"
      using accepted_above check_accept [OF True] by fastforce
    with Cons.IH x accepted_Cons_accept [OF True] show ?thesis by auto
  qed (use Cons.IH x accepted_Cons_reject in simp)
qed simp

lemma taken_increasing:
  "sorted_wrt (<) (map snd (filter (\<lambda>(m, _). key m = k) (taken xs s)))"
proof -
  have "map snd (filter (\<lambda>(k', _). k' = k) (map (\<lambda>(m, n). (key m, n)) ys)) =
      map snd (filter (\<lambda>(m, _). key m = k) ys)" for ys :: "('m \<times> u64) list"
    by (induction ys) auto
  then show ?thesis using accepted_increasing [of k xs s] by (simp only: accepted_taken)
qed

lemma length_verdicts [simp]: "length (verdicts xs s) = length xs"
  by (induction xs arbitrary: s) (auto split: prod.splits)

lemma verdict_above:
  "j < length xs \<Longrightarrow> verdicts xs s ! j \<Longrightarrow> xs ! j = (m, n, t) \<Longrightarrow>
   \<exists>l. lastseq s (key m) = Some l \<and> l < n"
proof (induction xs arbitrary: s j)
  case (Cons x xs)
  obtain m' q t' where x: "x = (m', q, t')" by (cases x)
  show ?case
  proof (cases j)
    case 0
    with Cons.prems x check_iff show ?thesis by auto
  next
    case (Suc j')
    with Cons x have "\<exists>l. lastseq (snd (check m' q t' s)) (key m) = Some l \<and> l < n" by simp
    then show ?thesis
      using check_iff [of m' q t' s] check_accept [of m' q t' s] check_reject [of m' q t' s]
      by (cases "fst (check m' q t' s)") (auto split: if_splits intro: less_trans)
  qed
qed simp

text \<open>Of two accepted messages of one key the later one has the larger number.\<close>

lemma verdicts_increasing:
  "i < j \<Longrightarrow> j < length xs \<Longrightarrow> verdicts xs s ! i \<Longrightarrow> verdicts xs s ! j \<Longrightarrow>
   xs ! i = (m, n, t) \<Longrightarrow> xs ! j = (m', n', t') \<Longrightarrow> key m = key m' \<Longrightarrow> n < n'"
proof (induction xs arbitrary: s i j)
  case (Cons x xs)
  obtain j' where j: "j = Suc j'" using Cons.prems(1) by (cases j) auto
  obtain a b c where abc: "x = (a, b, c)" by (cases x)
  show ?case
  proof (cases i)
    case 0
    with Cons.prems have x: "x = (m, n, t)" and v: "fst (check m n t s)" by auto
    have "\<exists>l. lastseq (snd (check m n t s)) (key m') = Some l \<and> l < n'"
      using Cons.prems x j by (intro verdict_above [of j' xs]) auto
    then show ?thesis using check_accept [OF v] Cons.prems(7) by simp
  next
    case (Suc i')
    with Cons.prems j abc show ?thesis
      by (intro Cons.IH [of i' j' "snd (check a b c s)"]) simp_all
  qed
qed simp

text \<open>Loss is tolerated: authentic messages in increasing order are all accepted.\<close>

lemma increasing_all_accepted:
  assumes "lastseq s k = Some l"
    and "\<forall>(m, n, t) \<in> set xs. key m = k \<and> authentic s m n t \<and> l < n"
    and "sorted_wrt (<) (map (\<lambda>(_, n, _). n) xs)"
  shows "verdicts xs s = replicate (length xs) True"
  using assms
proof (induction xs arbitrary: s l)
  case (Cons x xs)
  obtain m q t where x: "x = (m, q, t)" by (cases x)
  let ?s' = "snd (check m q t s)"
  have v: "fst (check m q t s)"
    using Cons.prems x by (auto simp: check_iff)
  have l': "lastseq ?s' k = Some q"
    using check_accept [OF v] Cons.prems x by simp
  have "\<forall>(m', n, t') \<in> set xs. key m' = k \<and> authentic ?s' m' n t' \<and> q < n"
    using Cons.prems(2,3) x by (auto simp: check_authentic)
  with Cons.IH [OF l'] Cons.prems(3) x have "verdicts xs ?s' = replicate (length xs) True"
    by simp
  with v x show ?case by simp
qed simp

end

section \<open>The two ends\<close>

text \<open>\<open>agree\<close> holds between a sender and a receiver state that share what makes tags authentic.\<close>

locale authenticated_channel =
  src: sequence_source issue key nextseq + dst: replay_guard check key lastseq authentic
  for issue :: "'m \<Rightarrow> 's \<Rightarrow> (u64 \<times> 't) option \<times> 's"
    and key :: "'m \<Rightarrow> 'k"
    and nextseq :: "'s \<Rightarrow> 'k \<Rightarrow> u64 option"
    and check :: "'m \<Rightarrow> u64 \<Rightarrow> 't \<Rightarrow> 'r \<Rightarrow> bool \<times> 'r"
    and lastseq :: "'r \<Rightarrow> 'k \<Rightarrow> u64 option"
    and authentic :: "'r \<Rightarrow> 'm \<Rightarrow> u64 \<Rightarrow> 't \<Rightarrow> bool" +
  fixes agree :: "'s \<Rightarrow> 'r \<Rightarrow> bool"
  assumes issue_authentic: "agree s r \<Longrightarrow> issue m s = (Some (n, t), s') \<Longrightarrow> authentic r m n t"
    and agree_issue: "agree s r \<Longrightarrow> agree (snd (issue m s)) r"
begin

lemma sent_authentic:
  "agree s r \<Longrightarrow> (m, n, t) \<in> set (src.sent ms s) \<Longrightarrow> authentic r m n t \<and> m \<in> set ms"
proof (induction ms arbitrary: s)
  case (Cons a ms)
  obtain o' s' where i: "issue a s = (o', s')" by (cases "issue a s")
  have "agree s' r" using agree_issue [OF Cons.prems(1), of a] i by simp
  note IH = Cons.IH [OF this]
  show ?case
  proof (cases o')
    case None
    with Cons.prems(2) i IH show ?thesis by simp
  next
    case (Some p)
    obtain q u where "p = (q, u)" by (cases p)
    with Some i Cons.prems(2) IH issue_authentic [OF Cons.prems(1), of a q u s']
    show ?thesis by auto
  qed
qed simp

lemma numbers_same_key:
  "\<forall>m \<in> set ms. key m = k \<Longrightarrow> \<forall>(m, n, t) \<in> set xs. m \<in> set ms \<Longrightarrow>
   src.numbers k xs = map (\<lambda>(_, n, _). n) xs"
  by (induction xs) auto

text \<open>
  Whatever arrives, as long as nobody but the sender makes tags: what the receiver takes of one key is a
  subsequence of what was sent under it. The two ends are a first-in first-out channel that may lose.
\<close>

lemma taken_subseq_sent:
  assumes n: "nextseq s k = Some n" "unat n + length (filter (\<lambda>m. key m = k) ms) \<le> 2 ^ 64"
    and honest: "\<forall>(m, q, t) \<in> set xs. key m = k \<and> authentic r m q t \<longrightarrow> (\<exists>u. (m, q, u) \<in> set (src.sent ms s))"
  shows "subseq (filter (\<lambda>(m, _). key m = k) (dst.taken xs r))
    (map (\<lambda>(m, q, _). (m, q)) (filter (\<lambda>(m, _, _). key m = k) (src.sent ms s)))"
proof (rule subseq_sorted [where f = snd])
  show "sorted_wrt (<) (map snd (filter (\<lambda>(m, _). key m = k) (dst.taken xs r)))"
    by (rule dst.taken_increasing)
  have "map snd (map (\<lambda>(m, q, _). (m, q)) (filter (\<lambda>(m, _, _). key m = k) ys)) = src.numbers k ys"
    for ys :: "('m \<times> u64 \<times> 't) list"
    by (induction ys) auto
  then show "sorted_wrt (<) (map snd (map (\<lambda>(m, q, _). (m, q)) (filter (\<lambda>(m, _, _). key m = k) (src.sent ms s))))"
    using src.sent_sorted(1) [OF n] by simp
  show "set (filter (\<lambda>(m, _). key m = k) (dst.taken xs r)) \<subseteq>
      set (map (\<lambda>(m, q, _). (m, q)) (filter (\<lambda>(m, _, _). key m = k) (src.sent ms s)))"
  proof
    fix x assume "x \<in> set (filter (\<lambda>(m, _). key m = k) (dst.taken xs r))"
    then obtain m q where x: "x = (m, q)" "key m = k" "(m, q) \<in> set (dst.taken xs r)" by auto
    from dst.taken_authentic [OF x(3)] honest x(2) obtain u where "(m, q, u) \<in> set (src.sent ms s)" by blast
    with x(1,2) show "x \<in> set (map (\<lambda>(m, q, _). (m, q)) (filter (\<lambda>(m, _, _). key m = k) (src.sent ms s)))"
      by (force simp: image_iff)
  qed
qed

lemma sent_subseq: "subseq (map fst (src.sent ms s)) ms"
proof (induction ms arbitrary: s)
  case (Cons m ms)
  then show ?case by (cases "issue m s"; cases "fst (issue m s)") auto
qed simp

text \<open>
  Whatever part of a sender's messages arrives in order, the receiver accepts all of it: no
  message lost on the way makes a later one be refused.
\<close>

lemma delivery:
  assumes agree: "agree s r"
    and ms: "\<forall>m \<in> set ms. key m = k"
    and n: "nextseq s k = Some n" "unat n + length ms \<le> 2 ^ 64"
    and l: "lastseq r k = Some l" "l < n"
    and xs: "subseq xs (src.sent ms s)"
  shows "dst.verdicts xs r = replicate (length xs) True"
proof (rule dst.increasing_all_accepted [OF l(1)])
  have flt: "filter (\<lambda>m. key m = k) ms = ms" using ms by simp
  have nums: "src.numbers k (src.sent ms s) = map (\<lambda>(_, n, _). n) (src.sent ms s)"
    using sent_authentic [OF agree] by (intro numbers_same_key [OF ms]) auto
  have sorted: "sorted_wrt (<) (map (\<lambda>(_, n, _). n) (src.sent ms s))"
    and above: "\<forall>q \<in> set (map (\<lambda>(_, n, _). n) (src.sent ms s)). n \<le> q"
    using src.sent_sorted [OF n(1), of ms] n(2) by (simp_all add: flt nums)
  have sub: "set xs \<subseteq> set (src.sent ms s)"
    using xs by (rule subseq_set)
  show "\<forall>(m, n, t) \<in> set xs. key m = k \<and> authentic r m n t \<and> l < n"
    using sub sent_authentic [OF agree] ms above l(2) by fastforce
  show "sorted_wrt (<) (map (\<lambda>(_, n, _). n) xs)"
    using subseq_map [OF xs] sorted by (rule sorted_wrt_subseq)
qed

end

end
