(* ===== verification/Stream_Store.thy ===== *)
theory Stream_Store
  imports L2_Types Replay_Guard
begin

text \<open>
  \<^verbatim>\<open>src/common/src/stream_store.rs\<close>: the configured streams and, per stream, the sequence
  number that authenticates its frames. The \<open>Arc<RwLock<..>>\<close> around the map serialises the
  operations, each of which is one critical section: an operation is a function from the store
  to its result and the store after it. The iteration order of the hash map is a parameter.
\<close>

section \<open>State\<close>

record stream_entry =
  se_stream_config :: stream_config
  se_sequence_number :: u64

record stream_store =
  ss_shared_secret :: bytes
  ss_streams :: "u16 \<rightharpoonup> stream_entry"

definition stream_store_new :: "bytes \<Rightarrow> stream_store" where
  "stream_store_new shared_secret =
     \<lparr>ss_shared_secret = shared_secret, ss_streams = Map.empty\<rparr>"

definition stream_store_from_env ::
    "(string \<Rightarrow> string + bytes) \<Rightarrow> string + string \<Rightarrow> string + stream_store" where
  "stream_store_from_env hex_decode env =
     (case load_shared_secret_from_env hex_decode env of
        Inl e \<Rightarrow> Inl e
      | Inr shared_secret \<Rightarrow> Inr (stream_store_new shared_secret))"

definition stream_store_reset :: "stream_store \<Rightarrow> stream_store" where
  "stream_store_reset s = s\<lparr>ss_streams := Map.empty\<rparr>"

section \<open>Configuration\<close>

definition initial_sequence_number :: "int \<Rightarrow> status_code + u64" where
  "initial_sequence_number dir =
     (case direction_try_from dir of
        None \<Rightarrow> Inl ErrParamInvalid
      | Some Output \<Rightarrow> Inr 1
      | Some Input \<Rightarrow> Inr 0)"

definition stream_id_as_u16 :: "u32 \<Rightarrow> status_code + u16" where
  "stream_id_as_u16 stream_id =
     (if ucast (- 1 :: u16) < stream_id then Inl ErrParamInvalid else Inr (ucast stream_id))"

text \<open>The insertion both operations end with; the map is unchanged on an error.\<close>

definition insert_stream_config :: "stream_config \<Rightarrow> stream_store \<Rightarrow> (status_code + unit) \<times> stream_store" where
  "insert_stream_config cfg s =
     (case stream_id_as_u16 (sc_stream_id cfg) of
        Inl e \<Rightarrow> (Inl e, s)
      | Inr stream_id \<Rightarrow>
          if ss_streams s stream_id \<noteq> None then (Inl ErrParamInvalid, s)
          else case initial_sequence_number (sc_direction cfg) of
                 Inl e \<Rightarrow> (Inl e, s)
               | Inr n \<Rightarrow>
                   (Inr (), s\<lparr>ss_streams := (ss_streams s)(stream_id \<mapsto>
                      \<lparr>se_stream_config = cfg, se_sequence_number = n\<rparr>)\<rparr>))"

definition add_stream_config :: "stream_config \<Rightarrow> stream_store \<Rightarrow> (status_code + unit) \<times> stream_store" where
  "add_stream_config cfg s = insert_stream_config cfg s"

text \<open>The first loop of \<open>add_stream_configs\<close> checks the list; the second inserts, and stops at
  the first identifier the map already holds.\<close>

fun check_stream_configs :: "stream_config list \<Rightarrow> u16 set \<Rightarrow> status_code + unit" where
  "check_stream_configs [] seen_stream_ids = Inr ()"
| "check_stream_configs (cfg # cfgs) seen_stream_ids =
     (case stream_id_as_u16 (sc_stream_id cfg) of
        Inl e \<Rightarrow> Inl e
      | Inr stream_id \<Rightarrow>
          if stream_id \<in> seen_stream_ids then Inl ErrParamInvalid
          else case initial_sequence_number (sc_direction cfg) of
                 Inl e \<Rightarrow> Inl e
               | Inr _ \<Rightarrow> check_stream_configs cfgs (insert stream_id seen_stream_ids))"

fun insert_stream_configs ::
    "stream_config list \<Rightarrow> stream_store \<Rightarrow> (status_code + unit) \<times> stream_store" where
  "insert_stream_configs [] s = (Inr (), s)"
| "insert_stream_configs (cfg # cfgs) s =
     (case insert_stream_config cfg s of
        (Inl e, s') \<Rightarrow> (Inl e, s')
      | (Inr _, s') \<Rightarrow> insert_stream_configs cfgs s')"

definition add_stream_configs ::
    "stream_config list \<Rightarrow> stream_store \<Rightarrow> (status_code + unit) \<times> stream_store" where
  "add_stream_configs cfgs s =
     (case check_stream_configs cfgs {} of
        Inl e \<Rightarrow> (Inl e, s)
      | Inr _ \<Rightarrow> insert_stream_configs cfgs s)"

definition get_stream_config :: "u16 \<Rightarrow> stream_store \<Rightarrow> stream_config option" where
  "get_stream_config stream_id s = map_option se_stream_config (ss_streams s stream_id)"

text \<open>The hash map is walked in some order of its keys, each once.\<close>

definition hash_order :: "('k \<rightharpoonup> 'v) \<Rightarrow> 'k list \<Rightarrow> bool" where
  "hash_order m ks \<longleftrightarrow> distinct ks \<and> set ks = dom m"

definition map_values :: "'k list \<Rightarrow> ('k \<rightharpoonup> 'v) \<Rightarrow> 'v list" where
  "map_values ks m = List.map_filter m ks"

definition get_streams_by_direction ::
    "u16 list \<Rightarrow> direction \<Rightarrow> stream_store \<Rightarrow> stream_config list" where
  "get_streams_by_direction order dir s =
     map se_stream_config
       (filter (\<lambda>stream. sc_direction (se_stream_config stream) = direction_num dir)
          (map_values order (ss_streams s)))"

definition get_all_streams :: "u16 list \<Rightarrow> stream_store \<Rightarrow> stream_config list" where
  "get_all_streams order s = map se_stream_config (map_values order (ss_streams s))"

section \<open>Authentication\<close>

definition serialize_l2_header :: "l2_header \<Rightarrow> bytes" where
  "serialize_l2_header h =
     [l2_version h, ucast (drop_bit 8 (l2_stream_id h)), ucast (l2_stream_id h),
      ucast (drop_bit 8 (l2_cycle_counter h)), ucast (l2_cycle_counter h), l2_status h, l2_flags h]"

definition generate_stream_tag ::
    "keyed_hash \<Rightarrow> l2_header \<Rightarrow> bytes \<Rightarrow> stream_store \<Rightarrow> (status_code + u64 \<times> bytes) \<times> stream_store" where
  "generate_stream_tag H header payload s =
     (let stream_id = l2_stream_id header in
      case ss_streams s stream_id of
        None \<Rightarrow> (Inl ErrStreamIdUnknown, s)
      | Some stream_entry \<Rightarrow>
          (let sequence_number = se_sequence_number stream_entry;
               tag = calculate_hmac H (ss_shared_secret s)
                       [serialize_l2_header header, payload, be64 sequence_number];
               stream_entry' = stream_entry
                 \<lparr>se_sequence_number := saturating_add (se_sequence_number stream_entry) 1\<rparr>
           in (Inr (sequence_number, tag),
               s\<lparr>ss_streams := (ss_streams s)(stream_id \<mapsto> stream_entry')\<rparr>)))"

definition validate_stream_tag ::
    "keyed_hash \<Rightarrow> l2_header \<Rightarrow> bytes \<Rightarrow> u64 \<Rightarrow> bytes \<Rightarrow> stream_store \<Rightarrow>
       (status_code + bool) \<times> stream_store" where
  "validate_stream_tag H header payload received_sequence_number received_auth_tag s =
     (let stream_id = l2_stream_id header in
      case ss_streams s stream_id of
        None \<Rightarrow> (Inl ErrStreamIdUnknown, s)
      | Some stream_entry \<Rightarrow>
          if received_sequence_number \<le> se_sequence_number stream_entry then (Inr False, s)
          else
            (let valid = verify_hmac H (ss_shared_secret s)
                   [serialize_l2_header header, payload, be64 received_sequence_number]
                   received_auth_tag
             in if valid then
                  (Inr valid, s\<lparr>ss_streams := (ss_streams s)(stream_id \<mapsto>
                     stream_entry\<lparr>se_sequence_number := received_sequence_number\<rparr>)\<rparr>)
                else (Inr valid, s)))"

section \<open>The configuration map\<close>

lemma stream_id_as_u16_iff:
  "stream_id_as_u16 i = Inr n \<longleftrightarrow> unat i < 65536 \<and> n = ucast i"
  by (auto simp: stream_id_as_u16_def word_less_nat_alt unat_ucast_up unat_minus_1 linorder_not_less)

lemma stream_id_as_u16_Inl: "stream_id_as_u16 i = Inl e \<Longrightarrow> e = ErrParamInvalid"
  by (simp add: stream_id_as_u16_def split: if_splits)

lemma initial_sequence_number_iff:
  "initial_sequence_number d = Inr n \<longleftrightarrow>
     d = direction_num Output \<and> n = 1 \<or> d = direction_num Input \<and> n = 0"
  by (auto simp: initial_sequence_number_def direction_try_from_def split: if_splits)

lemma initial_sequence_number_Inl: "initial_sequence_number d = Inl e \<Longrightarrow> e = ErrParamInvalid"
  by (auto simp: initial_sequence_number_def split: option.splits direction.splits)

text \<open>A configuration the store can take: an identifier of 16 bits and a known direction.\<close>

definition config_ok :: "stream_config \<Rightarrow> bool" where
  "config_ok cfg \<longleftrightarrow> unat (sc_stream_id cfg) < 65536 \<and> direction_try_from (sc_direction cfg) \<noteq> None"

definition config_id :: "stream_config \<Rightarrow> u16" where
  "config_id cfg = ucast (sc_stream_id cfg)"

definition fresh_entry :: "stream_config \<Rightarrow> stream_entry" where
  "fresh_entry cfg = \<lparr>se_stream_config = cfg,
     se_sequence_number = (if sc_direction cfg = direction_num Output then 1 else 0)\<rparr>"

lemma config_ok_iff:
  "config_ok cfg \<longleftrightarrow> stream_id_as_u16 (sc_stream_id cfg) = Inr (config_id cfg) \<and>
     initial_sequence_number (sc_direction cfg) = Inr (se_sequence_number (fresh_entry cfg))"
  by (auto simp: config_ok_def stream_id_as_u16_iff config_id_def initial_sequence_number_iff
        fresh_entry_def direction_try_from_def)

lemma config_not_ok:
  "\<not> config_ok cfg \<Longrightarrow> stream_id_as_u16 (sc_stream_id cfg) = Inl ErrParamInvalid \<or>
     initial_sequence_number (sc_direction cfg) = Inl ErrParamInvalid"
  by (auto simp: config_ok_def stream_id_as_u16_def word_less_nat_alt unat_minus_1
        initial_sequence_number_def split: option.splits)

lemma insert_stream_config_eq:
  "insert_stream_config cfg s =
     (if config_ok cfg \<and> ss_streams s (config_id cfg) = None
      then (Inr (), s\<lparr>ss_streams := (ss_streams s)(config_id cfg \<mapsto> fresh_entry cfg)\<rparr>)
      else (Inl ErrParamInvalid, s))"
proof (cases "config_ok cfg")
  case True
  then show ?thesis
    by (auto simp: insert_stream_config_def config_ok_iff fresh_entry_def)
next
  case False
  with config_not_ok [OF False] show ?thesis
    by (auto simp: insert_stream_config_def dest: stream_id_as_u16_Inl split: sum.splits)
qed

lemma check_stream_configs_iff:
  "check_stream_configs cfgs seen =
     (if (\<forall>cfg \<in> set cfgs. config_ok cfg) \<and> distinct (map config_id cfgs) \<and>
         set (map config_id cfgs) \<inter> seen = {}
      then Inr () else Inl ErrParamInvalid)"
proof (induction cfgs arbitrary: seen)
  case (Cons cfg cfgs)
  show ?case
  proof (cases "config_ok cfg")
    case True
    then show ?thesis using Cons.IH by (auto simp: config_ok_iff)
  next
    case False
    with config_not_ok [OF False] show ?thesis
      by (auto dest: stream_id_as_u16_Inl split: sum.splits)
  qed
qed simp

text \<open>What the map holds after a list is inserted; \<open>map_of\<close> of the list is its abstraction.\<close>

definition config_map :: "stream_config list \<Rightarrow> u16 \<rightharpoonup> stream_entry" where
  "config_map cfgs = map_of (map (\<lambda>cfg. (config_id cfg, fresh_entry cfg)) cfgs)"

lemma dom_config_map: "dom (config_map cfgs) = config_id ` set cfgs"
  by (auto simp: config_map_def dom_map_of_conv_image_fst image_iff)

lemma insert_stream_configs_ok:
  assumes "\<forall>cfg \<in> set cfgs. config_ok cfg" and "distinct (map config_id cfgs)"
    and "config_id ` set cfgs \<inter> dom (ss_streams s) = {}"
  shows "insert_stream_configs cfgs s =
     (Inr (), s\<lparr>ss_streams := ss_streams s ++ config_map cfgs\<rparr>)"
  using assms
proof (induction cfgs arbitrary: s)
  case (Cons cfg cfgs)
  let ?s = "s\<lparr>ss_streams := (ss_streams s)(config_id cfg \<mapsto> fresh_entry cfg)\<rparr>"
  have ins: "insert_stream_config cfg s = (Inr (), ?s)"
    using Cons.prems by (auto simp: insert_stream_config_eq)
  have "insert_stream_configs cfgs ?s =
      (Inr (), ?s\<lparr>ss_streams := ss_streams ?s ++ config_map cfgs\<rparr>)"
  proof (rule Cons.IH)
    show "config_id ` set cfgs \<inter> dom (ss_streams ?s) = {}"
      using Cons.prems(2,3) by (simp add: Int_commute)
  qed (use Cons.prems in simp_all)
  moreover have "ss_streams ?s ++ config_map cfgs = ss_streams s ++ config_map (cfg # cfgs)"
  proof -
    have "config_id cfg \<notin> dom (config_map cfgs)"
      using Cons.prems(2) by (auto simp: dom_config_map)
    then show ?thesis
      by (simp add: config_map_def map_add_upd_left map_add_upd)
  qed
  ultimately show ?case using ins by simp
qed (simp add: config_map_def)

lemma insert_stream_configs_append:
  "insert_stream_configs (pre @ post) s =
     (case insert_stream_configs pre s of
        (Inl e, s') \<Rightarrow> (Inl e, s')
      | (Inr _, s') \<Rightarrow> insert_stream_configs post s')"
  by (induction pre arbitrary: s) (auto split: prod.splits sum.splits)

definition addable :: "stream_config list \<Rightarrow> stream_store \<Rightarrow> bool" where
  "addable cfgs s \<longleftrightarrow> (\<forall>cfg \<in> set cfgs. config_ok cfg) \<and> distinct (map config_id cfgs) \<and>
     config_id ` set cfgs \<inter> dom (ss_streams s) = {}"

lemma add_stream_configs_ok_lemma:
  "addable cfgs s \<Longrightarrow>
   add_stream_configs cfgs s = (Inr (), s\<lparr>ss_streams := ss_streams s ++ config_map cfgs\<rparr>)"
  by (simp add: addable_def add_stream_configs_def check_stream_configs_iff insert_stream_configs_ok)

text \<open>
  A list that passes the first loop but meets an identifier the map holds: what stands before
  it in the list stays inserted.
\<close>

lemma add_stream_configs_conflict_lemma:
  assumes "\<forall>c \<in> set (pre @ cfg # post). config_ok c"
    and "distinct (map config_id (pre @ cfg # post))"
    and "config_id ` set pre \<inter> dom (ss_streams s) = {}" and "config_id cfg \<in> dom (ss_streams s)"
  shows "add_stream_configs (pre @ cfg # post) s =
     (Inl ErrParamInvalid, s\<lparr>ss_streams := ss_streams s ++ config_map pre\<rparr>)"
proof -
  have "insert_stream_configs pre s = (Inr (), s\<lparr>ss_streams := ss_streams s ++ config_map pre\<rparr>)"
    using assms by (intro insert_stream_configs_ok) auto
  moreover have "insert_stream_config cfg (s\<lparr>ss_streams := ss_streams s ++ config_map pre\<rparr>) =
      (Inl ErrParamInvalid, s\<lparr>ss_streams := ss_streams s ++ config_map pre\<rparr>)"
    using assms(4) by (auto simp: insert_stream_config_eq map_add_None)
  ultimately show ?thesis
    using assms(1,2)
    by (simp add: add_stream_configs_def check_stream_configs_iff insert_stream_configs_append)
qed

lemma add_stream_configs_iff:
  "fst (add_stream_configs cfgs s) = Inr () \<longleftrightarrow> addable cfgs s"
proof
  assume ok: "fst (add_stream_configs cfgs s) = Inr ()"
  then have c: "\<forall>cfg \<in> set cfgs. config_ok cfg" "distinct (map config_id cfgs)"
    by (auto simp: add_stream_configs_def check_stream_configs_iff split: if_splits)
  have "config_id ` set cfgs \<inter> dom (ss_streams s) = {}"
  proof (rule ccontr)
    let ?P = "\<lambda>cfg. config_id cfg \<in> dom (ss_streams s)"
    assume "config_id ` set cfgs \<inter> dom (ss_streams s) \<noteq> {}"
    then have "\<exists>cfg \<in> set cfgs. ?P cfg" by auto
    from split_list_first_prop [OF this] obtain pre cfg post where
      "cfgs = pre @ cfg # post" "?P cfg" "\<forall>c \<in> set pre. \<not> ?P c" by auto
    moreover from this(3) have "config_id ` set pre \<inter> dom (ss_streams s) = {}" by blast
    ultimately show False
      using add_stream_configs_conflict_lemma [of pre cfg post s] c ok by simp
  qed
  with c show "addable cfgs s" by (simp add: addable_def)
qed (simp add: add_stream_configs_ok_lemma)

text \<open>The invariant of a store: every entry lies under its own identifier and is configured
  with a direction; a sender's counter starts at 1.\<close>

definition store_ok :: "stream_store \<Rightarrow> bool" where
  "store_ok s \<longleftrightarrow> (\<forall>i e. ss_streams s i = Some e \<longrightarrow>
     config_ok (se_stream_config e) \<and> config_id (se_stream_config e) = i \<and>
     (sc_direction (se_stream_config e) = direction_num Output \<longrightarrow> 1 \<le> se_sequence_number e))"

named_theorems store_inv

lemma store_ok_new [store_inv]: "store_ok (stream_store_new secret)"
  and store_ok_reset [store_inv]: "store_ok (stream_store_reset s)"
  by (simp_all add: store_ok_def stream_store_new_def stream_store_reset_def)

lemma store_ok_insert [store_inv]: "store_ok s \<Longrightarrow> store_ok (snd (insert_stream_config cfg s))"
  by (auto simp: insert_stream_config_eq store_ok_def fresh_entry_def)

lemma store_ok_inserts: "store_ok s \<Longrightarrow> store_ok (snd (insert_stream_configs cfgs s))"
proof (induction cfgs arbitrary: s)
  case (Cons cfg cfgs)
  obtain r s' where i: "insert_stream_config cfg s = (r, s')" by fastforce
  with store_ok_insert [OF Cons.prems, of cfg] have "store_ok s'" by simp
  with Cons.IH [of s'] i show ?case by (cases r) simp_all
qed simp

lemma store_ok_add [store_inv]:
  "store_ok s \<Longrightarrow> store_ok (snd (add_stream_config cfg s))"
  "store_ok s \<Longrightarrow> store_ok (snd (add_stream_configs cfgs s))"
  by (auto simp: add_stream_config_def add_stream_configs_def store_ok_insert store_ok_inserts
      split: sum.splits)

lemma map_values_hash_order:
  "hash_order m ks \<Longrightarrow> set (map_values ks m) = ran m"
  by (auto simp: map_values_def hash_order_def List.map_filter_def ran_def image_iff)
     (metis domI option.sel option.distinct(1))

lemma get_streams_by_direction_set:
  "hash_order (ss_streams s) order \<Longrightarrow>
   set (get_streams_by_direction order d s) =
     {cfg. \<exists>i. get_stream_config i s = Some cfg \<and> sc_direction cfg = direction_num d}"
  by (auto simp: get_streams_by_direction_def map_values_hash_order get_stream_config_def ran_def)

section \<open>The authenticated channel\<close>

lemma serialize_l2_header_eq: "serialize_l2_header h = l2_header_bytes h"
  by (simp add: serialize_l2_header_def l2_header_bytes_def l2_header_write_to_def numeral_eq_Suc)

text \<open>What the tag covers determines header, payload and number.\<close>

lemma stream_message_inject:
  "concat [serialize_l2_header h, p, be64 n] = concat [serialize_l2_header h', p', be64 n'] \<longleftrightarrow>
   h = h' \<and> p = p' \<and> n = n'"
proof
  assume "concat [serialize_l2_header h, p, be64 n] = concat [serialize_l2_header h', p', be64 n']"
  then have e: "l2_header_bytes h @ (p @ be64 n) = l2_header_bytes h' @ (p' @ be64 n')"
    by (simp add: serialize_l2_header_eq)
  then have "h = h'" and "p @ be64 n = p' @ be64 n'"
    using l2h.wr_prefix_free [OF _ _ e] by simp_all
  moreover from this(2) have "p = p' \<and> be64 n = be64 n'"
    by (simp add: append_eq_append_conv)
  moreover from this have "(from_be (be64 n) :: u64) = from_be (be64 n')" by simp
  then have "n = n'" by simp
  ultimately show "h = h' \<and> p = p' \<and> n = n'" by simp
qed simp

definition stream_key :: "l2_header \<times> bytes \<Rightarrow> u16" where
  "stream_key m = l2_stream_id (fst m)"

definition stream_number :: "stream_store \<Rightarrow> u16 \<rightharpoonup> u64" where
  "stream_number s = (\<lambda>i. map_option se_sequence_number (ss_streams s i))"

definition stream_issue ::
    "keyed_hash \<Rightarrow> l2_header \<times> bytes \<Rightarrow> stream_store \<Rightarrow> (u64 \<times> bytes) option \<times> stream_store" where
  "stream_issue H m s =
     (case generate_stream_tag H (fst m) (snd m) s of
        (Inl _, s') \<Rightarrow> (None, s') | (Inr x, s') \<Rightarrow> (Some x, s'))"

definition stream_check ::
    "keyed_hash \<Rightarrow> l2_header \<times> bytes \<Rightarrow> u64 \<Rightarrow> bytes \<Rightarrow> stream_store \<Rightarrow> bool \<times> stream_store" where
  "stream_check H m n t s =
     (case validate_stream_tag H (fst m) (snd m) n t s of
        (Inl _, s') \<Rightarrow> (False, s') | (Inr v, s') \<Rightarrow> (v, s'))"

definition stream_authentic ::
    "keyed_hash \<Rightarrow> stream_store \<Rightarrow> l2_header \<times> bytes \<Rightarrow> u64 \<Rightarrow> bytes \<Rightarrow> bool" where
  "stream_authentic H s m n t = verify_hmac H (ss_shared_secret s)
     [serialize_l2_header (fst m), snd m, be64 n] t"

interpretation stream: authenticated_channel "stream_issue H" stream_key stream_number
    "stream_check H" stream_number "stream_authentic H" "\<lambda>s r. ss_shared_secret s = ss_shared_secret r"
  for H
proof unfold_locales
  fix m :: "l2_header \<times> bytes" and s and n :: u64 and t
  show "stream_number s (stream_key m) = Some n \<Longrightarrow>
      \<exists>t s'. stream_issue H m s = (Some (n, t), s') \<and>
        stream_number s' = (stream_number s)(stream_key m \<mapsto> saturating_add n 1)"
    by (auto simp: stream_issue_def generate_stream_tag_def stream_number_def stream_key_def Let_def
        fun_eq_iff)
  show "stream_number s (stream_key m) = None \<Longrightarrow> stream_issue H m s = (None, s)"
    by (auto simp: stream_issue_def generate_stream_tag_def stream_number_def stream_key_def)
  show "fst (stream_check H m n t s) \<longleftrightarrow>
      (\<exists>l. stream_number s (stream_key m) = Some l \<and> l < n) \<and> stream_authentic H s m n t"
    by (auto simp: stream_check_def validate_stream_tag_def stream_number_def stream_key_def
        stream_authentic_def Let_def split: option.splits)
  show "fst (stream_check H m n t s) \<Longrightarrow>
      stream_number (snd (stream_check H m n t s)) = (stream_number s)(stream_key m \<mapsto> n)"
    by (auto simp: stream_check_def validate_stream_tag_def stream_number_def stream_key_def Let_def
        fun_eq_iff split: option.splits if_splits)
  show "\<not> fst (stream_check H m n t s) \<Longrightarrow> snd (stream_check H m n t s) = s"
    by (auto simp: stream_check_def validate_stream_tag_def Let_def split: option.splits if_splits)
  show "stream_authentic H (snd (stream_check H m n t s)) = stream_authentic H s"
    by (auto simp: stream_check_def validate_stream_tag_def stream_authentic_def Let_def fun_eq_iff
        split: option.splits)
next
  fix s r s' :: stream_store and m n t
  assume a: "ss_shared_secret s = ss_shared_secret r"
  show "stream_issue H m s = (Some (n, t), s') \<Longrightarrow> stream_authentic H r m n t"
    using a by (auto simp: stream_issue_def generate_stream_tag_def stream_authentic_def Let_def
        verify_hmac_own split: option.splits)
  show "ss_shared_secret (snd (stream_issue H m s)) = ss_shared_secret r"
    using a by (auto simp: stream_issue_def generate_stream_tag_def Let_def split: option.splits)
qed

section \<open>Runs\<close>

lemma subseq_drop: "subseq (drop n xs) xs"
  by (metis append_take_drop_id subseq_drop_many subseq_order.refl)

text \<open>A sender tags a list of frames one after the other; a receiver checks a list of frames, and
  the run records, per accepted frame, its stream and number.\<close>

fun tag_all ::
    "keyed_hash \<Rightarrow> (l2_header \<times> bytes) list \<Rightarrow> stream_store \<Rightarrow>
       ((l2_header \<times> bytes) \<times> u64 \<times> bytes) list" where
  "tag_all H [] s = []"
| "tag_all H ((h, p) # ms) s =
     (case generate_stream_tag H h p s of
        (Inl _, s') \<Rightarrow> tag_all H ms s'
      | (Inr (n, t), s') \<Rightarrow> ((h, p), n, t) # tag_all H ms s')"

fun check_all ::
    "keyed_hash \<Rightarrow> ((l2_header \<times> bytes) \<times> u64 \<times> bytes) list \<Rightarrow> stream_store \<Rightarrow>
       (status_code + bool) list" where
  "check_all H [] s = []"
| "check_all H (((h, p), n, t) # xs) s =
     (let (v, s') = validate_stream_tag H h p n t s in v # check_all H xs s')"

fun accepted_frames ::
    "keyed_hash \<Rightarrow> ((l2_header \<times> bytes) \<times> u64 \<times> bytes) list \<Rightarrow> stream_store \<Rightarrow> (u16 \<times> u64) list" where
  "accepted_frames H [] s = []"
| "accepted_frames H (((h, p), n, t) # xs) s =
     (case validate_stream_tag H h p n t s of
        (Inr True, s') \<Rightarrow> (l2_stream_id h, n) # accepted_frames H xs s'
      | (_, s') \<Rightarrow> accepted_frames H xs s')"

lemma stream_issue_cases:
  "generate_stream_tag H h p s = (Inl e, s') \<Longrightarrow> stream_issue H (h, p) s = (None, s')"
  "generate_stream_tag H h p s = (Inr x, s') \<Longrightarrow> stream_issue H (h, p) s = (Some x, s')"
  by (simp_all add: stream_issue_def)

lemma stream_check_cases:
  "validate_stream_tag H h p n t s = (Inl e, s') \<Longrightarrow> stream_check H (h, p) n t s = (False, s')"
  "validate_stream_tag H h p n t s = (Inr v, s') \<Longrightarrow> stream_check H (h, p) n t s = (v, s')"
  by (simp_all add: stream_check_def)

lemma stream_key_pair [simp]: "stream_key (h, p) = l2_stream_id h"
  by (simp add: stream_key_def)

lemma tag_all_sent: "tag_all H ms s = stream.src.sent H ms s"
  by (induction H ms s rule: tag_all.induct)
     (auto simp: stream_issue_cases split: sum.splits prod.splits)

lemma check_all_verdicts:
  "map (\<lambda>v. v = Inr True) (check_all H xs s) = stream.dst.verdicts H xs s"
proof (induction H xs s rule: check_all.induct)
  case (2 H h p n t xs s)
  then show ?case
    by (cases "validate_stream_tag H h p n t s"; cases "fst (validate_stream_tag H h p n t s)")
       (auto simp: stream_check_cases)
qed simp

lemma accepted_frames_accepted: "accepted_frames H xs s = stream.dst.accepted H xs s"
  by (induction H xs s rule: accepted_frames.induct)
     (auto simp: stream_check_cases split: sum.splits prod.splits bool.splits)

section \<open>Properties\<close>

text \<open>
  Replay protection of the cyclic protocol: whatever list of frames reaches a receiver, with
  replays, reorderings and forgeries, the sequence numbers it accepts on one stream strictly
  increase. No frame is accepted twice.
\<close>

lemma stream_numbers_increase:
  "sorted_wrt (<) (map snd (filter (\<lambda>(i', _). i' = i) (accepted_frames H xs s)))"
  unfolding accepted_frames_accepted by (rule stream.dst.accepted_increasing)

text \<open>
  C14 Delivery on the cyclic protocol: of the frames a sender tags on one stream, any part that
  arrives in order is accepted completely by a receiver that holds the same secret and has not
  seen the sender's next number. Lost frames never make a later one be refused.
\<close>

theorem stream_delivery:
  assumes "ss_shared_secret s = ss_shared_secret r"
    and "\<forall>(h, p) \<in> set ms. l2_stream_id h = i"
    and "stream_number s i = Some n" and "unat n + length ms \<le> 2 ^ 64"
    and "stream_number r i = Some l" and "l < n"
    and "subseq xs (tag_all H ms s)"
  shows "check_all H xs r = replicate (length xs) (Inr True)"
proof -
  have "stream.dst.verdicts H xs r = replicate (length xs) True"
    using assms by (intro stream.delivery [of s r ms i n l]) (auto simp: tag_all_sent)
  then have "map (\<lambda>v. v = Inr True) (check_all H xs r) = replicate (length xs) True"
    by (simp only: check_all_verdicts)
  moreover from this have "length (check_all H xs r) = length xs"
    by (metis length_map length_replicate)
  ultimately show ?thesis
    by (intro replicate_eqI) (auto dest!: arg_cong [where f = set])
qed

definition example_config :: "u32 \<Rightarrow> direction \<Rightarrow> stream_config" where
  "example_config i d = \<lparr>sc_stream_id = i, sc_destination_mac = [2, 0, 0, 0, 0, 1],
     sc_vlan_id_pcp = 100, sc_cycle_time_nano = 1000000, sc_direction = direction_num d,
     sc_stream_content = None\<rparr>"

definition example_store :: "direction \<Rightarrow> stream_store" where
  "example_store d = snd (add_stream_config (example_config 1 d) (stream_store_new (replicate 32 7)))"

lemma example_config_simps [simp]:
  "config_ok (example_config i d) \<longleftrightarrow> unat i < 65536"
  "config_id (example_config i d) = ucast i"
  "sc_direction (example_config i d) = direction_num d"
  by (simp_all add: config_ok_def config_id_def example_config_def)

lemma example_store_eq: "example_store d = \<lparr>ss_shared_secret = replicate 32 7,
    ss_streams = [1 \<mapsto> fresh_entry (example_config 1 d)]\<rparr>"
  by (simp add: example_store_def add_stream_config_def insert_stream_config_eq stream_store_new_def)

theorem stream_delivery_witness:
  "let h = (\<lambda>c. l2_header_new 1 c 0);
       sent = tag_all checksum_hash [(h 1, [10]), (h 2, [11]), (h 3, [12])] (example_store Output)
   in check_all checksum_hash (drop 1 sent) (example_store Input) =
      replicate (length (drop 1 sent)) (Inr True) \<and> length (drop 1 sent) = 2"
proof -
  let ?h = "\<lambda>c. l2_header_new 1 c 0"
  let ?sent = "tag_all checksum_hash [(?h 1, [10]), (?h 2, [11]), (?h 3, [12])] (example_store Output)"
  have "check_all checksum_hash (drop 1 ?sent) (example_store Input) =
      replicate (length (drop 1 ?sent)) (Inr True)"
    by (rule stream_delivery [of "example_store Output" "example_store Input"
          "[(?h 1, [10]), (?h 2, [11]), (?h 3, [12])]" 1 1 0])
       (simp_all add: example_store_eq stream_number_def fresh_entry_def l2_header_new_def
          subseq_drop)
  moreover have "length (drop 1 ?sent) = 2"
    by (simp add: example_store_eq generate_stream_tag_def l2_header_new_def Let_def)
  ultimately show ?thesis by (simp only: Let_def)
qed

text \<open>
  Validation, case by case: \<open>validate_stream_tag\<close> refuses an unknown stream with an error,
  accepts exactly a tag that is the truncated keyed hash of header, payload and number under a
  number above the stream's last one, and changes the store only then, to that number.
\<close>

lemma validate_stream_tag_spec:
  assumes "keyed_hash_ok H" and "length tag = AUTH_TAG_SIZE"
  shows "validate_stream_tag H h p n tag s =
     (case ss_streams s (l2_stream_id h) of
        None \<Rightarrow> (Inl ErrStreamIdUnknown, s)
      | Some e \<Rightarrow>
          if se_sequence_number e < n \<and>
             tag = take 8 (H (ss_shared_secret s) (l2_header_bytes h @ p @ be64 n))
          then (Inr True, s\<lparr>ss_streams := (ss_streams s)(l2_stream_id h \<mapsto>
                  e\<lparr>se_sequence_number := n\<rparr>)\<rparr>)
          else (Inr False, s))"
  using assms
  by (auto simp: validate_stream_tag_def verify_hmac_iff calculate_hmac_eq serialize_l2_header_eq
      Let_def split: option.splits)

lemma validate_stream_tag_spec_example:
  "let h = l2_header_new 1 0 0; n = 5 :: u64;
       tag = take 8 (checksum_hash (replicate 32 7) (l2_header_bytes h @ [42] @ be64 n))
   in fst (validate_stream_tag checksum_hash h [42] n tag (example_store Input)) = Inr True"
  using validate_stream_tag_spec [OF checksum_hash_ok,
      of "take 8 (checksum_hash (replicate 32 7) (l2_header_bytes (l2_header_new 1 0 0) @ [42] @ be64 5))"
        "l2_header_new 1 0 0" "[42]" 5 "example_store Input"]
  by (simp add: example_store_eq fresh_entry_def l2_header_new_def Let_def checksum_hash_def)

text \<open>
  Adding a list of streams succeeds exactly when every identifier has 16 bits and every
  direction is known, the identifiers are pairwise different and none is in the store; then each
  stream gets a fresh entry with the initial sequence number of its direction and the others
  are kept.
\<close>

lemma add_stream_configs_success:
  "(fst (add_stream_configs cfgs s) = Inr () \<longleftrightarrow>
      (\<forall>cfg \<in> set cfgs. config_ok cfg) \<and> distinct (map config_id cfgs) \<and>
      config_id ` set cfgs \<inter> dom (ss_streams s) = {}) \<and>
   (fst (add_stream_configs cfgs s) = Inr () \<longrightarrow>
      snd (add_stream_configs cfgs s) = s\<lparr>ss_streams := ss_streams s ++ config_map cfgs\<rparr>)"
  using add_stream_configs_iff [of cfgs s] add_stream_configs_ok_lemma [of cfgs s]
  by (auto simp: addable_def)

lemma add_stream_configs_success_example:
  "fst (add_stream_configs [example_config 1 Input, example_config 2 Output]
      (stream_store_new [])) = Inr ()"
  using add_stream_configs_success [of "[example_config 1 Input, example_config 2 Output]"
      "stream_store_new []"]
  by (simp add: stream_store_new_def)

text \<open>
  The failure of \<open>add_stream_configs\<close> is not atomic: when the store already holds an
  identifier of the list, the configurations in front of it stay inserted although the
  operation reports \<open>ErrParamInvalid\<close>.
\<close>

lemma add_stream_configs_partial:
  assumes "\<forall>c \<in> set (pre @ cfg # post). config_ok c"
    and "distinct (map config_id (pre @ cfg # post))"
    and "config_id ` set pre \<inter> dom (ss_streams s) = {}" and "config_id cfg \<in> dom (ss_streams s)"
  shows "add_stream_configs (pre @ cfg # post) s =
     (Inl ErrParamInvalid, s\<lparr>ss_streams := ss_streams s ++ config_map pre\<rparr>)"
  using assms by (rule add_stream_configs_conflict_lemma)

lemma add_stream_configs_partial_example:
  "let s' = snd (add_stream_configs [example_config 2 Input, example_config 1 Input] (example_store Input))
   in get_stream_config 2 s' = Some (example_config 2 Input)"
  using add_stream_configs_partial [of "[example_config 2 Input]" "example_config 1 Input" "[]"
      "example_store Input"]
  by (simp add: example_store_eq get_stream_config_def config_map_def fresh_entry_def)

end
