(* ===== verification/L2_Handler.thy ===== *)
theory L2_Handler
  imports L2_Utils Stream_Store
begin

text \<open>
  What \<^verbatim>\<open>src/slave/src/l2_handler.rs\<close> and \<^verbatim>\<open>src/master/src/l2_handler.rs\<close> have in common: the
  table of receive streams, the cycle-counter check, the receive and send bookkeeping and the
  assembly of one cyclic frame. The source repeats this code in both files. Instants of the
  monotonic clock are numbers of nanoseconds.
\<close>

section \<open>Receiving\<close>

definition stream_map :: "stream_config list \<Rightarrow> (u16 \<rightharpoonup> stream_config)" where
  "stream_map streams =
     foldl (\<lambda>m stream. m(ucast (sc_stream_id stream) \<mapsto> stream)) Map.empty streams"

record rx_state =
  rx_last_cycle_counter :: "u16 \<rightharpoonup> u16"
  rx_last_receive_instant :: "u16 \<rightharpoonup> nat"
  rx_metrics :: cycle_metrics
  rx_jitter_metrics :: cycle_metrics
  rx_previous_state :: "device_state option"

definition rx_new :: rx_state where
  "rx_new = \<lparr>rx_last_cycle_counter = Map.empty, rx_last_receive_instant = Map.empty,
     rx_metrics = cycle_metrics_default, rx_jitter_metrics = cycle_metrics_default,
     rx_previous_state = None\<rparr>"

text \<open>On a change of the device state the per-stream memory starts over.\<close>

definition rx_enter :: "device_state \<Rightarrow> rx_state \<Rightarrow> rx_state" where
  "rx_enter state rx =
     (if rx_previous_state rx \<noteq> Some state
      then rx\<lparr>rx_last_cycle_counter := Map.empty, rx_last_receive_instant := Map.empty,
              rx_previous_state := Some state\<rparr>
      else rx)"

text \<open>The missed cycles a received counter shows against the last one, \<open>None\<close> within tolerance.\<close>

definition missed_cycles :: "u32 \<Rightarrow> u16 \<Rightarrow> u16 \<Rightarrow> u32 option" where
  "missed_cycles cycle_time_nano last_counter received =
     (let ticks = ticks_per_cycle cycle_time_nano;
          expected = last_counter + ucast ticks;
          forward = ucast (received - expected) :: u32;
          backward = ucast (expected - received) :: u32;
          tolerance = tolerance_ticks cycle_time_nano
      in if tolerance < min forward backward
         then Some (if forward \<le> backward then div_ceil forward ticks else 1)
         else None)"

definition rx_missed :: "stream_config \<Rightarrow> u16 \<Rightarrow> u16 \<Rightarrow> rx_state \<Rightarrow> u32 option" where
  "rx_missed stream stream_id received rx =
     (case rx_last_cycle_counter rx stream_id of
        None \<Rightarrow> None
      | Some l \<Rightarrow> missed_cycles (sc_cycle_time_nano stream) l received)"

definition rx_counter :: "u16 \<Rightarrow> u16 \<Rightarrow> rx_state \<Rightarrow> rx_state" where
  "rx_counter stream_id received rx =
     rx\<lparr>rx_last_cycle_counter := (rx_last_cycle_counter rx)(stream_id \<mapsto> received)\<rparr>"

text \<open>The observed cycle, recorded when the stream has an earlier instant; the flag says so.\<close>

definition rx_observe :: "stream_config \<Rightarrow> u16 \<Rightarrow> nat \<Rightarrow> rx_state \<Rightarrow> bool \<times> rx_state" where
  "rx_observe stream stream_id now rx =
     (let previous = rx_last_receive_instant rx stream_id;
          rx = rx\<lparr>rx_last_receive_instant := (rx_last_receive_instant rx)(stream_id \<mapsto> now)\<rparr>
      in case previous of
           None \<Rightarrow> (False, rx)
         | Some p \<Rightarrow>
             let observed_cycle_ns = of_nat (now - p) :: u64
             in (True, rx\<lparr>rx_metrics := metrics_record (rx_metrics rx) observed_cycle_ns,
                   rx_jitter_metrics := metrics_record (rx_jitter_metrics rx)
                     (absolute_cycle_jitter_ns observed_cycle_ns (ucast (sc_cycle_time_nano stream)))\<rparr>))"

section \<open>Sending\<close>

record tx_state =
  tx_last_sent :: "u16 \<rightharpoonup> nat"
  tx_metrics :: cycle_metrics
  tx_jitter_metrics :: cycle_metrics
  tx_previous_state :: "device_state option"

definition tx_new :: tx_state where
  "tx_new = \<lparr>tx_last_sent = Map.empty, tx_metrics = cycle_metrics_default,
     tx_jitter_metrics = cycle_metrics_default, tx_previous_state = None\<rparr>"

definition tx_enter :: "device_state \<Rightarrow> tx_state \<Rightarrow> tx_state" where
  "tx_enter state tx =
     (if tx_previous_state tx \<noteq> Some state
      then tx\<lparr>tx_last_sent := Map.empty, tx_previous_state := Some state\<rparr> else tx)"

text \<open>The period of the interval the sender runs at.\<close>

definition base_cycle :: "stream_config list \<Rightarrow> u32" where
  "base_cycle streams =
     (let cycle_times = filter (\<lambda>value. 0 < value) (map sc_cycle_time_nano streams)
      in max (gcd_all cycle_times) 1)"

definition tx_due :: "stream_config \<Rightarrow> nat \<Rightarrow> tx_state \<Rightarrow> bool" where
  "tx_due stream clock tx =
     (let cycle_time = max (sc_cycle_time_nano stream) 1;
          stream_id = ucast (sc_stream_id stream) :: u16
      in case tx_last_sent tx stream_id of
           None \<Rightarrow> True
         | Some instant \<Rightarrow> ucast cycle_time \<le> (of_nat (clock - instant) :: u64))"

text \<open>The new instant of a stream that is sent; in \<open>Op\<close> the observed cycle is recorded.\<close>

definition tx_observe :: "device_state \<Rightarrow> stream_config \<Rightarrow> nat \<Rightarrow> tx_state \<Rightarrow> bool \<times> tx_state" where
  "tx_observe state stream now tx =
     (let cycle_time = max (sc_cycle_time_nano stream) 1;
          stream_id = ucast (sc_stream_id stream) :: u16;
          previous = tx_last_sent tx stream_id;
          tx = tx\<lparr>tx_last_sent := (tx_last_sent tx)(stream_id \<mapsto> now)\<rparr>
      in if state = Op then
           (case previous of
              None \<Rightarrow> (False, tx)
            | Some p \<Rightarrow>
                let observed_cycle_ns = of_nat (now - p) :: u64
                in (True, tx\<lparr>tx_metrics := metrics_record (tx_metrics tx) observed_cycle_ns,
                      tx_jitter_metrics := metrics_record (tx_jitter_metrics tx)
                        (absolute_cycle_jitter_ns observed_cycle_ns (ucast cycle_time))\<rparr>))
         else (False, tx))"

text \<open>
  The frame of one stream: payload from the image (empty, with the error in the header's status,
  when it cannot be read), destination, header, tag. \<open>None\<close> is the panic of a destination with
  fewer than six octets; \<open>Inl\<close> the error of the tag.
\<close>

definition cyclic_frame ::
    "keyed_hash \<Rightarrow> 'p process_image_access \<Rightarrow> 'p \<Rightarrow> mac_addr \<Rightarrow> nat \<Rightarrow> stream_config \<Rightarrow> stream_store \<Rightarrow>
       (status_code + bytes) option \<times> stream_store" where
  "cyclic_frame H access img source_mac total_micros stream store =
     (let (payload, status) = (case build_frame_payload access img stream of
                                 Inr payload \<Rightarrow> (payload, NoError)
                               | Inl code \<Rightarrow> ([], code))
      in case parse_destination_mac stream of
           None \<Rightarrow> (None, store)
         | Some destination \<Rightarrow>
             (let header = l2_header_new (ucast (sc_stream_id stream)) (cycle_counter total_micros)
                             (status_u8 status)
              in case generate_stream_tag H header payload store of
                   (Inl code, store') \<Rightarrow> (Some (Inl code), store')
                 | (Inr (sequence_number, auth_tag), store') \<Rightarrow>
                     (Some (Inr (build_l2_frame source_mac destination (ucast (sc_vlan_id_pcp stream))
                        header payload
                        \<lparr>sf_sequence_number = sequence_number, sf_auth_tag = auth_tag\<rparr>)), store')))"

section \<open>The cycle-counter check\<close>

lemma unat_ticks_exact:
  assumes "unat c = 31250 * t" and "0 < t"
  shows "unat (ticks_per_cycle c) = t" and "unat (tolerance_ticks c) = (3 * t + 1) div 2"
proof -
  have "unat (max c 1) = max (unat c) (unat (1 :: u32))" by (rule unat_max)
  then have c: "unat (max c 1) = 31250 * t" using assms by simp
  have "(31250 * t + 31249) div 31250 = t" by simp
  then show "unat (ticks_per_cycle c) = t"
    by (simp only: unat_ticks_per_cycle c)
  have "(3 * (31250 * t) + 62499) div (31250 * 2) = (3 * (31250 * t) + 62499) div 31250 div 2"
    by (rule div_mult2_eq)
  also have "(3 * (31250 * t) + 62499) div 31250 = 3 * t + 1" by simp
  finally show "unat (tolerance_ticks c) = (3 * t + 1) div 2"
    by (simp add: unat_tolerance_ticks c)
qed

lemma unat_uminus:
  fixes w :: "'a::len word"
  assumes "w \<noteq> 0"
  shows "unat (- w) = 2 ^ LENGTH('a) - unat w"
proof -
  have "(of_nat (2 ^ LENGTH('a) - unat w) :: 'a word) = - w"
    using unat_lt [of w] by (simp only: of_nat_diff less_imp_le of_nat_2p) simp
  then have "unat (- w) = (2 ^ LENGTH('a) - unat w) mod 2 ^ LENGTH('a)"
    by (metis unat_of_nat)
  moreover have "0 < unat w" using assms by (simp add: unat_gt_0)
  ultimately show ?thesis by simp
qed

lemma unat_minus_of_nat:
  "0 < x \<Longrightarrow> x < 65536 \<Longrightarrow> unat (- (of_nat x :: u16)) = 65536 - x"
  by (subst unat_uminus) (auto simp: unat_of_nat word_of_nat_eq_0_iff dest: dvd_imp_le)

text \<open>A counter \<open>x\<close> ticks ahead of the expected one.\<close>

lemma missed_cycles_forward:
  assumes "received = l + ucast (ticks_per_cycle c) + of_nat x" and "x \<le> 32768"
  shows "missed_cycles c l received =
    (if unat (tolerance_ticks c) < x then Some (div_ceil (of_nat x) (ticks_per_cycle c)) else None)"
proof -
  let ?e = "l + ucast (ticks_per_cycle c)"
  have f: "received - ?e = of_nat x" and b: "?e - received = - of_nat x"
    using assms(1) by (simp_all add: algebra_simps)
  have fwd: "(ucast (of_nat x :: u16) :: u32) = of_nat x"
    using assms(2) by (simp add: word_unat_eq_iff unat_of_nat)
  have bwd: "unat (ucast (- of_nat x :: u16) :: u32) = (if x = 0 then 0 else 65536 - x)"
    using assms(2) unat_minus_of_nat [of x] by auto
  have x: "unat (of_nat x :: u32) = x" using assms(2) by (simp add: unat_of_nat)
  show ?thesis
  proof (cases "x = 0")
    case True
    then show ?thesis using assms(1) by (simp add: missed_cycles_def Let_def)
  next
    case False
    then have le: "(of_nat x :: u32) \<le> ucast (- of_nat x :: u16)"
      using assms(2) by (simp add: word_le_nat_alt x bwd del: unat_ucast_up)
    then show ?thesis
      by (simp add: missed_cycles_def Let_def f b fwd min_def word_less_nat_alt x)
  qed
qed

text \<open>With a tolerance of half the counter's range no counter is ever out of tolerance.\<close>

lemma missed_cycles_slow:
  assumes "32768 \<le> unat (tolerance_ticks c)"
  shows "missed_cycles c l received = None"
proof -
  let ?d = "received - (l + ucast (ticks_per_cycle c))"
  have "min (unat d) (unat (- d)) \<le> 32768" for d :: u16
    using unat_lt [of d] by (cases "d = 0") (auto simp: unat_uminus)
  note this [of ?d]
  then have "unat (min (ucast ?d :: u32) (ucast (- ?d))) \<le> 32768"
    by (simp add: unat_min)
  moreover have "- ?d = l + ucast (ticks_per_cycle c) - received" by simp
  ultimately have "\<not> tolerance_ticks c < min (ucast ?d :: u32)
      (ucast (l + ucast (ticks_per_cycle c) - received))"
    using assms by (simp only: word_less_nat_alt)
  then show ?thesis by (simp add: missed_cycles_def Let_def)
qed

section \<open>One frame from sender to receiver\<close>

definition sent_header :: "stream_config \<Rightarrow> nat \<Rightarrow> status_code \<Rightarrow> l2_header" where
  "sent_header stream micros status =
     l2_header_new (ucast (sc_stream_id stream)) (cycle_counter micros) (status_u8 status)"

definition sent_footer :: "keyed_hash \<Rightarrow> stream_store \<Rightarrow> l2_header \<Rightarrow> bytes \<Rightarrow> u64 \<Rightarrow> security_footer" where
  "sent_footer H store header payload n =
     \<lparr>sf_sequence_number = n, sf_auth_tag = calculate_hmac H (ss_shared_secret store)
        [serialize_l2_header header, payload, be64 n]\<rparr>"

lemma sent_header_simps [simp]:
  "l2_stream_id (sent_header stream micros status) = ucast (sc_stream_id stream)"
  "l2_cycle_counter (sent_header stream micros status) = cycle_counter micros"
  "l2_status (sent_header stream micros status) = status_u8 status"
  by (simp_all add: sent_header_def l2_header_new_def)

lemma cyclic_frame_eq:
  assumes "parse_destination_mac stream = Some destination"
    and "ss_streams store (ucast (sc_stream_id stream)) = Some e"
    and "build_frame_payload access img stream = Inr payload"
  shows "cyclic_frame H access img mac micros stream store =
    (Some (Inr (build_l2_frame mac destination (ucast (sc_vlan_id_pcp stream))
       (sent_header stream micros NoError) payload
       (sent_footer H store (sent_header stream micros NoError) payload (se_sequence_number e)))),
     store\<lparr>ss_streams := (ss_streams store)(ucast (sc_stream_id stream) \<mapsto>
       e\<lparr>se_sequence_number := saturating_add (se_sequence_number e) 1\<rparr>)\<rparr>)"
  using assms
  by (simp add: cyclic_frame_def generate_stream_tag_def sent_header_def sent_footer_def
      l2_header_new_def Let_def)

lemma sent_footer_ok: "keyed_hash_ok H \<Longrightarrow> footer_ok (sent_footer H store header payload n)"
  by (simp add: footer_ok_def sent_footer_def length_calculate_hmac)

text \<open>What a receiver with the same secret makes of such a frame.\<close>

lemma sent_frame_received:
  assumes H: "keyed_hash_ok H" and secret: "ss_shared_secret r = ss_shared_secret store"
    and e: "ss_streams r (l2_stream_id header) = Some e" "se_sequence_number e < n"
  obtains p where
    "parse_l2_frame (build_l2_frame mac destination vlan header payload
       (sent_footer H store header payload n)) = Inr p"
    "pf_header p = header" "pf_payload p = payload"
    "validate_stream_tag H (pf_header p) (pf_payload p) (pf_sequence_number p) (pf_auth_tag p) r =
       (Inr True, r\<lparr>ss_streams := (ss_streams r)(l2_stream_id header \<mapsto>
          e\<lparr>se_sequence_number := n\<rparr>)\<rparr>)"
proof -
  let ?f = "sent_footer H store header payload n"
  have v: "validate_stream_tag H header payload n (sf_auth_tag ?f) r =
      (Inr True, r\<lparr>ss_streams := (ss_streams r)(l2_stream_id header \<mapsto> e\<lparr>se_sequence_number := n\<rparr>)\<rparr>)"
    using e by (simp add: validate_stream_tag_def sent_footer_def secret verify_hmac_own Let_def)
  show thesis
    by (rule that, rule parse_build_l2_frame [OF sent_footer_ok [OF H]])
       (use v in \<open>simp_all add: sent_footer_def\<close>)
qed

text \<open>A frame padded on the way with 16 or more zero bytes is refused: its number reads as 0.\<close>

lemma padded_frame_refused:
  assumes "16 \<le> k"
  obtains p where
    "parse_l2_frame (build_l2_frame mac destination vlan header payload f @ replicate k 0) = Inr p"
    "pf_header p = header"
    "validate_stream_tag H (pf_header p) (pf_payload p) (pf_sequence_number p) (pf_auth_tag p) r =
       (case ss_streams r (l2_stream_id header) of None \<Rightarrow> (Inl ErrStreamIdUnknown, r)
        | Some e \<Rightarrow> (Inr False, r))"
  by (rule that, rule parse_padded_l2_frame [OF assms])
     (simp_all add: validate_stream_tag_def split: option.splits)

section \<open>Admissible frames\<close>

text \<open>Everything a frame must satisfy to reach the process image.\<close>

definition admissible ::
    "keyed_hash \<Rightarrow> (u16 \<rightharpoonup> stream_config) \<Rightarrow> stream_store \<Rightarrow> parsed_l2_frame \<Rightarrow> stream_config \<Rightarrow> bool" where
  "admissible H streams store p stream \<longleftrightarrow>
     (let i = l2_stream_id (pf_header p) in
      streams i = Some stream \<and> l2_status (pf_header p) = status_u8 NoError \<and>
      (\<exists>e. ss_streams store i = Some e \<and> se_sequence_number e < pf_sequence_number p) \<and>
      verify_hmac H (ss_shared_secret store)
        [serialize_l2_header (pf_header p), pf_payload p, be64 (pf_sequence_number p)] (pf_auth_tag p))"

lemma validate_true:
  "fst (validate_stream_tag H h payload n t store) = Inr True \<longleftrightarrow>
     (\<exists>e. ss_streams store (l2_stream_id h) = Some e \<and> se_sequence_number e < n) \<and>
     verify_hmac H (ss_shared_secret store) [serialize_l2_header h, payload, be64 n] t"
  by (auto simp: validate_stream_tag_def Let_def split: option.splits)

lemma validate_secret [simp]:
  "ss_shared_secret (snd (validate_stream_tag H h payload n t store)) = ss_shared_secret store"
  by (auto simp: validate_stream_tag_def Let_def split: option.splits)

section \<open>Properties\<close>

text \<open>
  Loss detection: when a sender of a stream with a cycle of \<open>t\<close> ticks (a multiple of 31.25
  microseconds, at least two) is on time and \<open>k\<close> of its frames are lost before one arrives, the
  receiver reports nothing for \<open>k \<le> 1\<close> and else the \<open>k\<close> missed cycles, one too many when the
  sender's counter, which lives modulo 65535, wrapped in between.
\<close>

lemma lost_cycles_reported:
  assumes "unat c = 31250 * t" and "2 \<le> t" and "(k + 1) * t \<le> 32767"
    and "elapsed_ticks m' = elapsed_ticks m + (k + 1) * t"
  shows "missed_cycles c (cycle_counter m) (cycle_counter m') =
    (if k \<le> 1 then None
     else Some (of_nat (if 65535 \<le> elapsed_ticks m mod 65535 + (k + 1) * t then k + 1 else k)))"
proof -
  define w where "w = (elapsed_ticks m mod 65535 + (k + 1) * t) div 65535"
  have w: "w = (if 65535 \<le> elapsed_ticks m mod 65535 + (k + 1) * t then 1 else 0)"
    unfolding w_def using assms(3) mod_less_divisor [of 65535 "elapsed_ticks m"]
    by (auto simp: div_if)
  have t: "unat (ticks_per_cycle c) = t" and tol: "unat (tolerance_ticks c) = (3 * t + 1) div 2"
    using unat_ticks_exact [OF assms(1)] assms(2) by simp_all
  have tt: "t \<le> (k + 1) * t" by simp
  then have t16: "t < 65536" using assms(3) by linarith
  have "(ucast (ticks_per_cycle c) :: u16) = of_nat t"
    using t t16 by (simp add: word_unat_eq_iff unat_ucast_mod unat_of_nat)
  moreover have "cycle_counter m' = cycle_counter m + of_nat ((k + 1) * t) + of_nat w"
    using cycle_counter_advance [OF assms(4)] by (simp add: w_def algebra_simps)
  ultimately have "cycle_counter m' = cycle_counter m + ucast (ticks_per_cycle c) + of_nat (k * t + w)"
    by (simp add: algebra_simps)
  moreover have "k * t + w \<le> 32768" using assms(2,3) w by auto
  ultimately have "missed_cycles c (cycle_counter m) (cycle_counter m') =
      (if (3 * t + 1) div 2 < k * t + w
       then Some (div_ceil (of_nat (k * t + w)) (ticks_per_cycle c)) else None)"
    using missed_cycles_forward [of "cycle_counter m'" "cycle_counter m" c "k * t + w"] tol by simp
  moreover have "(3 * t + 1) div 2 < k * t + w \<longleftrightarrow> 2 \<le> k"
  proof
    assume "(3 * t + 1) div 2 < k * t + w"
    moreover have "k * t \<le> t" if "k \<le> 1" using that mult_right_mono [of k 1 t] by simp
    moreover have "w \<le> 1" by (simp add: w)
    ultimately show "2 \<le> k" using assms(2) by (cases "k \<le> 1") linarith+
  next
    assume "2 \<le> k"
    then have "2 * t \<le> k * t" by simp
    then show "(3 * t + 1) div 2 < k * t + w" using assms(2) by linarith
  qed
  moreover have "div_ceil (of_nat (k * t + w)) (ticks_per_cycle c) = of_nat (k + w)"
  proof -
    have "unat (of_nat (k * t + w) :: u32) = k * t + w"
      using \<open>k * t + w \<le> 32768\<close> by (simp only: unat_of_nat) simp
    moreover have "(k * t + w + t - 1) div t = k + w"
    proof -
      have "k * t + w + t - 1 = (if w = 0 then t - 1 else 0) + (k + w) * t"
        using w assms(2) by auto
      then have "(k * t + w + t - 1) div t = k + w + (if w = 0 then t - 1 else 0) div t"
        using assms(2) by simp
      then show ?thesis using assms(2) by simp
    qed
    moreover have "ticks_per_cycle c \<noteq> 0" using t assms(2) by auto
    ultimately have "unat (div_ceil (of_nat (k * t + w)) (ticks_per_cycle c)) = k + w"
      using t by (simp add: unat_div_ceil del: of_nat_add of_nat_mult)
    then show ?thesis by (metis of_nat_unat ucast_id)
  qed
  ultimately show ?thesis by (auto simp: w)
qed

lemma lost_cycles_reported_example:
  "missed_cycles 1000000 (cycle_counter 0) (cycle_counter 4000) = Some 3"
  using lost_cycles_reported [of 1000000 32 3 4000 0] by (simp add: elapsed_ticks_def)

text \<open>The limit of the detection: for cycle times from 682645834 ns on the tolerance covers the
  whole 16-bit range of the counter, so no received counter ever counts as a missed cycle.\<close>

lemma slow_streams_never_miss:
  assumes "682645834 \<le> unat c"
  shows "missed_cycles c l received = None"
proof (rule missed_cycles_slow)
  have "unat (max c 1) = unat c" using assms by (simp add: unat_max)
  then show "32768 \<le> unat (tolerance_ticks c)"
    using assms by (simp add: unat_tolerance_ticks div_le_mono)
qed

end
