(* ===== verification/Slave_Api.thy ===== *)
theory Slave_Api
  imports State_Machine Device_Access Device_Status Token_Store L2_Handler
begin

text \<open>
  \<^verbatim>\<open>src/slave/src/slave_api.rs\<close>: the remote procedures of the management interface
  over the stores they delegate to. The transport and the message codec are libraries: a request
  is its decoded content with the text of its token header, and a response is the message or the
  error status of the call.
\<close>

section \<open>State\<close>

record 'p slave_api =
  sa_state :: device_state
  sa_status :: status_store
  sa_tokens :: token_store
  sa_streams :: stream_store
  sa_hardware :: 'p

datatype rpc_status = Unauthenticated string

type_synonym 'a response = "rpc_status + 'a"

definition TOKEN_TTL_SECONDS :: nat where "TOKEN_TTL_SECONDS = 600"
definition MIN_INTERVAL_SEC_STATUS_PUBLISH :: u32 where "MIN_INTERVAL_SEC_STATUS_PUBLISH = 60"
definition MIN_CYCLE_TIME_NS :: u32 where "MIN_CYCLE_TIME_NS = 250000"

text \<open>\<open>validate_token\<close> of the service: \<open>None\<close> is a header that is missing or not readable text.\<close>

definition api_validate_token ::
    "token_hasher \<Rightarrow> nat \<Rightarrow> string option \<Rightarrow> 'p slave_api \<Rightarrow> (rpc_status + unit) \<times> 'p slave_api" where
  "api_validate_token hash now provided s =
     (case provided of
        None \<Rightarrow> (Inl (Unauthenticated ''missing or invalid token''), s)
      | Some token \<Rightarrow>
          (let (ok, tokens) = validate_token hash now token (sa_tokens s);
               s = s\<lparr>sa_tokens := tokens\<rparr>
           in if ok then (Inr (), s)
              else (Inl (Unauthenticated ''missing or invalid token''), s)))"

section \<open>The procedures\<close>

text \<open>The first half of \<open>set_target_state\<close> is the manager's transition, the second the update of
  the published status; another task can run between the two.\<close>

definition rpc_set_manager :: "device_state \<Rightarrow> 'p slave_api \<Rightarrow> (status_code + unit) \<times> 'p slave_api" where
  "rpc_set_manager target s =
     (let (r, st) = set_target_state (sa_state s) target in (r, s\<lparr>sa_state := st\<rparr>))"

definition rpc_set_status :: "device_state \<Rightarrow> u64 \<Rightarrow> 'p slave_api \<Rightarrow> 'p slave_api" where
  "rpc_set_status target wall s = s\<lparr>sa_status := update_state target wall (sa_status s)\<rparr>"

definition rpc_set_target_state :: "device_state \<Rightarrow> u64 \<Rightarrow> 'p slave_api \<Rightarrow> int \<times> 'p slave_api" where
  "rpc_set_target_state target wall s =
     (case rpc_set_manager target s of
        (Inr _, s') \<Rightarrow> (status_num NoError, rpc_set_status target wall s')
      | (Inl code, s') \<Rightarrow> (status_num code, s'))"

definition rpc_get_device_status_log :: "u32 \<Rightarrow> u32 \<Rightarrow> 'p slave_api \<Rightarrow> u32 \<times> log_entry list" where
  "rpc_get_device_status_log offset limit s =
     get_log (unat offset) (unat (min limit 30)) (sa_status s)"

definition rpc_get_device_info ::
    "'p device_info_access \<Rightarrow> 'p slave_api \<Rightarrow> int \<times> device_info option" where
  "rpc_get_device_info access s =
     (case read_device_info access (sa_hardware s) of
        Inr info \<Rightarrow> (status_num NoError, Some info)
      | Inl code \<Rightarrow> (status_num code, None))"

definition rpc_get_process_data_layout ::
    "'p process_image_access \<Rightarrow> 'p slave_api \<Rightarrow> int \<times> process_variable list" where
  "rpc_get_process_data_layout access s =
     (case get_layout access (sa_hardware s) of
        Inr layout \<Rightarrow> (status_num NoError, layout)
      | Inl code \<Rightarrow> (status_num code, []))"

text \<open>The checks on one stream, in the order of the code, with the identifiers seen before.\<close>

definition validate_stream ::
    "process_variable list \<Rightarrow> u32 set \<Rightarrow> stream_config \<Rightarrow> status_code + u32 set" where
  "validate_stream layout seen stream =
     (if ucast (- 1 :: u16) < sc_stream_id stream then Inl ErrParamInvalid
      else if sc_stream_id stream \<in> seen then Inl ErrParamInvalid
      else if length (sc_destination_mac stream) \<noteq> 6 then Inl ErrParamInvalid
      else if sc_cycle_time_nano stream < MIN_CYCLE_TIME_NS then Inl ErrParamInvalid
      else case sc_stream_content stream of
        None \<Rightarrow> Inl ErrParamInvalid
      | Some content \<Rightarrow>
          if pos_bit_len content = 0 then Inl ErrParamInvalid
          else case direction_try_from (sc_direction stream) of
            None \<Rightarrow> Inl ErrParamInvalid
          | Some dir \<Rightarrow>
              if list_ex (\<lambda>variable. pv_direction variable = direction_num dir \<and>
                   pv_byte_offset variable = pos_byte_offset content \<and>
                   pv_bit_offset variable = pos_bit_offset content \<and>
                   pv_bit_len variable = pos_bit_len content) layout
              then Inr (insert (sc_stream_id stream) seen) else Inl ErrParamInvalid)"

fun validate_streams_from ::
    "process_variable list \<Rightarrow> u32 set \<Rightarrow> stream_config list \<Rightarrow> status_code + unit" where
  "validate_streams_from layout seen [] = Inr ()"
| "validate_streams_from layout seen (stream # streams) =
     (case validate_stream layout seen stream of
        Inl e \<Rightarrow> Inl e
      | Inr seen' \<Rightarrow> validate_streams_from layout seen' streams)"

definition validate_streams ::
    "stream_config list \<Rightarrow> process_variable list \<Rightarrow> status_code + unit" where
  "validate_streams streams layout = validate_streams_from layout {} streams"

definition rpc_configure_streams ::
    "'p process_image_access \<Rightarrow> stream_config list \<Rightarrow> 'p slave_api \<Rightarrow> int \<times> 'p slave_api" where
  "rpc_configure_streams access streams s =
     (if sa_state s \<noteq> PreOp then (status_num ErrNotReady, s)
      else case get_layout access (sa_hardware s) of
        Inl code \<Rightarrow> (status_num code, s)
      | Inr layout \<Rightarrow>
          (case validate_streams streams layout of
             Inl code \<Rightarrow> (status_num code, s)
           | Inr _ \<Rightarrow>
               (let store = stream_store_reset (sa_streams s);
                    (r, store) = add_stream_configs streams store;
                    s = s\<lparr>sa_streams := store\<rparr>
                in case r of
                     Inl code \<Rightarrow> (status_num code, s)
                   | Inr _ \<Rightarrow> (status_num NoError, s))))"

definition rpc_get_token ::
    "token_hasher \<Rightarrow> (bytes \<Rightarrow> string) \<Rightarrow> bytes \<Rightarrow> token_inputs \<Rightarrow> 'p slave_api \<Rightarrow>
       (string \<times> int) \<times> 'p slave_api" where
  "rpc_get_token hash encode shared_key i s =
     (let (r, tokens) = issue_token hash encode shared_key (TOKEN_TTL_SECONDS * 10 ^ 9) i (sa_tokens s);
          s = s\<lparr>sa_tokens := tokens\<rparr>
      in case r of
           Inr token \<Rightarrow> ((token, status_num NoError), s)
         | Inl status_code \<Rightarrow> (([], status_num status_code), s))"

section \<open>The subscription\<close>

text \<open>The period of the repeated publication: \<open>None\<close> publishes on changes only.\<close>

definition publish_interval :: "u32 option \<Rightarrow> u32 option" where
  "publish_interval min_interval_sec =
     (case min_interval_sec of
        None \<Rightarrow> None
      | Some n \<Rightarrow> Some (if n < 10 then MIN_INTERVAL_SEC_STATUS_PUBLISH else n))"

text \<open>One turn of the publishing task: what \<open>select\<close> yields, and whether the subscriber still
  takes messages. The result is what was sent and whether the task goes on.\<close>

datatype subscription_event =
    Message device_status
  | Lagged nat
  | Closed
  | Tick

definition subscription_turn ::
    "subscription_event \<Rightarrow> bool \<Rightarrow> 'p slave_api \<Rightarrow> device_status list \<times> bool" where
  "subscription_turn event open_channel s =
     (if stopping (st_current (sa_status s)) then ([], False)
      else case event of
        Message status \<Rightarrow> if open_channel then ([status], True) else ([], False)
      | Lagged count \<Rightarrow> ([], True)
      | Closed \<Rightarrow> ([], False)
      | Tick \<Rightarrow> if open_channel then ([st_current (sa_status s)], True) else ([], False))"

section \<open>Requests\<close>

datatype request =
    SetTargetState device_state
  | GetStatus
  | SubscribeToDeviceStatus "u32 option"
  | GetDeviceStatusLog u32 u32
  | GetDeviceInfo
  | GetProcessDataLayout
  | ConfigureStreams "stream_config list"

datatype reply =
    StatusResponse int
  | DeviceStatusReply device_status
  | SubscriptionReply "u32 option"
  | LogReply u32 "log_entry list"
  | DeviceInfoReply int "device_info option"
  | LayoutReply int "process_variable list"

record 'p api_env =
  env_hash :: token_hasher
  env_info :: "'p device_info_access"
  env_image :: "'p process_image_access"

text \<open>A procedure behind the token check, as every one except \<open>get_token\<close> is.\<close>

fun perform :: "'p api_env \<Rightarrow> u64 \<Rightarrow> request \<Rightarrow> 'p slave_api \<Rightarrow> reply \<times> 'p slave_api" where
  "perform env wall (SetTargetState target) s =
     (let (code, s') = rpc_set_target_state target wall s in (StatusResponse code, s'))"
| "perform env wall GetStatus s = (DeviceStatusReply (st_current (sa_status s)), s)"
| "perform env wall (SubscribeToDeviceStatus n) s = (SubscriptionReply (publish_interval n), s)"
| "perform env wall (GetDeviceStatusLog offset limit) s =
     (let (total, entries) = rpc_get_device_status_log offset limit s in (LogReply total entries, s))"
| "perform env wall GetDeviceInfo s =
     (let (code, info) = rpc_get_device_info (env_info env) s in (DeviceInfoReply code info, s))"
| "perform env wall GetProcessDataLayout s =
     (let (code, layout) = rpc_get_process_data_layout (env_image env) s in (LayoutReply code layout, s))"
| "perform env wall (ConfigureStreams streams) s =
     (let (code, s') = rpc_configure_streams (env_image env) streams s in (StatusResponse code, s'))"

definition serve ::
    "'p api_env \<Rightarrow> nat \<Rightarrow> u64 \<Rightarrow> string option \<Rightarrow> request \<Rightarrow> 'p slave_api \<Rightarrow>
       reply response \<times> 'p slave_api" where
  "serve env now wall token req s =
     (case api_validate_token (env_hash env) now token s of
        (Inl e, s') \<Rightarrow> (Inl e, s')
      | (Inr _, s') \<Rightarrow> (let (r, s'') = perform env wall req s' in (Inr r, s'')))"

section \<open>Access\<close>

lemma api_validate_eq:
  "api_validate_token hash now token s =
     (case token of
        None \<Rightarrow> (Inl (Unauthenticated ''missing or invalid token''), s)
      | Some t \<Rightarrow>
          (if \<exists>e. ts_tokens (sa_tokens s) (hash t) = Some e \<and> now < e then Inr ()
           else Inl (Unauthenticated ''missing or invalid token''),
           s\<lparr>sa_tokens := (sa_tokens s)
              \<lparr>ts_tokens := prune_expired_locked now (ts_tokens (sa_tokens s))\<rparr>\<rparr>))"
  by (auto simp: api_validate_token_def validate_token_eq Let_def split: option.splits)

text \<open>A client of the interface: token requests and requests with a token, in any order.\<close>

datatype api_event =
    TokenRequest bytes token_inputs
  | Request nat u64 "string option" request

fun api_step ::
    "'p api_env \<Rightarrow> (bytes \<Rightarrow> string) \<Rightarrow> api_event \<Rightarrow> 'p slave_api \<Rightarrow>
       (string \<times> int + reply response) \<times> 'p slave_api" where
  "api_step env enc (TokenRequest key i) s =
     (let (r, s') = rpc_get_token (env_hash env) enc key i s in (Inl r, s'))"
| "api_step env enc (Request now wall token req) s =
     (let (r, s') = serve env now wall token req s in (Inr r, s'))"

fun api_run ::
    "'p api_env \<Rightarrow> (bytes \<Rightarrow> string) \<Rightarrow> api_event list \<Rightarrow> 'p slave_api \<Rightarrow>
       (string \<times> int + reply response) list \<times> 'p slave_api" where
  "api_run env enc [] s = ([], s)"
| "api_run env enc (e # es) s =
     (let (r, s') = api_step env enc e s; (rs, s'') = api_run env enc es s' in (r # rs, s''))"

definition refused :: "(string \<times> int + reply response) \<Rightarrow> bool" where
  "refused r \<longleftrightarrow> r = Inl ([], status_num ErrAuthFailed) \<or>
     r = Inr (Inl (Unauthenticated ''missing or invalid token''))"

definition wrong_key :: "bytes \<Rightarrow> api_event \<Rightarrow> bool" where
  "wrong_key secret e \<longleftrightarrow> (case e of TokenRequest key _ \<Rightarrow> key \<noteq> secret | Request _ _ _ _ \<Rightarrow> True)"

lemma prune_empty [simp]: "prune_expired_locked now Map.empty = Map.empty"
  by (simp add: prune_expired_locked_def fun_eq_iff)

lemma api_step_no_token:
  assumes "ts_tokens (sa_tokens s) = Map.empty"
    and "wrong_key (ts_expected_shared_key (sa_tokens s)) e"
  shows "refused (fst (api_step env enc e s)) \<and> snd (api_step env enc e s) = s"
proof (cases e)
  case (TokenRequest key i)
  with assms show ?thesis
    by (auto simp: rpc_get_token_def issue_token_eq refused_def wrong_key_def)
next
  case (Request now wall token req)
  have "(sa_tokens s)\<lparr>ts_tokens := Map.empty\<rparr> = sa_tokens s" using assms(1) by (metis token_store.surjective token_store.update_convs(2))
  then show ?thesis
    using assms(1) Request
    by (auto simp: serve_def api_validate_eq refused_def split: option.splits)
qed

lemma api_run_no_token:
  "ts_tokens (sa_tokens s) = Map.empty \<Longrightarrow>
   list_all (wrong_key (ts_expected_shared_key (sa_tokens s))) es \<Longrightarrow>
   list_all refused (fst (api_run env enc es s)) \<and> snd (api_run env enc es s) = s"
proof (induction es)
  case (Cons e es)
  then have "refused (fst (api_step env enc e s))" "snd (api_step env enc e s) = s"
    using api_step_no_token [of s e env enc] by simp_all
  with Cons show ?case by (simp add: case_prod_beta)
qed simp

section \<open>Configuring streams\<close>

text \<open>A stream the device can serve: the declarative form of the checks.\<close>

definition stream_ok :: "process_variable list \<Rightarrow> stream_config \<Rightarrow> bool" where
  "stream_ok layout stream \<longleftrightarrow> unat (sc_stream_id stream) < 65536 \<and>
     length (sc_destination_mac stream) = 6 \<and> 250000 \<le> unat (sc_cycle_time_nano stream) \<and>
     (\<exists>content dir. sc_stream_content stream = Some content \<and> 0 < unat (pos_bit_len content) \<and>
        direction_try_from (sc_direction stream) = Some dir \<and>
        (\<exists>v \<in> set layout. pv_direction v = direction_num dir \<and>
           pv_byte_offset v = pos_byte_offset content \<and> pv_bit_offset v = pos_bit_offset content \<and>
           pv_bit_len v = pos_bit_len content))"

lemma validate_stream_eq:
  "validate_stream layout seen stream =
     (if stream_ok layout stream \<and> sc_stream_id stream \<notin> seen
      then Inr (insert (sc_stream_id stream) seen) else Inl ErrParamInvalid)"
  by (auto simp: validate_stream_def stream_ok_def word_less_nat_alt unat_minus_1 list_ex_iff
      MIN_CYCLE_TIME_NS_def unat_gt_0 split: option.splits)

lemma validate_streams_from_eq:
  "validate_streams_from layout seen streams =
     (if (\<forall>stream \<in> set streams. stream_ok layout stream) \<and>
         distinct (map sc_stream_id streams) \<and> set (map sc_stream_id streams) \<inter> seen = {}
      then Inr () else Inl ErrParamInvalid)"
  by (induction streams arbitrary: seen) (auto simp: validate_stream_eq)

lemma validate_streams_eq:
  "validate_streams streams layout =
     (if (\<forall>stream \<in> set streams. stream_ok layout stream) \<and> distinct (map sc_stream_id streams)
      then Inr () else Inl ErrParamInvalid)"
  by (simp add: validate_streams_def validate_streams_from_eq)

lemma stream_ok_config: "stream_ok layout stream \<Longrightarrow> config_ok stream"
  by (auto simp: stream_ok_def config_ok_def)

lemma config_id_inj:
  "config_ok a \<Longrightarrow> config_ok b \<Longrightarrow> config_id a = config_id b \<longleftrightarrow> sc_stream_id a = sc_stream_id b"
  by (auto simp: config_ok_def config_id_def word_unat_eq_iff unat_ucast_mod)

lemma distinct_config_id:
  "\<forall>c \<in> set cs. config_ok c \<Longrightarrow> distinct (map sc_stream_id cs) \<Longrightarrow> distinct (map config_id cs)"
  by (induction cs) (auto simp: config_id_inj)

text \<open>What the service validates, the store takes: the error branch behind it is never taken.\<close>

lemma rpc_configure_streams_eq:
  "rpc_configure_streams access streams s =
     (if sa_state s \<noteq> PreOp then (status_num ErrNotReady, s)
      else case get_layout access (sa_hardware s) of
        Inl code \<Rightarrow> (status_num code, s)
      | Inr layout \<Rightarrow>
          if (\<forall>stream \<in> set streams. stream_ok layout stream) \<and> distinct (map sc_stream_id streams)
          then (status_num NoError,
                s\<lparr>sa_streams := (sa_streams s)\<lparr>ss_streams := config_map streams\<rparr>\<rparr>)
          else (status_num ErrParamInvalid, s))"
proof -
  have "addable streams (stream_store_reset (sa_streams s))"
    if "\<forall>stream \<in> set streams. stream_ok layout stream" "distinct (map sc_stream_id streams)" for layout
    using that distinct_config_id [of streams] stream_ok_config
    by (auto simp: addable_def stream_store_reset_def)
  from add_stream_configs_ok_lemma [OF this] show ?thesis
    by (auto simp: rpc_configure_streams_def validate_streams_eq Let_def stream_store_reset_def
        split: sum.splits)
qed

section \<open>The published state\<close>

definition published :: "'p slave_api \<Rightarrow> bool" where
  "published s \<longleftrightarrow> ds_state (st_current (sa_status s)) = state_num (sa_state s)"

lemma published_tokens [simp]: "published (s\<lparr>sa_tokens := t\<rparr>) \<longleftrightarrow> published s"
  by (simp add: published_def)

lemma update_state_published [simp]:
  "ds_state (st_current (update_state st wall status)) = state_num st"
  by (simp add: update_state_def publish_def append_log_def Let_def)

lemma rpc_set_target_state_published:
  "published s \<Longrightarrow> published (snd (rpc_set_target_state target wall s))"
  using set_target_state_outcome [of "sa_state s" target]
  by (auto simp: rpc_set_target_state_def rpc_set_manager_def rpc_set_status_def published_def)

lemma perform_published: "published s \<Longrightarrow> published (snd (perform env wall req s))"
proof (cases req)
  case (SetTargetState target)
  then show "published s \<Longrightarrow> ?thesis"
    using rpc_set_target_state_published [of s target wall] by (simp add: case_prod_beta)
next
  case (ConfigureStreams streams)
  then show "published s \<Longrightarrow> ?thesis"
    by (simp add: case_prod_beta rpc_configure_streams_eq published_def split: sum.splits)
qed (simp_all add: case_prod_beta)

lemma serve_published: "published s \<Longrightarrow> published (snd (serve env now wall token req s))"
  by (auto simp: serve_def api_validate_eq case_prod_beta perform_published split: option.splits)

lemma api_run_published: "published s \<Longrightarrow> published (snd (api_run env enc es s))"
proof (induction es arbitrary: s)
  case (Cons e es)
  have "published (snd (api_step env enc e s))"
    using Cons.prems
    by (cases e) (auto simp: case_prod_beta rpc_get_token_def serve_published Let_def split: sum.splits)
  with Cons.IH show ?case by (simp add: case_prod_beta)
qed simp

section \<open>Properties\<close>


definition example_api :: "unit slave_api" where
  "example_api = \<lparr>sa_state = PreOp, sa_status = update_state PreOp 0 (status_store_new 0),
     sa_tokens = token_store_new (replicate 32 1), sa_streams = stream_store_new (replicate 32 1),
     sa_hardware = ()\<rparr>"

definition example_env :: "unit api_env" where
  "example_env =
     \<lparr>env_hash = \<lambda>t. map (\<lambda>c. of_char c) t,
      env_info = \<lparr>read_device_info = \<lambda>_. Inl ErrHardwareAccess,
                  write_device_info = \<lambda>p _. (Inl ErrHardwareAccess, p)\<rparr>,
      env_image = \<lparr>get_layout = \<lambda>_. Inr [], read_outputs = \<lambda>_ _. Inl ErrHardwareAccess,
                   write_inputs = \<lambda>p _ _. (Inl ErrHardwareAccess, p)\<rparr>\<rparr>"


text \<open>
  C17 Configuring streams is atomic: \<open>configure_streams\<close> either replaces the whole stream table by
  the requested one, in \<open>PreOp\<close> and when every stream passes the checks against the layout and the
  identifiers differ, or leaves the service as it was with the error of the first failing check;
  the store itself never refuses what the service validated.
\<close>

theorem configure_streams_atomic:
  "rpc_configure_streams access streams s =
     (if sa_state s \<noteq> PreOp then (status_num ErrNotReady, s)
      else case get_layout access (sa_hardware s) of
        Inl code \<Rightarrow> (status_num code, s)
      | Inr layout \<Rightarrow>
          if (\<forall>stream \<in> set streams. stream_ok layout stream) \<and> distinct (map sc_stream_id streams)
          then (status_num NoError,
                s\<lparr>sa_streams := (sa_streams s)\<lparr>ss_streams := config_map streams\<rparr>\<rparr>)
          else (status_num ErrParamInvalid, s))"
  by (rule rpc_configure_streams_eq)

theorem configure_streams_atomic_witness:
  "fst (rpc_configure_streams (env_image example_env) [example_config 1 Input] example_api) =
     status_num ErrParamInvalid"
  by (subst configure_streams_atomic) (simp add: example_api_def example_env_def stream_ok_def)

text \<open>
  The published state follows the state machine: as long as requests are served one after the
  other, the status a client reads names the state the manager is in.
\<close>

lemma published_state_agrees:
  assumes "ds_state (st_current (sa_status s)) = state_num (sa_state s)"
  shows "ds_state (st_current (sa_status (snd (api_run env enc es s)))) =
     state_num (sa_state (snd (api_run env enc es s)))"
  using api_run_published [of s env enc es] assms by (simp add: published_def)

lemma published_state_agrees_example:
  "ds_state (st_current (sa_status (snd (api_run example_env (\<lambda>_. [])
      [Request 5 0 None (SetTargetState SafeOp)] example_api)))) =
   state_num (sa_state (snd (api_run example_env (\<lambda>_. [])
      [Request 5 0 None (SetTargetState SafeOp)] example_api)))"
  using published_state_agrees [of example_api example_env "\<lambda>_. []"
      "[Request 5 0 None (SetTargetState SafeOp)]"]
  by (simp add: example_api_def)

text \<open>Interleaved requests break that agreement: when the update of the status for a granted
  request to enter \<open>Op\<close> runs after a whole request to shut down, the manager is in \<open>Shutdown\<close>
  while the published state, which the slave's cyclic threads act on, is \<open>Op\<close>.\<close>

lemma interleaved_target_states:
  assumes "sa_state s = SafeOp"
  shows "let (r1, s1) = rpc_set_manager Op s;
             (code, s2) = rpc_set_target_state Shutdown w1 s1;
             s3 = rpc_set_status Op w2 s2
         in r1 = Inr () \<and> code = status_num NoError \<and> sa_state s3 = Shutdown \<and>
            ds_state (st_current (sa_status s3)) = state_num Op"
  using assms by (simp add: rpc_set_manager_def rpc_set_target_state_def rpc_set_status_def Let_def)

end
