(* ===== verification/Api_Client.thy ===== *)
theory Api_Client
  imports Slave_Api
begin

text \<open>
  \<^verbatim>\<open>src/master/src/slave_api_client.rs\<close>: the master's client of the management interface, which
  caches an access token, fetches one when it has none and repeats a call once when the service
  no longer takes the token. The generated gRPC client is a library: a connection is a record of
  its two remote operations over a world of any type, and of the test whether a text is a legal
  header value.
\<close>

section \<open>State and operations\<close>

text \<open>The error status of a call; the other codes of the transport are told apart by number.\<close>

datatype call_code = CodeUnauthenticated | CodeInternal | CodeOther nat

record call_error =
  ce_code :: call_code
  ce_message :: string

type_synonym 'a call_result = "call_error + 'a"

record 'w connection =
  remote_get_token :: "bytes \<Rightarrow> 'w \<Rightarrow> (string \<times> int) call_result \<times> 'w"
  remote_call :: "string \<Rightarrow> request \<Rightarrow> 'w \<Rightarrow> reply call_result \<times> 'w"
  header_value :: "string \<Rightarrow> bool"

record api_client =
  ac_token :: "string option"
  ac_shared_key :: bytes

definition api_client_connect :: "bytes \<Rightarrow> api_client" where
  "api_client_connect shared_key = \<lparr>ac_token = None, ac_shared_key = shared_key\<rparr>"

definition client_get_token ::
    "'w connection \<Rightarrow> api_client \<Rightarrow> 'w \<Rightarrow> (string \<times> int) call_result \<times> api_client \<times> 'w" where
  "client_get_token con c w =
     (case remote_get_token con (ac_shared_key c) w of
        (Inr (token, status), w') \<Rightarrow>
          (Inr (token, status),
           if status = status_num NoError \<and> token \<noteq> [] then c\<lparr>ac_token := Some token\<rparr> else c, w')
      | (Inl e, w') \<Rightarrow> (Inl e, c, w'))"

definition refresh_token ::
    "'w connection \<Rightarrow> api_client \<Rightarrow> 'w \<Rightarrow> unit call_result \<times> api_client \<times> 'w" where
  "refresh_token con c w =
     (case client_get_token con c w of
        (Inl e, c', w') \<Rightarrow> (Inl e, c', w')
      | (Inr (token, status), c', w') \<Rightarrow>
          if status \<noteq> status_num NoError \<or> token = []
          then (Inl \<lparr>ce_code = CodeUnauthenticated, ce_message = ''token refresh failed''\<rparr>, c', w')
          else (Inr (), c', w'))"

definition ensure_token ::
    "'w connection \<Rightarrow> api_client \<Rightarrow> 'w \<Rightarrow> unit call_result \<times> api_client \<times> 'w" where
  "ensure_token con c w =
     (if ac_token c \<noteq> None then (Inr (), c, w) else refresh_token con c w)"

text \<open>The header that is put on the request, or the error.\<close>

definition attach_token ::
    "'w connection \<Rightarrow> api_client \<Rightarrow> 'w \<Rightarrow> string call_result \<times> api_client \<times> 'w" where
  "attach_token con c w =
     (case ensure_token con c w of
        (Inl e, c', w') \<Rightarrow> (Inl e, c', w')
      | (Inr _, c', w') \<Rightarrow>
          (case ac_token c' of
             None \<Rightarrow>
               (Inl \<lparr>ce_code = CodeUnauthenticated, ce_message = ''missing authentication token''\<rparr>, c', w')
           | Some token \<Rightarrow>
               if header_value con token then (Inr token, c', w')
               else (Inl \<lparr>ce_code = CodeInternal, ce_message = ''invalid token format''\<rparr>, c', w')))"

definition invalidate_token :: "api_client \<Rightarrow> api_client" where
  "invalidate_token c = c\<lparr>ac_token := None\<rparr>"

text \<open>A request with the token attached, sent once.\<close>

definition attempt ::
    "'w connection \<Rightarrow> request \<Rightarrow> api_client \<Rightarrow> 'w \<Rightarrow> (call_error + reply call_result) \<times> api_client \<times> 'w" where
  "attempt con req c w =
     (case attach_token con c w of
        (Inl e, c', w') \<Rightarrow> (Inl e, c', w')
      | (Inr token, c', w') \<Rightarrow> (let (r, w'') = remote_call con token req w' in (Inr r, c', w'')))"

text \<open>The body all procedures of the client share: an error while attaching the token ends the
  call (\<open>?\<close>), an \<open>Unauthenticated\<close> answer drops the token and sends the request a second time.\<close>

definition authorized_call ::
    "'w connection \<Rightarrow> request \<Rightarrow> api_client \<Rightarrow> 'w \<Rightarrow> reply call_result \<times> api_client \<times> 'w" where
  "authorized_call con req c w =
     (case attempt con req c w of
        (Inl e, c', w') \<Rightarrow> (Inl e, c', w')
      | (Inr (Inr response), c', w') \<Rightarrow> (Inr response, c', w')
      | (Inr (Inl status), c', w') \<Rightarrow>
          if ce_code status = CodeUnauthenticated
          then (case attempt con req (invalidate_token c') w' of
                  (Inl e, c'', w'') \<Rightarrow> (Inl e, c'', w'')
                | (Inr r, c'', w'') \<Rightarrow> (r, c'', w''))
          else (Inl status, c', w'))"

definition client_set_target_state where
  "client_set_target_state con target_state = authorized_call con (SetTargetState target_state)"

definition client_get_status where
  "client_get_status con = authorized_call con GetStatus"

definition client_subscribe_to_device_status where
  "client_subscribe_to_device_status con min_interval_sec =
     authorized_call con (SubscribeToDeviceStatus min_interval_sec)"

definition client_get_device_status_log where
  "client_get_device_status_log con offset limit = authorized_call con (GetDeviceStatusLog offset limit)"

definition client_get_device_info where
  "client_get_device_info con = authorized_call con GetDeviceInfo"

definition client_get_process_data_layout where
  "client_get_process_data_layout con = authorized_call con GetProcessDataLayout"

definition client_configure_streams where
  "client_configure_streams con streams = authorized_call con (ConfigureStreams streams)"

section \<open>What the client relies on\<close>

text \<open>
  The contract of a service that issues tokens and serves calls with them. \<open>core\<close> is the part of
  the world the procedures work on, and \<open>does\<close> what one procedure may do to it; \<open>healthy\<close> is what
  the service keeps as long as it runs. A call with a token that is not live is answered
  \<open>Unauthenticated\<close> and does nothing.
\<close>

locale token_service =
  fixes con :: "'w connection"
    and healthy :: "'w \<Rightarrow> bool"
    and accepts :: "bytes \<Rightarrow> 'w \<Rightarrow> bool"
    and live :: "string \<Rightarrow> 'w \<Rightarrow> bool"
    and core :: "'w \<Rightarrow> 'c"
    and does :: "request \<Rightarrow> 'c \<Rightarrow> reply \<Rightarrow> 'c \<Rightarrow> bool"
  assumes issues: "healthy w \<Longrightarrow> accepts key w \<Longrightarrow>
      \<exists>token w'. remote_get_token con key w = (Inr (token, status_num NoError), w') \<and> token \<noteq> [] \<and>
        header_value con token \<and> live token w' \<and> healthy w' \<and> accepts key w' \<and> core w' = core w"
    and refuses: "healthy w \<Longrightarrow> \<not> accepts key w \<Longrightarrow>
      \<exists>status w'. remote_get_token con key w = (Inr ([], status), w') \<and>
        healthy w' \<and> \<not> accepts key w' \<and> core w' = core w"
    and serves: "healthy w \<Longrightarrow> live token w \<Longrightarrow>
      \<exists>r w'. remote_call con token req w = (Inr r, w') \<and> does req (core w) r (core w') \<and>
        healthy w' \<and> (\<forall>key. accepts key w' = accepts key w)"
    and rejects: "healthy w \<Longrightarrow> \<not> live token w \<Longrightarrow>
      \<exists>e w'. remote_call con token req w = (Inl e, w') \<and> ce_code e = CodeUnauthenticated \<and>
        core w' = core w \<and> healthy w' \<and> (\<forall>key. accepts key w' = accepts key w)"
begin

lemma attempt_with_token:
  assumes "ac_token c = Some token" "header_value con token"
  shows "attempt con req c w =
    (let (r, w') = remote_call con token req w in (Inr r, c, w'))"
  using assms by (simp add: attempt_def attach_token_def ensure_token_def)

lemma attempt_without_token:
  assumes "healthy w" "accepts (ac_shared_key c) w" "ac_token c = None"
  shows "\<exists>r token w'. attempt con req c w = (Inr (Inr r), c\<lparr>ac_token := Some token\<rparr>, w') \<and>
    does req (core w) r (core w') \<and> header_value con token \<and> healthy w' \<and> accepts (ac_shared_key c) w'"
proof -
  obtain token w1 where got: "remote_get_token con (ac_shared_key c) w = (Inr (token, status_num NoError), w1)"
      "token \<noteq> []" "header_value con token" "live token w1" "healthy w1" "accepts (ac_shared_key c) w1"
      "core w1 = core w"
    using issues [OF assms(1,2)] by blast
  obtain r w2 where "remote_call con token req w1 = (Inr r, w2)" "does req (core w1) r (core w2)"
      "healthy w2" "\<forall>key. accepts key w2 = accepts key w1"
    using serves [OF got(5,4)] by blast
  then have "attempt con req c w = (Inr (Inr r), c\<lparr>ac_token := Some token\<rparr>, w2) \<and>
      does req (core w) r (core w2) \<and> header_value con token \<and> healthy w2 \<and> accepts (ac_shared_key c) w2"
    using got assms(3)
    by (simp add: attempt_def attach_token_def ensure_token_def refresh_token_def client_get_token_def)
  then show ?thesis by blast
qed

lemma attempt_refused:
  assumes "healthy w" "\<not> accepts (ac_shared_key c) w" "ac_token c = None"
  shows "\<exists>w'. attempt con req c w =
      (Inl \<lparr>ce_code = CodeUnauthenticated, ce_message = ''token refresh failed''\<rparr>, c, w') \<and> core w' = core w"
proof -
  obtain status w' where "remote_get_token con (ac_shared_key c) w = (Inr ([], status), w')" "core w' = core w"
    using refuses [OF assms(1,2)] by blast
  then show ?thesis using assms(3)
    by (simp add: attempt_def attach_token_def ensure_token_def refresh_token_def client_get_token_def)
qed

text \<open>With the right key every call is served exactly once, whatever became of the cached token.\<close>

lemma call_served:
  assumes "healthy w" "accepts (ac_shared_key c) w" "\<forall>token. ac_token c = Some token \<longrightarrow> header_value con token"
  shows "\<exists>r token w'. authorized_call con req c w = (Inr r, c\<lparr>ac_token := Some token\<rparr>, w') \<and>
    does req (core w) r (core w') \<and> header_value con token \<and> healthy w' \<and> accepts (ac_shared_key c) w'"
proof (cases "ac_token c")
  case None
  obtain r token w' where "attempt con req c w = (Inr (Inr r), c\<lparr>ac_token := Some token\<rparr>, w')"
      "does req (core w) r (core w')" "header_value con token" "healthy w'" "accepts (ac_shared_key c) w'"
    using attempt_without_token [OF assms(1,2) None] by blast
  then show ?thesis by (auto simp: authorized_call_def)
next
  case (Some t)
  with assms(3) have hdr: "header_value con t" by simp
  note first = attempt_with_token [OF Some hdr, of req w]
  show ?thesis
  proof (cases "live t w")
    case True
    obtain r w' where call: "remote_call con t req w = (Inr r, w')"
        and rest: "does req (core w) r (core w')" "healthy w'" "\<forall>key. accepts key w' = accepts key w"
      using serves [OF assms(1) True] by blast
    from call first have "authorized_call con req c w = (Inr r, c, w')" by (simp add: authorized_call_def)
    moreover have "c\<lparr>ac_token := Some t\<rparr> = c" using Some by simp
    ultimately show ?thesis using rest hdr assms(2) by metis
  next
    case False
    let ?c = "invalidate_token c"
    obtain e w1 where call: "remote_call con t req w = (Inl e, w1)" "ce_code e = CodeUnauthenticated"
        "core w1 = core w" "healthy w1" "\<forall>key. accepts key w1 = accepts key w"
      using rejects [OF assms(1) False] by blast
    have "accepts (ac_shared_key ?c) w1" "ac_token ?c = None"
      using call(5) assms(2) by (simp_all add: invalidate_token_def)
    from attempt_without_token [OF call(4) this, of req] obtain r token w'
      where "attempt con req ?c w1 = (Inr (Inr r), ?c\<lparr>ac_token := Some token\<rparr>, w')"
        "does req (core w1) r (core w')" "header_value con token" "healthy w'" "accepts (ac_shared_key ?c) w'"
      by blast
    with call first have "authorized_call con req c w = (Inr r, c\<lparr>ac_token := Some token\<rparr>, w') \<and>
        does req (core w) r (core w') \<and> header_value con token \<and> healthy w' \<and> accepts (ac_shared_key c) w'"
      by (simp add: authorized_call_def invalidate_token_def)
    then show ?thesis by blast
  qed
qed

text \<open>With a wrong key and no live token no call is served, and the client ends without a token.\<close>

lemma call_refused:
  assumes "healthy w" "\<not> accepts (ac_shared_key c) w"
    and "\<forall>token. ac_token c = Some token \<longrightarrow> header_value con token \<and> \<not> live token w"
  shows "\<exists>w'. authorized_call con req c w =
      (Inl \<lparr>ce_code = CodeUnauthenticated, ce_message = ''token refresh failed''\<rparr>,
       c\<lparr>ac_token := None\<rparr>, w') \<and> core w' = core w"
proof (cases "ac_token c")
  case None
  then have "c\<lparr>ac_token := None\<rparr> = c" by simp
  with attempt_refused [OF assms(1,2) None, of req] show ?thesis by (auto simp: authorized_call_def)
next
  case (Some t)
  with assms(3) have t: "header_value con t" "\<not> live t w" by simp_all
  let ?c = "invalidate_token c"
  obtain e w1 where call: "remote_call con t req w = (Inl e, w1)" "ce_code e = CodeUnauthenticated"
      "core w1 = core w" "healthy w1" "\<forall>key. accepts key w1 = accepts key w"
    using rejects [OF assms(1) t(2)] by blast
  have "\<not> accepts (ac_shared_key ?c) w1" "ac_token ?c = None"
    using call(5) assms(2) by (simp_all add: invalidate_token_def)
  from attempt_refused [OF call(4) this, of req] call attempt_with_token [OF Some t(1), of req w]
  show ?thesis by (auto simp: authorized_call_def invalidate_token_def)
qed

end

section \<open>The service as a connection\<close>

text \<open>
  The model of the service behind a connection that loses nothing. Its world is the service and
  the number of calls so far; round \<open>n\<close> of the readings holds what the token requests between
  calls \<open>n - 1\<close> and \<open>n\<close> and call \<open>n\<close> itself read from clocks and the random source.
\<close>

record round_inputs =
  ri_token :: token_inputs
  ri_now :: nat
  ri_wall :: u64

record 'p service =
  sv_api :: "'p slave_api"
  sv_calls :: nat

definition service_connection ::
    "'p api_env \<Rightarrow> (bytes \<Rightarrow> string) \<Rightarrow> (string \<Rightarrow> bool) \<Rightarrow> (nat \<Rightarrow> round_inputs) \<Rightarrow> 'p service connection" where
  "service_connection env enc hdr inp =
     \<lparr>remote_get_token = (\<lambda>key w.
        let (r, s') = rpc_get_token (env_hash env) enc key (ri_token (inp (sv_calls w))) (sv_api w)
        in (Inr r, w\<lparr>sv_api := s'\<rparr>)),
      remote_call = (\<lambda>token req w.
        let i = inp (sv_calls w);
            (r, s') = serve env (ri_now i) (ri_wall i) (Some token) req (sv_api w);
            w' = w\<lparr>sv_api := s', sv_calls := sv_calls w + 1\<rparr>
        in case r of
             Inr reply \<Rightarrow> (Inr reply, w')
           | Inl (Unauthenticated message) \<Rightarrow>
               (Inl \<lparr>ce_code = CodeUnauthenticated, ce_message = message\<rparr>, w')),
      header_value = hdr\<rparr>"

text \<open>What the environment has to provide: tokens are legal header values, and a call arrives
  less than the ten minutes of a token's life after the token was asked for.\<close>

definition timely ::
    "(bytes \<Rightarrow> string) \<Rightarrow> (string \<Rightarrow> bool) \<Rightarrow> (nat \<Rightarrow> round_inputs) \<Rightarrow> bool" where
  "timely enc hdr inp \<longleftrightarrow>
     (\<forall>n. hdr (generate_token enc (ri_token (inp n))) \<and>
          ri_now (inp n) < ti_issued (ri_token (inp n)) + TOKEN_TTL_SECONDS * 10 ^ 9)"

definition service_accepts :: "bytes \<Rightarrow> 'p service \<Rightarrow> bool" where
  "service_accepts key w \<longleftrightarrow> is_shared_key_valid key (sa_tokens (sv_api w))"

definition service_live :: "'p api_env \<Rightarrow> (nat \<Rightarrow> round_inputs) \<Rightarrow> string \<Rightarrow> 'p service \<Rightarrow> bool" where
  "service_live env inp token w \<longleftrightarrow>
     fst (validate_token (env_hash env) (ri_now (inp (sv_calls w))) token (sa_tokens (sv_api w)))"

text \<open>The service without its table of tokens.\<close>

definition service_core :: "'p service \<Rightarrow> 'p slave_api" where
  "service_core w = (sv_api w)\<lparr>sa_tokens := token_store_new []\<rparr>"

definition performs :: "'p api_env \<Rightarrow> request \<Rightarrow> 'p slave_api \<Rightarrow> reply \<Rightarrow> 'p slave_api \<Rightarrow> bool" where
  "performs env req s r s' \<longleftrightarrow> (\<exists>wall. perform env wall req s = (r, s'))"

lemma perform_tokens:
  "perform env wall req (s\<lparr>sa_tokens := t\<rparr>) =
     (fst (perform env wall req s), (snd (perform env wall req s))\<lparr>sa_tokens := t\<rparr>)"
proof (cases req)
  case (SetTargetState target)
  then show ?thesis
    by (auto simp: rpc_set_target_state_def rpc_set_manager_def rpc_set_status_def case_prod_beta
        split: prod.splits sum.splits)
next
  case (ConfigureStreams streams)
  then show ?thesis by (auto simp: rpc_configure_streams_eq case_prod_beta split: sum.splits)
qed (auto simp: case_prod_beta rpc_get_device_status_log_def rpc_get_device_info_def
      rpc_get_process_data_layout_def split: sum.splits)

lemma perform_keeps_tokens [simp]: "sa_tokens (snd (perform env wall req s)) = sa_tokens s"
  by (cases req) (auto simp: rpc_set_target_state_def rpc_set_manager_def rpc_set_status_def
      rpc_configure_streams_eq case_prod_beta split: prod.splits sum.splits)

interpretation svc: token_service "service_connection env enc hdr inp" "\<lambda>_. timely enc hdr inp"
    service_accepts "service_live env inp" service_core "performs env"
proof
  fix w :: "'a service" and key
  assume "timely enc hdr inp" "service_accepts key w"
  then show "\<exists>token w'. remote_get_token (service_connection env enc hdr inp) key w =
        (Inr (token, status_num NoError), w') \<and> token \<noteq> [] \<and>
      header_value (service_connection env enc hdr inp) token \<and> service_live env inp token w' \<and>
      timely enc hdr inp \<and> service_accepts key w' \<and> service_core w' = service_core w"
    by (auto simp: service_connection_def service_accepts_def service_live_def service_core_def timely_def
        rpc_get_token_def issue_token_eq validate_token_eq is_shared_key_valid_iff generate_token_def Let_def)
next
  fix w :: "'a service" and key
  assume "timely enc hdr inp" "\<not> service_accepts key w"
  then show "\<exists>status w'. remote_get_token (service_connection env enc hdr inp) key w = (Inr ([], status), w') \<and>
      timely enc hdr inp \<and> \<not> service_accepts key w' \<and> service_core w' = service_core w"
    by (auto simp: service_connection_def service_accepts_def service_core_def rpc_get_token_def
        issue_token_eq is_shared_key_valid_iff)
next
  fix w :: "'a service" and token req
  assume "timely enc hdr inp" "service_live env inp token w"
  then show "\<exists>r w'. remote_call (service_connection env enc hdr inp) token req w = (Inr r, w') \<and>
      performs env req (service_core w) r (service_core w') \<and> timely enc hdr inp \<and>
      (\<forall>key. service_accepts key w' = service_accepts key w)"
    by (auto simp: service_connection_def service_accepts_def service_live_def service_core_def performs_def
        serve_def api_validate_eq validate_token_eq is_shared_key_valid_iff perform_tokens case_prod_beta Let_def)
next
  fix w :: "'a service" and token req
  assume "timely enc hdr inp" "\<not> service_live env inp token w"
  then show "\<exists>e w'. remote_call (service_connection env enc hdr inp) token req w = (Inl e, w') \<and>
      ce_code e = CodeUnauthenticated \<and> service_core w' = service_core w \<and> timely enc hdr inp \<and>
      (\<forall>key. service_accepts key w' = service_accepts key w)"
    by (auto simp: service_connection_def service_accepts_def service_live_def service_core_def
        serve_def api_validate_eq validate_token_eq is_shared_key_valid_iff case_prod_beta Let_def)
qed

text \<open>The laws of the contract, over the service: a call with the right key.\<close>

lemma service_call:
  assumes "timely enc hdr inp" "service_accepts (ac_shared_key c) w"
    and "\<forall>token. ac_token c = Some token \<longrightarrow> hdr token"
  obtains wall r token w' where
    "authorized_call (service_connection env enc hdr inp) req c w = (Inr r, c\<lparr>ac_token := Some token\<rparr>, w')"
    "perform env wall req (service_core w) = (r, service_core w')"
    "hdr token" "service_accepts (ac_shared_key c) w'"
  using svc.call_served [OF assms(1,2), of env req] assms(3)
  by (auto simp: service_connection_def performs_def)

section \<open>Properties\<close>

definition example_rounds :: "nat \<Rightarrow> round_inputs" where
  "example_rounds n =
     \<lparr>ri_token = \<lparr>ti_random = [], ti_timestamp = n, ti_issued = 10 ^ 12 * n, ti_inserted = 10 ^ 12 * n\<rparr>,
      ri_now = 10 ^ 12 * n + 1, ri_wall = 0\<rparr>"

lemma example_timely: "timely (\<lambda>_. []) (\<lambda>_. True) example_rounds"
  by (simp add: timely_def example_rounds_def TOKEN_TTL_SECONDS_def)

lemma example_accepts: "service_accepts (replicate 32 1) \<lparr>sv_api = example_api, sv_calls = 3\<rparr>"
  by (simp add: service_accepts_def is_shared_key_valid_iff example_api_def token_store_new_def)

text \<open>
  C13 The right key always gets through: whatever token the client has cached, none, a live one, or
  one that expired or was never issued, a call of a client with the service's key succeeds, and
  apart from the table of tokens the service afterwards is as if the procedure had run exactly
  once; the client has a token again.
\<close>

theorem client_call_served:
  assumes "timely enc hdr inp"
    and "is_shared_key_valid (ac_shared_key c) (sa_tokens (sv_api w))"
    and "\<forall>token. ac_token c = Some token \<longrightarrow> hdr token"
  shows "\<exists>wall r token w'.
    authorized_call (service_connection env enc hdr inp) req c w = (Inr r, c\<lparr>ac_token := Some token\<rparr>, w') \<and>
    perform env wall req (service_core w) = (r, service_core w')"
proof -
  have "service_accepts (ac_shared_key c) w" using assms(2) by (simp add: service_accepts_def)
  from service_call [OF assms(1) this assms(3), of env req] show ?thesis by metis
qed

theorem client_call_served_witness:
  "\<exists>wall r token w'.
    authorized_call (service_connection example_env (\<lambda>_. []) (\<lambda>_. True) example_rounds)
      (SetTargetState SafeOp) \<lparr>ac_token = Some ''stale'', ac_shared_key = replicate 32 1\<rparr>
      \<lparr>sv_api = example_api, sv_calls = 3\<rparr> =
      (Inr r, \<lparr>ac_token = Some token, ac_shared_key = replicate 32 1\<rparr>, w') \<and>
    perform example_env wall (SetTargetState SafeOp) (service_core \<lparr>sv_api = example_api, sv_calls = 3\<rparr>) =
      (r, service_core w')"
  using client_call_served [OF example_timely, of
      "\<lparr>ac_token = Some ''stale'', ac_shared_key = replicate 32 1\<rparr>" "\<lparr>sv_api = example_api, sv_calls = 3\<rparr>"
      example_env "SetTargetState SafeOp"] example_accepts
  by (simp add: service_accepts_def)

text \<open>
  A wrong key gets nothing: a client whose key the service refuses, and whose cached token is
  not live there, gets an \<open>Unauthenticated\<close> error for every call, the service keeps everything but
  its table of tokens, and the client is left without a token.
\<close>

lemma client_wrong_key:
  assumes "timely enc hdr inp"
    and "\<not> is_shared_key_valid (ac_shared_key c) (sa_tokens (sv_api w))"
    and "\<forall>token. ac_token c = Some token \<longrightarrow> hdr token \<and>
      \<not> fst (validate_token (env_hash env) (ri_now (inp (sv_calls w))) token (sa_tokens (sv_api w)))"
  shows "\<exists>w'. authorized_call (service_connection env enc hdr inp) req c w =
      (Inl \<lparr>ce_code = CodeUnauthenticated, ce_message = ''token refresh failed''\<rparr>,
       c\<lparr>ac_token := None\<rparr>, w') \<and> service_core w' = service_core w"
proof -
  have "\<not> service_accepts (ac_shared_key c) w" using assms(2) by (simp add: service_accepts_def)
  moreover have "\<forall>token. ac_token c = Some token \<longrightarrow>
      header_value (service_connection env enc hdr inp) token \<and> \<not> service_live env inp token w"
    using assms(3) by (simp add: service_live_def service_connection_def)
  ultimately show ?thesis by (rule svc.call_refused [OF assms(1)])
qed

lemma client_wrong_key_example:
  "\<exists>w'. authorized_call (service_connection example_env (\<lambda>_. []) (\<lambda>_. True) example_rounds)
      (SetTargetState SafeOp) \<lparr>ac_token = Some ''forged'', ac_shared_key = replicate 32 2\<rparr>
      \<lparr>sv_api = example_api, sv_calls = 3\<rparr> =
      (Inl \<lparr>ce_code = CodeUnauthenticated, ce_message = ''token refresh failed''\<rparr>,
       \<lparr>ac_token = None, ac_shared_key = replicate 32 2\<rparr>, w') \<and>
    service_core w' = service_core \<lparr>sv_api = example_api, sv_calls = 3\<rparr>"
proof -
  have "(replicate 32 2 :: bytes) \<noteq> replicate 32 1" by simp
  then show ?thesis
    using client_wrong_key [OF example_timely, of
        "\<lparr>ac_token = Some ''forged'', ac_shared_key = replicate 32 2\<rparr>" "\<lparr>sv_api = example_api, sv_calls = 3\<rparr>"
        example_env "SetTargetState SafeOp"]
    by (simp add: is_shared_key_valid_iff example_api_def token_store_new_def validate_token_eq)
qed

end
