(* ===== verification/Discovery_Types.thy ===== *)
theory Discovery_Types
  imports Security
begin

text \<open>
  \<^verbatim>\<open>src/common/src/discovery_types.rs\<close>: the SDCP header, its operation codes, the
  type-length-value fields with their builders and parsers, and the split of a received SDCP
  payload into header, fields and security footer.
\<close>

section \<open>Operation codes and header\<close>

definition ETHERTYPE_SDCP :: u16 where "ETHERTYPE_SDCP = 0x88B5"
definition SDCP_VERSION :: u8 where "SDCP_VERSION = 0x01"
definition SDCP_HEADER_SIZE :: nat where "SDCP_HEADER_SIZE = 5"
definition SDCP_FLAGS :: u8 where "SDCP_FLAGS = 0x00"
definition TLV_TYPE_DEVICE_INFO :: u8 where "TLV_TYPE_DEVICE_INFO = 0x01"
definition TLV_TYPE_IP_CONFIG :: u8 where "TLV_TYPE_IP_CONFIG = 0x02"
definition TLV_TYPE_STATUS_REPORT :: u8 where "TLV_TYPE_STATUS_REPORT = 0x03"
definition TLV_TYPE_IP_REPORT :: u8 where "TLV_TYPE_IP_REPORT = 0x04"

lemmas tlv_types = TLV_TYPE_DEVICE_INFO_def TLV_TYPE_IP_CONFIG_def TLV_TYPE_STATUS_REPORT_def
  TLV_TYPE_IP_REPORT_def

datatype sdcp_op_code =
    DiscoverReq | DiscoverRes | SetIpReq | SetIpRes | GetIpReq | GetIpRes
  | ActivateDhcpReq | ActivateDhcpRes | UnknownOperation

primrec op_u8 :: "sdcp_op_code \<Rightarrow> u8" where
  "op_u8 DiscoverReq = 0x01"
| "op_u8 DiscoverRes = 0x02"
| "op_u8 SetIpReq = 0x03"
| "op_u8 SetIpRes = 0x04"
| "op_u8 GetIpReq = 0x05"
| "op_u8 GetIpRes = 0x06"
| "op_u8 ActivateDhcpReq = 0x07"
| "op_u8 ActivateDhcpRes = 0x08"
| "op_u8 UnknownOperation = 0x09"

definition op_from_u8 :: "u8 \<Rightarrow> sdcp_op_code" where
  "op_from_u8 val =
     (if val = 0x01 then DiscoverReq
      else if val = 0x02 then DiscoverRes
      else if val = 0x03 then SetIpReq
      else if val = 0x04 then SetIpRes
      else if val = 0x05 then GetIpReq
      else if val = 0x06 then GetIpRes
      else if val = 0x07 then ActivateDhcpReq
      else if val = 0x08 then ActivateDhcpRes
      else UnknownOperation)"

record sdcp_header =
  sh_version :: u8
  sh_op_code :: sdcp_op_code
  sh_transaction_id :: u16
  sh_flags :: u8

definition sdcp_header_new :: "sdcp_op_code \<Rightarrow> u16 \<Rightarrow> sdcp_header" where
  "sdcp_header_new op_code transaction_id =
     \<lparr>sh_version = SDCP_VERSION, sh_op_code = op_code, sh_transaction_id = transaction_id,
      sh_flags = SDCP_FLAGS\<rparr>"

definition sdcp_header_write_to :: "sdcp_header \<Rightarrow> bytes \<Rightarrow> bytes" where
  "sdcp_header_write_to h buf =
     (((buf @ [sh_version h]) @ [op_u8 (sh_op_code h)]) @ be16 (sh_transaction_id h))
       @ [sh_flags h]"

definition sdcp_header_read_from :: "bytes \<Rightarrow> unit + sdcp_header" where
  "sdcp_header_read_from buf =
     (case do {
        (version, r) \<leftarrow> read_u8 buf;
        (op, r) \<leftarrow> read_u8 r;
        (transaction_id, r) \<leftarrow> read_be 2 r;
        (flags, r) \<leftarrow> read_u8 r;
        Some \<lparr>sh_version = version, sh_op_code = op_from_u8 op,
              sh_transaction_id = transaction_id, sh_flags = flags\<rparr>
      } of None \<Rightarrow> Inl () | Some h \<Rightarrow> Inr h)"

definition sdcp_header_bytes :: "sdcp_header \<Rightarrow> bytes" where
  "sdcp_header_bytes h = sdcp_header_write_to h []"

lemma op_from_u8_op_u8 [simp]: "op_from_u8 (op_u8 op) = op"
  by (cases op) (simp_all add: op_from_u8_def)

lemma op_u8_inject [simp]: "op_u8 a = op_u8 b \<longleftrightarrow> a = b"
  by (metis op_from_u8_op_u8)

text \<open>Every byte outside 1 to 8 reads as \<open>UnknownOperation\<close>, which is written as 9.\<close>

lemma op_u8_from_u8: "op_u8 (op_from_u8 b) = (if 1 \<le> b \<and> b \<le> 8 then b else 9)"
proof -
  have "b \<in> {1, 2, 3, 4, 5, 6, 7, 8}" if "1 \<le> b" "b \<le> 8"
    using that by (simp add: word_le_nat_alt word_unat_eq_iff) arith
  then show ?thesis by (auto simp: op_from_u8_def)
qed

lemma sdcp_header_write_to_append: "sdcp_header_write_to h buf = buf @ sdcp_header_bytes h"
  by (simp add: sdcp_header_write_to_def sdcp_header_bytes_def)

lemma length_sdcp_header_bytes [simp, wire_len]: "length (sdcp_header_bytes h) = 5"
  by (simp add: sdcp_header_bytes_def sdcp_header_write_to_def)

lemma sdcp_header_read_write: "sdcp_header_read_from (sdcp_header_bytes h @ rest) = Inr h"
  by (simp add: sdcp_header_read_from_def sdcp_header_bytes_def sdcp_header_write_to_def)

interpretation sdcph: prefix_reader sdcp_header_bytes sdcp_header_read_from "\<lambda>_. True"
  by unfold_locales (simp add: sdcp_header_read_write)

lemma sdcp_header_read_long:
  "5 \<le> length bs \<Longrightarrow> \<exists>h. sdcp_header_read_from bs = Inr h"
proof -
  assume "5 \<le> length bs"
  then obtain a b c d e rest where "bs = a # b # c # d # e # rest"
    by (auto simp: numeral_eq_Suc Suc_le_length_iff)
  then show ?thesis by (simp add: sdcp_header_read_from_def read_be_def)
qed

section \<open>Devices and IP settings\<close>

record sdcp_device_info =
  sdi_vendor_id :: u16
  sdi_device_id :: u16
  sdi_serial_number :: u32

record discovered_device =
  dd_mac_address :: mac_addr
  dd_vendor_id :: u16
  dd_device_id :: u16
  dd_serial_number :: u32

record ip_config =
  ic_ip :: bytes
  ic_netmask :: bytes
  ic_gateway :: bytes

record ip_report =
  ir_ip :: bytes
  ir_netmask :: bytes
  ir_gateway :: bytes
  ir_ip_source :: ip_source

definition discovered_device_new :: "mac_addr \<Rightarrow> sdcp_device_info \<Rightarrow> discovered_device" where
  "discovered_device_new mac info =
     \<lparr>dd_mac_address = mac, dd_vendor_id = sdi_vendor_id info,
      dd_device_id = sdi_device_id info, dd_serial_number = sdi_serial_number info\<rparr>"

section \<open>Type-length-value fields\<close>

record tlv =
  tlv_type :: u8
  tlv_length :: u8
  tlv_value :: bytes

text \<open>\<open>value.len() as u8\<close> keeps the low eight bits of the length.\<close>

definition tlv_new :: "u8 \<Rightarrow> bytes \<Rightarrow> tlv" where
  "tlv_new t_type value = \<lparr>tlv_type = t_type, tlv_length = of_nat (length value),
                           tlv_value = value\<rparr>"

definition tlv_device_info :: "u16 \<Rightarrow> u16 \<Rightarrow> u32 \<Rightarrow> tlv" where
  "tlv_device_info vendor_id device_id serial_number =
     tlv_new TLV_TYPE_DEVICE_INFO ((be16 vendor_id @ be16 device_id) @ be32 serial_number)"

definition tlv_ip_config :: "bytes \<Rightarrow> bytes \<Rightarrow> bytes \<Rightarrow> tlv" where
  "tlv_ip_config ip netmask gateway = tlv_new TLV_TYPE_IP_CONFIG ((ip @ netmask) @ gateway)"

definition tlv_status_report :: "status_code \<Rightarrow> tlv" where
  "tlv_status_report code = tlv_new TLV_TYPE_STATUS_REPORT [status_u8 code]"

definition tlv_ip_report :: "bytes \<Rightarrow> bytes \<Rightarrow> bytes \<Rightarrow> ip_source \<Rightarrow> tlv" where
  "tlv_ip_report ip netmask gateway src =
     tlv_new TLV_TYPE_IP_REPORT (((ip @ netmask) @ gateway) @ [ip_source_u8 src])"

definition tlv_write_to :: "tlv \<Rightarrow> bytes \<Rightarrow> bytes" where
  "tlv_write_to t buf = ((buf @ [tlv_type t]) @ [tlv_length t]) @ tlv_value t"

definition tlv_read_from :: "bytes \<Rightarrow> unit + tlv" where
  "tlv_read_from buf =
     (case do {
        (t_type, r) \<leftarrow> read_u8 buf;
        (len, r) \<leftarrow> read_u8 r;
        (value, r) \<leftarrow> read_exact (unat len) r;
        Some \<lparr>tlv_type = t_type, tlv_length = len, tlv_value = value\<rparr>
      } of None \<Rightarrow> Inl () | Some t \<Rightarrow> Inr t)"

definition tlv_parse_device_info :: "tlv \<Rightarrow> sdcp_device_info option" where
  "tlv_parse_device_info t =
     (if tlv_type t \<noteq> TLV_TYPE_DEVICE_INFO \<or> length (tlv_value t) \<noteq> 8 then None
      else let v = tlv_value t in
        Some \<lparr>sdi_vendor_id = from_be [v ! 0, v ! 1], sdi_device_id = from_be [v ! 2, v ! 3],
              sdi_serial_number = from_be [v ! 4, v ! 5, v ! 6, v ! 7]\<rparr>)"

definition tlv_parse_ip_config :: "tlv \<Rightarrow> ip_config option" where
  "tlv_parse_ip_config t =
     (if tlv_type t \<noteq> TLV_TYPE_IP_CONFIG \<or> length (tlv_value t) \<noteq> 12 then None
      else let v = tlv_value t in
        Some \<lparr>ic_ip = take 4 v, ic_netmask = take 4 (drop 4 v), ic_gateway = take 4 (drop 8 v)\<rparr>)"

definition tlv_parse_status_report :: "tlv \<Rightarrow> status_code option" where
  "tlv_parse_status_report t =
     (if tlv_type t \<noteq> TLV_TYPE_STATUS_REPORT \<or> length (tlv_value t) \<noteq> 1 then None
      else status_try_from (uint (tlv_value t ! 0)))"

text \<open>An unknown address source falls back to the enum's default, its zero value.\<close>

definition tlv_parse_ip_report :: "tlv \<Rightarrow> ip_report option" where
  "tlv_parse_ip_report t =
     (if tlv_type t \<noteq> TLV_TYPE_IP_REPORT \<or> length (tlv_value t) \<noteq> 13 then None
      else let v = tlv_value t;
               src = (case ip_source_try_from (uint (v ! 12)) of None \<Rightarrow> Unspecified
                      | Some s \<Rightarrow> s) in
        Some \<lparr>ir_ip = take 4 v, ir_netmask = take 4 (drop 4 v),
              ir_gateway = take 4 (drop 8 v), ir_ip_source = src\<rparr>)"

definition tlv_ok :: "tlv \<Rightarrow> bool" where
  "tlv_ok t \<longleftrightarrow> unat (tlv_length t) = length (tlv_value t)"

definition tlv_bytes :: "tlv \<Rightarrow> bytes" where
  "tlv_bytes t = tlv_write_to t []"

lemma tlv_write_to_append: "tlv_write_to t buf = buf @ tlv_bytes t"
  by (simp add: tlv_write_to_def tlv_bytes_def)

lemma tlv_ok_new: "tlv_ok (tlv_new t v) \<longleftrightarrow> length v < 256"
  by (auto simp: tlv_ok_def tlv_new_def unat_of_nat mod_eq_self_iff_div_eq_0 div_eq_0_iff)

lemma length_tlv_bytes [wire_len]: "length (tlv_bytes t) = 2 + length (tlv_value t)"
  by (simp add: tlv_bytes_def tlv_write_to_def)

interpretation tlvc: prefix_codec tlv_bytes tlv_read_from tlv_ok
proof
  show "tlv_read_from (tlv_bytes t @ rest) = Inr t" if "tlv_ok t" for t rest
    using that by (simp add: tlv_read_from_def tlv_bytes_def tlv_write_to_def tlv_ok_def)
  show "tlv_ok t \<and> (\<exists>rest. bs = tlv_bytes t @ rest)" if r: "tlv_read_from bs = Inr t" for bs t
  proof -
    from r obtain a b r1 v r2 where "bs = a # b # r1" "r1 = v @ r2" "length v = unat b"
      and "t = \<lparr>tlv_type = a, tlv_length = b, tlv_value = v\<rparr>"
      by (auto simp: tlv_read_from_def dest!: read_u8_SomeD read_exact_SomeD
          split: option.splits Option.bind_splits)
    then show ?thesis by (simp add: tlv_ok_def tlv_bytes_def tlv_write_to_def)
  qed
qed

section \<open>Received payloads\<close>

record parsed_sdcp_payload =
  sp_header :: sdcp_header
  sp_tlv_payload :: bytes
  sp_sequence_number :: u64
  sp_auth_tag :: bytes

definition parse_sdcp_payload :: "bytes \<Rightarrow> status_code + parsed_sdcp_payload" where
  "parse_sdcp_payload payload =
     (case split_payload_and_footer payload of
        Inl _ \<Rightarrow> Inl ErrInvalidLen
      | Inr (payload_without_footer, footer) \<Rightarrow>
          if length payload_without_footer < SDCP_HEADER_SIZE then Inl ErrInvalidLen
          else (case sdcp_header_read_from payload_without_footer of
                  Inl _ \<Rightarrow> Inl ErrFrameParsing
                | Inr header \<Rightarrow>
                    Inr \<lparr>sp_header = header,
                         sp_tlv_payload = drop SDCP_HEADER_SIZE payload_without_footer,
                         sp_sequence_number = sf_sequence_number footer,
                         sp_auth_tag = sf_auth_tag footer\<rparr>))"

definition append_sdcp_footer :: "bytes \<Rightarrow> security_footer \<Rightarrow> bytes" where
  "append_sdcp_footer payload footer = footer_write_to footer payload"

section \<open>Round trips\<close>

lemma tlv_ok_builders [simp]:
  "tlv_ok (tlv_device_info v d n)"
  "length ip = 4 \<Longrightarrow> length nm = 4 \<Longrightarrow> length gw = 4 \<Longrightarrow> tlv_ok (tlv_ip_config ip nm gw)"
  "length ip = 4 \<Longrightarrow> length nm = 4 \<Longrightarrow> length gw = 4 \<Longrightarrow> tlv_ok (tlv_ip_report ip nm gw src)"
  "tlv_ok (tlv_status_report c)"
  by (simp_all add: tlv_device_info_def tlv_ip_config_def tlv_ip_report_def
      tlv_status_report_def tlv_ok_new)

lemma tlv_parse_device_info_build [wire_rt]:
  "tlv_parse_device_info (tlv_device_info v d n) =
     Some \<lparr>sdi_vendor_id = v, sdi_device_id = d, sdi_serial_number = n\<rparr>"
proof -
  let ?v = "(be16 v @ be16 d) @ be32 n"
  have "[?v ! 0, ?v ! 1] = be16 v" "[?v ! 2, ?v ! 3] = be16 d"
    "[?v ! 4, ?v ! 5, ?v ! 6, ?v ! 7] = be32 n"
    using take_2_nth [of 0 ?v] take_2_nth [of 2 ?v] take_4_nth [of 4 ?v]
    by simp_all
  then have "(from_be [?v ! 0, ?v ! 1] :: u16) = v" "(from_be [?v ! 2, ?v ! 3] :: u16) = d"
    "(from_be [?v ! 4, ?v ! 5, ?v ! 6, ?v ! 7] :: u32) = n"
    by (simp_all only:) simp_all
  then show ?thesis
    by (simp add: tlv_parse_device_info_def tlv_device_info_def tlv_new_def Let_def
        del: append_assoc)
qed

lemma tlv_parse_ip_config_build [wire_rt]:
  assumes "length ip = 4" "length nm = 4" "length gw = 4"
  shows "tlv_parse_ip_config (tlv_ip_config ip nm gw) =
     Some \<lparr>ic_ip = ip, ic_netmask = nm, ic_gateway = gw\<rparr>"
  using assms by (simp add: tlv_parse_ip_config_def tlv_ip_config_def tlv_new_def)

lemma tlv_parse_status_report_build [wire_rt]:
  "tlv_parse_status_report (tlv_status_report c) = Some c"
  by (simp add: tlv_parse_status_report_def tlv_status_report_def tlv_new_def)

lemma tlv_parse_ip_report_build [wire_rt]:
  assumes "length ip = 4" "length nm = 4" "length gw = 4"
  shows "tlv_parse_ip_report (tlv_ip_report ip nm gw src) =
     Some \<lparr>ir_ip = ip, ir_netmask = nm, ir_gateway = gw, ir_ip_source = src\<rparr>"
  using assms
  by (simp add: tlv_parse_ip_report_def tlv_ip_report_def tlv_new_def nth_append)

text \<open>A field is read by the parser of its own type only.\<close>

lemma tlv_parse_type:
  "tlv_parse_device_info t \<noteq> None \<Longrightarrow> tlv_type t = TLV_TYPE_DEVICE_INFO"
  "tlv_parse_ip_config t \<noteq> None \<Longrightarrow> tlv_type t = TLV_TYPE_IP_CONFIG"
  "tlv_parse_status_report t \<noteq> None \<Longrightarrow> tlv_type t = TLV_TYPE_STATUS_REPORT"
  "tlv_parse_ip_report t \<noteq> None \<Longrightarrow> tlv_type t = TLV_TYPE_IP_REPORT"
  by (auto simp: tlv_parse_device_info_def tlv_parse_ip_config_def tlv_parse_status_report_def
      tlv_parse_ip_report_def split: if_splits)

lemma parse_sdcp_payload_build [wire_rt]:
  assumes "footer_ok f"
  shows "parse_sdcp_payload (append_sdcp_footer (sdcp_header_bytes h @ tlvs) f) =
     Inr \<lparr>sp_header = h, sp_tlv_payload = tlvs, sp_sequence_number = sf_sequence_number f,
          sp_auth_tag = sf_auth_tag f\<rparr>"
  by (simp add: parse_sdcp_payload_def append_sdcp_footer_def split_write [OF assms]
      SDCP_HEADER_SIZE_def sdcp_header_read_write)

lemma sdcp_header_read_InrD:
  assumes "sdcp_header_read_from bs = Inr h"
  shows "\<exists>op rest. bs = [sh_version h, op] @ be16 (sh_transaction_id h) @ [sh_flags h] @ rest \<and>
           sh_op_code h = op_from_u8 op"
proof -
  from assms obtain v r1 op r2 t r3 f r4 where
    "read_u8 bs = Some (v, r1)" "read_u8 r1 = Some (op, r2)"
    "read_be 2 r2 = Some (t :: u16, r3)" "read_u8 r3 = Some (f, r4)"
    and h: "h = \<lparr>sh_version = v, sh_op_code = op_from_u8 op, sh_transaction_id = t, sh_flags = f\<rparr>"
    by (auto simp: sdcp_header_read_from_def split: option.splits Option.bind_splits)
  then have "bs = v # op # be16 t @ f # r4"
    by (auto dest!: read_u8_SomeD read_be_SomeD)
  with h show ?thesis by auto
qed

text \<open>
  What an accepted payload looks like on the wire. Only the operation byte can differ from
  what \<open>write_to\<close> would give, and only when it is none of the eight known codes.
\<close>

lemma parse_sdcp_payload_InrD:
  assumes "parse_sdcp_payload bs = Inr p"
  shows "\<exists>op. sh_op_code (sp_header p) = op_from_u8 op \<and>
    footer_ok \<lparr>sf_sequence_number = sp_sequence_number p, sf_auth_tag = sp_auth_tag p\<rparr> \<and>
    bs = footer_write_to \<lparr>sf_sequence_number = sp_sequence_number p, sf_auth_tag = sp_auth_tag p\<rparr>
      ([sh_version (sp_header p), op] @ be16 (sh_transaction_id (sp_header p))
         @ [sh_flags (sp_header p)] @ sp_tlv_payload p)"
proof -
  from assms obtain q f where q: "split_payload_and_footer bs = Inr (q, f)"
    and h: "sdcp_header_read_from q = Inr (sp_header p)" and tlv: "sp_tlv_payload p = drop 5 q"
    and f: "f = \<lparr>sf_sequence_number = sp_sequence_number p, sf_auth_tag = sp_auth_tag p\<rparr>"
    by (auto simp: parse_sdcp_payload_def SDCP_HEADER_SIZE_def split: sum.splits if_splits)
  from sdcp_header_read_InrD [OF h] obtain op rest where
    op: "sh_op_code (sp_header p) = op_from_u8 op"
    and qq: "q = [sh_version (sp_header p), op] @ be16 (sh_transaction_id (sp_header p))
          @ [sh_flags (sp_header p)] @ rest" by blast
  have "drop 5 q = rest"
    by (simp add: qq)
  with tlv qq op split_InrD [OF q] f show ?thesis by auto
qed

lemma parse_sdcp_payload_InlD: "parse_sdcp_payload bs = Inl e \<Longrightarrow> e = ErrInvalidLen"
  using sdcp_header_read_long
  by (fastforce simp: parse_sdcp_payload_def SDCP_HEADER_SIZE_def not_less
      split: sum.splits if_splits)

lemma sdcp_header_read_bytes:
  "sdcp_header_read_from ([v, op] @ be16 tid @ [fl] @ rest) =
     Inr \<lparr>sh_version = v, sh_op_code = op_from_u8 op, sh_transaction_id = tid, sh_flags = fl\<rparr>"
  by (simp add: sdcp_header_read_from_def)

section \<open>Properties\<close>


text \<open>
  The fields of the discovery protocol: what each of the four builders writes is read back, as a
  field and by the parser of its type, for every content.
\<close>

lemma tlv_builders_roundtrip:
  assumes "length ip = 4" and "length nm = 4" and "length gw = 4"
  shows "map_sum id tlv_parse_device_info (tlv_read_from (tlv_bytes (tlv_device_info v d n))) =
      Inr (Some \<lparr>sdi_vendor_id = v, sdi_device_id = d, sdi_serial_number = n\<rparr>) \<and>
    map_sum id tlv_parse_ip_config (tlv_read_from (tlv_bytes (tlv_ip_config ip nm gw))) =
      Inr (Some \<lparr>ic_ip = ip, ic_netmask = nm, ic_gateway = gw\<rparr>) \<and>
    map_sum id tlv_parse_status_report (tlv_read_from (tlv_bytes (tlv_status_report c))) = Inr (Some c) \<and>
    map_sum id tlv_parse_ip_report (tlv_read_from (tlv_bytes (tlv_ip_report ip nm gw src))) =
      Inr (Some \<lparr>ir_ip = ip, ir_netmask = nm, ir_gateway = gw, ir_ip_source = src\<rparr>)"
  using assms by (simp add: tlvc.rd_wr_exact wire_rt)

lemma tlv_builders_roundtrip_example:
  "map_sum id tlv_parse_ip_config (tlv_read_from (tlv_bytes
     (tlv_ip_config [10, 0, 0, 12] [255, 255, 255, 0] [0, 0, 0, 0]))) =
   Inr (Some \<lparr>ic_ip = [10, 0, 0, 12], ic_netmask = [255, 255, 255, 0], ic_gateway = [0, 0, 0, 0]\<rparr>)"
  using tlv_builders_roundtrip [of "[10, 0, 0, 12]" "[255, 255, 255, 0]" "[0, 0, 0, 0]"] by simp

end
