(* ===== verification/Ethernet.thy ===== *)
theory Ethernet
  imports L2_Types Discovery_Types
begin

text \<open>
  The packet views of the \<^verbatim>\<open>pnet\<close> crate both ends of the discovery protocol use. The crate is a
  parameter: \<open>pn_new\<close> stands for \<open>EthernetPacket::new\<close> with the getters of the view it returns,
  \<open>pn_frame\<close> for \<open>MutableEthernetPacket::new\<close> over a zeroed buffer of the given size, its setters
  and \<open>set_payload\<close>. \<open>pnet_ok\<close> is its documented behaviour: the fields that were set are read
  back, and the payload is what follows the 14 bytes of the header.
\<close>

record eth_packet =
  ep_destination :: mac_addr
  ep_source :: mac_addr
  ep_ethertype :: u16
  ep_payload :: bytes

record pnet =
  pn_new :: "bytes \<Rightarrow> eth_packet option"
  pn_frame :: "nat \<Rightarrow> mac_addr \<Rightarrow> mac_addr \<Rightarrow> u16 \<Rightarrow> bytes \<Rightarrow> bytes option"

definition pnet_ok :: "pnet \<Rightarrow> bool" where
  "pnet_ok P \<longleftrightarrow>
     (\<forall>d s t p. \<exists>f. pn_frame P (14 + length p) d s t p = Some f \<and> length f = 14 + length p \<and>
        pn_new P f = Some \<lparr>ep_destination = d, ep_source = s, ep_ethertype = t, ep_payload = p\<rparr>) \<and>
     (\<forall>f e pad. pn_new P f = Some e \<longrightarrow> pn_new P (f @ pad) = Some (e\<lparr>ep_payload := ep_payload e @ pad\<rparr>))"

text \<open>A crate that lays the frame out as IEEE 802.3 does.\<close>

definition wire_pnet :: pnet where
  "wire_pnet =
     \<lparr>pn_new = (\<lambda>f. if length f < 14 then None
        else Some \<lparr>ep_destination = mac_at f 0, ep_source = mac_at f 6,
                   ep_ethertype = from_be (take 2 (drop 12 f)), ep_payload = drop 14 f\<rparr>),
      pn_frame = (\<lambda>n d s t p. if n < 14 + length p then None
        else Some (octets d @ octets s @ be16 t @ p @ replicate (n - (14 + length p)) 0))\<rparr>"

lemma mac_at_6 [simp]: "mac_at (octets d @ octets s @ r) 6 = s"
  using mac_at_append [of "octets d" 6 s r] by simp

lemma mac_at_pad: "i + 6 \<le> length f \<Longrightarrow> mac_at (f @ pad) i = mac_at f i"
  by (simp add: mac_at_def nth_append)

lemma wire_pnet_ok: "pnet_ok wire_pnet"
proof -
  have "pn_new wire_pnet (octets d @ octets s @ be16 t @ p) =
      Some \<lparr>ep_destination = d, ep_source = s, ep_ethertype = t, ep_payload = p\<rparr>" for d s t p
    by (simp add: wire_pnet_def)
  moreover have "pn_new wire_pnet f = Some e \<Longrightarrow>
      pn_new wire_pnet (f @ pad) = Some (e\<lparr>ep_payload := ep_payload e @ pad\<rparr>)" for f e pad
    by (auto simp: wire_pnet_def mac_at_pad split: if_splits)
  moreover have "pn_frame wire_pnet (14 + length p) d s t p = Some (octets d @ octets s @ be16 t @ p)"
    for d s t p by (simp add: wire_pnet_def)
  ultimately show ?thesis by (simp add: pnet_ok_def)
qed

lemma pnet_ok_frame:
  assumes "pnet_ok P" and "n = 14 + length p"
  obtains f where "pn_frame P n d s t p = Some f" and "length f = n"
    and "pn_new P f = Some \<lparr>ep_destination = d, ep_source = s, ep_ethertype = t, ep_payload = p\<rparr>"
  using assms(1) unfolding assms(2) pnet_ok_def by blast

lemma pnet_ok_pad:
  "pnet_ok P \<Longrightarrow> pn_new P f = Some e \<Longrightarrow>
     pn_new P (f @ pad) = Some (e\<lparr>ep_payload := ep_payload e @ pad\<rparr>)"
  by (simp add: pnet_ok_def)

section \<open>SDCP frames\<close>

text \<open>\<open>carries P f d s h tlvs n t\<close>: the frame \<open>f\<close> goes from \<open>s\<close> to \<open>d\<close> and holds an SDCP message.\<close>

definition carries ::
    "pnet \<Rightarrow> bytes \<Rightarrow> mac_addr \<Rightarrow> mac_addr \<Rightarrow> sdcp_header \<Rightarrow> bytes \<Rightarrow> u64 \<Rightarrow> bytes \<Rightarrow> bool" where
  "carries P f d s h tlvs n t \<longleftrightarrow>
     (\<exists>p. pn_new P f =
        Some \<lparr>ep_destination = d, ep_source = s, ep_ethertype = ETHERTYPE_SDCP, ep_payload = p\<rparr> \<and>
      parse_sdcp_payload p =
        Inr \<lparr>sp_header = h, sp_tlv_payload = tlvs, sp_sequence_number = n, sp_auth_tag = t\<rparr>)"

text \<open>What both ends write is read back, when the buffer has the size of the message.\<close>

lemma sdcp_frame_carries:
  assumes "pnet_ok P" and "length t = 8" and "n = 14 + 5 + length tlvs + 16"
  obtains f where "pn_frame P n d s ETHERTYPE_SDCP
      (append_sdcp_footer (sdcp_header_bytes h @ tlvs) \<lparr>sf_sequence_number = q, sf_auth_tag = t\<rparr>) = Some f"
    and "length f = n" and "carries P f d s h tlvs q t"
proof -
  let ?f = "\<lparr>sf_sequence_number = q, sf_auth_tag = t\<rparr>"
  have ok: "footer_ok ?f" using assms(2) by (simp add: footer_ok_def)
  have "n = 14 + length (append_sdcp_footer (sdcp_header_bytes h @ tlvs) ?f)"
    using assms(3) by (simp add: append_sdcp_footer_def length_footer_write_to [OF ok])
  from pnet_ok_frame [OF assms(1) this, of d s ETHERTYPE_SDCP] that show thesis
    by (metis (no_types, lifting) carries_def parse_sdcp_payload_build [OF ok]
        security_footer.select_convs)
qed

text \<open>The bytes of an SDCP frame under the crate of above.\<close>

definition sdcp_wire :: "mac_addr \<Rightarrow> mac_addr \<Rightarrow> sdcp_header \<Rightarrow> bytes \<Rightarrow> u64 \<Rightarrow> bytes \<Rightarrow> bytes" where
  "sdcp_wire d s h tlvs n t = octets d @ octets s @ be16 ETHERTYPE_SDCP @
     append_sdcp_footer (sdcp_header_bytes h @ tlvs) \<lparr>sf_sequence_number = n, sf_auth_tag = t\<rparr>"

lemma sdcp_wire_carries: "length t = 8 \<Longrightarrow> carries wire_pnet (sdcp_wire d s h tlvs n t) d s h tlvs n t"
  by (simp add: carries_def sdcp_wire_def wire_pnet_def parse_sdcp_payload_build
      footer_ok_def)

end
