(* ===== verification/Discovery_Auth.thy ===== *)
theory Discovery_Auth
  imports Discovery_Types Replay_Guard
begin

text \<open>
  \<^verbatim>\<open>src/common/src/security/discovery_auth.rs\<close>: per peer device, the number of the next message
  sent to it and the last one accepted from it. As for the stream store each method is one
  critical section of its lock, modelled as a function of the table.
\<close>

section \<open>State and operations\<close>

record device_security_context =
  transmitter_sequence_number :: u64
  last_valid_received_sequence_number :: u64

definition device_security_context_default :: device_security_context where
  "device_security_context_default =
     \<lparr>transmitter_sequence_number = 1, last_valid_received_sequence_number = 0\<rparr>"

record discovery_auth_handler =
  da_shared_secret :: bytes
  da_devices :: "mac_addr \<rightharpoonup> device_security_context"

definition discovery_auth_new :: "bytes \<Rightarrow> discovery_auth_handler" where
  "discovery_auth_new shared_secret = \<lparr>da_shared_secret = shared_secret, da_devices = Map.empty\<rparr>"

definition add_new_device :: "mac_addr \<Rightarrow> discovery_auth_handler \<Rightarrow> discovery_auth_handler" where
  "add_new_device device_mac s =
     (case da_devices s device_mac of
        None \<Rightarrow> s\<lparr>da_devices := (da_devices s)(device_mac \<mapsto> device_security_context_default)\<rparr>
      | Some _ \<Rightarrow> s)"

definition has_device :: "mac_addr \<Rightarrow> discovery_auth_handler \<Rightarrow> bool" where
  "has_device device_mac s \<longleftrightarrow> da_devices s device_mac \<noteq> None"

definition set_last_valid_received_sequence_number ::
    "mac_addr \<Rightarrow> u64 \<Rightarrow> discovery_auth_handler \<Rightarrow> bool \<times> discovery_auth_handler" where
  "set_last_valid_received_sequence_number device_mac sequence_number s =
     (case da_devices s device_mac of
        Some context \<Rightarrow> (True, s\<lparr>da_devices := (da_devices s)(device_mac \<mapsto>
            context\<lparr>last_valid_received_sequence_number := sequence_number\<rparr>)\<rparr>)
      | None \<Rightarrow> (False, s))"

definition serialize_header :: "sdcp_header \<Rightarrow> bytes" where
  "serialize_header h =
     [sh_version h, op_u8 (sh_op_code h), ucast (drop_bit 8 (sh_transaction_id h)),
      ucast (sh_transaction_id h), sh_flags h]"

definition create_auth_tag ::
    "keyed_hash \<Rightarrow> mac_addr \<Rightarrow> sdcp_header \<Rightarrow> bytes \<Rightarrow> discovery_auth_handler \<Rightarrow>
       (u64 \<times> bytes) option \<times> discovery_auth_handler" where
  "create_auth_tag H device_mac header payload s =
     (case da_devices s device_mac of
        None \<Rightarrow> (None, s)
      | Some context \<Rightarrow>
          (let sequence_number = transmitter_sequence_number context;
               tag = calculate_hmac H (da_shared_secret s)
                       [serialize_header header, payload, be64 sequence_number];
               context' = context\<lparr>transmitter_sequence_number :=
                 saturating_add (transmitter_sequence_number context) 1\<rparr>
           in (Some (sequence_number, tag),
               s\<lparr>da_devices := (da_devices s)(device_mac \<mapsto> context')\<rparr>)))"

definition validate_auth_tag ::
    "keyed_hash \<Rightarrow> mac_addr \<Rightarrow> sdcp_header \<Rightarrow> bytes \<Rightarrow> u64 \<Rightarrow> bytes \<Rightarrow> discovery_auth_handler \<Rightarrow>
       bool \<times> discovery_auth_handler" where
  "validate_auth_tag H device_mac header payload received_sequence_number auth_tag s =
     (case da_devices s device_mac of
        None \<Rightarrow> (False, s)
      | Some context \<Rightarrow>
          if received_sequence_number \<le> last_valid_received_sequence_number context then (False, s)
          else
            (let valid = verify_hmac H (da_shared_secret s)
                   [serialize_header header, payload, be64 received_sequence_number] auth_tag
             in if valid then
                  (valid, s\<lparr>da_devices := (da_devices s)(device_mac \<mapsto>
                     context\<lparr>last_valid_received_sequence_number := received_sequence_number\<rparr>)\<rparr>)
                else (valid, s)))"

definition validate_discovery_response ::
    "keyed_hash \<Rightarrow> sdcp_header \<Rightarrow> bytes \<Rightarrow> u64 \<Rightarrow> bytes \<Rightarrow> discovery_auth_handler \<Rightarrow> bool" where
  "validate_discovery_response H header payload sequence_number auth_tag s =
     (if sequence_number \<noteq> 1 then False
      else verify_hmac H (da_shared_secret s)
             [serialize_header header, payload, be64 sequence_number] auth_tag)"

section \<open>The table of devices\<close>

lemma serialize_header_eq: "serialize_header h = sdcp_header_bytes h"
  by (simp add: serialize_header_def sdcp_header_bytes_def sdcp_header_write_to_def numeral_eq_Suc)

lemma has_device_add [simp]: "has_device m (add_new_device m' s) \<longleftrightarrow> m = m' \<or> has_device m s"
  by (auto simp: has_device_def add_new_device_def split: option.splits)

lemma add_new_device_known: "has_device m s \<Longrightarrow> add_new_device m s = s"
  by (auto simp: has_device_def add_new_device_def)

lemma secret_simps [simp]:
  "da_shared_secret (add_new_device m s) = da_shared_secret s"
  "da_shared_secret (snd (set_last_valid_received_sequence_number m n s)) = da_shared_secret s"
  "da_shared_secret (snd (create_auth_tag H m h p s)) = da_shared_secret s"
  "da_shared_secret (snd (validate_auth_tag H m h p n t s)) = da_shared_secret s"
  by (simp_all add: add_new_device_def set_last_valid_received_sequence_number_def
      create_auth_tag_def validate_auth_tag_def Let_def split: option.splits)

text \<open>
  The sending and the receiving counters are separate fields, so the two directions of a peer
  are two interfaces over the same table. A message is its peer, header and payload.
\<close>

type_synonym sdcp_message = "mac_addr \<times> sdcp_header \<times> bytes"

definition peer :: "sdcp_message \<Rightarrow> mac_addr" where
  "peer m = fst m"

definition tx_number :: "discovery_auth_handler \<Rightarrow> mac_addr \<rightharpoonup> u64" where
  "tx_number s = (\<lambda>d. map_option transmitter_sequence_number (da_devices s d))"

definition rx_number :: "discovery_auth_handler \<Rightarrow> mac_addr \<rightharpoonup> u64" where
  "rx_number s = (\<lambda>d. map_option last_valid_received_sequence_number (da_devices s d))"

definition sdcp_issue ::
    "keyed_hash \<Rightarrow> sdcp_message \<Rightarrow> discovery_auth_handler \<Rightarrow>
       (u64 \<times> bytes) option \<times> discovery_auth_handler" where
  "sdcp_issue H m s = (case m of (d, h, p) \<Rightarrow> create_auth_tag H d h p s)"

definition sdcp_check ::
    "keyed_hash \<Rightarrow> sdcp_message \<Rightarrow> u64 \<Rightarrow> bytes \<Rightarrow> discovery_auth_handler \<Rightarrow>
       bool \<times> discovery_auth_handler" where
  "sdcp_check H m n t s = (case m of (d, h, p) \<Rightarrow> validate_auth_tag H d h p n t s)"

definition sdcp_authentic ::
    "keyed_hash \<Rightarrow> discovery_auth_handler \<Rightarrow> sdcp_message \<Rightarrow> u64 \<Rightarrow> bytes \<Rightarrow> bool" where
  "sdcp_authentic H s m n t = (case m of (d, h, p) \<Rightarrow>
     verify_hmac H (da_shared_secret s) [serialize_header h, p, be64 n] t)"

interpretation sdcp: authenticated_channel "sdcp_issue H" peer tx_number
    "sdcp_check H" rx_number "sdcp_authentic H" "\<lambda>s r. da_shared_secret s = da_shared_secret r"
  for H
proof unfold_locales
  fix m :: sdcp_message and s and n :: u64
  show "tx_number s (peer m) = Some n \<Longrightarrow>
      \<exists>t s'. sdcp_issue H m s = (Some (n, t), s') \<and>
        tx_number s' = (tx_number s)(peer m \<mapsto> saturating_add n 1)"
    by (cases m) (auto simp: sdcp_issue_def create_auth_tag_def tx_number_def peer_def Let_def
        fun_eq_iff)
  show "tx_number s (peer m) = None \<Longrightarrow> sdcp_issue H m s = (None, s)"
    by (cases m) (auto simp: sdcp_issue_def create_auth_tag_def tx_number_def peer_def)
next
  fix m :: sdcp_message and s and n :: u64 and t
  show "fst (sdcp_check H m n t s) \<longleftrightarrow>
      (\<exists>l. rx_number s (peer m) = Some l \<and> l < n) \<and> sdcp_authentic H s m n t"
    by (cases m) (auto simp: sdcp_check_def validate_auth_tag_def rx_number_def peer_def
        sdcp_authentic_def Let_def split: option.splits)
  show "fst (sdcp_check H m n t s) \<Longrightarrow>
      rx_number (snd (sdcp_check H m n t s)) = (rx_number s)(peer m \<mapsto> n)"
    by (cases m) (auto simp: sdcp_check_def validate_auth_tag_def rx_number_def peer_def Let_def
        fun_eq_iff split: option.splits if_splits)
  show "\<not> fst (sdcp_check H m n t s) \<Longrightarrow> snd (sdcp_check H m n t s) = s"
    by (cases m) (auto simp: sdcp_check_def validate_auth_tag_def Let_def
        split: option.splits if_splits)
  show "sdcp_authentic H (snd (sdcp_check H m n t s)) = sdcp_authentic H s"
    by (cases m) (simp add: sdcp_check_def sdcp_authentic_def fun_eq_iff)
next
  fix s r s' :: discovery_auth_handler and m :: sdcp_message and n t
  assume a: "da_shared_secret s = da_shared_secret r"
  show "sdcp_issue H m s = (Some (n, t), s') \<Longrightarrow> sdcp_authentic H r m n t"
    using a by (cases m) (auto simp: sdcp_issue_def create_auth_tag_def sdcp_authentic_def Let_def
        verify_hmac_own split: option.splits)
  show "da_shared_secret (snd (sdcp_issue H m s)) = da_shared_secret r"
    using a by (cases m) (simp add: sdcp_issue_def)
qed

section \<open>Runs\<close>

fun create_all ::
    "keyed_hash \<Rightarrow> sdcp_message list \<Rightarrow> discovery_auth_handler \<Rightarrow>
       (sdcp_message \<times> u64 \<times> bytes) list" where
  "create_all H [] s = []"
| "create_all H ((d, h, p) # ms) s =
     (case create_auth_tag H d h p s of
        (None, s') \<Rightarrow> create_all H ms s'
      | (Some (n, t), s') \<Rightarrow> ((d, h, p), n, t) # create_all H ms s')"

fun validate_all ::
    "keyed_hash \<Rightarrow> (sdcp_message \<times> u64 \<times> bytes) list \<Rightarrow> discovery_auth_handler \<Rightarrow> bool list" where
  "validate_all H [] s = []"
| "validate_all H (((d, h, p), n, t) # xs) s =
     (let (v, s') = validate_auth_tag H d h p n t s in v # validate_all H xs s')"

fun accepted_messages ::
    "keyed_hash \<Rightarrow> (sdcp_message \<times> u64 \<times> bytes) list \<Rightarrow> discovery_auth_handler \<Rightarrow>
       (mac_addr \<times> u64) list" where
  "accepted_messages H [] s = []"
| "accepted_messages H (((d, h, p), n, t) # xs) s =
     (case validate_auth_tag H d h p n t s of
        (True, s') \<Rightarrow> (d, n) # accepted_messages H xs s'
      | (False, s') \<Rightarrow> accepted_messages H xs s')"

lemma sdcp_triple [simp]:
  "sdcp_issue H (d, h, p) s = create_auth_tag H d h p s"
  "sdcp_check H (d, h, p) n t s = validate_auth_tag H d h p n t s"
  "peer (d, h, p) = d"
  by (simp_all add: sdcp_issue_def sdcp_check_def peer_def)

lemma create_all_sent: "create_all H ms s = sdcp.src.sent H ms s"
  by (induction H ms s rule: create_all.induct) (auto split: option.splits prod.splits)

lemma validate_all_verdicts: "validate_all H xs s = sdcp.dst.verdicts H xs s"
  by (induction H xs s rule: validate_all.induct) (auto split: prod.splits)

lemma accepted_messages_accepted: "accepted_messages H xs s = sdcp.dst.accepted H xs s"
  by (induction H xs s rule: accepted_messages.induct) (auto split: prod.splits bool.splits)

section \<open>Sending under an own address\<close>

text \<open>
  Both ends register their own address before they tag a message under it. \<open>next_number\<close> is the
  number the message gets, \<open>after_send\<close> the table afterwards; \<open>after_receive\<close> is the table once
  a message of a peer was accepted.
\<close>

definition next_number :: "discovery_auth_handler \<Rightarrow> mac_addr \<Rightarrow> u64" where
  "next_number s d = (case tx_number s d of None \<Rightarrow> 1 | Some n \<Rightarrow> n)"

definition own_tag :: "keyed_hash \<Rightarrow> sdcp_header \<Rightarrow> bytes \<Rightarrow> u64 \<Rightarrow> discovery_auth_handler \<Rightarrow> bytes" where
  "own_tag H h p n s = calculate_hmac H (da_shared_secret s) [serialize_header h, p, be64 n]"

definition after_send :: "mac_addr \<Rightarrow> discovery_auth_handler \<Rightarrow> discovery_auth_handler" where
  "after_send d s = s\<lparr>da_devices := (da_devices s)(d \<mapsto>
     \<lparr>transmitter_sequence_number = saturating_add (next_number s d) 1,
      last_valid_received_sequence_number =
        (case rx_number s d of None \<Rightarrow> 0 | Some l \<Rightarrow> l)\<rparr>)\<rparr>"

definition after_receive :: "mac_addr \<Rightarrow> u64 \<Rightarrow> discovery_auth_handler \<Rightarrow> discovery_auth_handler" where
  "after_receive d n s = s\<lparr>da_devices := (da_devices s)(d \<mapsto>
     \<lparr>transmitter_sequence_number = next_number s d, last_valid_received_sequence_number = n\<rparr>)\<rparr>"

lemma context_eta:
  "c\<lparr>transmitter_sequence_number := n\<rparr> =
     \<lparr>transmitter_sequence_number = n,
      last_valid_received_sequence_number = last_valid_received_sequence_number c\<rparr>"
  "c\<lparr>last_valid_received_sequence_number := m\<rparr> =
     \<lparr>transmitter_sequence_number = transmitter_sequence_number c,
      last_valid_received_sequence_number = m\<rparr>" for c :: device_security_context
  by simp_all

lemma create_own_tag:
  "create_auth_tag H d h p (if \<not> has_device d s then add_new_device d s else s) =
     (Some (next_number s d, own_tag H h p (next_number s d) s), after_send d s)"
  by (auto simp: create_auth_tag_def has_device_def add_new_device_def next_number_def tx_number_def
      rx_number_def own_tag_def after_send_def device_security_context_default_def Let_def
      context_eta)

lemma validate_eq:
  "validate_auth_tag H d h p n t s =
     (if (\<exists>l. rx_number s d = Some l \<and> l < n) \<and>
         verify_hmac H (da_shared_secret s) [serialize_header h, p, be64 n] t
      then (True, after_receive d n s) else (False, s))"
  by (auto simp: validate_auth_tag_def rx_number_def after_receive_def next_number_def tx_number_def
      Let_def context_eta split: option.splits)

lemma verify_own_tag:
  "da_shared_secret s = da_shared_secret r \<Longrightarrow>
     verify_hmac H (da_shared_secret r) [serialize_header h, p, be64 n] (own_tag H h p n s)"
  by (simp add: own_tag_def verify_hmac_own)

lemma length_own_tag: "keyed_hash_ok H \<Longrightarrow> length (own_tag H h p n s) = 8"
  by (simp add: own_tag_def length_calculate_hmac)

lemma after_simps [simp]:
  "da_shared_secret (after_send d s) = da_shared_secret s"
  "da_shared_secret (after_receive d n s) = da_shared_secret s"
  "rx_number (after_send d s) e =
     (if e = d then Some (case rx_number s d of None \<Rightarrow> 0 | Some l \<Rightarrow> l) else rx_number s e)"
  "rx_number (after_receive d n s) e = (if e = d then Some n else rx_number s e)"
  "next_number (after_send d s) e =
     (if e = d then saturating_add (next_number s d) 1 else next_number s e)"
  "next_number (after_receive d n s) e = next_number s e"
  by (auto simp: after_send_def after_receive_def rx_number_def next_number_def tx_number_def)

lemma rx_number_add [simp]:
  "rx_number (add_new_device d s) e =
     (if e = d \<and> rx_number s d = None then Some 0 else rx_number s e)"
  by (auto simp: rx_number_def add_new_device_def device_security_context_default_def
      split: option.splits)

lemma next_number_add [simp]: "next_number (add_new_device d s) e = next_number s e"
  by (auto simp: next_number_def tx_number_def add_new_device_def
      device_security_context_default_def split: option.splits)

lemma has_device_rx: "has_device d s \<longleftrightarrow> rx_number s d \<noteq> None"
  by (simp add: has_device_def rx_number_def)

section \<open>Properties\<close>

text \<open>
  Replay protection of the discovery protocol: the numbers of the messages a device accepts
  from one peer strictly increase, whatever sequence of messages reaches it.
\<close>

lemma sdcp_numbers_increase:
  "sorted_wrt (<) (map snd (filter (\<lambda>(d', _). d' = d) (accepted_messages H xs s)))"
  unfolding accepted_messages_accepted by (rule sdcp.dst.accepted_increasing)

text \<open>Numbering of the discovery protocol: the messages a device sends under one address carry
  consecutive numbers from its transmit counter on, whatever else it sends in between, so that
  no number covers two messages before the counter saturates.\<close>

lemma sdcp_numbers_consecutive:
  assumes "tx_number s d = Some n"
    and "unat n + length (filter (\<lambda>(d', _). d' = d) ms) \<le> 2 ^ 64"
  shows "map (\<lambda>(_, q, _). q) (filter (\<lambda>((d', _), _). d' = d) (create_all H ms s)) =
         map (\<lambda>i. n + of_nat i) [0..<length (filter (\<lambda>(d', _). d' = d) ms)]"
proof -
  have k: "(\<lambda>m. peer m = d) = (\<lambda>(d', _). d' = d)" by (auto simp: peer_def)
  have "sdcp.src.numbers d xs = map (\<lambda>(_, q, _). q) (filter (\<lambda>((d', _), _). d' = d) xs)"
    for xs :: "(sdcp_message \<times> u64 \<times> bytes) list"
    by (induction xs) auto
  with sdcp.src.sent_consecutive [OF assms(1), of ms H] assms(2) show ?thesis
    by (simp add: create_all_sent k)
qed

end
