(* ===== verification/Bit_Fields.thy ===== *)
theory Bit_Fields
  imports L2_Utils
begin

text \<open>
  Bit fields in a block of bytes, and the interface every process image offers: reading a
  position and writing data to it. The two hardware models provide it, the cyclic handlers and
  the end-to-end properties rest on it.
\<close>

section \<open>Bits of a block\<close>

definition bit_at :: "bytes \<Rightarrow> nat \<Rightarrow> bool" where
  "bit_at img k = bit (img ! (k div 8)) (k mod 8)"

definition put_bit :: "bool \<Rightarrow> nat \<Rightarrow> u8 \<Rightarrow> u8" where
  "put_bit v i b = (if v then b OR push_bit i 1 else b AND NOT (push_bit i 1))"

lemma and_mask_nonzero: "b AND push_bit i 1 \<noteq> 0 \<longleftrightarrow> bit b i" for b :: u8
proof
  assume b: "bit b i"
  then have "i < 8" using bit_imp_le_length [of b i] by simp
  with b have "bit (b AND push_bit i 1) i" by (simp add: bit_simps)
  then show "b AND push_bit i 1 \<noteq> 0" by auto
next
  assume "b AND push_bit i 1 \<noteq> 0"
  then show "bit b i"
  proof (rule contrapos_np)
    assume "\<not> bit b i"
    then show "b AND push_bit i 1 = 0" by (intro bit_word_eqI) (auto simp: bit_simps)
  qed
qed

lemma and_power_nonzero: "b AND 2 ^ i = 0 \<longleftrightarrow> \<not> bit b i" for b :: u8
  using and_mask_nonzero [of b i] unfolding push_bit_of_1 by blast

lemma bit_put_bit: "i < 8 \<Longrightarrow> k < 8 \<Longrightarrow> bit (put_bit v i b) k = (if k = i then v else bit b k)"
  by (auto simp: put_bit_def bit_simps)

lemma bit_at_put:
  assumes "j div 8 < length xs" and "k div 8 < length xs"
  shows "bit_at (xs[j div 8 := put_bit v (j mod 8) (xs ! (j div 8))]) k =
         (if k = j then v else bit_at xs k)"
proof -
  have "k = j" if "k div 8 = j div 8" "k mod 8 = j mod 8"
    using that by (metis div_mult_mod_eq)
  then show ?thesis
    using assms by (auto simp: bit_at_def bit_put_bit nth_list_update)
qed

lemma bytes_eqI:
  assumes "length xs = length ys" and "\<And>k. k < 8 * length xs \<Longrightarrow> bit_at xs k = bit_at ys k"
  shows "xs = ys"
proof (rule nth_equalityI)
  fix i assume i: "i < length xs"
  show "xs ! i = ys ! i"
  proof (rule bit_eqI)
    fix n assume "possible_bit TYPE(u8) n"
    then have "8 * i + n < 8 * length xs" "(8 * i + n) div 8 = i" "(8 * i + n) mod 8 = n"
      using i by auto
    with assms(2) [of "8 * i + n"] show "bit (xs ! i) n = bit (ys ! i) n"
      by (simp add: bit_at_def)
  qed
qed (fact assms(1))

text \<open>The field of \<open>n\<close> bits from bit \<open>s\<close> on, packed from bit 0 and padded with zeros.\<close>

definition bit_field :: "bytes \<Rightarrow> nat \<Rightarrow> nat \<Rightarrow> bytes" where
  "bit_field img s n =
     map (\<lambda>j. horner_sum of_bool 2 (map (\<lambda>i. 8 * j + i < n \<and> bit_at img (s + 8 * j + i)) [0..<8]))
       [0..<(n + 7) div 8]"

lemma length_bit_field [simp]: "length (bit_field img s n) = (n + 7) div 8"
  by (simp add: bit_field_def)

lemma bit_at_bit_field:
  assumes "k < 8 * ((n + 7) div 8)"
  shows "bit_at (bit_field img s n) k = (k < n \<and> bit_at img (s + k))"
proof -
  have d: "k div 8 < (n + 7) div 8" using assms by (simp add: less_mult_imp_div_less mult.commute)
  have m: "k mod 8 < 8" by simp
  have e: "8 * (k div 8) + k mod 8 = k" "s + 8 * (k div 8) + k mod 8 = s + k" by simp_all
  have "bit_field img s n ! (k div 8) =
      horner_sum of_bool 2 (map (\<lambda>i. 8 * (k div 8) + i < n \<and> bit_at img (s + 8 * (k div 8) + i)) [0..<8])"
    using d by (simp add: bit_field_def)
  then have "bit_at (bit_field img s n) k =
      bit (horner_sum of_bool 2 (map (\<lambda>i. 8 * (k div 8) + i < n \<and> bit_at img (s + 8 * (k div 8) + i)) [0..<8]) :: u8)
        (k mod 8)" by (simp only: bit_at_def)
  also have "\<dots> = (8 * (k div 8) + k mod 8 < n \<and> bit_at img (s + 8 * (k div 8) + k mod 8))"
    using m by (simp only: bit_horner_sum_bit_word_iff length_map length_upt nth_map_upt
        len_num1 len_bit0) simp
  finally show ?thesis by (simp only: e)
qed

text \<open>The block with the first \<open>n\<close> bits of the data put at bit \<open>s\<close>.\<close>

definition put_field :: "bytes \<Rightarrow> nat \<Rightarrow> nat \<Rightarrow> bytes \<Rightarrow> bytes" where
  "put_field data s n img =
     fold (\<lambda>i img. img[(s + i) div 8 :=
             put_bit (bit_at data i) ((s + i) mod 8) (img ! ((s + i) div 8))]) [0..<n] img"

lemma length_put_field [simp]: "length (put_field data s n img) = length img"
  by (induction n) (simp_all add: put_field_def)

lemma bit_at_put_field:
  assumes "s + n \<le> 8 * length img" and "k < 8 * length img"
  shows "bit_at (put_field data s n img) k =
         (if s \<le> k \<and> k < s + n then bit_at data (k - s) else bit_at img k)"
  using assms(1)
proof (induction n)
  case (Suc n)
  have "(s + n) div 8 < length (put_field data s n img)" "k div 8 < length (put_field data s n img)"
    using Suc.prems assms(2) by auto
  from bit_at_put [OF this] Suc show ?case
    by (auto simp: put_field_def)
qed (auto simp: put_field_def)

lemma bit_field_put_same:
  assumes "s + n \<le> 8 * length img"
  shows "bit_field (put_field data s n img) s n = bit_field data 0 n"
proof (rule bytes_eqI)
  fix k assume "k < 8 * length (bit_field (put_field data s n img) s n)"
  then have k: "k < 8 * ((n + 7) div 8)" by simp
  show "bit_at (bit_field (put_field data s n img) s n) k = bit_at (bit_field data 0 n) k"
    using assms by (auto simp: bit_at_bit_field [OF k] bit_at_put_field)
qed simp

lemma bit_field_put_other:
  assumes "s + n \<le> 8 * length img" and "s' + n' \<le> 8 * length img"
    and "s + n \<le> s' \<or> s' + n' \<le> s"
  shows "bit_field (put_field data s n img) s' n' = bit_field img s' n'"
proof (rule bytes_eqI)
  fix k assume "k < 8 * length (bit_field (put_field data s n img) s' n')"
  then have k: "k < 8 * ((n' + 7) div 8)" by simp
  show "bit_at (bit_field (put_field data s n img) s' n') k = bit_at (bit_field img s' n') k"
    using assms by (auto simp: bit_at_bit_field [OF k] bit_at_put_field)
qed simp

lemma bit_field_aligned:
  assumes "8 * o' + n \<le> 8 * length img" and "8 dvd n"
  shows "bit_field img (8 * o') n = take (n div 8) (drop o' img)"
proof (rule bytes_eqI)
  have len: "(n + 7) div 8 = n div 8" using assms(2) by fastforce
  then show "length (bit_field img (8 * o') n) = length (take (n div 8) (drop o' img))"
    using assms by auto
  fix k assume "k < 8 * length (bit_field img (8 * o') n)"
  then have k: "k < 8 * ((n + 7) div 8)" "k < n" using len assms(2) by auto
  have "k div 8 < n div 8" using k(2) assms(2) by (simp add: less_mult_imp_div_less mult.commute)
  moreover have "(8 * o' + k) div 8 = o' + k div 8" "(8 * o' + k) mod 8 = k mod 8" by simp_all
  ultimately show "bit_at (bit_field img (8 * o') n) k = bit_at (take (n div 8) (drop o' img)) k"
    using k assms(1) by (simp add: bit_at_bit_field [OF k(1)] bit_at_def [of img]
        bit_at_def [of "take (n div 8) (drop o' img)"])
qed

lemma put_field_aligned:
  assumes "8 * o' + n \<le> 8 * length img" and "8 dvd n" and "length data = n div 8"
  shows "put_field data (8 * o') n img = take o' img @ data @ drop (o' + n div 8) img"
proof (rule bytes_eqI)
  show len: "length (put_field data (8 * o') n img) =
      length (take o' img @ data @ drop (o' + n div 8) img)"
    using assms by auto
  fix k assume "k < 8 * length (put_field data (8 * o') n img)"
  then have k: "k < 8 * length img" by simp
  have n: "n = 8 * (n div 8)" using assms(2) by simp
  show "bit_at (put_field data (8 * o') n img) k =
      bit_at (take o' img @ data @ drop (o' + n div 8) img) k"
  proof (cases "8 * o' \<le> k \<and> k < 8 * o' + n")
    case True
    then obtain j where j: "k = 8 * o' + j" "j < n" by (metis le_iff_add add_less_cancel_left)
    then have "j div 8 < n div 8" using n by (simp add: less_mult_imp_div_less mult.commute)
    moreover have "(8 * o' + j) div 8 = o' + j div 8" "(8 * o' + j) mod 8 = j mod 8" by simp_all
    ultimately show ?thesis
      using j assms k by (simp add: bit_at_put_field [OF assms(1)])
        (simp add: bit_at_def nth_append)
  next
    case False
    then have put: "bit_at (put_field data (8 * o') n img) k = bit_at img k"
      using assms(1) k by (auto simp: bit_at_put_field)
    from False consider "k div 8 < o'" | "o' + n div 8 \<le> k div 8" using n by linarith
    then have "(take o' img @ data @ drop (o' + n div 8) img) ! (k div 8) = img ! (k div 8)"
    proof cases
      case 1
      moreover have "k div 8 < length img" using k by (simp add: less_mult_imp_div_less mult.commute)
      ultimately show ?thesis by (simp add: nth_append)
    next
      case 2
      moreover from 2 have "\<not> k div 8 - o' < n div 8" "\<not> k div 8 < o'" by linarith+
      moreover have "min (length img) o' = o'" using assms(1) by linarith
      moreover have "k div 8 < length img" using k by (simp add: less_mult_imp_div_less mult.commute)
      ultimately show ?thesis using assms(3) by (simp add: nth_append)
    qed
    then show ?thesis by (simp only: put) (simp only: bit_at_def)
  qed
qed

section \<open>The interface of a process image\<close>

text \<open>
  What the protocol relies on from an image: what is written at a position is read back there
  (normalised, e.g. without the bits beyond the field), a write leaves every disjoint position
  alone, and whether an access is in range does not depend on what was written.
\<close>

locale image_access =
  fixes rd :: "'p \<Rightarrow> position \<Rightarrow> status_code + bytes"
    and wr :: "'p \<Rightarrow> bytes \<Rightarrow> position \<Rightarrow> (status_code + unit) \<times> 'p"
    and norm :: "position \<Rightarrow> bytes \<Rightarrow> bytes"
    and disj :: "position \<Rightarrow> position \<Rightarrow> bool"
    and inv :: "'p \<Rightarrow> bool"
  assumes wr_rd: "inv m \<Longrightarrow> wr m d p = (Inr (), m') \<Longrightarrow> rd m' p = Inr (norm p d)"
    and wr_frame: "inv m \<Longrightarrow> wr m d p = (Inr (), m') \<Longrightarrow> disj p q \<Longrightarrow> rd m' q = rd m q"
    and wr_range: "inv m \<Longrightarrow> wr m d p = (Inr (), m') \<Longrightarrow> fst (wr m' d' q) = fst (wr m d' q)"
    and wr_inv: "inv m \<Longrightarrow> wr m d p = (Inr (), m') \<Longrightarrow> inv m'"
    and wr_error: "wr m d p = (Inl e, m') \<Longrightarrow> m' = m"
begin

primrec write_all :: "(position \<times> bytes) list \<Rightarrow> 'p \<Rightarrow> 'p" where
  "write_all [] m = m"
| "write_all (x # xs) m = write_all xs (snd (wr m (snd x) (fst x)))"

lemma write_all_frame:
  "inv m \<Longrightarrow> \<forall>(p, d) \<in> set xs. fst (wr m d p) = Inr () \<and> disj p q \<Longrightarrow>
   rd (write_all xs m) q = rd m q"
proof (induction xs arbitrary: m)
  case (Cons x xs)
  obtain p d where x: "x = (p, d)" by (cases x)
  obtain m' where w: "wr m d p = (Inr (), m')"
    using Cons.prems(2) x by (cases "wr m d p") auto
  have "\<forall>(p, d) \<in> set xs. fst (wr m' d p) = Inr () \<and> disj p q"
    using Cons.prems(2) wr_range [OF Cons.prems(1) w] by auto
  from Cons.IH [OF wr_inv [OF Cons.prems(1) w] this]
  show ?case using x w wr_frame [OF Cons.prems(1) w] Cons.prems(2) by simp
qed simp

text \<open>Of a cycle's writes to pairwise disjoint positions every one is read back.\<close>

lemma write_all_reads:
  "inv m \<Longrightarrow> \<forall>(p, d) \<in> set xs. fst (wr m d p) = Inr () \<Longrightarrow>
   sorted_wrt (\<lambda>x y. disj (fst y) (fst x)) xs \<Longrightarrow> (p, d) \<in> set xs \<Longrightarrow>
   rd (write_all xs m) p = Inr (norm p d)"
proof (induction xs arbitrary: m)
  case (Cons x xs)
  obtain p' d' where x: "x = (p', d')" by (cases x)
  obtain m' where w: "wr m d' p' = (Inr (), m')"
    using Cons.prems(2) x by (cases "wr m d' p'") auto
  note inv' = wr_inv [OF Cons.prems(1) w]
  have ok: "\<forall>(p, d) \<in> set xs. fst (wr m' d p) = Inr ()"
    using Cons.prems(2) wr_range [OF Cons.prems(1) w] by auto
  show ?case
  proof (cases "(p, d) \<in> set xs")
    case True
    with Cons.IH [OF inv' ok] Cons.prems(3) x w show ?thesis by simp
  next
    case False
    with Cons.prems(4) x have "p = p'" "d = d'" by auto
    moreover have "rd (write_all xs m') p' = rd m' p'"
      using ok Cons.prems(3) x by (intro write_all_frame [OF inv']) fastforce
    ultimately show ?thesis using x w wr_rd [OF Cons.prems(1) w] by simp
  qed
qed simp

end

end
