(* ===== verification/Slave_Hardware.thy ===== *)
theory Slave_Hardware
  imports Bit_Fields Device_Access
begin

text \<open>
  \<^verbatim>\<open>src/slave/src/hardware_mock.rs\<close>: the slave's hardware, with its bit-addressed input and
  output images, its device information and its three roles. The locks are never poisoned here
  (no operation panics while it holds one), so the branches for a poisoned lock are left out;
  configuring the operating system's interface is a parameter.
\<close>

section \<open>State\<close>

datatype dummy_hardware_role = Tests | TemperatureSensor | ValveController

record dummy_hardware =
  dh_input_image :: bytes
  dh_output_image :: bytes
  dh_device_info :: device_info
  dh_role :: dummy_hardware_role
  dh_interface_name :: "string option"

definition dummy_device_info :: "bytes \<Rightarrow> u32 \<Rightarrow> u32 \<Rightarrow> device_info" where
  "dummy_device_info mac device_id serial =
     \<lparr>di_mac_address = mac, di_ip_address = [0, 0, 0, 0], di_ip_source = ip_source_num Unspecified,
      di_netmask = [255, 255, 255, 0], di_gateway = [0, 0, 0, 0], di_vendor_id = 42,
      di_device_id = device_id, di_serial_number = serial, di_firmware_version = 1,
      di_capabilities = 0\<rparr>"

definition dummy_new :: dummy_hardware where
  "dummy_new =
     \<lparr>dh_input_image = replicate 1 0, dh_output_image = replicate 2 0,
      dh_device_info = dummy_device_info [0xAA, 0xBB, 0xCC, 0xDD, 0xEE, 0xFF] 42 0x12345678,
      dh_role = Tests, dh_interface_name = None\<rparr>"

definition new_temperature_sensor :: "string \<Rightarrow> bytes \<Rightarrow> dummy_hardware" where
  "new_temperature_sensor interface_name mac_address =
     \<lparr>dh_input_image = [], dh_output_image = replicate 2 0,
      dh_device_info = dummy_device_info mac_address 1 0x10000001,
      dh_role = TemperatureSensor, dh_interface_name = Some interface_name\<rparr>"

definition new_valve_controller :: "string \<Rightarrow> bytes \<Rightarrow> dummy_hardware" where
  "new_valve_controller interface_name mac_address =
     \<lparr>dh_input_image = replicate 1 0, dh_output_image = [],
      dh_device_info = dummy_device_info mac_address 2 0x10000002,
      dh_role = ValveController, dh_interface_name = Some interface_name\<rparr>"

section \<open>Device operations\<close>

text \<open>A temperature is an \<open>i16\<close>: the 16-bit word of its two's complement. Indexing outside the
  image panics: \<open>None\<close>.\<close>

definition simulate_sensor_change :: "16 word \<Rightarrow> dummy_hardware \<Rightarrow> dummy_hardware option" where
  "simulate_sensor_change new_temp h =
     (if length (dh_output_image h) < 2 then None
      else Some (h\<lparr>dh_output_image :=
        (dh_output_image h)[0 := ucast (signed_drop_bit 8 new_temp),
                            1 := ucast (new_temp AND 0xFF)]\<rparr>))"

definition get_valve_status :: "dummy_hardware \<Rightarrow> bool option" where
  "get_valve_status h =
     (if dh_input_image h = [] then None else Some ((dh_input_image h ! 0) AND 0x01 \<noteq> 0))"

definition read_temperature :: "dummy_hardware \<Rightarrow> status_code + 16 word" where
  "read_temperature h =
     (let lock = dh_output_image h;
          high = (if 0 < length lock then lock ! 0 else 0);
          low = (if 1 < length lock then lock ! 1 else 0)
      in Inr (from_be [high, low]))"

definition dummy_read_device_info :: "dummy_hardware \<Rightarrow> status_code + device_info" where
  "dummy_read_device_info h = Inr (dh_device_info h)"

definition dummy_write_device_info ::
    "device_info \<Rightarrow> dummy_hardware \<Rightarrow> (status_code + unit) \<times> dummy_hardware" where
  "dummy_write_device_info info h = (Inr (), h\<lparr>dh_device_info := info\<rparr>)"

definition dummy_apply_ip_config ::
    "(string \<Rightarrow> bytes \<Rightarrow> bytes \<Rightarrow> string + unit) \<Rightarrow> bytes \<Rightarrow> bytes \<Rightarrow> bytes \<Rightarrow> dummy_hardware \<Rightarrow>
       status_code + unit" where
  "dummy_apply_ip_config configure_interface_ipv4 ip netmask gateway h =
     (case dh_interface_name h of
        Some interface_name \<Rightarrow>
          (case configure_interface_ipv4 interface_name ip netmask of
             Inl _ \<Rightarrow> Inl ErrHardwareAccess
           | Inr _ \<Rightarrow> Inr ())
      | None \<Rightarrow> Inr ())"

text \<open>The traits the hardware implements.\<close>

definition dummy_device_access :: "dummy_hardware device_info_access" where
  "dummy_device_access =
     \<lparr>read_device_info = dummy_read_device_info,
      write_device_info = (\<lambda>h info. dummy_write_device_info info h)\<rparr>"

definition dummy_network_access ::
    "(string \<Rightarrow> bytes \<Rightarrow> bytes \<Rightarrow> string + unit) \<Rightarrow> dummy_hardware network_interface_access" where
  "dummy_network_access configure_interface_ipv4 =
     \<lparr>apply_ip_config = (\<lambda>h ip netmask gateway.
        (dummy_apply_ip_config configure_interface_ipv4 ip netmask gateway h, h))\<rparr>"

definition process_var ::
    "string \<Rightarrow> data_type \<Rightarrow> direction \<Rightarrow> u32 \<Rightarrow> u32 \<Rightarrow> u32 \<Rightarrow> process_variable" where
  "process_var name ty dir byte_off bit_off len =
     \<lparr>pv_name = name, pv_data_type = data_type_num ty, pv_direction = direction_num dir,
      pv_byte_offset = byte_off, pv_bit_offset = bit_off, pv_bit_len = len\<rparr>"

definition dummy_get_layout :: "dummy_hardware \<Rightarrow> status_code + process_variable list" where
  "dummy_get_layout h =
     (case dh_role h of
        Tests \<Rightarrow> Inr [process_var ''Status_LED'' DtBool Output 2 0 1,
                      process_var ''Temperature'' DtInt16 Input 0 0 16]
      | TemperatureSensor \<Rightarrow> Inr [process_var ''Temperature'' DtUint16 Output 0 0 16]
      | ValveController \<Rightarrow> Inr [process_var ''ValveOpen'' DtBool Input 0 0 1])"

section \<open>The images\<close>

text \<open>The range check both accesses start with, as the offset and end of the bytes touched.\<close>

definition dummy_span :: "position \<Rightarrow> nat \<times> nat" where
  "dummy_span pos =
     (let span_bits = saturating_add (pos_bit_offset pos) (pos_bit_len pos);
          span_byte_len = bit_len_to_byte_len span_bits;
          offset = unat (pos_byte_offset pos)
      in (offset, offset + span_byte_len))"

definition whole_bytes :: "position \<Rightarrow> bool" where
  "whole_bytes pos \<longleftrightarrow> pos_bit_offset pos = 0 \<and> pos_bit_len pos mod 8 = 0"

text \<open>One turn of the two bit loops; \<open>i\<close> runs below \<open>bit_len\<close> and the sums are on \<open>u32\<close>.\<close>

definition read_bit :: "bytes \<Rightarrow> nat \<Rightarrow> position \<Rightarrow> nat \<Rightarrow> bytes \<Rightarrow> bytes" where
  "read_bit lock offset pos n out =
     (let i = of_nat n :: u32;
          src_bit = pos_bit_offset pos + i;
          src_byte = unat (src_bit div 8);
          src_mask = push_bit (unat (src_bit mod 8)) 1;
          bit_set = (lock ! (offset + src_byte)) AND src_mask \<noteq> 0;
          dst_byte = unat (i div 8);
          dst_mask = push_bit (unat (i mod 8)) 1
      in if bit_set then out[dst_byte := (out ! dst_byte) OR dst_mask] else out)"

definition write_bit :: "bytes \<Rightarrow> nat \<Rightarrow> position \<Rightarrow> nat \<Rightarrow> bytes \<Rightarrow> bytes" where
  "write_bit data offset pos n lock =
     (let i = of_nat n :: u32;
          src_byte = unat (i div 8);
          src_mask = push_bit (unat (i mod 8)) 1;
          bit_set = (data ! src_byte) AND src_mask \<noteq> 0;
          dst_bit = pos_bit_offset pos + i;
          dst_byte = unat (dst_bit div 8);
          dst_mask = push_bit (unat (dst_bit mod 8)) 1;
          target = lock ! (offset + dst_byte)
      in if bit_set then lock[offset + dst_byte := target OR dst_mask]
         else lock[offset + dst_byte := target AND NOT dst_mask])"

definition dummy_read_image :: "bytes \<Rightarrow> position \<Rightarrow> status_code + bytes" where
  "dummy_read_image lock pos =
     (let field_byte_len = bit_len_to_byte_len (pos_bit_len pos);
          (offset, end') = dummy_span pos
      in if length lock \<le> offset \<or> length lock < end' then Inl ErrInvalidLen
         else if whole_bytes pos then Inr (take (end' - offset) (drop offset lock))
         else Inr (fold (read_bit lock offset pos) [0..<unat (pos_bit_len pos)]
                     (replicate field_byte_len 0)))"

definition dummy_write_image :: "bytes \<Rightarrow> bytes \<Rightarrow> position \<Rightarrow> (status_code + unit) \<times> bytes" where
  "dummy_write_image lock data pos =
     (let field_byte_len = bit_len_to_byte_len (pos_bit_len pos);
          (offset, end') = dummy_span pos
      in if length lock \<le> offset \<or> length lock < end' \<or> field_byte_len \<noteq> length data
         then (Inl ErrInvalidLen, lock)
         else if whole_bytes pos
         then (Inr (), take offset lock @ take field_byte_len data @ drop end' lock)
         else (Inr (), fold (write_bit data offset pos) [0..<unat (pos_bit_len pos)] lock))"

definition dummy_read_outputs :: "dummy_hardware \<Rightarrow> position \<Rightarrow> status_code + bytes" where
  "dummy_read_outputs h pos = dummy_read_image (dh_output_image h) pos"

definition dummy_write_inputs ::
    "dummy_hardware \<Rightarrow> bytes \<Rightarrow> position \<Rightarrow> (status_code + unit) \<times> dummy_hardware" where
  "dummy_write_inputs h data pos =
     (let (r, lock) = dummy_write_image (dh_input_image h) data pos
      in (r, h\<lparr>dh_input_image := lock\<rparr>))"

definition dummy_process_image :: "dummy_hardware process_image_access" where
  "dummy_process_image =
     \<lparr>get_layout = dummy_get_layout, read_outputs = dummy_read_outputs,
      write_inputs = dummy_write_inputs\<rparr>"

section \<open>The bit loops read and write fields\<close>

text \<open>No access to an image below 512 MiB overflows the 32-bit bit numbers.\<close>

definition image_ok :: "bytes \<Rightarrow> bool" where
  "image_ok img \<longleftrightarrow> length img < 2 ^ 29"

definition field_start :: "position \<Rightarrow> nat" where
  "field_start pos = 8 * unat (pos_byte_offset pos) + unat (pos_bit_offset pos)"

definition field_len :: "position \<Rightarrow> nat" where
  "field_len pos = unat (pos_bit_len pos)"

definition in_image :: "bytes \<Rightarrow> position \<Rightarrow> bool" where
  "in_image img pos \<longleftrightarrow>
     unat (pos_byte_offset pos) < length img \<and> field_start pos + field_len pos \<le> 8 * length img"

lemma span_in_image:
  assumes "image_ok img"
  shows "\<not> (length img \<le> fst (dummy_span pos) \<or> length img < snd (dummy_span pos)) \<longleftrightarrow>
         in_image img pos"
    and "in_image img pos \<Longrightarrow> unat (pos_bit_offset pos) + unat (pos_bit_len pos) < 2 ^ 32"
  using assms
  by (auto simp: dummy_span_def in_image_def field_start_def field_len_def image_ok_def
      unat_bit_len_to_byte_len unat_saturating_add Let_def)

lemma unat_of_nat_u32: "n < 2 ^ 32 \<Longrightarrow> unat (of_nat n :: u32) = n"
  by (simp add: unat_of_nat)

lemma unat_bit_number:
  assumes "unat b + n < 2 ^ 32"
  shows "unat ((b + of_nat n :: u32) div 8) = (unat b + n) div 8"
    and "unat ((b + of_nat n :: u32) mod 8) = (unat b + n) mod 8"
  using assms by (simp_all add: unat_div unat_mod unat_word_ariths unat_of_nat_u32)

lemma offset_div: "(8 * o' + b) div 8 = o' + b div 8" "(8 * o' + b) mod 8 = b mod 8" for o' b :: nat
  by simp_all

lemma unat_of_nat_div:
  assumes "n < 2 ^ 32"
  shows "unat ((of_nat n :: u32) div 8) = n div 8" and "unat ((of_nat n :: u32) mod 8) = n mod 8"
  using assms by (simp_all add: unat_div unat_mod unat_of_nat_u32)

lemma read_bit_eq:
  assumes "unat (pos_bit_offset pos) + n < 2 ^ 32" and "offset = unat (pos_byte_offset pos)"
  shows "read_bit img offset pos n out =
     (if bit_at img (field_start pos + n)
      then out[n div 8 := put_bit True (n mod 8) (out ! (n div 8))] else out)"
proof -
  have "n < 2 ^ 32" using assms(1) by linarith
  then show ?thesis
    using assms(2)
    by (simp add: read_bit_def unat_bit_number [OF assms(1)] unat_of_nat_div and_power_nonzero
        bit_at_def put_bit_def field_start_def offset_div add.assoc Let_def del: unat_of_nat)
qed

lemma write_bit_eq:
  assumes "unat (pos_bit_offset pos) + n < 2 ^ 32" and "offset = unat (pos_byte_offset pos)"
  shows "write_bit data offset pos n img =
     (let k = field_start pos + n
      in img[k div 8 := put_bit (bit_at data n) (k mod 8) (img ! (k div 8))])"
proof -
  have "n < 2 ^ 32" using assms(1) by linarith
  then show ?thesis
    using assms(2)
    by (simp add: write_bit_def unat_bit_number [OF assms(1)] unat_of_nat_div and_power_nonzero
        bit_at_def put_bit_def field_start_def offset_div add.assoc Let_def del: unat_of_nat)
qed

lemma read_loop:
  assumes "unat (pos_bit_offset pos) + unat (pos_bit_len pos) < 2 ^ 32"
    and "offset = unat (pos_byte_offset pos)" and "n \<le> unat (pos_bit_len pos)"
    and "unat (pos_bit_len pos) \<le> 8 * l"
  shows "length (fold (read_bit img offset pos) [0..<n] (replicate l 0)) = l \<and>
     (\<forall>k < 8 * l. bit_at (fold (read_bit img offset pos) [0..<n] (replicate l 0)) k =
        (k < n \<and> bit_at img (field_start pos + k)))"
  using assms(3)
proof (induction n)
  case 0
  then show ?case by (auto simp: bit_at_def)
next
  case (Suc n)
  let ?out = "fold (read_bit img offset pos) [0..<n] (replicate l 0)"
  have IH: "length ?out = l" "\<And>k. k < 8 * l \<Longrightarrow> bit_at ?out k = (k < n \<and> bit_at img (field_start pos + k))"
    using Suc by auto
  have eq: "read_bit img offset pos n ?out =
      (if bit_at img (field_start pos + n)
       then ?out[n div 8 := put_bit True (n mod 8) (?out ! (n div 8))] else ?out)"
    using assms(1,2) Suc.prems by (intro read_bit_eq) simp_all
  have nl: "n div 8 < length ?out" using Suc.prems assms(4) IH(1) by auto
  show ?case
  proof (intro conjI allI impI)
    fix k assume k: "k < 8 * l"
    then have "k div 8 < length ?out" using IH(1) by auto
    from bit_at_put [OF nl this] show "bit_at (fold (read_bit img offset pos) [0..<Suc n] (replicate l 0)) k =
        (k < Suc n \<and> bit_at img (field_start pos + k))"
      using IH(2) [OF k] by (auto simp: eq less_Suc_eq)
  qed (simp add: eq IH(1))
qed

lemma whole_bytesD:
  assumes "whole_bytes pos"
  shows "pos_bit_offset pos = 0" and "8 dvd unat (pos_bit_len pos)"
proof -
  from assms have "pos_bit_len pos mod 8 = 0" by (simp only: whole_bytes_def)
  then have "unat (pos_bit_len pos mod 8) = unat (0 :: u32)" by (rule arg_cong)
  then show "8 dvd unat (pos_bit_len pos)" by (simp add: unat_mod dvd_eq_mod_eq_0)
qed (use assms in \<open>simp add: whole_bytes_def\<close>)

lemma dummy_read_image_spec:
  assumes "image_ok img"
  shows "dummy_read_image img pos =
     (if in_image img pos then Inr (bit_field img (field_start pos) (field_len pos))
      else Inl ErrInvalidLen)"
proof (cases "in_image img pos")
  case False
  with span_in_image(1) [OF assms, of pos] show ?thesis
    by (simp add: dummy_read_image_def case_prod_beta)
next
  case True
  note sum = span_in_image(2) [OF assms True]
  have range: "\<not> (length img \<le> fst (dummy_span pos) \<or> length img < snd (dummy_span pos))"
    using span_in_image(1) [OF assms] True by blast
  show ?thesis
  proof (cases "whole_bytes pos")
    case whole: True
    note z = whole_bytesD(1) [OF this] and d = whole_bytesD(2) [OF this]
    have "snd (dummy_span pos) - fst (dummy_span pos) = unat (pos_bit_len pos) div 8"
      using d unat_lt [of "pos_bit_len pos"] z
      by (auto simp: dummy_span_def Let_def unat_bit_len_to_byte_len unat_saturating_add)
    moreover have "bit_field img (field_start pos) (field_len pos) =
        take (unat (pos_bit_len pos) div 8) (drop (unat (pos_byte_offset pos)) img)"
      using bit_field_aligned [OF _ d, of "unat (pos_byte_offset pos)" img] True z
      by (simp add: in_image_def field_start_def field_len_def)
    ultimately show ?thesis
      using True range whole
      by (simp add: dummy_read_image_def case_prod_beta) (simp add: dummy_span_def Let_def)
  next
    case False
    let ?out = "fold (read_bit img (unat (pos_byte_offset pos)) pos) [0..<unat (pos_bit_len pos)]
        (replicate (bit_len_to_byte_len (pos_bit_len pos)) 0)"
    have len: "bit_len_to_byte_len (pos_bit_len pos) = (field_len pos + 7) div 8"
      by (simp add: unat_bit_len_to_byte_len field_len_def)
    then have l: "unat (pos_bit_len pos) \<le> 8 * bit_len_to_byte_len (pos_bit_len pos)"
      by (simp add: field_len_def)
    note loop = read_loop [OF sum refl order.refl l, of img]
    have "?out = bit_field img (field_start pos) (field_len pos)"
    proof (rule bytes_eqI)
      fix k assume "k < 8 * length ?out"
      with loop have k: "k < 8 * bit_len_to_byte_len (pos_bit_len pos)" by simp
      then show "bit_at ?out k = bit_at (bit_field img (field_start pos) (field_len pos)) k"
        using loop k [unfolded len] by (simp add: bit_at_bit_field) (simp add: field_len_def)
    qed (use loop len in simp)
    then show ?thesis
      using True range False
      by (simp add: dummy_read_image_def case_prod_beta) (simp add: dummy_span_def Let_def)
  qed
qed

lemma dummy_write_image_spec:
  assumes "image_ok img"
  shows "dummy_write_image img data pos =
     (if in_image img pos \<and> length data = (field_len pos + 7) div 8
      then (Inr (), put_field data (field_start pos) (field_len pos) img)
      else (Inl ErrInvalidLen, img))"
proof (cases "in_image img pos \<and> length data = (field_len pos + 7) div 8")
  case False
  with span_in_image(1) [OF assms, of pos] show ?thesis
    by (auto simp: dummy_write_image_def case_prod_beta unat_bit_len_to_byte_len field_len_def)
next
  case True
  then have inn: "in_image img pos" and len: "length data = (field_len pos + 7) div 8" by auto
  note sum = span_in_image(2) [OF assms inn]
  have range: "\<not> (length img \<le> fst (dummy_span pos) \<or> length img < snd (dummy_span pos) \<or>
      bit_len_to_byte_len (pos_bit_len pos) \<noteq> length data)"
    using span_in_image(1) [OF assms] True by (auto simp: unat_bit_len_to_byte_len field_len_def)
  show ?thesis
  proof (cases "whole_bytes pos")
    case whole: True
    note z = whole_bytesD(1) [OF this] and d = whole_bytesD(2) [OF this]
    then have len': "length data = field_len pos div 8"
      using len by (auto simp: field_len_def)
    have "snd (dummy_span pos) = unat (pos_byte_offset pos) + field_len pos div 8"
      using d unat_lt [of "pos_bit_len pos"] z
      by (auto simp: dummy_span_def Let_def unat_bit_len_to_byte_len unat_saturating_add field_len_def)
    moreover have "fst (dummy_span pos) = unat (pos_byte_offset pos)"
      by (simp add: dummy_span_def Let_def)
    moreover have "put_field data (field_start pos) (field_len pos) img =
        take (unat (pos_byte_offset pos)) img @ data @
        drop (unat (pos_byte_offset pos) + field_len pos div 8) img"
      using put_field_aligned [of "unat (pos_byte_offset pos)" "field_len pos" img data] inn z d len'
      by (simp add: in_image_def field_start_def field_len_def)
    ultimately show ?thesis
      using True range whole by (simp add: dummy_write_image_def case_prod_beta)
  next
    case False
    have "fold (write_bit data (unat (pos_byte_offset pos)) pos) [0..<unat (pos_bit_len pos)] img =
        put_field data (field_start pos) (field_len pos) img"
      unfolding put_field_def field_len_def
      using sum by (intro fold_cong) (simp_all add: fun_eq_iff write_bit_eq Let_def)
    moreover have "fst (dummy_span pos) = unat (pos_byte_offset pos)"
      by (simp add: dummy_span_def Let_def)
    ultimately show ?thesis
      using True range False by (simp add: dummy_write_image_def case_prod_beta)
  qed
qed

section \<open>The interface\<close>

text \<open>Two positions whose bit ranges do not meet.\<close>

definition disjoint_fields :: "position \<Rightarrow> position \<Rightarrow> bool" where
  "disjoint_fields p q \<longleftrightarrow> field_start p + field_len p \<le> field_start q \<or>
     field_start q + field_len q \<le> field_start p"

text \<open>The data without the bits beyond the field.\<close>

definition field_data :: "position \<Rightarrow> bytes \<Rightarrow> bytes" where
  "field_data p d = bit_field d 0 (field_len p)"

lemma image_ok_put [simp]: "image_ok (put_field d s n img) \<longleftrightarrow> image_ok img"
  by (simp add: image_ok_def)

lemma in_image_put [simp]: "in_image (put_field d s n img) p \<longleftrightarrow> in_image img p"
  by (simp add: in_image_def)

lemma field_data_full:
  assumes "length d = field_len p div 8" and "8 dvd field_len p"
  shows "field_data p d = d"
  using bit_field_aligned [of 0 "field_len p" d] assms by (simp add: field_data_def)

interpretation dummy: image_access dummy_read_image dummy_write_image field_data disjoint_fields image_ok
proof unfold_locales
  fix m m' d d' p q e
  assume m: "image_ok m"
  {
    assume w: "dummy_write_image m d p = (Inr (), m')"
    then have p: "in_image m p" and m': "m' = put_field d (field_start p) (field_len p) m"
      by (simp_all add: dummy_write_image_spec [OF m] split: if_splits)
    then show "image_ok m'" "fst (dummy_write_image m' d' q) = fst (dummy_write_image m d' q)"
      using m by (simp_all add: dummy_write_image_spec)
    show "dummy_read_image m' p = Inr (field_data p d)"
      using m m' p by (simp add: dummy_read_image_spec field_data_def bit_field_put_same in_image_def)
    show "disjoint_fields p q \<Longrightarrow> dummy_read_image m' q = dummy_read_image m q"
      using m m' p
      by (auto simp: dummy_read_image_spec disjoint_fields_def in_image_def intro!: bit_field_put_other)
  }
next
  fix m m' d p e
  assume "dummy_write_image m d p = (Inl e, m')"
  then show "m' = m"
    by (auto simp: dummy_write_image_def case_prod_beta Let_def split: if_splits)
qed

section \<open>Properties\<close>

text \<open>
  Reading an output field: on an image below 512 MiB \<open>read_outputs\<close> fails exactly when the
  field is not inside the image, and otherwise returns \<open>ceil(bit_len / 8)\<close> bytes that hold the
  field's bits from bit 0 on and zeros behind them, on the whole-byte path and on the bit loop
  alike.
\<close>

lemma read_outputs_field:
  assumes "length (dh_output_image h) < 2 ^ 29"
  shows "dummy_read_outputs h pos =
     (if unat (pos_byte_offset pos) < length (dh_output_image h) \<and>
         8 * unat (pos_byte_offset pos) + unat (pos_bit_offset pos) + unat (pos_bit_len pos) \<le>
           8 * length (dh_output_image h)
      then Inr (bit_field (dh_output_image h)
             (8 * unat (pos_byte_offset pos) + unat (pos_bit_offset pos)) (unat (pos_bit_len pos)))
      else Inl ErrInvalidLen)"
  using dummy_read_image_spec [of "dh_output_image h" pos] assms
  by (simp add: dummy_read_outputs_def image_ok_def in_image_def field_start_def field_len_def)

lemma upt_8: "[0..<8] = [0, 1, 2, 3, 4, 5, 6, 7 :: nat]"
  by (simp add: upt_rec)

lemma read_outputs_field_example:
  "dummy_read_outputs (dummy_new\<lparr>dh_output_image := [0b10110000, 0b00000001]\<rparr>)
     \<lparr>pos_byte_offset = 0, pos_bit_offset = 4, pos_bit_len = 5\<rparr> = Inr [0b00011011]"
  using read_outputs_field [of "dummy_new\<lparr>dh_output_image := [0b10110000, 0b00000001]\<rparr>"
      "\<lparr>pos_byte_offset = 0, pos_bit_offset = 4, pos_bit_len = 5\<rparr>"]
  by (simp add: bit_field_def bit_at_def upt_8 horner_sum_simps)

text \<open>
  Writing an input field: \<open>write_inputs\<close> fails, without a change, exactly when the field is
  not inside the image or the data has not \<open>ceil(bit_len / 8)\<close> bytes; otherwise the bits of the
  field become the first bits of the data and every other bit of the image is kept.
\<close>

lemma write_inputs_field:
  assumes "length (dh_input_image h) < 2 ^ 29"
  shows "case dummy_write_inputs h data pos of
      (Inl e, h') \<Rightarrow> e = ErrInvalidLen \<and> h' = h \<and>
        \<not> (in_image (dh_input_image h) pos \<and> length data = (field_len pos + 7) div 8)
    | (Inr _, h') \<Rightarrow> in_image (dh_input_image h) pos \<and> length data = (field_len pos + 7) div 8 \<and>
        h' = h\<lparr>dh_input_image := dh_input_image h'\<rparr> \<and>
        length (dh_input_image h') = length (dh_input_image h) \<and>
        (\<forall>k < 8 * length (dh_input_image h). bit_at (dh_input_image h') k =
           (if field_start pos \<le> k \<and> k < field_start pos + field_len pos
            then bit_at data (k - field_start pos) else bit_at (dh_input_image h) k))"
  using assms
  by (auto simp: dummy_write_inputs_def dummy_write_image_spec image_ok_def in_image_def
      bit_at_put_field)

lemma write_inputs_field_example:
  "fst (dummy_write_inputs (new_valve_controller ''eth0'' []) [1]
     \<lparr>pos_byte_offset = 0, pos_bit_offset = 0, pos_bit_len = 1\<rparr>) = Inr ()"
  using write_inputs_field [where h = "new_valve_controller ''eth0'' []" and data = "[1]"
      and pos = "\<lparr>pos_byte_offset = 0, pos_bit_offset = 0, pos_bit_len = 1\<rparr>"]
  by (auto simp: new_valve_controller_def in_image_def field_start_def field_len_def
      split: prod.splits sum.splits)

definition write_cycle :: "(position \<times> bytes) list \<Rightarrow> dummy_hardware \<Rightarrow> dummy_hardware" where
  "write_cycle xs h = fold (\<lambda>(p, d) h. snd (dummy_write_inputs h d p)) xs h"

lemma write_cycle_image:
  "dh_input_image (write_cycle xs h) = dummy.write_all xs (dh_input_image h)"
  unfolding write_cycle_def
  by (induction xs arbitrary: h) (auto simp: dummy_write_inputs_def case_prod_beta)

text \<open>
  A cycle's fields stay apart: after writing data to pairwise disjoint fields of the input
  image, each inside it and with data of its length, every field reads back as the data that was
  written to it, whatever the order and alignment of the fields.
\<close>

lemma write_cycle_reads_back:
  assumes "length (dh_input_image h) < 2 ^ 29"
    and "\<forall>(p, d) \<in> set xs. in_image (dh_input_image h) p \<and> length d = (field_len p + 7) div 8"
    and "sorted_wrt (\<lambda>x y. disjoint_fields (fst y) (fst x)) xs" and "(p, d) \<in> set xs"
  shows "dummy_read_image (dh_input_image (write_cycle xs h)) p = Inr (bit_field d 0 (field_len p))"
proof -
  have ok: "image_ok (dh_input_image h)" using assms(1) by (simp add: image_ok_def)
  have "\<forall>(p, d) \<in> set xs. fst (dummy_write_image (dh_input_image h) d p) = Inr ()"
    using assms(2) by (auto simp: dummy_write_image_spec [OF ok])
  from dummy.write_all_reads [OF ok this assms(3,4)] show ?thesis
    by (simp add: write_cycle_image field_data_def)
qed

lemma write_cycle_reads_back_example:
  "let p = \<lparr>pos_byte_offset = 0, pos_bit_offset = 0, pos_bit_len = 3\<rparr>;
       q = \<lparr>pos_byte_offset = 0, pos_bit_offset = 3, pos_bit_len = 8\<rparr>
   in dummy_read_image (dh_input_image (write_cycle [(p, [5]), (q, [255])]
        (dummy_new\<lparr>dh_input_image := [0, 0]\<rparr>))) p = Inr (bit_field [5] 0 3)"
  using write_cycle_reads_back [of "dummy_new\<lparr>dh_input_image := [0, 0]\<rparr>"
      "[(\<lparr>pos_byte_offset = 0, pos_bit_offset = 0, pos_bit_len = 3\<rparr>, [5]),
        (\<lparr>pos_byte_offset = 0, pos_bit_offset = 3, pos_bit_len = 8\<rparr>, [255])]"
      "\<lparr>pos_byte_offset = 0, pos_bit_offset = 0, pos_bit_len = 3\<rparr>" "[5]"]
  by (simp add: in_image_def disjoint_fields_def field_start_def field_len_def)

definition var_position :: "process_variable \<Rightarrow> position" where
  "var_position v = \<lparr>pos_byte_offset = pv_byte_offset v, pos_bit_offset = pv_bit_offset v,
     pos_bit_len = pv_bit_len v\<rparr>"

definition var_accessible :: "dummy_hardware \<Rightarrow> process_variable \<Rightarrow> bool" where
  "var_accessible h v =
     (let p = var_position v; data = replicate (bit_len_to_byte_len (pv_bit_len v)) 0
      in if pv_direction v = direction_num Output then \<not> isl (dummy_read_outputs h p)
         else \<not> isl (fst (dummy_write_inputs h data p)))"

text \<open>
  The layouts against the images: the temperature sensor and the valve controller advertise
  only variables their images hold, while neither variable of the test role lies inside its
  image, so every stream configured on one of them fails at run time.
\<close>

lemma layout_access:
  "map_sum id (map (var_accessible (new_temperature_sensor iface mac)))
     (dummy_get_layout (new_temperature_sensor iface mac)) = Inr [True] \<and>
   map_sum id (map (var_accessible (new_valve_controller iface mac)))
     (dummy_get_layout (new_valve_controller iface mac)) = Inr [True] \<and>
   map_sum id (map (var_accessible dummy_new)) (dummy_get_layout dummy_new) = Inr [False, False]"
  by (simp add: dummy_get_layout_def new_temperature_sensor_def new_valve_controller_def dummy_new_def
      var_accessible_def dummy_read_outputs_def dummy_write_inputs_def dummy_read_image_spec
      dummy_write_image_spec image_ok_def in_image_def field_start_def field_len_def process_var_def
      var_position_def unat_bit_len_to_byte_len Let_def)

end
