(* ===== verification/Slave_Discovery.thy ===== *)
theory Slave_Discovery
  imports Ethernet Discovery_Auth Slave_Hardware Device_Status State_Machine
begin

text \<open>
  \<^verbatim>\<open>src/slave/src/discovery.rs\<close>: the slave's side of the discovery protocol. One turn of the
  listener thread takes what the network receiver returns; every handler gives the frame it hands
  to the transmitter, if any, and the new state. \<open>None\<close> is a panic. The result of the transmitter
  is only logged.
\<close>

section \<open>State and environment\<close>

record sdcp_env =
  sv_hash :: keyed_hash
  sv_pnet :: pnet
  sv_mac :: "mac_addr option"

record 'p listener_env = sdcp_env +
  lv_info :: "'p device_info_access"
  lv_network :: "'p network_interface_access"

record 'p listener =
  ln_state :: device_state
  ln_hardware :: 'p
  ln_auth :: discovery_auth_handler

definition default_device_info :: device_info where
  "default_device_info =
     \<lparr>di_mac_address = [0, 0, 0, 0, 0, 0], di_ip_address = [0, 0, 0, 0],
      di_ip_source = ip_source_num Unspecified, di_netmask = [255, 255, 255, 0],
      di_gateway = [0, 0, 0, 0], di_vendor_id = 0, di_device_id = 0, di_serial_number = 0,
      di_firmware_version = 0, di_capabilities = 0\<rparr>"

section \<open>Responses\<close>

text \<open>The response is tagged under the slave's own address, with its own counter.\<close>

definition send_response ::
    "('p, 'z) listener_env_scheme \<Rightarrow> mac_addr \<Rightarrow> sdcp_op_code \<Rightarrow> u16 \<Rightarrow> tlv \<Rightarrow> 'p listener \<Rightarrow>
       (bytes option \<times> 'p listener) option" where
  "send_response env target_mac op_code transaction_id payload_tlv s =
     (case sv_mac env of
        None \<Rightarrow> None
      | Some source_mac \<Rightarrow>
          (let required_buffer_size =
                 14 + 5 + unat (tlv_length payload_tlv) + 2 + SECURITY_FOOTER_SIZE;
               header = sdcp_header_new op_code transaction_id;
               payload_buffer = sdcp_header_write_to header [];
               tlv_payload = tlv_write_to payload_tlv [];
               payload_buffer = payload_buffer @ tlv_payload;
               auth = (if \<not> has_device source_mac (ln_auth s)
                       then add_new_device source_mac (ln_auth s) else ln_auth s)
           in case create_auth_tag (sv_hash env) source_mac header tlv_payload auth of
                (None, _) \<Rightarrow> None
              | (Some (sequence_number, auth_tag), auth') \<Rightarrow>
                  (case pn_frame (sv_pnet env) required_buffer_size target_mac source_mac ETHERTYPE_SDCP
                          (append_sdcp_footer payload_buffer
                             \<lparr>sf_sequence_number = sequence_number, sf_auth_tag = auth_tag\<rparr>) of
                     None \<Rightarrow> None
                   | Some frame \<Rightarrow> Some (Some frame, s\<lparr>ln_auth := auth'\<rparr>))))"

definition send_status_response ::
    "('p, 'z) listener_env_scheme \<Rightarrow> mac_addr \<Rightarrow> sdcp_op_code \<Rightarrow> u16 \<Rightarrow> status_code \<Rightarrow> 'p listener \<Rightarrow>
       (bytes option \<times> 'p listener) option" where
  "send_status_response env requester op_code transaction_id code s =
     (let status_tlv = tlv_status_report code
      in send_response env requester op_code transaction_id status_tlv s)"

section \<open>Requests\<close>

text \<open>\<open>try_into\<close> of a byte vector to an array of four, with a default for any other length.\<close>

definition as_array4 :: "bytes \<Rightarrow> bytes \<Rightarrow> bytes" where
  "as_array4 bs d = (if length bs = 4 then bs else d)"

definition handle_get_ip_request ::
    "('p, 'z) listener_env_scheme \<Rightarrow> sdcp_header \<Rightarrow> mac_addr \<Rightarrow> 'p listener \<Rightarrow>
       (bytes option \<times> 'p listener) option" where
  "handle_get_ip_request env header source s =
     (case read_device_info (lv_info env) (ln_hardware s) of
        Inl code \<Rightarrow> send_status_response env source GetIpRes (sh_transaction_id header) code s
      | Inr info \<Rightarrow>
          (let ip = as_array4 (di_ip_address info) [0, 0, 0, 0];
               netmask = as_array4 (di_netmask info) [255, 255, 255, 0];
               gateway = as_array4 (di_gateway info) [0, 0, 0, 0];
               src = (case ip_source_try_from (di_ip_source info) of
                        None \<Rightarrow> Unspecified | Some x \<Rightarrow> x);
               tlv = tlv_ip_report ip netmask gateway src
           in send_response env source GetIpRes (sh_transaction_id header) tlv s))"

definition handle_set_ip_request ::
    "('p, 'z) listener_env_scheme \<Rightarrow> sdcp_header \<Rightarrow> bytes \<Rightarrow> mac_addr \<Rightarrow> 'p listener \<Rightarrow>
       (bytes option \<times> 'p listener) option" where
  "handle_set_ip_request env header tlv_payload source s =
     (if tlv_payload = [] then Some (None, s)
      else case tlv_read_from tlv_payload of
        Inl _ \<Rightarrow> Some (None, s)
      | Inr tlv \<Rightarrow>
          (case tlv_parse_ip_config tlv of
             None \<Rightarrow> Some (None, s)
           | Some config \<Rightarrow>
               (let (r, hw) = apply_ip_config (lv_network env) (ln_hardware s) (ic_ip config)
                                (ic_netmask config) (ic_gateway config);
                    s = s\<lparr>ln_hardware := hw\<rparr>;
                    respond = (\<lambda>code. send_status_response env source SetIpRes
                                (sh_transaction_id header) code)
                in case r of
                     Inl _ \<Rightarrow> respond ErrHardwareAccess s
                   | Inr _ \<Rightarrow>
                       (case read_device_info (lv_info env) (ln_hardware s) of
                          Inl code \<Rightarrow> respond code s
                        | Inr info \<Rightarrow>
                            (let info = info\<lparr>di_ip_address := ic_ip config,
                                             di_netmask := ic_netmask config,
                                             di_gateway := ic_gateway config\<rparr>;
                                 (w, hw) = write_device_info (lv_info env) (ln_hardware s) info;
                                 s = s\<lparr>ln_hardware := hw\<rparr>
                             in case w of
                                  Inl code \<Rightarrow> respond code s
                                | Inr _ \<Rightarrow>
                                    (case respond NoError s of
                                       None \<Rightarrow> None
                                     | Some (frame, s) \<Rightarrow> Some (frame, s\<lparr>ln_state :=
                                         snd (set_target_state (ln_state s) PreOp)\<rparr>)))))))"

definition handle_discovery_request ::
    "('p, 'z) listener_env_scheme \<Rightarrow> sdcp_header \<Rightarrow> mac_addr \<Rightarrow> 'p listener \<Rightarrow>
       (bytes option \<times> 'p listener) option" where
  "handle_discovery_request env header source s =
     (let info = (case read_device_info (lv_info env) (ln_hardware s) of
                    Inl _ \<Rightarrow> default_device_info | Inr info \<Rightarrow> info);
          tlv = tlv_device_info (ucast (di_vendor_id info)) (ucast (di_device_id info))
                  (di_serial_number info)
      in send_response env source DiscoverRes (sh_transaction_id header) tlv s)"

text \<open>The request of an authenticated message.\<close>

definition dispatch ::
    "('p, 'z) listener_env_scheme \<Rightarrow> sdcp_header \<Rightarrow> bytes \<Rightarrow> mac_addr \<Rightarrow> 'p listener \<Rightarrow>
       (bytes option \<times> 'p listener) option" where
  "dispatch env header tlv_payload source s =
     (case sh_op_code header of
        DiscoverReq \<Rightarrow> handle_discovery_request env header source s
      | SetIpReq \<Rightarrow> handle_set_ip_request env header tlv_payload source s
      | GetIpReq \<Rightarrow> handle_get_ip_request env header source s
      | _ \<Rightarrow> Some (None, s))"

definition handle_packet ::
    "('p, 'z) listener_env_scheme \<Rightarrow> parsed_sdcp_payload \<Rightarrow> eth_packet \<Rightarrow> 'p listener \<Rightarrow>
       (bytes option \<times> 'p listener) option" where
  "handle_packet env parsed ethernet_frame s =
     (let source_mac = ep_source ethernet_frame;
          header = sp_header parsed;
          (valid, auth) = validate_auth_tag (sv_hash env) source_mac header (sp_tlv_payload parsed)
                            (sp_sequence_number parsed) (sp_auth_tag parsed) (ln_auth s);
          s = s\<lparr>ln_auth := auth\<rparr>
      in if \<not> valid then Some (None, s)
         else dispatch env header (sp_tlv_payload parsed) source_mac s)"

section \<open>The listener\<close>

text \<open>A turn of the thread; \<open>received\<close> is \<open>None\<close> when the receiver reports an error.\<close>

definition listener_turn ::
    "('p, 'z) listener_env_scheme \<Rightarrow> bytes option \<Rightarrow> 'p listener \<Rightarrow> (bytes option \<times> 'p listener) turn" where
  "listener_turn env received s =
     (if ln_state s \<noteq> DiscoverySync then Stop
      else case received of
        None \<Rightarrow> Continue (None, s)
      | Some packet \<Rightarrow>
          (case pn_new (sv_pnet env) packet of
             None \<Rightarrow> Continue (None, s)
           | Some ethernet_frame \<Rightarrow>
               if ep_ethertype ethernet_frame \<noteq> ETHERTYPE_SDCP then Continue (None, s)
               else (case parse_sdcp_payload (ep_payload ethernet_frame) of
                       Inl code \<Rightarrow> Continue (None, s)
                     | Inr parsed \<Rightarrow>
                         (case handle_packet env parsed ethernet_frame s of
                            None \<Rightarrow> Panic
                          | Some r \<Rightarrow> Continue r))))"

text \<open>The thread on what it receives: the frames it sends, and its last state (\<open>None\<close> on a panic).\<close>

fun listener_run ::
    "('p, 'z) listener_env_scheme \<Rightarrow> bytes option list \<Rightarrow> 'p listener \<Rightarrow> (bytes list \<times> 'p listener) option" where
  "listener_run env [] s = Some ([], s)"
| "listener_run env (received # rest) s =
     (case listener_turn env received s of
        Panic \<Rightarrow> None
      | Stop \<Rightarrow> Some ([], s)
      | Continue (frame, s') \<Rightarrow>
          (case listener_run env rest s' of
             None \<Rightarrow> None
           | Some (frames, s'') \<Rightarrow>
               Some ((case frame of None \<Rightarrow> frames | Some f \<Rightarrow> f # frames), s'')))"

section \<open>What a response carries\<close>

lemma header_new_simps [simp]:
  "sh_op_code (sdcp_header_new op tid) = op" "sh_transaction_id (sdcp_header_new op tid) = tid"
  by (simp_all add: sdcp_header_new_def)

definition env_ok :: "'z sdcp_env_scheme \<Rightarrow> bool" where
  "env_ok env \<longleftrightarrow> pnet_ok (sv_pnet env) \<and> keyed_hash_ok (sv_hash env)"

text \<open>\<open>tagged env f d s h tlvs n a\<close>: the frame carries the message with the number \<open>n\<close> and the tag
  the table \<open>a\<close> gives it.\<close>

definition tagged ::
    "'z sdcp_env_scheme \<Rightarrow> bytes \<Rightarrow> mac_addr \<Rightarrow> mac_addr \<Rightarrow> sdcp_header \<Rightarrow> bytes \<Rightarrow> u64 \<Rightarrow>
       discovery_auth_handler \<Rightarrow> bool" where
  "tagged env f d s h tlvs n a \<longleftrightarrow> carries (sv_pnet env) f d s h tlvs n (own_tag (sv_hash env) h tlvs n a)"

lemma env_frame_tagged:
  assumes "env_ok env" and "n = 14 + 5 + length tlvs + 16"
  obtains f where "pn_frame (sv_pnet env) n d s ETHERTYPE_SDCP
      (append_sdcp_footer (sdcp_header_bytes h @ tlvs)
        \<lparr>sf_sequence_number = q, sf_auth_tag = own_tag (sv_hash env) h tlvs q a\<rparr>) = Some f"
    and "length f = n" and "tagged env f d s h tlvs q a"
proof (rule sdcp_frame_carries [where P = "sv_pnet env" and t = "own_tag (sv_hash env) h tlvs q a"
      and n = n and tlvs = tlvs and d = d and s = s and h = h and q = q])
  show "pnet_ok (sv_pnet env)" and "length (own_tag (sv_hash env) h tlvs q a) = 8"
    using assms(1) length_own_tag by (auto simp: env_ok_def)
qed (use assms(2) that in \<open>auto simp: tagged_def\<close>)

lemma send_response_tagged:
  assumes "env_ok env" and "sv_mac env = Some d" and "tlv_ok tlv"
  shows "\<exists>f. send_response env target op tid tlv s =
      Some (Some f, s\<lparr>ln_auth := after_send d (ln_auth s)\<rparr>) \<and>
    tagged env f target d (sdcp_header_new op tid) (tlv_bytes tlv)
      (next_number (ln_auth s) d) (ln_auth s)"
proof -
  have len: "14 + 5 + unat (tlv_length tlv) + 2 + SECURITY_FOOTER_SIZE =
      14 + 5 + length (tlv_bytes tlv) + 16"
    using assms(3) by (simp add: tlv_ok_def length_tlv_bytes)
  from env_frame_tagged [OF assms(1) len, of target d "sdcp_header_new op tid"
      "next_number (ln_auth s) d" "ln_auth s"]
  obtain f where "pn_frame (sv_pnet env) (14 + 5 + unat (tlv_length tlv) + 2 + SECURITY_FOOTER_SIZE)
      target d ETHERTYPE_SDCP
      (append_sdcp_footer (sdcp_header_bytes (sdcp_header_new op tid) @ tlv_bytes tlv)
        \<lparr>sf_sequence_number = next_number (ln_auth s) d, sf_auth_tag = own_tag (sv_hash env)
          (sdcp_header_new op tid) (tlv_bytes tlv) (next_number (ln_auth s) d) (ln_auth s)\<rparr>) = Some f"
    and "tagged env f target d (sdcp_header_new op tid) (tlv_bytes tlv)
      (next_number (ln_auth s) d) (ln_auth s)" .
  with assms(2) show ?thesis
    by (simp add: send_response_def Let_def create_own_tag flip: sdcp_header_bytes_def tlv_bytes_def)
qed

text \<open>The information a slave identifies itself with.\<close>

definition identity :: "('p, 'z) listener_env_scheme \<Rightarrow> 'p listener \<Rightarrow> sdcp_device_info" where
  "identity env s =
     (case read_device_info (lv_info env) (ln_hardware s) of
        Inl _ \<Rightarrow> \<lparr>sdi_vendor_id = 0, sdi_device_id = 0, sdi_serial_number = 0\<rparr>
      | Inr info \<Rightarrow> \<lparr>sdi_vendor_id = ucast (di_vendor_id info), sdi_device_id = ucast (di_device_id info),
          sdi_serial_number = di_serial_number info\<rparr>)"

definition identity_tlv :: "sdcp_device_info \<Rightarrow> tlv" where
  "identity_tlv i = tlv_device_info (sdi_vendor_id i) (sdi_device_id i) (sdi_serial_number i)"

lemma tlv_ok_identity [simp]: "tlv_ok (identity_tlv i)"
  by (simp add: identity_tlv_def)

lemma handle_discovery_eq:
  "handle_discovery_request env h m s =
     send_response env m DiscoverRes (sh_transaction_id h) (identity_tlv (identity env s)) s"
  by (simp add: handle_discovery_request_def identity_def identity_tlv_def default_device_info_def
      split: sum.splits)

text \<open>The settings a slave reports.\<close>

definition ip_settings :: "device_info \<Rightarrow> ip_report" where
  "ip_settings info =
     \<lparr>ir_ip = as_array4 (di_ip_address info) [0, 0, 0, 0],
      ir_netmask = as_array4 (di_netmask info) [255, 255, 255, 0],
      ir_gateway = as_array4 (di_gateway info) [0, 0, 0, 0],
      ir_ip_source = (case ip_source_try_from (di_ip_source info) of None \<Rightarrow> Unspecified | Some x \<Rightarrow> x)\<rparr>"

definition ip_settings_tlv :: "ip_report \<Rightarrow> tlv" where
  "ip_settings_tlv r = tlv_ip_report (ir_ip r) (ir_netmask r) (ir_gateway r) (ir_ip_source r)"

lemma length_as_array4 [simp]: "length d = 4 \<Longrightarrow> length (as_array4 bs d) = 4"
  by (simp add: as_array4_def)

lemma tlv_ok_ip_settings [simp]: "tlv_ok (ip_settings_tlv (ip_settings info))"
  by (simp add: ip_settings_tlv_def ip_settings_def)

lemma handle_get_ip_eq:
  "handle_get_ip_request env h m s =
     (case read_device_info (lv_info env) (ln_hardware s) of
        Inl code \<Rightarrow> send_status_response env m GetIpRes (sh_transaction_id h) code s
      | Inr info \<Rightarrow>
          send_response env m GetIpRes (sh_transaction_id h) (ip_settings_tlv (ip_settings info)) s)"
  by (simp add: handle_get_ip_request_def ip_settings_def ip_settings_tlv_def Let_def split: sum.splits)

section \<open>What a turn does\<close>

text \<open>An authentic message that is newer than the last one accepted from its source.\<close>

definition fresh_authentic ::
    "'z sdcp_env_scheme \<Rightarrow> discovery_auth_handler \<Rightarrow> mac_addr \<Rightarrow> sdcp_header \<Rightarrow> bytes \<Rightarrow> u64 \<Rightarrow> bytes \<Rightarrow> bool" where
  "fresh_authentic env a m h tlvs n t \<longleftrightarrow>
     (\<exists>l. rx_number a m = Some l \<and> l < n) \<and>
     verify_hmac (sv_hash env) (da_shared_secret a) [serialize_header h, tlvs, be64 n] t"

definition as_turn :: "'a option \<Rightarrow> 'a turn" where
  "as_turn r = (case r of None \<Rightarrow> Panic | Some x \<Rightarrow> Continue x)"

lemma as_turn_simps [simp]:
  "as_turn None = Panic" "as_turn (Some x) = Continue x"
  "as_turn r = Continue x \<longleftrightarrow> r = Some x" "as_turn r = Panic \<longleftrightarrow> r = None" "as_turn r \<noteq> Stop"
  by (simp_all add: as_turn_def split: option.splits)

lemma listener_on_message:
  assumes "ln_state s = DiscoverySync" and "carries (sv_pnet env) f d m h tlvs n t"
  shows "listener_turn env (Some f) s =
     (if fresh_authentic env (ln_auth s) m h tlvs n t
      then as_turn (dispatch env h tlvs m (s\<lparr>ln_auth := after_receive m n (ln_auth s)\<rparr>))
      else Continue (None, s))"
  using assms
  by (auto simp: carries_def listener_turn_def handle_packet_def validate_eq fresh_authentic_def
      as_turn_def Let_def)

lemma listener_turn_cases:
  obtains (stop) "ln_state s \<noteq> DiscoverySync" "listener_turn env received s = Stop"
  | (skip) "ln_state s = DiscoverySync" "listener_turn env received s = Continue (None, s)"
  | (message) f d m h tlvs n t where "received = Some f" "ln_state s = DiscoverySync"
      "carries (sv_pnet env) f d m h tlvs n t" "fresh_authentic env (ln_auth s) m h tlvs n t"
      "listener_turn env received s =
         as_turn (dispatch env h tlvs m (s\<lparr>ln_auth := after_receive m n (ln_auth s)\<rparr>))"
proof (cases "ln_state s = DiscoverySync")
  case True
  show thesis
  proof (cases "\<exists>f d m h tlvs n t. received = Some f \<and> carries (sv_pnet env) f d m h tlvs n t")
    case c: True
    then obtain f d m h tlvs n t where "received = Some f"
      "carries (sv_pnet env) f d m h tlvs n t" by blast
    with listener_on_message [OF True this(2)] skip message True show thesis
      by (metis (no_types))
  next
    case False
    have "listener_turn env received s = Continue (None, s)"
    proof (rule ccontr)
      assume "listener_turn env received s \<noteq> Continue (None, s)"
      with True obtain f e p where "received = Some f" "pn_new (sv_pnet env) f = Some e"
        "ep_ethertype e = ETHERTYPE_SDCP" "parse_sdcp_payload (ep_payload e) = Inr p"
        by (auto simp: listener_turn_def split: option.splits if_splits sum.splits)
      then have "received = Some f \<and> carries (sv_pnet env) f (ep_destination e) (ep_source e)
          (sp_header p) (sp_tlv_payload p) (sp_sequence_number p) (sp_auth_tag p)"
        by (auto simp: carries_def intro!: exI [of _ "ep_payload e"])
      with False show False by blast
    qed
    with skip True show thesis by blast
  qed
qed (use stop in \<open>simp add: listener_turn_def\<close>)

lemma send_response_SomeD:
  assumes "send_response env target op tid tlv s = Some (r, s')"
  shows "\<exists>d f. sv_mac env = Some d \<and> r = Some f \<and> s' = s\<lparr>ln_auth := after_send d (ln_auth s)\<rparr>"
proof -
  from assms obtain d f where "sv_mac env = Some d" "r = Some f"
      "s' = s\<lparr>ln_auth := after_send d (ln_auth s)\<rparr>"
    by (simp add: send_response_def Let_def create_own_tag split: option.splits) metis
  then show ?thesis by blast
qed

lemma send_status_response_SomeD:
  "send_status_response env target op tid c s = Some (r, s') \<Longrightarrow>
     \<exists>d f. sv_mac env = Some d \<and> r = Some f \<and> s' = s\<lparr>ln_auth := after_send d (ln_auth s)\<rparr>"
  unfolding send_status_response_def Let_def by (rule send_response_SomeD)

lemmas responses = send_response_SomeD send_status_response_SomeD

lemma handle_set_ip_auth:
  "handle_set_ip_request env h tlvs m s = Some (r, s') \<Longrightarrow>
     ln_auth s' = ln_auth s \<and> r = None \<and> s' = s \<or>
     (\<exists>d. sv_mac env = Some d \<and> ln_auth s' = after_send d (ln_auth s)) \<and> r \<noteq> None"
  by (auto simp: handle_set_ip_request_def Let_def split: if_splits sum.splits option.splits
      prod.splits dest!: responses)

lemma dispatch_auth:
  "dispatch env h tlvs m s = Some (r, s') \<Longrightarrow>
     s' = s \<and> r = None \<or> (\<exists>d. sv_mac env = Some d \<and> ln_auth s' = after_send d (ln_auth s)) \<and> r \<noteq> None"
  using handle_set_ip_auth [of env h tlvs m s r s']
  by (auto simp: dispatch_def handle_discovery_request_def handle_get_ip_request_def Let_def
      split: sdcp_op_code.splits sum.splits dest!: responses)

lemma dispatch_kept:
  "dispatch env h tlvs m s = Some (r, s') \<Longrightarrow> sh_op_code h \<noteq> SetIpReq \<Longrightarrow>
     ln_hardware s' = ln_hardware s \<and> ln_state s' = ln_state s"
  by (auto simp: dispatch_def handle_discovery_request_def handle_get_ip_request_def Let_def
      split: sdcp_op_code.splits sum.splits dest!: responses)

lemma dispatch_rx:
  "dispatch env h tlvs m s = Some (r, s') \<Longrightarrow> rx_number (ln_auth s) e = Some l \<Longrightarrow>
     rx_number (ln_auth s') e = Some l"
  by (auto dest!: dispatch_auth)

lemma listener_turn_rx:
  assumes "listener_turn env received s = Continue (r, s')" and "rx_number (ln_auth s) e = Some l"
  shows "\<exists>l' \<ge> l. rx_number (ln_auth s') e = Some l'"
proof (cases rule: listener_turn_cases [of s env received])
  case (message f d m h tlvs n t)
  then have disp: "dispatch env h tlvs m (s\<lparr>ln_auth := after_receive m n (ln_auth s)\<rparr>) = Some (r, s')"
    using assms(1) by simp
  have "rx_number (ln_auth (s\<lparr>ln_auth := after_receive m n (ln_auth s)\<rparr>)) e =
      Some (if e = m then n else l)"
    using assms(2) by simp
  from dispatch_rx [OF disp this] show ?thesis
    using message(4) assms(2) by (auto simp: fresh_authentic_def)
qed (use assms in auto)

lemma listener_run_rx:
  "listener_run env rs s = Some (fs, s') \<Longrightarrow> rx_number (ln_auth s) e = Some l \<Longrightarrow>
     \<exists>l' \<ge> l. rx_number (ln_auth s') e = Some l'"
proof (induction env rs s arbitrary: fs s' l rule: listener_run.induct)
  case (2 env received rest s)
  show ?case
  proof (cases "listener_turn env received s")
    case (Continue x)
    then obtain r s1 where t: "listener_turn env received s = Continue (r, s1)" by (cases x) auto
    with "2.prems"(1) obtain fs' where "listener_run env rest s1 = Some (fs', s')"
      by (auto split: option.splits)
    moreover from listener_turn_rx [OF t "2.prems"(2)] obtain l1 where
      "l \<le> l1" "rx_number (ln_auth s1) e = Some l1" by blast
    ultimately show ?thesis using "2.IH" [OF t refl] by (meson order_trans)
  qed (use "2.prems" in auto)
qed auto

section \<open>Examples\<close>

definition master_mac :: mac_addr where "master_mac = MacAddr 2 0 0 0 0 1"
definition valve_mac :: mac_addr where "valve_mac = MacAddr 2 0x42 0xAC 0x10 0 0x12"

definition valve_env :: "dummy_hardware listener_env" where
  "valve_env = \<lparr>sv_hash = checksum_hash, sv_pnet = wire_pnet, sv_mac = Some valve_mac,
     lv_info = dummy_device_access, lv_network = dummy_network_access (\<lambda>_ _ _. Inr ())\<rparr>"

definition valve_listener :: "dummy_hardware listener" where
  "valve_listener = \<lparr>ln_state = DiscoverySync,
     ln_hardware = new_valve_controller ''veth-valve'' (octets valve_mac),
     ln_auth = add_new_device master_mac (discovery_auth_new [7])\<rparr>"

text \<open>A message of the master, with its number, sent under the address \<open>m\<close>.\<close>

definition request_from :: "mac_addr \<Rightarrow> sdcp_op_code \<Rightarrow> bytes \<Rightarrow> u64 \<Rightarrow> bytes" where
  "request_from m op tlvs n = sdcp_wire valve_mac m (sdcp_header_new op 1) tlvs n
     (own_tag checksum_hash (sdcp_header_new op 1) tlvs n (discovery_auth_new [7]))"

lemma valve_env_simps [simp]:
  "env_ok valve_env" "sv_mac valve_env = Some valve_mac" "sv_pnet valve_env = wire_pnet"
  "sv_hash valve_env = checksum_hash"
  by (simp_all add: env_ok_def valve_env_def wire_pnet_ok checksum_hash_ok)

lemma request_from_carries:
  "carries wire_pnet (request_from m op tlvs n) valve_mac m (sdcp_header_new op 1) tlvs n
     (own_tag checksum_hash (sdcp_header_new op 1) tlvs n (discovery_auth_new [7]))"
  by (simp add: request_from_def sdcp_wire_carries length_own_tag checksum_hash_ok)

lemma valve_listener_simps [simp]:
  "ln_state valve_listener = DiscoverySync"
  "rx_number (ln_auth valve_listener) e = (if e = master_mac then Some 0 else None)"
  "da_shared_secret (ln_auth valve_listener) = [7]"
  by (simp_all add: valve_listener_def discovery_auth_new_def rx_number_def add_new_device_def
      device_security_context_default_def)

lemma request_from_authentic:
  "fresh_authentic valve_env (ln_auth valve_listener) m (sdcp_header_new op 1) tlvs n
     (own_tag checksum_hash (sdcp_header_new op 1) tlvs n (discovery_auth_new [7])) \<longleftrightarrow>
     m = master_mac \<and> 0 < n"
  using verify_own_tag [of "discovery_auth_new [7]" "ln_auth valve_listener" checksum_hash]
  by (auto simp: fresh_authentic_def discovery_auth_new_def)

lemma valve_answers:
  "\<exists>fr. listener_turn valve_env (Some (request_from master_mac DiscoverReq [] 5)) valve_listener =
     Continue (Some fr, valve_listener\<lparr>ln_auth := after_send valve_mac
       (after_receive master_mac 5 (ln_auth valve_listener))\<rparr>)"
  using listener_on_message [of valve_listener valve_env "request_from master_mac DiscoverReq [] 5"]
    request_from_carries [of master_mac DiscoverReq "[]" 5]
    send_response_tagged [of valve_env valve_mac "identity_tlv (identity valve_env
      (valve_listener\<lparr>ln_auth := after_receive master_mac 5 (ln_auth valve_listener)\<rparr>))"
      master_mac DiscoverRes 1
      "valve_listener\<lparr>ln_auth := after_receive master_mac 5 (ln_auth valve_listener)\<rparr>"]
  by (auto simp: request_from_authentic dispatch_def handle_discovery_eq)

section \<open>Properties\<close>

text \<open>
  C8 Only authenticated requests count on the slave: a turn of the listener that answers, or changes
  anything at all, received an SDCP message with a valid tag and a number above every number
  accepted from that source, which it then remembers; and only a request to set the address can
  change the hardware or the device state.
\<close>

theorem listener_authenticated:
  assumes "listener_turn env received s = Continue (r, s')" and "r \<noteq> None \<or> s' \<noteq> s"
  shows "\<exists>f d m h tlvs n t. received = Some f \<and> carries (sv_pnet env) f d m h tlvs n t \<and>
    fresh_authentic env (ln_auth s) m h tlvs n t \<and> rx_number (ln_auth s') m = Some n \<and>
    (ln_hardware s' \<noteq> ln_hardware s \<or> ln_state s' \<noteq> ln_state s \<longrightarrow> sh_op_code h = SetIpReq)"
proof (cases rule: listener_turn_cases [of s env received])
  case (message f d m h tlvs n t)
  then have disp: "dispatch env h tlvs m (s\<lparr>ln_auth := after_receive m n (ln_auth s)\<rparr>) = Some (r, s')"
    using assms(1) by simp
  have "rx_number (ln_auth s') m = Some n"
    by (rule dispatch_rx [OF disp]) simp
  moreover have "ln_hardware s' \<noteq> ln_hardware s \<or> ln_state s' \<noteq> ln_state s \<longrightarrow>
      sh_op_code h = SetIpReq"
    using dispatch_kept [OF disp] by auto
  ultimately show ?thesis using message by blast
qed (use assms in auto)

theorem listener_authenticated_witness:
  "\<exists>r s'. listener_turn valve_env (Some (request_from master_mac DiscoverReq [] 5)) valve_listener =
     Continue (r, s') \<and> rx_number (ln_auth s') master_mac = Some 5"
proof -
  let ?f = "request_from master_mac DiscoverReq [] 5"
  obtain fr s' where t: "listener_turn valve_env (Some ?f) valve_listener = Continue (Some fr, s')"
    using valve_answers by blast
  have "\<exists>d m h tlvs n u. carries wire_pnet ?f d m h tlvs n u \<and> rx_number (ln_auth s') m = Some n"
    using listener_authenticated [OF t] unfolding valve_env_simps by blast
  then obtain d m h tlvs n u where
    "carries wire_pnet ?f d m h tlvs n u" "rx_number (ln_auth s') m = Some n" by blast
  with request_from_carries [of master_mac DiscoverReq "[]" 5] t show ?thesis
    by (auto simp: carries_def)
qed

text \<open>
  C16 A replayed request is ignored: once a frame was accepted, the same message in any frame from
  the same source changes nothing and gets no answer, whatever the listener received in between.
\<close>

theorem replayed_request_ignored:
  assumes "carries (sv_pnet env) f d m h tlvs n t"
    and "listener_turn env (Some f) s = Continue (r, s1)" and "r \<noteq> None \<or> s1 \<noteq> s"
    and "listener_run env rs s1 = Some (frames, s2)"
    and "carries (sv_pnet env) g d' m h' tlvs' n t'"
  shows "listener_turn env (Some g) s2 =
    (if ln_state s2 = DiscoverySync then Continue (None, s2) else Stop)"
proof -
  have "rx_number (ln_auth s1) m = Some n"
  proof (cases rule: listener_turn_cases [of s env "Some f"])
    case (message f' d2 m2 h2 tlvs2 n2 t2)
    then have "m2 = m" "n2 = n" using assms(1) by (auto simp: carries_def)
    with message assms(2) have "dispatch env h2 tlvs2 m
        (s\<lparr>ln_auth := after_receive m n (ln_auth s)\<rparr>) = Some (r, s1)" by simp
    from dispatch_rx [OF this] show ?thesis by simp
  qed (use assms in auto)
  from listener_run_rx [OF assms(4) this] obtain l where
    "n \<le> l" "rx_number (ln_auth s2) m = Some l" by blast
  then have "\<not> fresh_authentic env (ln_auth s2) m h' tlvs' n t'"
    by (auto simp: fresh_authentic_def)
  then show ?thesis
    using listener_on_message [OF _ assms(5), of s2]
    by (cases "ln_state s2 = DiscoverySync") (simp_all add: listener_turn_def)
qed

theorem replayed_request_ignored_witness:
  "\<exists>fr s1. listener_turn valve_env (Some (request_from master_mac DiscoverReq [] 5)) valve_listener =
     Continue (Some fr, s1) \<and>
   listener_turn valve_env (Some (request_from master_mac DiscoverReq [] 5)) s1 = Continue (None, s1)"
proof -
  let ?f = "request_from master_mac DiscoverReq [] 5"
  obtain fr s1 where t: "listener_turn valve_env (Some ?f) valve_listener = Continue (Some fr, s1)"
    and st: "ln_state s1 = DiscoverySync" using valve_answers by fastforce
  have c: "carries (sv_pnet valve_env) ?f valve_mac master_mac (sdcp_header_new DiscoverReq 1) [] 5
      (own_tag checksum_hash (sdcp_header_new DiscoverReq 1) [] 5 (discovery_auth_new [7]))"
    using request_from_carries by simp
  have "listener_run valve_env [] s1 = Some ([], s1)" by simp
  from replayed_request_ignored [OF c t _ this c] t st show ?thesis by auto
qed



text \<open>
  C37 Padding: the footer is taken from the end of the received frame, so a request that was padded
  on its way with 16 or more zero bytes is dropped. A request without fields is 35 bytes long, so
  Ethernet's minimum of 60 bytes pads it with 25.
\<close>

theorem padded_request_dropped:
  assumes "env_ok env" and "carries (sv_pnet env) f d m h tlvs n t" and "16 \<le> k"
    and "ln_state s = DiscoverySync"
  shows "listener_turn env (Some (f @ replicate k 0)) s = Continue (None, s)"
proof -
  obtain p where p: "pn_new (sv_pnet env) f = Some \<lparr>ep_destination = d, ep_source = m,
      ep_ethertype = ETHERTYPE_SDCP, ep_payload = p\<rparr>"
    and q: "parse_sdcp_payload p = Inr \<lparr>sp_header = h, sp_tlv_payload = tlvs,
      sp_sequence_number = n, sp_auth_tag = t\<rparr>"
    using assms(2) by (auto simp: carries_def)
  let ?p = "p @ replicate k 0"
  have new: "pn_new (sv_pnet env) (f @ replicate k 0) = Some \<lparr>ep_destination = d, ep_source = m,
      ep_ethertype = ETHERTYPE_SDCP, ep_payload = ?p\<rparr>"
    using pnet_ok_pad [OF _ p] assms(1) by (simp add: env_ok_def)
  show ?thesis
  proof (cases "parse_sdcp_payload ?p")
    case (Inr x)
    have "sp_sequence_number x = 0"
      using parse_sdcp_payload_InrD [OF q] padded_footer [OF assms(3)] Inr split_write
      by (fastforce simp: parse_sdcp_payload_def footer_ok_def split: if_splits sum.splits)
    with new Inr assms(4) show ?thesis
      by (simp add: listener_turn_def handle_packet_def validate_eq Let_def)
  qed (use new assms(4) in \<open>simp add: listener_turn_def\<close>)
qed

theorem padded_request_dropped_witness:
  "listener_turn valve_env (Some (request_from master_mac DiscoverReq [] 5 @ replicate 25 0))
     valve_listener = Continue (None, valve_listener)"
  by (rule padded_request_dropped [where n = 5 and tlvs = "[]" and m = master_mac
        and h = "sdcp_header_new DiscoverReq 1"]) (simp_all, rule request_from_carries)

end
