(* ===== verification/Master_Discovery.thy ===== *)
theory Master_Discovery
  imports Slave_Discovery
begin

text \<open>
  \<^verbatim>\<open>src/master/src/discovery.rs\<close>: the master's side of the discovery protocol. The network
  receiver is the list of what \<open>next\<close> returns until the timeout (\<open>None\<close> for an error), the
  transmitter is the result of sending. An operation gives its result, the frames handed to the
  transmitter and the new state; \<open>None\<close> is a panic.
\<close>

section \<open>State\<close>

record discovery_master =
  dm_state :: device_state
  dm_devices :: "mac_addr \<rightharpoonup> discovered_device"
  dm_counter :: u16
  dm_auth :: discovery_auth_handler

definition BROADCAST_MAC :: mac_addr where
  "BROADCAST_MAC = MacAddr 0xFF 0xFF 0xFF 0xFF 0xFF 0xFF"

text \<open>\<open>new\<close>, once the interface was found and its channel is open.\<close>

definition discovery_master_new :: "device_state \<Rightarrow> bytes \<Rightarrow> discovery_master" where
  "discovery_master_new state shared_secret =
     \<lparr>dm_state = state, dm_devices = Map.empty, dm_counter = 1,
      dm_auth = add_new_device BROADCAST_MAC (discovery_auth_new shared_secret)\<rparr>"

definition next_transaction_id :: "discovery_master \<Rightarrow> u16 \<times> discovery_master" where
  "next_transaction_id m = (dm_counter m, m\<lparr>dm_counter := dm_counter m + 1\<rparr>)"

definition clear_discovered_devices :: "discovery_master \<Rightarrow> discovery_master" where
  "clear_discovered_devices m = m\<lparr>dm_devices := Map.empty\<rparr>"

section \<open>Requests\<close>

definition build_request_frame ::
    "'z sdcp_env_scheme \<Rightarrow> mac_addr \<Rightarrow> sdcp_op_code \<Rightarrow> u16 \<Rightarrow> tlv option \<Rightarrow> discovery_master \<Rightarrow>
       ((status_code + bytes) \<times> discovery_master) option" where
  "build_request_frame env destination op_code transaction_id payload_tlv m =
     (let tlv_size = (case payload_tlv of None \<Rightarrow> 0 | Some tlv \<Rightarrow> 2 + unat (tlv_length tlv));
          buffer_size = 14 + 5 + tlv_size + SECURITY_FOOTER_SIZE
      in if buffer_size < 14 then Some (Inl ErrOsFailure, m)
         else case sv_mac env of
           None \<Rightarrow> Some (Inl ErrSocketChannel, m)
         | Some source_mac \<Rightarrow>
             (let header = sdcp_header_new op_code transaction_id;
                  payload = sdcp_header_write_to header [];
                  tlv_payload = (case payload_tlv of None \<Rightarrow> [] | Some tlv \<Rightarrow> tlv_write_to tlv []);
                  payload = payload @ tlv_payload;
                  auth = (if \<not> has_device source_mac (dm_auth m)
                          then add_new_device source_mac (dm_auth m) else dm_auth m)
              in case create_auth_tag (sv_hash env) source_mac header tlv_payload auth of
                   (None, auth') \<Rightarrow> Some (Inl ErrAuthFailed, m\<lparr>dm_auth := auth'\<rparr>)
                 | (Some (sequence_number, auth_tag), auth') \<Rightarrow>
                     (case pn_frame (sv_pnet env) buffer_size destination source_mac ETHERTYPE_SDCP
                             (append_sdcp_footer payload
                                \<lparr>sf_sequence_number = sequence_number, sf_auth_tag = auth_tag\<rparr>) of
                        None \<Rightarrow> None
                      | Some frame \<Rightarrow> Some (Inr frame, m\<lparr>dm_auth := auth'\<rparr>))))"

text \<open>The transmitter's result: success or error, or nothing when it has no buffer for the frame.\<close>

definition send_frame :: "bool option \<Rightarrow> status_code + unit" where
  "send_frame result =
     (case result of Some True \<Rightarrow> Inr () | Some False \<Rightarrow> Inl ErrSocketChannel
      | None \<Rightarrow> Inl ErrSocketChannel)"

section \<open>Responses\<close>

definition process_discover_frame ::
    "'z sdcp_env_scheme \<Rightarrow> bytes \<Rightarrow> u16 \<Rightarrow> discovery_auth_handler \<Rightarrow>
       discovered_device option \<times> discovery_auth_handler" where
  "process_discover_frame env frame_data expected_transaction_id auth =
     (case pn_new (sv_pnet env) frame_data of
        None \<Rightarrow> (None, auth)
      | Some eth_packet \<Rightarrow>
          if ep_ethertype eth_packet \<noteq> ETHERTYPE_SDCP then (None, auth)
          else (case parse_sdcp_payload (ep_payload eth_packet) of
            Inl _ \<Rightarrow> (None, auth)
          | Inr parsed \<Rightarrow>
              (let header = sp_header parsed in
               if sh_op_code header \<noteq> DiscoverRes \<or> sh_transaction_id header \<noteq> expected_transaction_id
               then (None, auth)
               else
                 (let source_mac = ep_source eth_packet;
                      (auth_valid, auth) =
                        (if has_device source_mac auth
                         then validate_auth_tag (sv_hash env) source_mac header (sp_tlv_payload parsed)
                                (sp_sequence_number parsed) (sp_auth_tag parsed) auth
                         else
                           (let valid = validate_discovery_response (sv_hash env) header
                                  (sp_tlv_payload parsed) (sp_sequence_number parsed)
                                  (sp_auth_tag parsed) auth
                            in if valid then
                                 (valid, snd (set_last_valid_received_sequence_number source_mac
                                    (sp_sequence_number parsed) (add_new_device source_mac auth)))
                               else (valid, auth)))
                  in if \<not> auth_valid then (None, auth)
                     else case tlv_read_from (sp_tlv_payload parsed) of
                            Inl _ \<Rightarrow> (None, auth)
                          | Inr tlv \<Rightarrow>
                              (case tlv_parse_device_info tlv of
                                 None \<Rightarrow> (None, auth)
                               | Some info \<Rightarrow> (Some (discovered_device_new source_mac info), auth))))))"

text \<open>A turn of the collecting loop, and the loop until the timeout.\<close>

definition discover_step ::
    "'z sdcp_env_scheme \<Rightarrow> u16 \<Rightarrow> discovered_device list \<times> discovery_master \<Rightarrow> bytes option \<Rightarrow>
       discovered_device list \<times> discovery_master" where
  "discover_step env tid nm received =
     (let (newly_discovered, m) = nm in
      case received of
        None \<Rightarrow> (newly_discovered, m)
      | Some frame_data \<Rightarrow>
          (let (found, auth) = process_discover_frame env frame_data tid (dm_auth m);
               m = m\<lparr>dm_auth := auth\<rparr>
           in case found of
                None \<Rightarrow> (newly_discovered, m)
              | Some device \<Rightarrow>
                  (let mac = dd_mac_address device;
                       is_new = (dm_devices m mac = None);
                       m = m\<lparr>dm_devices := (dm_devices m)(mac \<mapsto> device)\<rparr>
                   in (if is_new then newly_discovered @ [device] else newly_discovered, m))))"

definition discover_loop ::
    "'z sdcp_env_scheme \<Rightarrow> u16 \<Rightarrow> bytes option list \<Rightarrow> discovered_device list \<times> discovery_master \<Rightarrow>
       discovered_device list \<times> discovery_master" where
  "discover_loop env tid received nm = foldl (discover_step env tid) nm received"

definition discover_devices ::
    "'z sdcp_env_scheme \<Rightarrow> bool option \<Rightarrow> bytes option list \<Rightarrow> discovery_master \<Rightarrow>
       ((status_code + discovered_device list) \<times> bytes list \<times> discovery_master) option" where
  "discover_devices env send_result received m =
     (if dm_state m \<noteq> DiscoverySync then Some (Inl ErrStateConflict, [], m)
      else
        (let (transaction_id, m) = next_transaction_id m in
         case build_request_frame env BROADCAST_MAC DiscoverReq transaction_id None m of
           None \<Rightarrow> None
         | Some (Inl e, m) \<Rightarrow> Some (Inl e, [], m)
         | Some (Inr frame, m) \<Rightarrow>
             (case send_frame send_result of
                Inl e \<Rightarrow> Some (Inl e, [frame], m)
              | Inr _ \<Rightarrow>
                  (let (newly_discovered, m) = discover_loop env transaction_id received ([], m)
                   in Some (Inr newly_discovered, [frame], m)))))"

text \<open>The response to a unicast request: the first frame that fits, or the timeout.\<close>

fun wait_loop ::
    "'z sdcp_env_scheme \<Rightarrow> mac_addr \<Rightarrow> sdcp_op_code \<Rightarrow> u16 \<Rightarrow> bytes option list \<Rightarrow> discovery_auth_handler \<Rightarrow>
       (status_code + bytes) \<times> discovery_auth_handler" where
  "wait_loop env src op tid [] auth = (Inl ErrTimeout, auth)"
| "wait_loop env src op tid (None # rest) auth = wait_loop env src op tid rest auth"
| "wait_loop env src op tid (Some frame # rest) auth =
     (case pn_new (sv_pnet env) frame of
        None \<Rightarrow> wait_loop env src op tid rest auth
      | Some ethernet_frame \<Rightarrow>
          if ep_ethertype ethernet_frame \<noteq> ETHERTYPE_SDCP then wait_loop env src op tid rest auth
          else if ep_source ethernet_frame \<noteq> src then wait_loop env src op tid rest auth
          else (case parse_sdcp_payload (ep_payload ethernet_frame) of
            Inl _ \<Rightarrow> wait_loop env src op tid rest auth
          | Inr parsed \<Rightarrow>
              if sh_op_code (sp_header parsed) = op \<and> sh_transaction_id (sp_header parsed) = tid
              then
                (let (valid, auth) = validate_auth_tag (sv_hash env) src (sp_header parsed)
                       (sp_tlv_payload parsed) (sp_sequence_number parsed) (sp_auth_tag parsed) auth
                 in if valid then (Inr (sp_tlv_payload parsed), auth)
                    else wait_loop env src op tid rest auth)
              else wait_loop env src op tid rest auth))"

definition wait_for_response ::
    "'z sdcp_env_scheme \<Rightarrow> mac_addr \<Rightarrow> sdcp_op_code \<Rightarrow> u16 \<Rightarrow> bytes option list \<Rightarrow> discovery_master \<Rightarrow>
       (status_code + bytes) \<times> discovery_master" where
  "wait_for_response env expected_source op tid received m =
     (let auth = (if \<not> has_device expected_source (dm_auth m)
                  then add_new_device expected_source (dm_auth m) else dm_auth m);
          (r, auth) = wait_loop env expected_source op tid received auth
      in (r, m\<lparr>dm_auth := auth\<rparr>))"

text \<open>What \<open>get_ip_config\<close> and \<open>set_ip_config\<close> have in common: the state check, the request and the
  wait for the payload of its response.\<close>

definition unicast_request ::
    "'z sdcp_env_scheme \<Rightarrow> mac_addr \<Rightarrow> sdcp_op_code \<Rightarrow> sdcp_op_code \<Rightarrow> tlv option \<Rightarrow> bool option \<Rightarrow>
       bytes option list \<Rightarrow> discovery_master \<Rightarrow>
       ((status_code + bytes) \<times> bytes list \<times> discovery_master) option" where
  "unicast_request env target_mac req res payload_tlv send_result received m =
     (if dm_state m \<noteq> DiscoverySync then Some (Inl ErrStateConflict, [], m)
      else
        (let (transaction_id, m) = next_transaction_id m in
         case build_request_frame env target_mac req transaction_id payload_tlv m of
           None \<Rightarrow> None
         | Some (Inl e, m) \<Rightarrow> Some (Inl e, [], m)
         | Some (Inr frame, m) \<Rightarrow>
             (case send_frame send_result of
                Inl e \<Rightarrow> Some (Inl e, [frame], m)
              | Inr _ \<Rightarrow>
                  (let (r, m) = wait_for_response env target_mac res transaction_id received m
                   in Some (r, [frame], m)))))"

definition ip_report_of :: "bytes \<Rightarrow> status_code + ip_report" where
  "ip_report_of tlv_payload =
     (case tlv_read_from tlv_payload of
        Inl _ \<Rightarrow> Inl ErrInvalidResponse
      | Inr tlv \<Rightarrow> (case tlv_parse_ip_report tlv of None \<Rightarrow> Inl ErrInvalidResponse | Some r \<Rightarrow> Inr r))"

definition get_ip_config ::
    "'z sdcp_env_scheme \<Rightarrow> mac_addr \<Rightarrow> bool option \<Rightarrow> bytes option list \<Rightarrow> discovery_master \<Rightarrow>
       ((status_code + ip_report) \<times> bytes list \<times> discovery_master) option" where
  "get_ip_config env target_mac send_result received m =
     map_option (\<lambda>(r, frames, m). (case r of Inl e \<Rightarrow> Inl e | Inr p \<Rightarrow> ip_report_of p, frames, m))
       (unicast_request env target_mac GetIpReq GetIpRes None send_result received m)"

definition status_of :: "bytes \<Rightarrow> status_code + unit" where
  "status_of tlv_payload =
     (case tlv_read_from tlv_payload of
        Inl _ \<Rightarrow> Inl ErrInvalidResponse
      | Inr tlv \<Rightarrow>
          (case tlv_parse_status_report tlv of
             None \<Rightarrow> Inl ErrInvalidResponse
           | Some status \<Rightarrow> if status = NoError then Inr () else Inl ErrHardwareAccess))"

definition set_ip_config ::
    "'z sdcp_env_scheme \<Rightarrow> mac_addr \<Rightarrow> bytes \<Rightarrow> bytes \<Rightarrow> bytes \<Rightarrow> bool option \<Rightarrow> bytes option list \<Rightarrow>
       discovery_master \<Rightarrow> ((status_code + unit) \<times> bytes list \<times> discovery_master) option" where
  "set_ip_config env target_mac ip netmask gateway send_result received m =
     map_option (\<lambda>(r, frames, m). (case r of Inl e \<Rightarrow> Inl e | Inr p \<Rightarrow> status_of p, frames, m))
       (unicast_request env target_mac SetIpReq SetIpRes (Some (tlv_ip_config ip netmask gateway))
          send_result received m)"

section \<open>Requests on the wire\<close>

definition opt_tlv_bytes :: "tlv option \<Rightarrow> bytes" where
  "opt_tlv_bytes t = (case t of None \<Rightarrow> [] | Some tlv \<Rightarrow> tlv_bytes tlv)"

lemma build_request_tagged:
  assumes "env_ok env" and "sv_mac env = Some d" and "\<forall>tlv. t = Some tlv \<longrightarrow> tlv_ok tlv"
  shows "\<exists>f. build_request_frame env dest op tid t m =
      Some (Inr f, m\<lparr>dm_auth := after_send d (dm_auth m)\<rparr>) \<and>
    tagged env f dest d (sdcp_header_new op tid) (opt_tlv_bytes t)
      (next_number (dm_auth m) d) (dm_auth m)"
proof -
  have len: "14 + 5 + (case t of None \<Rightarrow> 0 | Some tlv \<Rightarrow> 2 + unat (tlv_length tlv)) + SECURITY_FOOTER_SIZE =
      14 + 5 + length (opt_tlv_bytes t) + 16"
    using assms(3) by (auto simp: opt_tlv_bytes_def tlv_ok_def length_tlv_bytes split: option.splits)
  obtain f where "pn_frame (sv_pnet env)
      (14 + 5 + (case t of None \<Rightarrow> 0 | Some tlv \<Rightarrow> 2 + unat (tlv_length tlv)) + SECURITY_FOOTER_SIZE)
      dest d ETHERTYPE_SDCP (append_sdcp_footer (sdcp_header_bytes (sdcp_header_new op tid) @ opt_tlv_bytes t)
        \<lparr>sf_sequence_number = next_number (dm_auth m) d, sf_auth_tag = own_tag (sv_hash env)
          (sdcp_header_new op tid) (opt_tlv_bytes t) (next_number (dm_auth m) d) (dm_auth m)\<rparr>) = Some f"
    and "tagged env f dest d (sdcp_header_new op tid) (opt_tlv_bytes t)
      (next_number (dm_auth m) d) (dm_auth m)"
    by (rule env_frame_tagged [OF assms(1) len])
  moreover have "(case t of None \<Rightarrow> [] | Some tlv \<Rightarrow> tlv_write_to tlv []) = opt_tlv_bytes t"
    by (simp add: opt_tlv_bytes_def tlv_bytes_def split: option.splits)
  ultimately show ?thesis
    using assms(2)
    by (simp add: build_request_frame_def Let_def create_own_tag flip: sdcp_header_bytes_def)
qed

lemma build_request_InrD:
  assumes "build_request_frame env dest op tid t m = Some (Inr f, m')"
  shows "\<exists>d. sv_mac env = Some d \<and> m' = m\<lparr>dm_auth := after_send d (dm_auth m)\<rparr>"
proof (cases "sv_mac env")
  case (Some d)
  with assms have "m\<lparr>dm_auth := after_send d (dm_auth m)\<rparr> = m'"
    by (simp add: build_request_frame_def Let_def create_own_tag split: option.splits)
  with Some show ?thesis by blast
qed (use assms in \<open>simp add: build_request_frame_def Let_def split: if_splits\<close>)

section \<open>What the receiving loops accept\<close>

text \<open>A message of a known device is checked as everywhere; an unknown device is taken in with the
  number 1.\<close>

definition admitted ::
    "'z sdcp_env_scheme \<Rightarrow> discovery_auth_handler \<Rightarrow> mac_addr \<Rightarrow> sdcp_header \<Rightarrow> bytes \<Rightarrow> u64 \<Rightarrow> bytes \<Rightarrow> bool" where
  "admitted env a s h tlvs n t \<longleftrightarrow>
     (case rx_number a s of None \<Rightarrow> n = 1 | Some l \<Rightarrow> l < n) \<and>
     verify_hmac (sv_hash env) (da_shared_secret a) [serialize_header h, tlvs, be64 n] t"

definition device_of :: "mac_addr \<Rightarrow> bytes \<Rightarrow> discovered_device option" where
  "device_of s tlvs =
     (case tlv_read_from tlvs of
        Inl _ \<Rightarrow> None
      | Inr tlv \<Rightarrow> map_option (discovered_device_new s) (tlv_parse_device_info tlv))"

lemma set_last_after_add:
  "rx_number a s = None \<Longrightarrow>
     snd (set_last_valid_received_sequence_number s n (add_new_device s a)) = after_receive s n a"
  by (auto simp: set_last_valid_received_sequence_number_def add_new_device_def after_receive_def
      rx_number_def next_number_def tx_number_def device_security_context_default_def)

lemma process_on_message:
  assumes "carries (sv_pnet env) f d s h tlvs n t"
    and "sh_op_code h = DiscoverRes" and "sh_transaction_id h = tid"
  shows "process_discover_frame env f tid a =
    (if admitted env a s h tlvs n t then (device_of s tlvs, after_receive s n a) else (None, a))"
proof -
  let ?w = "validate_discovery_response (sv_hash env) h tlvs n t a"
  let ?r = "if has_device s a then validate_auth_tag (sv_hash env) s h tlvs n t a
    else if ?w then (?w, snd (set_last_valid_received_sequence_number s n (add_new_device s a)))
    else (?w, a)"
  from assms(1) obtain p where new: "pn_new (sv_pnet env) f = Some \<lparr>ep_destination = d,
      ep_source = s, ep_ethertype = ETHERTYPE_SDCP, ep_payload = p\<rparr>"
    and parse: "parse_sdcp_payload p = Inr \<lparr>sp_header = h, sp_tlv_payload = tlvs,
      sp_sequence_number = n, sp_auth_tag = t\<rparr>" by (auto simp: carries_def)
  obtain v a' where r: "?r = (v, a')" by (cases ?r)
  have eq: "process_discover_frame env f tid a =
      (if fst ?r then (device_of s tlvs, snd ?r) else (None, snd ?r))"
    unfolding process_discover_frame_def new option.case eth_packet.select_convs parse sum.case
      parsed_sdcp_payload.select_convs Let_def assms(2,3) r prod.case fst_conv snd_conv
    by (simp add: device_of_def split: sum.split option.split)
  show ?thesis
  proof (cases "rx_number a s")
    case None
    then show ?thesis
      by (simp add: eq has_device_rx validate_discovery_response_def admitted_def set_last_after_add)
  next
    case (Some l)
    then show ?thesis by (simp add: eq has_device_rx validate_eq admitted_def)
  qed
qed

lemma process_cases:
  obtains (skip) "process_discover_frame env f tid a = (None, a)"
  | (message) d s h tlvs n t where "carries (sv_pnet env) f d s h tlvs n t"
      "sh_op_code h = DiscoverRes" "sh_transaction_id h = tid" "admitted env a s h tlvs n t"
      "process_discover_frame env f tid a = (device_of s tlvs, after_receive s n a)"
proof (cases "process_discover_frame env f tid a = (None, a)")
  case False
  then obtain e p where ep: "pn_new (sv_pnet env) f = Some e" "ep_ethertype e = ETHERTYPE_SDCP"
    "parse_sdcp_payload (ep_payload e) = Inr p" "sh_op_code (sp_header p) = DiscoverRes"
    "sh_transaction_id (sp_header p) = tid"
    by (auto simp: process_discover_frame_def Let_def split: option.splits if_splits sum.splits)
  then have c: "carries (sv_pnet env) f (ep_destination e) (ep_source e) (sp_header p)
      (sp_tlv_payload p) (sp_sequence_number p) (sp_auth_tag p)"
    by (auto simp: carries_def intro!: exI [of _ "ep_payload e"])
  with process_on_message [OF c ep(4,5)] False message ep show thesis by (metis (full_types))
qed (use skip in blast)

lemma device_of_identity: "device_of s (tlv_bytes (identity_tlv i)) = Some (discovered_device_new s i)"
  by (simp add: device_of_def identity_tlv_def tlvc.rd_wr_exact tlv_parse_device_info_build
      discovered_device_new_def)

section \<open>The loops\<close>

definition from_others :: "'z sdcp_env_scheme \<Rightarrow> mac_addr \<Rightarrow> bytes option list \<Rightarrow> bool" where
  "from_others env s events \<longleftrightarrow>
     (\<forall>f e. Some f \<in> set events \<longrightarrow> pn_new (sv_pnet env) f = Some e \<longrightarrow> ep_source e \<noteq> s)"

lemma from_others_simps [simp]:
  "from_others env s []" "from_others env s (None # es) \<longleftrightarrow> from_others env s es"
  "from_others env s (Some f # es) \<longleftrightarrow>
     (\<forall>e. pn_new (sv_pnet env) f = Some e \<longrightarrow> ep_source e \<noteq> s) \<and> from_others env s es"
  by (auto simp: from_others_def)

lemma discover_loop_simps [simp]:
  "discover_loop env tid [] nm = nm"
  "discover_loop env tid (e # es) nm = discover_loop env tid es (discover_step env tid nm e)"
  "discover_loop env tid (xs @ ys) nm = discover_loop env tid ys (discover_loop env tid xs nm)"
  by (simp_all add: discover_loop_def)

lemma discover_step_keeps: "set (fst nm) \<subseteq> set (fst (discover_step env tid nm e))"
  by (auto simp: discover_step_def Let_def split: prod.splits option.splits)

lemma discover_loop_keeps: "set (fst nm) \<subseteq> set (fst (discover_loop env tid events nm))"
proof (induction events arbitrary: nm)
  case (Cons e events)
  then show ?case using discover_step_keeps [of nm env tid e] by (simp add: order_trans)
qed simp

text \<open>Frames of other sources leave everything that is known of a device.\<close>

lemma process_others:
  assumes "\<forall>e. pn_new (sv_pnet env) f = Some e \<longrightarrow> ep_source e \<noteq> s"
    and "process_discover_frame env f tid a = (r, a')"
  shows "rx_number a' s = rx_number a s \<and> da_shared_secret a' = da_shared_secret a \<and>
    (\<forall>d. r = Some d \<longrightarrow> dd_mac_address d \<noteq> s)"
proof (cases rule: process_cases [of env f tid a])
  case (message d s' h tlvs n t)
  then have "s' \<noteq> s" using assms(1) by (auto simp: carries_def)
  then show ?thesis using message assms(2)
    by (auto simp: device_of_def discovered_device_new_def split: sum.splits)
qed (use assms in auto)

lemma discover_step_others:
  assumes "from_others env s [e]"
  shows "rx_number (dm_auth (snd (discover_step env tid nm e))) s = rx_number (dm_auth (snd nm)) s \<and>
    dm_devices (snd (discover_step env tid nm e)) s = dm_devices (snd nm) s \<and>
    da_shared_secret (dm_auth (snd (discover_step env tid nm e))) = da_shared_secret (dm_auth (snd nm))"
proof (cases e)
  case (Some f)
  obtain nd m where nm: "nm = (nd, m)" by fastforce
  obtain r a' where r: "process_discover_frame env f tid (dm_auth m) = (r, a')" by fastforce
  have "\<forall>e. pn_new (sv_pnet env) f = Some e \<longrightarrow> ep_source e \<noteq> s" using assms Some by simp
  from process_others [OF this r] show ?thesis
    by (auto simp: discover_step_def nm Some r Let_def split: option.split)
qed (simp add: discover_step_def case_prod_beta)

lemma discover_loop_others:
  "from_others env s events \<Longrightarrow>
     rx_number (dm_auth (snd (discover_loop env tid events nm))) s = rx_number (dm_auth (snd nm)) s \<and>
     dm_devices (snd (discover_loop env tid events nm)) s = dm_devices (snd nm) s \<and>
     da_shared_secret (dm_auth (snd (discover_loop env tid events nm))) =
       da_shared_secret (dm_auth (snd nm))"
proof (induction events arbitrary: nm)
  case (Cons e events)
  then have "from_others env s [e]" and "from_others env s events"
    by (auto simp: from_others_def)
  with Cons.IH discover_step_others show ?case by simp
qed simp

lemma wait_loop_others:
  "from_others env s pre \<Longrightarrow> wait_loop env s op tid (pre @ rest) a = wait_loop env s op tid rest a"
proof (induction pre)
  case (Cons e pre)
  then have "from_others env s [e]" and "from_others env s pre" by (auto simp: from_others_def)
  with Cons.IH show ?case by (cases e) (auto split: option.splits)
qed simp

lemma wait_loop_message:
  assumes "carries (sv_pnet env) f d s h tlvs n t" and "fresh_authentic env a s h tlvs n t"
    and "sh_op_code h = op" and "sh_transaction_id h = tid"
  shows "wait_loop env s op tid (Some f # rest) a = (Inr tlvs, after_receive s n a)"
  using assms by (auto simp: carries_def validate_eq fresh_authentic_def)

section \<open>Master and slave together\<close>

text \<open>The two ends of a segment: same secret, different addresses, both in \<open>DiscoverySync\<close>, and the
  master's next number is above the last one the slave accepted from it.\<close>

definition linked ::
    "'z sdcp_env_scheme \<Rightarrow> ('p, 'y) listener_env_scheme \<Rightarrow> mac_addr \<Rightarrow> mac_addr \<Rightarrow> discovery_master \<Rightarrow>
       'p listener \<Rightarrow> bool" where
  "linked menv senv mm sm m s \<longleftrightarrow>
     env_ok menv \<and> env_ok senv \<and> sv_pnet senv = sv_pnet menv \<and> sv_hash senv = sv_hash menv \<and>
     sv_mac menv = Some mm \<and> sv_mac senv = Some sm \<and> mm \<noteq> sm \<and>
     da_shared_secret (dm_auth m) = da_shared_secret (ln_auth s) \<and>
     dm_state m = DiscoverySync \<and> ln_state s = DiscoverySync \<and>
     (\<exists>l. rx_number (ln_auth s) mm = Some l \<and> l < next_number (dm_auth m) mm)"

text \<open>The slave's next number is one the master takes: 1 for a device it does not know.\<close>

definition expects :: "discovery_master \<Rightarrow> mac_addr \<Rightarrow> 'p listener \<Rightarrow> bool" where
  "expects m sm s \<longleftrightarrow>
     (case rx_number (dm_auth m) sm of
        None \<Rightarrow> next_number (ln_auth s) sm = 1
      | Some l \<Rightarrow> l < next_number (ln_auth s) sm)"

lemma request_served:
  assumes "linked menv senv mm sm m s" and "\<forall>tlv. t = Some tlv \<longrightarrow> tlv_ok tlv"
    and "dm_auth m' = dm_auth m"
  shows "\<exists>req. build_request_frame menv dest op tid t m' =
      Some (Inr req, m'\<lparr>dm_auth := after_send mm (dm_auth m)\<rparr>) \<and>
    listener_turn senv (Some req) s = as_turn (dispatch senv (sdcp_header_new op tid) (opt_tlv_bytes t)
      mm (s\<lparr>ln_auth := after_receive mm (next_number (dm_auth m) mm) (ln_auth s)\<rparr>))"
proof -
  from build_request_tagged [of menv mm t dest op tid m'] assms
  obtain req where b: "build_request_frame menv dest op tid t m' =
      Some (Inr req, m'\<lparr>dm_auth := after_send mm (dm_auth m)\<rparr>)"
    and g: "tagged menv req dest mm (sdcp_header_new op tid) (opt_tlv_bytes t)
      (next_number (dm_auth m) mm) (dm_auth m)"
    by (auto simp: linked_def)
  have "fresh_authentic senv (ln_auth s) mm (sdcp_header_new op tid) (opt_tlv_bytes t)
      (next_number (dm_auth m) mm)
      (own_tag (sv_hash menv) (sdcp_header_new op tid) (opt_tlv_bytes t) (next_number (dm_auth m) mm)
        (dm_auth m))"
    using assms(1) verify_own_tag [of "dm_auth m" "ln_auth s"]
    by (auto simp: fresh_authentic_def linked_def)
  then have "listener_turn senv (Some req) s = as_turn (dispatch senv (sdcp_header_new op tid)
      (opt_tlv_bytes t) mm (s\<lparr>ln_auth := after_receive mm (next_number (dm_auth m) mm) (ln_auth s)\<rparr>))"
    using listener_on_message [of s senv req] g assms(1) by (simp add: tagged_def linked_def)
  with b show ?thesis by blast
qed

text \<open>The slave's response to a request, as the master reads it.\<close>

lemma response_given:
  assumes "linked menv senv mm sm m s" and "tlv_ok tlv" and "ln_auth s1 = after_receive mm n (ln_auth s)"
  shows "\<exists>resp. send_response senv mm op tid tlv s1 =
      Some (Some resp, s1\<lparr>ln_auth := after_send sm (ln_auth s1)\<rparr>) \<and>
    carries (sv_pnet menv) resp mm sm (sdcp_header_new op tid) (tlv_bytes tlv) (next_number (ln_auth s) sm)
      (own_tag (sv_hash menv) (sdcp_header_new op tid) (tlv_bytes tlv) (next_number (ln_auth s) sm)
         (ln_auth s))"
proof -
  have "own_tag H h p k (after_receive mm n (ln_auth s)) = own_tag H h p k (ln_auth s)" for H h p k
    by (simp add: own_tag_def)
  then show ?thesis
    using send_response_tagged [of senv sm tlv mm op tid s1] assms
    by (auto simp: linked_def tagged_def)
qed

lemma response_admitted:
  assumes "linked menv senv mm sm m s" and "expects m sm s"
    and "rx_number a sm = rx_number (dm_auth m) sm"
    and "da_shared_secret a = da_shared_secret (dm_auth m)"
  shows "admitted menv a sm h tlvs (next_number (ln_auth s) sm)
    (own_tag (sv_hash menv) h tlvs (next_number (ln_auth s) sm) (ln_auth s))"
  using assms verify_own_tag [of "ln_auth s" a]
  by (auto simp: admitted_def expects_def linked_def split: option.splits)

lemma identity_auth [simp]: "identity env (s\<lparr>ln_auth := a\<rparr>) = identity env s"
  by (simp add: identity_def)

lemma discover_step_message:
  assumes "carries (sv_pnet env) f d s h tlvs n t" and "sh_op_code h = DiscoverRes"
    and "sh_transaction_id h = tid" and "admitted env (dm_auth m) s h tlvs n t"
    and "device_of s tlvs = Some device" and "dm_devices m s = None"
  shows "device \<in> set (fst (discover_step env tid (nd, m) (Some f)))"
proof -
  have "dd_mac_address device = s"
    using assms(5) by (auto simp: device_of_def discovered_device_new_def split: sum.splits)
  then show ?thesis
    using process_on_message [OF assms(1-3), of "dm_auth m"] assms(4-6)
    by (simp add: discover_step_def Let_def)
qed

text \<open>A unicast request whose response arrives.\<close>

definition last_from :: "discovery_master \<Rightarrow> mac_addr \<Rightarrow> u64" where
  "last_from m sm = (case rx_number (dm_auth m) sm of None \<Rightarrow> 0 | Some l \<Rightarrow> l)"

text \<open>What a request with an answer leaves of the master, for a device \<open>sm\<close> it knew before.\<close>

definition after_request :: "mac_addr \<Rightarrow> mac_addr \<Rightarrow> discovery_master \<Rightarrow> discovery_master \<Rightarrow> bool" where
  "after_request mm sm m m' \<longleftrightarrow>
     dm_state m' = dm_state m \<and> dm_devices m' = dm_devices m \<and>
     da_shared_secret (dm_auth m') = da_shared_secret (dm_auth m) \<and>
     next_number (dm_auth m') mm = saturating_add (next_number (dm_auth m) mm) 1 \<and>
     (\<forall>e. e \<noteq> sm \<and> e \<noteq> mm \<longrightarrow> rx_number (dm_auth m') e = rx_number (dm_auth m) e)"

lemma unicast_exchange:
  assumes link: "linked menv senv mm sm m s" and new: "last_from m sm < next_number (ln_auth s) sm"
    and pre: "from_others menv sm pre" and ok: "\<forall>tlv. t = Some tlv \<longrightarrow> tlv_ok tlv"
    and answer: "\<And>tid. \<exists>resp. dispatch senv (sdcp_header_new req tid) (opt_tlv_bytes t) mm
        (s\<lparr>ln_auth := after_receive mm (next_number (dm_auth m) mm) (ln_auth s)\<rparr>) = Some (Some resp, s') \<and>
      carries (sv_pnet menv) resp mm sm (sdcp_header_new res tid) (tlv_bytes tlv) (next_number (ln_auth s) sm)
        (own_tag (sv_hash menv) (sdcp_header_new res tid) (tlv_bytes tlv) (next_number (ln_auth s) sm)
           (ln_auth s))"
  shows "\<exists>f resp m'. listener_turn senv (Some f) s = Continue (Some resp, s') \<and>
    unicast_request menv sm req res t (Some True) (pre @ Some resp # post) m =
      Some (Inr (tlv_bytes tlv), [f], m') \<and> after_request mm sm m m'"
proof -
  let ?tid = "dm_counter m" and ?m1 = "m\<lparr>dm_counter := dm_counter m + 1\<rparr>"
  let ?m2 = "?m1\<lparr>dm_auth := after_send mm (dm_auth m)\<rparr>"
  let ?a = "if \<not> has_device sm (dm_auth ?m2) then add_new_device sm (dm_auth ?m2) else dm_auth ?m2"
  from request_served [OF link ok, of ?m1 sm req ?tid] obtain f where
    f: "build_request_frame menv sm req ?tid t ?m1 = Some (Inr f, ?m2)"
    and turn: "listener_turn senv (Some f) s = as_turn (dispatch senv (sdcp_header_new req ?tid)
      (opt_tlv_bytes t) mm (s\<lparr>ln_auth := after_receive mm (next_number (dm_auth m) mm) (ln_auth s)\<rparr>))"
    by auto
  from answer [of ?tid] obtain resp where
    slave: "listener_turn senv (Some f) s = Continue (Some resp, s')"
    and resp: "carries (sv_pnet menv) resp mm sm (sdcp_header_new res ?tid) (tlv_bytes tlv)
      (next_number (ln_auth s) sm) (own_tag (sv_hash menv) (sdcp_header_new res ?tid) (tlv_bytes tlv)
        (next_number (ln_auth s) sm) (ln_auth s))"
    using turn by auto
  let ?m' = "?m2\<lparr>dm_auth := after_receive sm (next_number (ln_auth s) sm) ?a\<rparr>"
  have "rx_number ?a sm = Some (last_from m sm)"
    using link by (auto simp: has_device_rx last_from_def linked_def)
  moreover have "da_shared_secret ?a = da_shared_secret (ln_auth s)"
    using link by (simp add: linked_def)
  ultimately have "fresh_authentic menv ?a sm (sdcp_header_new res ?tid) (tlv_bytes tlv)
      (next_number (ln_auth s) sm) (own_tag (sv_hash menv) (sdcp_header_new res ?tid) (tlv_bytes tlv)
        (next_number (ln_auth s) sm) (ln_auth s))"
    using new verify_own_tag [of "ln_auth s" ?a] by (simp add: fresh_authentic_def)
  from wait_loop_message [OF resp this] pre
  have "wait_for_response menv sm res ?tid (pre @ Some resp # post) ?m2 = (Inr (tlv_bytes tlv), ?m')"
    by (simp add: wait_for_response_def wait_loop_others)
  with f link have "unicast_request menv sm req res t (Some True) (pre @ Some resp # post) m =
      Some (Inr (tlv_bytes tlv), [f], ?m')"
    by (simp add: unicast_request_def next_transaction_id_def send_frame_def linked_def)
  moreover have "after_request mm sm m ?m'" using link by (simp add: after_request_def linked_def)
  ultimately show ?thesis using slave by blast
qed

text \<open>A device that is not known stays unknown while no message of it carries the number 1.\<close>

definition unknown :: "mac_addr \<Rightarrow> discovered_device list \<times> discovery_master \<Rightarrow> bool" where
  "unknown sm nm \<longleftrightarrow> sm \<notin> dd_mac_address ` set (fst nm) \<and> rx_number (dm_auth (snd nm)) sm = None"

definition no_first_from :: "'z sdcp_env_scheme \<Rightarrow> mac_addr \<Rightarrow> bytes option list \<Rightarrow> bool" where
  "no_first_from env sm received \<longleftrightarrow>
     (\<forall>f d h tlvs n t. Some f \<in> set received \<longrightarrow> carries (sv_pnet env) f d sm h tlvs n t \<longrightarrow> n \<noteq> 1)"

lemma discover_step_unknown:
  assumes "unknown sm nm" and "no_first_from env sm [e]"
  shows "unknown sm (discover_step env tid nm e)"
proof (cases e)
  case (Some f)
  obtain nd m where nm: "nm = (nd, m)" by fastforce
  show ?thesis
  proof (cases rule: process_cases [of env f tid "dm_auth m"])
    case (message d s h tlvs n t)
    have "s \<noteq> sm"
    proof
      assume eq: "s = sm"
      then have "n = 1" using message(4) assms(1) by (simp add: admitted_def unknown_def nm)
      then show False
        using message(1) assms(2) eq unfolding no_first_from_def Some by (metis list.set_intros(1))
    qed
    with message assms(1) show ?thesis
      by (auto simp: discover_step_def Let_def unknown_def nm Some device_of_def
          discovered_device_new_def split: option.splits sum.splits)
  qed (use assms(1) in \<open>auto simp: discover_step_def Let_def unknown_def nm Some\<close>)
qed (use assms(1) in \<open>simp add: discover_step_def case_prod_beta\<close>)

lemma discover_loop_unknown:
  "unknown sm nm \<Longrightarrow> no_first_from env sm es \<Longrightarrow> unknown sm (discover_loop env tid es nm)"
proof (induction es arbitrary: nm)
  case (Cons e es)
  from Cons.prems(2) have e: "no_first_from env sm [e]"
    unfolding no_first_from_def by (metis list.set_intros(1) set_ConsD empty_iff list.set(1))
  from Cons.prems(2) have es: "no_first_from env sm es"
    unfolding no_first_from_def by (metis list.set_intros(2))
  from Cons.IH [OF discover_step_unknown [OF Cons.prems(1) e] es] show ?case by simp
qed simp

section \<open>An example\<close>

definition example_master_env :: sdcp_env where
  "example_master_env = \<lparr>sv_hash = checksum_hash, sv_pnet = wire_pnet, sv_mac = Some master_mac\<rparr>"

definition example_master :: discovery_master where
  "example_master = discovery_master_new DiscoverySync [7]"

lemma example_master_simps [simp]:
  "dm_state example_master = DiscoverySync" "dm_devices example_master = Map.empty"
  "rx_number (dm_auth example_master) e = (if e = BROADCAST_MAC then Some 0 else None)"
  "next_number (dm_auth example_master) e = 1"
  "da_shared_secret (dm_auth example_master) = [7]"
  by (simp_all add: example_master_def discovery_master_new_def discovery_auth_new_def rx_number_def
      next_number_def tx_number_def add_new_device_def device_security_context_default_def)

lemma valve_listener_next [simp]: "next_number (ln_auth valve_listener) e = 1"
  by (simp add: valve_listener_def discovery_auth_new_def next_number_def tx_number_def
      add_new_device_def device_security_context_default_def)

lemma example_linked: "linked example_master_env valve_env master_mac valve_mac example_master valve_listener"
  by (simp add: linked_def example_master_env_def env_ok_def wire_pnet_ok checksum_hash_ok)
    (simp add: master_mac_def valve_mac_def)

lemma example_expects:
  "expects example_master valve_mac valve_listener"
  "last_from example_master valve_mac < next_number (ln_auth valve_listener) valve_mac"
  "rx_number (dm_auth example_master) valve_mac = None"
  by (simp_all add: expects_def last_from_def) (simp_all add: valve_mac_def BROADCAST_MAC_def)

section \<open>Properties\<close>



text \<open>
  A query returns what the slave has: when the slave's response to \<open>get_ip_config\<close> arrives before
  the timeout, the master's result is the address, netmask, gateway and source of the slave's
  device information, with the documented defaults for malformed fields.
\<close>

lemma get_ip_config_reports:
  assumes "linked menv senv mm sm m s" and "last_from m sm < next_number (ln_auth s) sm"
    and "from_others menv sm pre" and "read_device_info (lv_info senv) (ln_hardware s) = Inr info"
  shows "\<exists>f resp s' m'. listener_turn senv (Some f) s = Continue (Some resp, s') \<and>
    get_ip_config menv sm (Some True) (pre @ Some resp # post) m = Some (Inr (ip_settings info), [f], m')"
proof -
  let ?s1 = "s\<lparr>ln_auth := after_receive mm (next_number (dm_auth m) mm) (ln_auth s)\<rparr>"
  have report: "ip_report_of (tlv_bytes (ip_settings_tlv (ip_settings info))) = Inr (ip_settings info)"
    by (simp add: ip_report_of_def tlvc.rd_wr_exact)
      (simp add: ip_settings_tlv_def ip_settings_def tlv_parse_ip_report_build)
  have d: "dispatch senv (sdcp_header_new GetIpReq tid) (opt_tlv_bytes None) mm ?s1 =
      send_response senv mm GetIpRes tid (ip_settings_tlv (ip_settings info)) ?s1" for tid
    using assms(4) by (simp add: dispatch_def handle_get_ip_eq)
  have "\<exists>f resp m'. listener_turn senv (Some f) s =
        Continue (Some resp, ?s1\<lparr>ln_auth := after_send sm (ln_auth ?s1)\<rparr>) \<and>
      unicast_request menv sm GetIpReq GetIpRes None (Some True) (pre @ Some resp # post) m =
        Some (Inr (tlv_bytes (ip_settings_tlv (ip_settings info))), [f], m') \<and> after_request mm sm m m'"
    using response_given [OF assms(1) tlv_ok_ip_settings, of ?s1]
    by (intro unicast_exchange [OF assms(1-3)]) (simp_all add: d)
  then show ?thesis by (force simp: get_ip_config_def report)
qed

lemma get_ip_config_reports_example:
  "\<exists>f resp s' m'. listener_turn valve_env (Some f) valve_listener = Continue (Some resp, s') \<and>
    get_ip_config example_master_env valve_mac (Some True) [None, Some resp] example_master =
      Some (Inr (ip_settings (dh_device_info (ln_hardware valve_listener))), [f], m')"
proof -
  have "read_device_info (lv_info valve_env) (ln_hardware valve_listener) =
      Inr (dh_device_info (ln_hardware valve_listener))"
    by (simp add: valve_env_def dummy_device_access_def dummy_read_device_info_def)
  from get_ip_config_reports [OF example_linked example_expects(2), of "[None]", OF _ this, of "[]"]
  show ?thesis by simp
qed

text \<open>The hardware's part of a new address: the interface first, then the stored information.\<close>

definition configure_hardware ::
    "('p, 'z) listener_env_scheme \<Rightarrow> bytes \<Rightarrow> bytes \<Rightarrow> bytes \<Rightarrow> 'p \<Rightarrow> (status_code + unit) \<times> 'p" where
  "configure_hardware env ip netmask gateway hw =
     (case apply_ip_config (lv_network env) hw ip netmask gateway of
        (Inl _, hw) \<Rightarrow> (Inl ErrHardwareAccess, hw)
      | (Inr _, hw) \<Rightarrow>
          (case read_device_info (lv_info env) hw of
             Inl code \<Rightarrow> (Inl code, hw)
           | Inr info \<Rightarrow> write_device_info (lv_info env) hw
               (info\<lparr>di_ip_address := ip, di_netmask := netmask, di_gateway := gateway\<rparr>)))"

lemma handle_set_ip_eq:
  assumes "length ip = 4" "length nm = 4" "length gw = 4"
  shows "handle_set_ip_request env h (tlv_bytes (tlv_ip_config ip nm gw)) src s =
    (case configure_hardware env ip nm gw (ln_hardware s) of
       (Inl code, hw) \<Rightarrow>
         send_status_response env src SetIpRes (sh_transaction_id h) code (s\<lparr>ln_hardware := hw\<rparr>)
     | (Inr _, hw) \<Rightarrow>
         map_option (\<lambda>(f, s'). (f, s'\<lparr>ln_state := snd (set_target_state (ln_state s') PreOp)\<rparr>))
           (send_status_response env src SetIpRes (sh_transaction_id h) NoError (s\<lparr>ln_hardware := hw\<rparr>)))"
proof -
  have "tlv_bytes (tlv_ip_config ip nm gw) \<noteq> []"
    using length_tlv_bytes [of "tlv_ip_config ip nm gw"] by auto
  with assms show ?thesis
    by (auto simp: handle_set_ip_request_def configure_hardware_def tlvc.rd_wr_exact
        tlv_parse_ip_config_build Let_def split: prod.split sum.split option.split)
qed

text \<open>The slave after it served the request with the outcome \<open>r\<close> of its hardware.\<close>

definition set_ip_served ::
    "mac_addr \<Rightarrow> mac_addr \<Rightarrow> status_code + unit \<Rightarrow> 'p \<Rightarrow> discovery_master \<Rightarrow> 'p listener \<Rightarrow> 'p listener" where
  "set_ip_served mm sm r hw m s =
     (let s' = s\<lparr>ln_hardware := hw,
            ln_auth := after_send sm (after_receive mm (next_number (dm_auth m) mm) (ln_auth s))\<rparr>
      in if r = Inr () then s'\<lparr>ln_state := PreOp\<rparr> else s')"

lemma set_ip_served_simps [simp]:
  "ln_hardware (set_ip_served mm sm r hw m s) = hw"
  "ln_state (set_ip_served mm sm r hw m s) = (if r = Inr () then PreOp else ln_state s)"
  by (simp_all add: set_ip_served_def Let_def)

lemma set_ip_answered:
  assumes "linked menv senv mm sm m s"
    and "length ip = 4" and "length nm = 4" and "length gw = 4"
    and "configure_hardware senv ip nm gw (ln_hardware s) = (r, hw)"
  shows "\<exists>resp. dispatch senv (sdcp_header_new SetIpReq tid) (opt_tlv_bytes (Some (tlv_ip_config ip nm gw))) mm
        (s\<lparr>ln_auth := after_receive mm (next_number (dm_auth m) mm) (ln_auth s)\<rparr>) =
        Some (Some resp, set_ip_served mm sm r hw m s) \<and>
      carries (sv_pnet menv) resp mm sm (sdcp_header_new SetIpRes tid)
        (tlv_bytes (tlv_status_report (case r of Inl code \<Rightarrow> code | Inr _ \<Rightarrow> NoError)))
        (next_number (ln_auth s) sm) (own_tag (sv_hash menv) (sdcp_header_new SetIpRes tid)
          (tlv_bytes (tlv_status_report (case r of Inl code \<Rightarrow> code | Inr _ \<Rightarrow> NoError)))
          (next_number (ln_auth s) sm) (ln_auth s))"
proof -
  let ?s1 = "s\<lparr>ln_auth := after_receive mm (next_number (dm_auth m) mm) (ln_auth s),
    ln_hardware := hw\<rparr>"
  let ?tlv = "tlv_status_report (case r of Inl code \<Rightarrow> code | Inr _ \<Rightarrow> NoError)"
  have st: "ln_state s = DiscoverySync" using assms(1) by (simp add: linked_def)
  have tlv: "tlv_ok ?tlv" by simp
  from response_given [OF assms(1) tlv, of ?s1] obtain resp where
    "send_response senv mm SetIpRes tid ?tlv ?s1 = Some (Some resp, ?s1\<lparr>ln_auth := after_send sm (ln_auth ?s1)\<rparr>)"
    and "carries (sv_pnet menv) resp mm sm (sdcp_header_new SetIpRes tid) (tlv_bytes ?tlv)
      (next_number (ln_auth s) sm) (own_tag (sv_hash menv) (sdcp_header_new SetIpRes tid)
        (tlv_bytes ?tlv) (next_number (ln_auth s) sm) (ln_auth s))" by fastforce
  then show ?thesis
    using st by (cases r) (auto simp: dispatch_def opt_tlv_bytes_def handle_set_ip_eq [OF assms(2-4)]
      assms(5) send_status_response_def set_ip_served_def)
qed

lemma set_ip_exchange:
  assumes "linked menv senv mm sm m s" and "last_from m sm < next_number (ln_auth s) sm"
    and "from_others menv sm pre"
    and "length ip = 4" and "length nm = 4" and "length gw = 4"
    and "configure_hardware senv ip nm gw (ln_hardware s) = (r, hw)" and "r \<noteq> Inl NoError"
  shows "\<exists>f resp s' m'. listener_turn senv (Some f) s = Continue (Some resp, s') \<and>
    ln_hardware s' = hw \<and> ln_state s' = (if r = Inr () then PreOp else DiscoverySync) \<and>
    set_ip_config menv sm ip nm gw (Some True) (pre @ Some resp # post) m =
      Some (if r = Inr () then Inr () else Inl ErrHardwareAccess, [f], m') \<and> after_request mm sm m m'"
proof -
  let ?tlv = "tlv_status_report (case r of Inl code \<Rightarrow> code | Inr _ \<Rightarrow> NoError)"
    and ?t = "Some (tlv_ip_config ip nm gw)"
  have ok: "\<forall>tlv. ?t = Some tlv \<longrightarrow> tlv_ok tlv" using assms(4-6) by simp
  from unicast_exchange [OF assms(1-3) ok set_ip_answered [OF assms(1,4-7)]] obtain f resp m' where
    slave: "listener_turn senv (Some f) s = Continue (Some resp, set_ip_served mm sm r hw m s)"
    and master: "unicast_request menv sm SetIpReq SetIpRes ?t (Some True) (pre @ Some resp # post) m =
      Some (Inr (tlv_bytes ?tlv), [f], m')" and kept: "after_request mm sm m m'" by blast
  have "status_of (tlv_bytes ?tlv) = (if r = Inr () then Inr () else Inl ErrHardwareAccess)"
    using assms(8) by (cases r) (auto simp: status_of_def tlvc.rd_wr_exact tlv_parse_status_report_build)
  with master have "set_ip_config menv sm ip nm gw (Some True) (pre @ Some resp # post) m =
      Some (if r = Inr () then Inr () else Inl ErrHardwareAccess, [f], m')"
    by (simp add: set_ip_config_def)
  moreover have "ln_state s = DiscoverySync" using assms(1) by (simp add: linked_def)
  ultimately show ?thesis using slave kept by fastforce
qed

text \<open>The same request with another address in its Ethernet header.\<close>

lemma set_ip_overheard:
  assumes "linked menv senv mm sm m s" and "target \<noteq> sm"
    and "length ip = 4" and "length nm = 4" and "length gw = 4"
    and "configure_hardware senv ip nm gw (ln_hardware s) = (Inr (), hw)"
  shows "\<exists>f resp m'. listener_turn senv (Some f) s =
      Continue (Some resp, set_ip_served mm sm (Inr ()) hw m s) \<and>
    set_ip_config menv target ip nm gw (Some True) [Some resp] m = Some (Inl ErrTimeout, [f], m')"
proof -
  let ?tid = "dm_counter m" and ?m1 = "m\<lparr>dm_counter := dm_counter m + 1\<rparr>"
    and ?t = "Some (tlv_ip_config ip nm gw)"
  let ?m2 = "?m1\<lparr>dm_auth := after_send mm (dm_auth m)\<rparr>"
  have ok: "\<forall>tlv. ?t = Some tlv \<longrightarrow> tlv_ok tlv" using assms(3-5) by simp
  from request_served [OF assms(1) ok, of ?m1 target SetIpReq ?tid] obtain f where
    f: "build_request_frame menv target SetIpReq ?tid ?t ?m1 = Some (Inr f, ?m2)"
    and turn: "listener_turn senv (Some f) s = as_turn (dispatch senv (sdcp_header_new SetIpReq ?tid)
      (opt_tlv_bytes ?t) mm (s\<lparr>ln_auth := after_receive mm (next_number (dm_auth m) mm) (ln_auth s)\<rparr>))"
    by auto
  from set_ip_answered [OF assms(1,3-6), of ?tid] obtain resp where
    slave: "listener_turn senv (Some f) s = Continue (Some resp, set_ip_served mm sm (Inr ()) hw m s)"
    and "\<exists>h tlvs n t. carries (sv_pnet menv) resp mm sm h tlvs n t"
    using turn by fastforce
  then have "from_others menv target [Some resp]" using assms(2) by (auto simp: carries_def)
  then have "wait_loop menv target SetIpRes ?tid [Some resp] a = (Inl ErrTimeout, a)" for a
    using wait_loop_others [of menv target "[Some resp]" SetIpRes ?tid "[]" a] by simp
  then have "\<exists>m'. set_ip_config menv target ip nm gw (Some True) [Some resp] m = Some (Inl ErrTimeout, [f], m')"
    using f assms(1) by (simp add: set_ip_config_def unicast_request_def next_transaction_id_def
        send_frame_def linked_def wait_for_response_def)
  with slave show ?thesis by blast
qed

lemma valve_configured:
  "configure_hardware valve_env [10, 0, 0, 12] [255, 255, 255, 0] [0, 0, 0, 0] (ln_hardware valve_listener) =
    (Inr (), (ln_hardware valve_listener)\<lparr>dh_device_info :=
      (dh_device_info (ln_hardware valve_listener))\<lparr>di_ip_address := [10, 0, 0, 12],
      di_netmask := [255, 255, 255, 0], di_gateway := [0, 0, 0, 0]\<rparr>\<rparr>)"
  by (simp add: configure_hardware_def valve_env_def dummy_device_access_def dummy_network_access_def
      dummy_read_device_info_def dummy_write_device_info_def dummy_apply_ip_config_def
      split: option.split)

lemma valve_addressed:
  "\<exists>f resp s'. listener_turn valve_env (Some f) valve_listener = Continue (Some resp, s') \<and>
    ln_state s' = PreOp"
  using set_ip_exchange [OF example_linked example_expects(2) _ _ _ _ valve_configured, of "[]" "[]"]
  by fastforce

text \<open>
  C7 Setting an address, end to end: when the slave's response arrives before the timeout, the slave
  has applied the settings to its interface and then to its stored information, and is in \<open>PreOp\<close>
  exactly when both succeeded; a failure is reported to the master as \<open>ErrHardwareAccess\<close>, and the
  slave stays in \<open>DiscoverySync\<close>.
\<close>

theorem set_ip_config_outcome:
  assumes "linked menv senv mm sm m s" and "last_from m sm < next_number (ln_auth s) sm"
    and "from_others menv sm pre"
    and "length ip = 4" and "length nm = 4" and "length gw = 4"
    and "configure_hardware senv ip nm gw (ln_hardware s) = (r, hw)" and "r \<noteq> Inl NoError"
  shows "\<exists>f resp s' m'. listener_turn senv (Some f) s = Continue (Some resp, s') \<and>
    ln_hardware s' = hw \<and> ln_state s' = (if r = Inr () then PreOp else DiscoverySync) \<and>
    set_ip_config menv sm ip nm gw (Some True) (pre @ Some resp # post) m =
      Some (if r = Inr () then Inr () else Inl ErrHardwareAccess, [f], m')"
  using set_ip_exchange [OF assms] by blast

theorem set_ip_config_outcome_witness:
  "\<exists>f resp s' m'. listener_turn valve_env (Some f) valve_listener = Continue (Some resp, s') \<and>
    di_ip_address (dh_device_info (ln_hardware s')) = [10, 0, 0, 12] \<and> ln_state s' = PreOp \<and>
    set_ip_config example_master_env valve_mac [10, 0, 0, 12] [255, 255, 255, 0] [0, 0, 0, 0] (Some True)
      [Some resp] example_master = Some (Inr (), [f], m')"
  using set_ip_config_outcome [OF example_linked example_expects(2) _ _ _ _ valve_configured, of "[]" "[]"]
  by fastforce

text \<open>
  C28 The listener does not look at the destination of a frame: a request to set the address of another
  device, when it reaches a slave as flooded frames do, makes that slave take the address and go to
  \<open>PreOp\<close>, while the master, which waits for the device it addressed, reports a timeout.
\<close>

theorem request_for_another_obeyed:
  assumes "linked menv senv mm sm m s" and "target \<noteq> sm"
    and "length ip = 4" and "length nm = 4" and "length gw = 4"
    and "configure_hardware senv ip nm gw (ln_hardware s) = (Inr (), hw)"
  shows "\<exists>f resp s' m'. listener_turn senv (Some f) s = Continue (Some resp, s') \<and>
    ln_hardware s' = hw \<and> ln_state s' = PreOp \<and>
    set_ip_config menv target ip nm gw (Some True) [Some resp] m = Some (Inl ErrTimeout, [f], m')"
  using set_ip_overheard [OF assms] by fastforce

theorem request_for_another_obeyed_witness:
  "\<exists>f resp s' m'. listener_turn valve_env (Some f) valve_listener = Continue (Some resp, s') \<and>
    di_ip_address (dh_device_info (ln_hardware s')) = [10, 0, 0, 12] \<and> ln_state s' = PreOp \<and>
    set_ip_config example_master_env (MacAddr 2 0 0 0 0 9) [10, 0, 0, 12] [255, 255, 255, 0] [0, 0, 0, 0]
      (Some True) [Some resp] example_master = Some (Inl ErrTimeout, [f], m')"
proof -
  have "MacAddr 2 0 0 0 0 9 \<noteq> valve_mac" by (simp add: valve_mac_def)
  from request_for_another_obeyed [OF example_linked this _ _ _ valve_configured] show ?thesis by fastforce
qed



text \<open>
  C39 The tag covers no address: a response that made the master discover one device, copied into a
  frame with the source of a station it does not know, makes it discover that station as a second
  device with the same identity.
\<close>

theorem copied_response_adds_device:
  assumes "carries (sv_pnet env) f d s h tlvs 1 t" and "carries (sv_pnet env) g d' x h tlvs 1 t"
    and "process_discover_frame env f tid a = (Some device, a')"
    and "x \<noteq> s" and "rx_number a x = None"
  shows "\<exists>a''. process_discover_frame env g tid a' = (Some (device\<lparr>dd_mac_address := x\<rparr>), a'')"
proof (cases rule: process_cases [of env f tid a])
  case (message d2 s2 h2 tlvs2 n2 t2)
  then have [simp]: "s2 = s" "h2 = h" "tlvs2 = tlvs" "n2 = 1" "t2 = t"
    using assms(1) by (auto simp: carries_def)
  have a': "a' = after_receive s 1 a" and dev: "device_of s tlvs = Some device"
    using message assms(3) by simp_all
  have "admitted env a' x h tlvs 1 t"
    using message(4) assms(4,5) by (simp add: admitted_def a' split: option.splits)
  moreover have "device_of x tlvs = Some (device\<lparr>dd_mac_address := x\<rparr>)"
    using dev by (auto simp: device_of_def discovered_device_new_def split: sum.splits)
  ultimately show ?thesis using process_on_message [OF assms(2)] message(2,3) by simp
qed (use assms(3) in simp)

definition example_response :: "mac_addr \<Rightarrow> bytes" where
  "example_response m = sdcp_wire master_mac m (sdcp_header_new DiscoverRes 1)
     (tlv_bytes (tlv_device_info 1 2 3)) 1 (own_tag checksum_hash (sdcp_header_new DiscoverRes 1)
       (tlv_bytes (tlv_device_info 1 2 3)) 1 (discovery_auth_new [7]))"

lemma example_response_carries:
  "carries wire_pnet (example_response m) master_mac m (sdcp_header_new DiscoverRes 1)
     (tlv_bytes (tlv_device_info 1 2 3)) 1 (own_tag checksum_hash (sdcp_header_new DiscoverRes 1)
       (tlv_bytes (tlv_device_info 1 2 3)) 1 (discovery_auth_new [7]))"
  by (simp add: example_response_def sdcp_wire_carries length_own_tag checksum_hash_ok)

theorem copied_response_adds_device_witness:
  "\<exists>a' a''. process_discover_frame example_master_env (example_response valve_mac) 1 (dm_auth example_master) =
      (Some \<lparr>dd_mac_address = valve_mac, dd_vendor_id = 1, dd_device_id = 2, dd_serial_number = 3\<rparr>, a') \<and>
    process_discover_frame example_master_env (example_response (MacAddr 2 0 0 0 0 9)) 1 a' =
      (Some \<lparr>dd_mac_address = MacAddr 2 0 0 0 0 9, dd_vendor_id = 1, dd_device_id = 2,
         dd_serial_number = 3\<rparr>, a'')"
proof -
  have env: "sv_pnet example_master_env = wire_pnet" "sv_hash example_master_env = checksum_hash"
    by (simp_all add: example_master_env_def)
  have auth: "admitted example_master_env (dm_auth example_master) valve_mac (sdcp_header_new DiscoverRes 1)
      (tlv_bytes (tlv_device_info 1 2 3)) 1 (own_tag checksum_hash (sdcp_header_new DiscoverRes 1)
        (tlv_bytes (tlv_device_info 1 2 3)) 1 (discovery_auth_new [7]))"
    using verify_own_tag [of "discovery_auth_new [7]" "dm_auth example_master" checksum_hash]
      example_expects(3) by (simp add: admitted_def env discovery_auth_new_def)
  have p: "process_discover_frame example_master_env (example_response valve_mac) 1 (dm_auth example_master) =
      (Some \<lparr>dd_mac_address = valve_mac, dd_vendor_id = 1, dd_device_id = 2, dd_serial_number = 3\<rparr>,
       after_receive valve_mac 1 (dm_auth example_master))"
    using process_on_message [of example_master_env, unfolded env, OF example_response_carries] auth
    by (simp add: device_of_def tlvc.rd_wr_exact tlv_parse_device_info_build discovered_device_new_def)
  have "\<exists>a''. process_discover_frame example_master_env (example_response (MacAddr 2 0 0 0 0 9)) 1
      (after_receive valve_mac 1 (dm_auth example_master)) =
      (Some (\<lparr>dd_mac_address = valve_mac, dd_vendor_id = 1, dd_device_id = 2, dd_serial_number = 3\<rparr>
        \<lparr>dd_mac_address := MacAddr 2 0 0 0 0 9\<rparr>), a'')"
    by (rule copied_response_adds_device [of example_master_env, unfolded env,
          OF example_response_carries example_response_carries p])
      (simp_all add: valve_mac_def BROADCAST_MAC_def)
  with p show ?thesis by simp
qed

end
