(* ===== verification/Slave_L2.thy ===== *)
theory Slave_L2
  imports L2_Handler Device_Status Slave_Hardware
begin

text \<open>
  \<^verbatim>\<open>src/slave/src/l2_handler.rs\<close>: one turn of the slave's receiver thread and one tick of its
  sender thread, over the stores they share. A turn reads the monotonic clock, the wall clock
  and the network through its arguments. The calls of one turn run one after the other without
  a step of another thread in between; each of them is a critical section of its store.
\<close>

section \<open>State\<close>

record 'p slave_l2 =
  sl_store :: stream_store
  sl_status :: status_store
  sl_image :: 'p

definition slave_code :: "status_code \<Rightarrow> 'p slave_l2 \<Rightarrow> 'p slave_l2" where
  "slave_code code s = s\<lparr>sl_status := update_status_code code (sl_status s)\<rparr>"

text \<open>The state a thread acts on: the one in the status store, \<open>Init\<close> for an unknown number.\<close>

definition slave_state :: "'p slave_l2 \<Rightarrow> device_state" where
  "slave_state s =
     (case state_try_from (ds_state (st_current (sl_status s))) of None \<Rightarrow> Init | Some d \<Rightarrow> d)"

text \<open>The statistics of a direction into the device status, when there is a sample.\<close>

definition slave_report ::
    "(u64 \<Rightarrow> u64 \<Rightarrow> u64 \<Rightarrow> u64 \<Rightarrow> status_store \<Rightarrow> status_store) \<Rightarrow> cycle_metrics \<Rightarrow> u64 \<Rightarrow>
       'p slave_l2 \<Rightarrow> 'p slave_l2" where
  "slave_report update metrics wall s =
     (case metrics_values metrics of
        None \<Rightarrow> s
      | Some (min_ns, max_ns, avg_ns) \<Rightarrow>
          s\<lparr>sl_status := update min_ns max_ns avg_ns wall (sl_status s)\<rparr>)"

section \<open>The receiver\<close>

text \<open>Parsing, stream lookup, authentication and the header's status: the frame is dropped with
  the error in the device status, or goes on.\<close>

definition slave_admit ::
    "keyed_hash \<Rightarrow> (u16 \<rightharpoonup> stream_config) \<Rightarrow> bytes \<Rightarrow> 'p slave_l2 \<Rightarrow>
       (parsed_l2_frame \<times> stream_config) option \<times> 'p slave_l2" where
  "slave_admit H streams frame s =
     (case parse_l2_frame frame of
        Inl ErrInvalidEthertype \<Rightarrow> (None, s)
      | Inl code \<Rightarrow> (None, slave_code ErrFrameParsing s)
      | Inr parsed \<Rightarrow>
          (let stream_id = l2_stream_id (pf_header parsed) in
           case streams stream_id of
             None \<Rightarrow> (None, slave_code ErrStreamIdUnknown s)
           | Some stream \<Rightarrow>
               (let (stream_auth_valid, store) =
                      validate_stream_tag H (pf_header parsed) (pf_payload parsed)
                        (pf_sequence_number parsed) (pf_auth_tag parsed) (sl_store s);
                    s = s\<lparr>sl_store := store\<rparr>
                in case stream_auth_valid of
                     Inl code \<Rightarrow> (None, slave_code code s)
                   | Inr False \<Rightarrow> (None, slave_code ErrAuthFailed s)
                   | Inr True \<Rightarrow>
                       if l2_status (pf_header parsed) \<noteq> status_u8 NoError
                       then (None, slave_code ErrFrameWithErrorStatus s)
                       else (Some (parsed, stream), s))))"

text \<open>Cycle counter, statistics and the process image, for a frame that was admitted.\<close>

definition slave_consume ::
    "'p process_image_access \<Rightarrow> nat \<Rightarrow> u64 \<Rightarrow> parsed_l2_frame \<Rightarrow> stream_config \<Rightarrow>
       rx_state \<times> 'p slave_l2 \<Rightarrow> rx_state \<times> 'p slave_l2" where
  "slave_consume access now wall parsed stream rs =
     (let (rx, s) = rs;
          stream_id = l2_stream_id (pf_header parsed);
          received = l2_cycle_counter (pf_header parsed);
          s = (case rx_missed stream stream_id received rx of
                 None \<Rightarrow> s
               | Some missed \<Rightarrow> slave_code ErrCycleCounter
                   (s\<lparr>sl_status := increment_missed_cycles_by missed wall (sl_status s)\<rparr>));
          rx = rx_counter stream_id received rx;
          (recorded, rx) = rx_observe stream stream_id now rx;
          s = (if recorded then slave_report update_receive_cycle_metrics (rx_metrics rx) wall s else s);
          (r, img) = handle_input_packet access (sl_image s) stream (pf_payload parsed);
          s = s\<lparr>sl_image := img\<rparr>
      in case r of
           Inl code \<Rightarrow> (rx, slave_code code s)
         | Inr _ \<Rightarrow> (rx, s))"

text \<open>
  A turn of the receive loop has two halves: the test of the state, after which the thread pauses, waits
  for a frame (\<open>True\<close>) or ends, and the treatment of what the receiver gives, which is \<open>None\<close> when it
  reports an error. The wait between them has no bound.
\<close>

definition slave_receive_check :: "device_state \<Rightarrow> rx_state \<Rightarrow> (bool \<times> rx_state) turn" where
  "slave_receive_check state rx =
     (let rx = rx_enter state rx
      in if state = SafeOp then Continue (False, rx)
         else if state \<noteq> Op then Stop
         else Continue (True, rx))"

definition slave_frame ::
    "keyed_hash \<Rightarrow> 'p process_image_access \<Rightarrow> (u16 \<rightharpoonup> stream_config) \<Rightarrow> bytes option \<Rightarrow> nat \<Rightarrow> u64 \<Rightarrow>
       rx_state \<times> 'p slave_l2 \<Rightarrow> rx_state \<times> 'p slave_l2" where
  "slave_frame H access streams received now wall rs =
     (let (rx, s) = rs
      in case received of
           None \<Rightarrow> (rx, s)
         | Some frame \<Rightarrow>
             (case slave_admit H streams frame s of
                (None, s') \<Rightarrow> (rx, s')
              | (Some (parsed, stream), s') \<Rightarrow> slave_consume access now wall parsed stream (rx, s')))"

definition slave_receive_turn ::
    "keyed_hash \<Rightarrow> 'p process_image_access \<Rightarrow> (u16 \<rightharpoonup> stream_config) \<Rightarrow> bytes option \<Rightarrow> nat \<Rightarrow> u64 \<Rightarrow>
       rx_state \<times> 'p slave_l2 \<Rightarrow> (rx_state \<times> 'p slave_l2) turn" where
  "slave_receive_turn H access streams received now wall rs =
     (let (rx, s) = rs
      in case slave_receive_check (slave_state s) rx of
           Continue (waits, rx) \<Rightarrow>
             Continue (if waits then slave_frame H access streams received now wall (rx, s) else (rx, s))
         | Stop \<Rightarrow> Stop
         | Panic \<Rightarrow> Panic)"

text \<open>Both halves together, when nothing happens in between.\<close>

lemma slave_receive_turn_eq:
  "slave_receive_turn H access streams received now wall (rx, s) =
     (if slave_state s = SafeOp then Continue (rx_enter SafeOp rx, s)
      else if slave_state s \<noteq> Op then Stop
      else case received of
             None \<Rightarrow> Continue (rx_enter Op rx, s)
           | Some frame \<Rightarrow>
               (case slave_admit H streams frame s of
                  (None, s') \<Rightarrow> Continue (rx_enter Op rx, s')
                | (Some (parsed, stream), s') \<Rightarrow>
                    Continue (slave_consume access now wall parsed stream (rx_enter Op rx, s'))))"
  by (simp add: slave_receive_turn_def slave_receive_check_def slave_frame_def Let_def split: option.split prod.split)

section \<open>The sender\<close>

text \<open>What the treatment of one stream reads: the clock for the due test, the clock again for the
  instant, the microseconds since the epoch, the wall clock, and whether sending failed.\<close>

record send_inputs =
  si_clock :: nat
  si_now :: nat
  si_micros :: nat
  si_wall :: u64
  si_send_failed :: bool

text \<open>One stream of one tick; the frame handed to the transmitter is the first component.\<close>

definition slave_send_stream ::
    "keyed_hash \<Rightarrow> 'p process_image_access \<Rightarrow> mac_addr \<Rightarrow> device_state \<Rightarrow> stream_config \<Rightarrow> send_inputs \<Rightarrow>
       tx_state \<times> 'p slave_l2 \<Rightarrow> (bytes option \<times> tx_state \<times> 'p slave_l2) turn" where
  "slave_send_stream H access source_mac state stream i ts =
     (let (tx, s) = ts in
      if \<not> tx_due stream (si_clock i) tx then Continue (None, tx, s)
      else
        (let (recorded, tx) = tx_observe state stream (si_now i) tx;
             s = (if recorded then slave_report update_send_cycle_metrics (tx_metrics tx) (si_wall i) s
                  else s);
             (result, store) = cyclic_frame H access (sl_image s) source_mac (si_micros i) stream
                                 (sl_store s);
             s = s\<lparr>sl_store := store\<rparr>
         in case result of
              None \<Rightarrow> Panic
            | Some (Inl code) \<Rightarrow> Continue (None, tx, slave_code code s)
            | Some (Inr frame) \<Rightarrow>
                Continue (Some frame, tx,
                  if si_send_failed i then slave_code ErrSocketChannel s else s)))"

text \<open>The loop over the streams of one tick; the frames sent, in order.\<close>

fun slave_send_streams ::
    "keyed_hash \<Rightarrow> 'p process_image_access \<Rightarrow> mac_addr \<Rightarrow> device_state \<Rightarrow>
       (stream_config \<times> send_inputs) list \<Rightarrow> tx_state \<times> 'p slave_l2 \<Rightarrow>
       (bytes list \<times> tx_state \<times> 'p slave_l2) turn" where
  "slave_send_streams H access mac state [] ts = Continue ([], ts)"
| "slave_send_streams H access mac state ((stream, i) # rest) ts =
     (case slave_send_stream H access mac state stream i ts of
        Panic \<Rightarrow> Panic
      | Stop \<Rightarrow> Stop
      | Continue (frame, ts') \<Rightarrow>
          (case slave_send_streams H access mac state rest ts' of
             Continue (frames, ts'') \<Rightarrow> Continue ((case frame of None \<Rightarrow> frames | Some f \<Rightarrow> f # frames), ts'')
           | Stop \<Rightarrow> Stop
           | Panic \<Rightarrow> Panic))"

definition slave_send_tick ::
    "keyed_hash \<Rightarrow> 'p process_image_access \<Rightarrow> mac_addr \<Rightarrow> (stream_config \<times> send_inputs) list \<Rightarrow>
       tx_state \<times> 'p slave_l2 \<Rightarrow> (bytes list \<times> tx_state \<times> 'p slave_l2) turn" where
  "slave_send_tick H access source_mac streams ts =
     (let (tx, s) = ts;
          state = slave_state s;
          tx = tx_enter state tx
      in if state \<noteq> Op \<and> state \<noteq> SafeOp then Stop
         else slave_send_streams H access source_mac state streams (tx, s))"

section \<open>What admission guarantees\<close>

lemma slave_code_simps [simp]:
  "sl_store (slave_code c s) = sl_store s" "sl_image (slave_code c s) = sl_image s"
  by (simp_all add: slave_code_def)

lemma slave_report_simps [simp]:
  "sl_store (slave_report u m w s) = sl_store s" "sl_image (slave_report u m w s) = sl_image s"
  by (simp_all add: slave_report_def split: option.splits prod.splits)

lemma slave_admit_image [simp]: "sl_image (snd (slave_admit H streams frame s)) = sl_image s"
  by (auto simp: slave_admit_def Let_def case_prod_beta
      split: sum.splits status_code.splits option.splits bool.splits)

lemma slave_admit_SomeD:
  assumes "slave_admit H streams frame s = (Some (p, stream), s')"
  shows "parse_l2_frame frame = Inr p \<and> admissible H streams (sl_store s) p stream \<and>
    sl_store s' = snd (validate_stream_tag H (pf_header p) (pf_payload p) (pf_sequence_number p)
      (pf_auth_tag p) (sl_store s)) \<and> sl_status s' = sl_status s"
proof -
  from assms obtain q where q: "parse_l2_frame frame = Inr q"
    by (auto simp: slave_admit_def split: sum.splits status_code.splits)
  define v where "v = validate_stream_tag H (pf_header q) (pf_payload q) (pf_sequence_number q)
      (pf_auth_tag q) (sl_store s)"
  from assms q have "streams (l2_stream_id (pf_header q)) = Some stream" "q = p"
    "fst v = Inr True" "l2_status (pf_header q) = status_u8 NoError"
    "s' = s\<lparr>sl_store := snd v\<rparr>"
    by (auto simp: slave_admit_def Let_def v_def case_prod_beta
        split: option.splits sum.splits bool.splits if_splits)
  then show ?thesis
    using q by (auto simp: admissible_def Let_def v_def validate_true)
qed

lemma slave_admit_admissible:
  assumes "parse_l2_frame frame = Inr p" and "admissible H streams (sl_store s) p stream"
  shows "slave_admit H streams frame s = (Some (p, stream), s\<lparr>sl_store := snd (validate_stream_tag H
      (pf_header p) (pf_payload p) (pf_sequence_number p) (pf_auth_tag p) (sl_store s))\<rparr>)"
proof -
  have "fst (validate_stream_tag H (pf_header p) (pf_payload p) (pf_sequence_number p)
      (pf_auth_tag p) (sl_store s)) = Inr True"
    using assms(2) by (auto simp: validate_true admissible_def Let_def)
  then show ?thesis
    using assms by (simp add: slave_admit_def Let_def case_prod_beta admissible_def)
qed

lemma slave_consume_image:
  "sl_image (snd (slave_consume access now wall p stream (rx, s))) =
     snd (handle_input_packet access (sl_image s) stream (pf_payload p))"
  by (auto simp: slave_consume_def Let_def case_prod_beta split: option.splits sum.splits prod.splits)

lemma slave_consume_store:
  "sl_store (snd (slave_consume access now wall p stream (rx, s))) = sl_store s"
  by (auto simp: slave_consume_def Let_def case_prod_beta split: option.splits sum.splits prod.splits)

text \<open>The turn on a frame that is admissible, in \<open>Op\<close>.\<close>

lemma slave_receive_admissible:
  assumes "slave_state s = Op" and "parse_l2_frame frame = Inr p"
    and "admissible H streams (sl_store s) p stream"
  shows "slave_receive_turn H access streams (Some frame) now wall (rx, s) =
    Continue (slave_consume access now wall p stream (rx_enter Op rx, s\<lparr>sl_store :=
      snd (validate_stream_tag H (pf_header p) (pf_payload p) (pf_sequence_number p)
        (pf_auth_tag p) (sl_store s))\<rparr>))"
  using assms by (simp add: slave_receive_turn_eq slave_admit_admissible [OF assms(2,3)])

text \<open>A valve controller in \<open>Op\<close> with its input stream, and a frame of its master.\<close>

definition valve_position :: position where
  "valve_position = \<lparr>pos_byte_offset = 0, pos_bit_offset = 0, pos_bit_len = 1\<rparr>"

definition valve_stream :: "direction \<Rightarrow> stream_config" where
  "valve_stream d = \<lparr>sc_stream_id = 2, sc_destination_mac = [2, 0, 0, 0, 0, 2], sc_vlan_id_pcp = 100,
     sc_cycle_time_nano = 1000000, sc_direction = direction_num d,
     sc_stream_content = Some valve_position\<rparr>"

definition valve_store :: "direction \<Rightarrow> stream_store" where
  "valve_store d = snd (add_stream_config (valve_stream d) (stream_store_new (replicate 32 7)))"

lemma valve_store_eq: "valve_store d = \<lparr>ss_shared_secret = replicate 32 7,
    ss_streams = [2 \<mapsto> fresh_entry (valve_stream d)]\<rparr>"
  by (simp add: valve_store_def add_stream_config_def insert_stream_config_eq stream_store_new_def
      config_ok_def config_id_def valve_stream_def)

definition valve_slave :: "dummy_hardware slave_l2" where
  "valve_slave = \<lparr>sl_store = valve_store Input, sl_status = update_state Op 0 (status_store_new 0),
     sl_image = new_valve_controller ''eth0'' [2, 0, 0, 0, 0, 2]\<rparr>"

definition valve_header :: l2_header where
  "valve_header = sent_header (valve_stream Output) 0 NoError"

definition valve_frame :: bytes where
  "valve_frame = build_l2_frame (MacAddr 2 0 0 0 0 1) (MacAddr 2 0 0 0 0 2) 100 valve_header [1]
     (sent_footer checksum_hash (valve_store Output) valve_header [1] 1)"

definition valve_streams :: "u16 \<rightharpoonup> stream_config" where
  "valve_streams = stream_map [valve_stream Input]"

lemma valve_slave_op: "slave_state valve_slave = Op"
  by (simp add: slave_state_def valve_slave_def update_state_def status_store_new_def
      initial_status_def publish_def append_log_def Let_def state_try_from_def)

lemma valve_frame_admissible:
  obtains p where "parse_l2_frame valve_frame = Inr p" "pf_payload p = [1]"
    "admissible checksum_hash valve_streams (sl_store valve_slave) p (valve_stream Input)"
proof -
  have id: "l2_stream_id valve_header = 2"
    by (simp add: valve_header_def valve_stream_def)
  have e: "ss_streams (valve_store Input) (l2_stream_id valve_header) = Some (fresh_entry (valve_stream Input))"
    and secret: "ss_shared_secret (valve_store Input) = ss_shared_secret (valve_store Output)"
    by (simp_all add: valve_store_eq id)
  have n: "se_sequence_number (fresh_entry (valve_stream Input)) < 1"
    by (simp add: fresh_entry_def valve_stream_def)
  obtain p where p: "parse_l2_frame valve_frame = Inr p" "pf_header p = valve_header"
    "pf_payload p = [1]"
    "fst (validate_stream_tag checksum_hash (pf_header p) (pf_payload p) (pf_sequence_number p)
       (pf_auth_tag p) (valve_store Input)) = Inr True"
    unfolding valve_frame_def
    by (rule sent_frame_received [where mac = "MacAddr 2 0 0 0 0 1" and
          destination = "MacAddr 2 0 0 0 0 2" and vlan = 100 and payload = "[1]",
          OF checksum_hash_ok secret e n]) auto
  from p(4) have "admissible checksum_hash valve_streams (sl_store valve_slave) p (valve_stream Input)"
    using p(2) id
    by (auto simp: validate_true admissible_def Let_def valve_slave_def valve_streams_def
        stream_map_def valve_stream_def valve_header_def)
  with p that show thesis by blast
qed

lemma valve_frame_handled:
  assumes "sl_store s = sl_store valve_slave" "sl_image s = sl_image valve_slave"
  shows "get_valve_status (sl_image (snd (slave_frame checksum_hash dummy_process_image valve_streams
    (Some valve_frame) now wall (rx, s)))) = Some True"
proof -
  obtain p where p: "parse_l2_frame valve_frame = Inr p" "pf_payload p = [1]"
    "admissible checksum_hash valve_streams (sl_store s) p (valve_stream Input)"
    by (rule valve_frame_admissible [folded assms(1)])
  show ?thesis
    by (simp add: slave_frame_def slave_admit_admissible [OF p(1,3)] slave_consume_image p(2) assms(2)
        handle_input_packet_def valve_stream_def
        valve_position_def valve_slave_def unat_bit_len_to_byte_len dummy_process_image_def
        dummy_write_inputs_def dummy_write_image_def new_valve_controller_def dummy_span_def
        whole_bytes_def write_bit_def saturating_add_def get_valve_status_def Let_def)
qed

lemma valve_frame_written:
  obtains rx s where "slave_receive_turn checksum_hash dummy_process_image valve_streams
      (Some valve_frame) 0 0 (rx_new, valve_slave) = Continue (rx, s)"
    "get_valve_status (sl_image s) = Some True"
proof -
  obtain rx s where frame: "slave_frame checksum_hash dummy_process_image valve_streams (Some valve_frame) 0 0
      (rx_enter Op rx_new, valve_slave) = (rx, s)" by fastforce
  then have "slave_receive_turn checksum_hash dummy_process_image valve_streams
      (Some valve_frame) 0 0 (rx_new, valve_slave) = Continue (rx, s)"
    by (simp add: slave_receive_turn_def slave_receive_check_def valve_slave_op)
  then show thesis
    using that valve_frame_handled [of valve_slave 0 0 "rx_enter Op rx_new"] frame by simp
qed

section \<open>The rate of a stream\<close>

lemma tx_observe_last [simp]:
  "tx_last_sent (snd (tx_observe state stream now tx)) =
     (tx_last_sent tx)(ucast (sc_stream_id stream) \<mapsto> now)"
  by (auto simp: tx_observe_def Let_def split: option.splits)

lemma tx_dueD:
  assumes "tx_due stream clock tx" and "tx_last_sent tx (ucast (sc_stream_id stream)) = Some p"
  shows "unat (max (sc_cycle_time_nano stream) 1) \<le> clock - p"
proof -
  have "unat (of_nat (clock - p) :: u64) \<le> clock - p"
    by (simp only: unat_of_nat) simp
  then show ?thesis
    using assms by (simp add: tx_due_def Let_def word_le_nat_alt)
qed

lemma slave_send_stream_cases:
  assumes "slave_send_stream H access mac state stream i (tx, s) = Continue (fo, tx', s')"
  obtains (skip) "\<not> tx_due stream (si_clock i) tx" "fo = None" "tx' = tx" "s' = s"
    | (send) "tx_due stream (si_clock i) tx"
        "tx_last_sent tx' = (tx_last_sent tx)(ucast (sc_stream_id stream) \<mapsto> si_now i)"
proof (cases "tx_due stream (si_clock i) tx")
  case False
  show thesis
    by (rule skip) (use assms False in \<open>simp_all add: slave_send_stream_def\<close>)
next
  case True
  obtain r t where o: "tx_observe state stream (si_now i) tx = (r, t)" by fastforce
  have "tx' = t"
    using assms True o
    by (auto simp: slave_send_stream_def Let_def case_prod_beta split: option.splits sum.splits)
  with o tx_observe_last [of state stream "si_now i" tx]
  have "tx_last_sent tx' = (tx_last_sent tx)(ucast (sc_stream_id stream) \<mapsto> si_now i)" by simp
  with True show thesis by (rule send)
qed

text \<open>The instants at which the frames of one stream are sent over a list of ticks.\<close>

fun send_times ::
    "keyed_hash \<Rightarrow> 'p process_image_access \<Rightarrow> mac_addr \<Rightarrow> device_state \<Rightarrow> stream_config \<Rightarrow>
       send_inputs list \<Rightarrow> tx_state \<times> 'p slave_l2 \<Rightarrow> nat list" where
  "send_times H access mac state stream [] ts = []"
| "send_times H access mac state stream (i # is) ts =
     (case slave_send_stream H access mac state stream i ts of
        Continue (Some frame, ts') \<Rightarrow> si_now i # send_times H access mac state stream is ts'
      | Continue (None, ts') \<Rightarrow> send_times H access mac state stream is ts'
      | _ \<Rightarrow> [])"

definition readings :: "send_inputs list \<Rightarrow> nat list" where
  "readings is = concat (map (\<lambda>i. [si_clock i, si_now i]) is)"

lemma readings_simps [simp]:
  "readings [] = []" "readings (i # is) = si_clock i # si_now i # readings is"
  by (simp_all add: readings_def)

lemma send_times_gap:
  "sorted (readings is) \<Longrightarrow> (case tx_last_sent tx (ucast (sc_stream_id stream)) of
      None \<Rightarrow> True | Some p \<Rightarrow> \<forall>t \<in> set (readings is). p \<le> t) \<Longrightarrow>
   sorted_wrt (\<lambda>a b. a + unat (max (sc_cycle_time_nano stream) 1) \<le> b)
     (send_times H access mac state stream is (tx, s)) \<and>
   (case tx_last_sent tx (ucast (sc_stream_id stream)) of
      None \<Rightarrow> True
    | Some p \<Rightarrow> \<forall>t \<in> set (send_times H access mac state stream is (tx, s)).
        p + unat (max (sc_cycle_time_nano stream) 1) \<le> t)"
proof (induction "is" arbitrary: tx s)
  case (Cons i js)
  let ?id = "ucast (sc_stream_id stream) :: u16"
  let ?c = "unat (max (sc_cycle_time_nano stream) 1)"
  let ?times = "send_times H access mac state stream"
  show ?case
  proof (cases "slave_send_stream H access mac state stream i (tx, s)")
    case (Continue r)
    obtain fo tx' s' where r: "r = (fo, tx', s')" by (cases r)
    with Continue have step: "slave_send_stream H access mac state stream i (tx, s) = Continue (fo, tx', s')"
      by simp
    from step show ?thesis
    proof (cases rule: slave_send_stream_cases)
      case skip
      with Cons.IH [of tx s] Cons.prems step show ?thesis
        by (cases "tx_last_sent tx ?id") auto
    next
      case send
      have last: "tx_last_sent tx' ?id = Some (si_now i)" using send(2) by simp
      have "sorted (readings js)" "\<forall>t \<in> set (readings js). si_now i \<le> t"
        using Cons.prems(1) by auto
      with Cons.IH [of tx' s'] last
      have IH: "sorted_wrt (\<lambda>a b. a + ?c \<le> b) (?times js (tx', s'))"
        "\<forall>t \<in> set (?times js (tx', s')). si_now i + ?c \<le> t" by auto
      have gap: "p + ?c \<le> si_now i" if "tx_last_sent tx ?id = Some p" for p
      proof -
        from Cons.prems that have "p \<le> si_clock i" "si_clock i \<le> si_now i" by auto
        then show ?thesis using tx_dueD [OF send(1) that] by linarith
      qed
      have all: "sorted_wrt (\<lambda>a b. a + ?c \<le> b) (?times (i # js) (tx, s))"
        using IH step by (simp split: option.splits)
      have "\<forall>t \<in> set (?times (i # js) (tx, s)). p + ?c \<le> t" if p: "tx_last_sent tx ?id = Some p" for p
        using IH(2) gap [OF p] step by (auto split: option.splits)
      with all show ?thesis by (auto split: option.splits)
    qed
  qed (simp_all split: option.splits)
qed (simp split: option.splits)

text \<open>What a frame must be to change the image.\<close>

lemma slave_frame_image:
  assumes "slave_frame H access streams received now wall (rx, s) = (rx', s')"
    and "sl_image s' \<noteq> sl_image s"
  shows "\<exists>frame p stream. received = Some frame \<and> parse_l2_frame frame = Inr p \<and>
     admissible H streams (sl_store s) p stream \<and>
     sl_image s' = snd (handle_input_packet access (sl_image s) stream (pf_payload p))"
proof -
  obtain frame where r: "received = Some frame"
    using assms by (cases received) (auto simp: slave_frame_def)
  obtain adm s1 where a0: "slave_admit H streams frame s = (adm, s1)" by fastforce
  have img: "sl_image s1 = sl_image s" using slave_admit_image [of H streams frame s] a0 by simp
  have "adm \<noteq> None"
    using assms r a0 img by (auto simp: slave_frame_def split: option.splits)
  then obtain p stream where "adm = Some (p, stream)" by auto
  with a0 have a: "slave_admit H streams frame s = (Some (p, stream), s1)" by simp
  have c: "slave_consume access now wall p stream (rx, s1) = (rx', s')"
    using assms(1) r a by (simp add: slave_frame_def)
  show ?thesis
    using r img c slave_admit_SomeD [OF a] slave_consume_image [of access now wall p stream rx s1] by auto
qed

section \<open>Properties\<close>

text \<open>
  C10 Integrity of the slave's process image: a turn of the receiver that nothing interrupts changes
  the image only in state \<open>Op\<close>, and only by handing over the payload of a received frame that parses, belongs to
  a configured input stream, carries a number above the last accepted one and the keyed tag of
  its header, payload and number, and reports no error.
\<close>

theorem slave_image_integrity:
  assumes "slave_receive_turn H access streams received now wall (rx, s) = Continue (rx', s')"
    and "sl_image s' \<noteq> sl_image s"
  shows "slave_state s = Op \<and>
    (\<exists>frame p stream. received = Some frame \<and> parse_l2_frame frame = Inr p \<and>
       admissible H streams (sl_store s) p stream \<and>
       sl_image s' = snd (handle_input_packet access (sl_image s) stream (pf_payload p)))"
proof -
  have op: "slave_state s = Op"
    using assms by (auto simp: slave_receive_turn_eq split: if_splits)
  then have "slave_frame H access streams received now wall (rx_enter Op rx, s) = (rx', s')"
    using assms(1) by (simp add: slave_receive_turn_def slave_receive_check_def)
  with op slave_frame_image [OF this assms(2)] show ?thesis by blast
qed

theorem slave_image_integrity_witness:
  "\<exists>frame p stream. Some valve_frame = Some frame \<and> parse_l2_frame frame = Inr p \<and>
     admissible checksum_hash valve_streams (sl_store valve_slave) p stream"
proof -
  obtain rx s where t: "slave_receive_turn checksum_hash dummy_process_image valve_streams
      (Some valve_frame) 0 0 (rx_new, valve_slave) = Continue (rx, s)"
    and v: "get_valve_status (sl_image s) = Some True"
    by (rule valve_frame_written)
  have "get_valve_status (sl_image valve_slave) = Some False"
    by (simp add: valve_slave_def new_valve_controller_def get_valve_status_def)
  with v have "sl_image s \<noteq> sl_image valve_slave" by auto
  from slave_image_integrity [OF t this] show ?thesis by blast
qed


definition example_readings :: "send_inputs list" where
  "example_readings =
     [\<lparr>si_clock = 10, si_now = 20, si_micros = 0, si_wall = 0, si_send_failed = False\<rparr>,
      \<lparr>si_clock = 500020, si_now = 500030, si_micros = 500, si_wall = 0, si_send_failed = False\<rparr>,
      \<lparr>si_clock = 1000020, si_now = 1000050, si_micros = 1000, si_wall = 1, si_send_failed = False\<rparr>]"


end
