(* ===== verification/Master_L2.thy ===== *)
theory Master_L2
  imports L2_Handler
begin

text \<open>
  \<^verbatim>\<open>src/master/src/l2_handler.rs\<close>: one turn of the master's receiver thread and one tick of its
  sender thread. Errors are only logged here, so the shared state is the stream store and the
  process image; the device state is what the state manager returns when it is asked.
\<close>

section \<open>The receiver\<close>

record 'p master_l2 =
  ml_store :: stream_store
  ml_image :: 'p

record master_rx =
  mr_rx :: rx_state
  mr_missed_cycles_total :: u64

definition master_rx_new :: master_rx where
  "master_rx_new = \<lparr>mr_rx = rx_new, mr_missed_cycles_total = 0\<rparr>"

definition master_admit ::
    "keyed_hash \<Rightarrow> (u16 \<rightharpoonup> stream_config) \<Rightarrow> bytes \<Rightarrow> stream_store \<Rightarrow>
       (parsed_l2_frame \<times> stream_config) option \<times> stream_store" where
  "master_admit H streams frame store =
     (case parse_l2_frame frame of
        Inl code \<Rightarrow> (None, store)
      | Inr parsed \<Rightarrow>
          (let stream_id = l2_stream_id (pf_header parsed) in
           case streams stream_id of
             None \<Rightarrow> (None, store)
           | Some stream \<Rightarrow>
               (case validate_stream_tag H (pf_header parsed) (pf_payload parsed)
                       (pf_sequence_number parsed) (pf_auth_tag parsed) store of
                  (Inr True, store') \<Rightarrow>
                    (if l2_status (pf_header parsed) \<noteq> status_u8 NoError then (None, store')
                     else (Some (parsed, stream), store'))
                | (Inr False, store') \<Rightarrow> (None, store')
                | (Inl code, store') \<Rightarrow> (None, store'))))"

definition master_consume ::
    "'p process_image_access \<Rightarrow> device_state \<Rightarrow> nat \<Rightarrow> parsed_l2_frame \<Rightarrow> stream_config \<Rightarrow>
       master_rx \<times> 'p master_l2 \<Rightarrow> master_rx \<times> 'p master_l2" where
  "master_consume access state now parsed stream rs =
     (let (mr, s) = rs;
          stream_id = l2_stream_id (pf_header parsed);
          received = l2_cycle_counter (pf_header parsed);
          rx = mr_rx mr;
          total = (case rx_missed stream stream_id received rx of
                     None \<Rightarrow> mr_missed_cycles_total mr
                   | Some missed \<Rightarrow> saturating_add (mr_missed_cycles_total mr) (ucast missed));
          rx = rx_counter stream_id received rx;
          rx = (if state = Op then snd (rx_observe stream stream_id now rx) else rx);
          (r, img) = handle_input_packet access (ml_image s) stream (pf_payload parsed)
      in (\<lparr>mr_rx = rx, mr_missed_cycles_total = total\<rparr>, s\<lparr>ml_image := img\<rparr>))"

text \<open>A turn of the receive loop: \<open>None\<close> is the end of the thread.\<close>

definition master_receive_turn ::
    "keyed_hash \<Rightarrow> 'p process_image_access \<Rightarrow> (u16 \<rightharpoonup> stream_config) \<Rightarrow> device_state \<Rightarrow> bytes option \<Rightarrow>
       nat \<Rightarrow> master_rx \<times> 'p master_l2 \<Rightarrow> (master_rx \<times> 'p master_l2) option" where
  "master_receive_turn H access streams state received now rs =
     (let (mr, s) = rs;
          mr = mr\<lparr>mr_rx := rx_enter state (mr_rx mr)\<rparr>
      in if state \<noteq> Op \<and> state \<noteq> SafeOp then None
         else case received of
                None \<Rightarrow> Some (mr, s)
              | Some frame \<Rightarrow>
                  (case master_admit H streams frame (ml_store s) of
                     (None, store) \<Rightarrow> Some (mr, s\<lparr>ml_store := store\<rparr>)
                   | (Some (parsed, stream), store) \<Rightarrow>
                       Some (master_consume access state now parsed stream
                               (mr, s\<lparr>ml_store := store\<rparr>))))"

section \<open>The sender\<close>

text \<open>What the treatment of one stream reads: the device state, the clock for the due test, the
  clock again for the instant, and the microseconds since the epoch. The result of sending is
  only logged.\<close>

record master_send_inputs =
  mi_state :: device_state
  mi_clock :: nat
  mi_now :: nat
  mi_micros :: nat

text \<open>Without an address of its own the sender is not started.\<close>

definition master_source_mac :: "mac_addr option \<Rightarrow> status_code + mac_addr" where
  "master_source_mac interface_mac =
     (case interface_mac of Some mac \<Rightarrow> Inr mac | None \<Rightarrow> Inl ErrSocketChannel)"

text \<open>One stream of a tick: the frame sent, if any; \<open>None\<close> of the whole is a panic.\<close>

definition master_send_stream ::
    "keyed_hash \<Rightarrow> 'p process_image_access \<Rightarrow> mac_addr \<Rightarrow> stream_config \<Rightarrow> master_send_inputs \<Rightarrow>
       tx_state \<times> 'p master_l2 \<Rightarrow> (bytes option \<times> tx_state \<times> 'p master_l2) option" where
  "master_send_stream H access source_mac stream i ts =
     (let (tx, s) = ts in
      if \<not> tx_due stream (mi_clock i) tx then Some (None, tx, s)
      else
        (let (recorded, tx) = tx_observe (mi_state i) stream (mi_now i) tx;
             (result, store) = cyclic_frame H access (ml_image s) source_mac (mi_micros i) stream
                                 (ml_store s);
             s = s\<lparr>ml_store := store\<rparr>
         in case result of
              None \<Rightarrow> None
            | Some (Inl code) \<Rightarrow> Some (None, tx, s)
            | Some (Inr frame) \<Rightarrow> Some (Some frame, tx, s)))"

text \<open>The streams of one tick, left when the device state is asked and no longer operational.\<close>

fun master_send_streams ::
    "keyed_hash \<Rightarrow> 'p process_image_access \<Rightarrow> mac_addr \<Rightarrow> (stream_config \<times> master_send_inputs) list \<Rightarrow>
       tx_state \<times> 'p master_l2 \<Rightarrow> (bytes list \<times> tx_state \<times> 'p master_l2) option" where
  "master_send_streams H access mac [] ts = Some ([], ts)"
| "master_send_streams H access mac ((stream, i) # rest) ts =
     (if mi_state i \<noteq> Op \<and> mi_state i \<noteq> SafeOp then Some ([], ts)
      else case master_send_stream H access mac stream i ts of
             None \<Rightarrow> None
           | Some (frame, ts') \<Rightarrow>
               (case master_send_streams H access mac rest ts' of
                  None \<Rightarrow> None
                | Some (frames, ts'') \<Rightarrow>
                    Some ((case frame of None \<Rightarrow> frames | Some f \<Rightarrow> f # frames), ts'')))"

text \<open>A tick: \<open>Inl ()\<close> is the end of the thread, \<open>state\<close> what the manager returns before the
  interval is awaited.\<close>

definition master_send_tick ::
    "keyed_hash \<Rightarrow> 'p process_image_access \<Rightarrow> mac_addr \<Rightarrow> device_state \<Rightarrow>
       (stream_config \<times> master_send_inputs) list \<Rightarrow> tx_state \<times> 'p master_l2 \<Rightarrow>
       (unit + bytes list \<times> tx_state \<times> 'p master_l2) option" where
  "master_send_tick H access source_mac state streams ts =
     (let (tx, s) = ts;
          tx = tx_enter state tx
      in if state \<noteq> Op \<and> state \<noteq> SafeOp then Some (Inl ())
         else map_option Inr (master_send_streams H access source_mac streams (tx, s)))"

section \<open>Ticks\<close>

text \<open>Streams whose destination has six octets never make the sender panic.\<close>

definition sendable :: "stream_config \<Rightarrow> bool" where
  "sendable stream \<longleftrightarrow> 6 \<le> length (sc_destination_mac stream)"

lemma cyclic_frame_no_panic:
  "sendable stream \<Longrightarrow> fst (cyclic_frame H access img mac micros stream store) \<noteq> None"
  by (simp add: cyclic_frame_def sendable_def parse_destination_mac_def Let_def case_prod_beta
      split: sum.splits prod.splits)

lemma cyclic_frame_unknown:
  assumes "ss_streams store (ucast (sc_stream_id stream)) = None" and "sendable stream"
  shows "cyclic_frame H access img mac micros stream store = (Some (Inl ErrStreamIdUnknown), store)"
  using assms
  by (simp add: cyclic_frame_def generate_stream_tag_def l2_header_new_def sendable_def
      parse_destination_mac_def Let_def case_prod_beta)

lemma master_send_stream_some:
  "sendable stream \<Longrightarrow> master_send_stream H access mac stream i ts \<noteq> None"
  using cyclic_frame_no_panic [of stream H access]
  by (auto simp: master_send_stream_def Let_def case_prod_beta split: option.splits sum.splits)
     (metis option.distinct(1))

lemma master_send_streams_some:
  "\<forall>(stream, i) \<in> set xs. sendable stream \<Longrightarrow> master_send_streams H access mac xs ts \<noteq> None"
proof (induction xs arbitrary: ts)
  case (Cons x xs)
  obtain stream i where x: "x = (stream, i)" by (cases x)
  have "master_send_stream H access mac stream i ts \<noteq> None"
    using Cons.prems x by (intro master_send_stream_some) auto
  then obtain f ts' where "master_send_stream H access mac stream i ts = Some (f, ts')" by fastforce
  with Cons.IH [of ts'] Cons.prems x show ?case by auto
qed simp

section \<open>What admission guarantees\<close>

lemma master_admit_SomeD:
  assumes "master_admit H streams frame store = (Some (p, stream), store')"
  shows "parse_l2_frame frame = Inr p \<and> admissible H streams store p stream \<and>
    store' = snd (validate_stream_tag H (pf_header p) (pf_payload p) (pf_sequence_number p)
      (pf_auth_tag p) store)"
proof -
  from assms obtain q where q: "parse_l2_frame frame = Inr q"
    by (auto simp: master_admit_def split: sum.splits)
  define v where "v = validate_stream_tag H (pf_header q) (pf_payload q) (pf_sequence_number q)
      (pf_auth_tag q) store"
  obtain r w where rw: "v = (r, w)" by (cases v)
  from assms q rw have "streams (l2_stream_id (pf_header q)) = Some stream" "q = p"
    "r = Inr True" "l2_status (pf_header q) = status_u8 NoError" "store' = w"
    by (auto simp: master_admit_def Let_def v_def
        split: option.splits sum.splits bool.splits if_splits)
  moreover from this rw have "fst (validate_stream_tag H (pf_header q) (pf_payload q)
      (pf_sequence_number q) (pf_auth_tag q) store) = Inr True" by (simp add: v_def)
  ultimately show ?thesis
    using q rw by (auto simp: admissible_def Let_def v_def validate_true)
qed

lemma master_admit_admissible:
  assumes "parse_l2_frame frame = Inr p" and "admissible H streams store p stream"
  shows "master_admit H streams frame store = (Some (p, stream), snd (validate_stream_tag H
      (pf_header p) (pf_payload p) (pf_sequence_number p) (pf_auth_tag p) store))"
proof -
  have "fst (validate_stream_tag H (pf_header p) (pf_payload p) (pf_sequence_number p)
      (pf_auth_tag p) store) = Inr True"
    using assms(2) by (auto simp: validate_true admissible_def Let_def)
  then show ?thesis
    using assms by (cases "validate_stream_tag H (pf_header p) (pf_payload p) (pf_sequence_number p)
      (pf_auth_tag p) store") (simp add: master_admit_def Let_def admissible_def)
qed

lemma master_consume_image:
  "ml_image (snd (master_consume access state now p stream (mr, s))) =
     snd (handle_input_packet access (ml_image s) stream (pf_payload p))"
  by (simp add: master_consume_def Let_def case_prod_beta)

lemma master_consume_store:
  "ml_store (snd (master_consume access state now p stream (mr, s))) = ml_store s"
  by (simp add: master_consume_def Let_def case_prod_beta)

lemma master_receive_admissible:
  assumes "state = Op \<or> state = SafeOp" and "parse_l2_frame frame = Inr p"
    and "admissible H streams (ml_store s) p stream"
  shows "master_receive_turn H access streams state (Some frame) now (mr, s) =
    Some (master_consume access state now p stream (mr\<lparr>mr_rx := rx_enter state (mr_rx mr)\<rparr>,
      s\<lparr>ml_store := snd (validate_stream_tag H (pf_header p) (pf_payload p) (pf_sequence_number p)
        (pf_auth_tag p) (ml_store s))\<rparr>))"
  using assms by (auto simp: master_receive_turn_def master_admit_admissible [OF assms(2,3)] Let_def)

lemma master_image_change:
  assumes turn: "master_receive_turn H access streams state received now (mr, s) = Some (mr', s')"
    and diff: "ml_image s' \<noteq> ml_image s"
  obtains frame p stream where "state = Op \<or> state = SafeOp" "received = Some frame"
    "parse_l2_frame frame = Inr p" "admissible H streams (ml_store s) p stream"
    "ml_image s' = snd (handle_input_packet access (ml_image s) stream (pf_payload p))"
proof -
  have op: "state = Op \<or> state = SafeOp"
    using turn by (auto simp: master_receive_turn_def Let_def split: if_splits)
  obtain frame where r: "received = Some frame"
    using turn diff op by (cases received) (auto simp: master_receive_turn_def Let_def)
  obtain adm store where a0: "master_admit H streams frame (ml_store s) = (adm, store)" by fastforce
  have "adm \<noteq> None"
    using turn diff op r a0 by (auto simp: master_receive_turn_def Let_def split: option.splits)
  then obtain p stream where "adm = Some (p, stream)" by auto
  with a0 have a: "master_admit H streams frame (ml_store s) = (Some (p, stream), store)" by simp
  have c: "master_consume access state now p stream (mr\<lparr>mr_rx := rx_enter state (mr_rx mr)\<rparr>,
      s\<lparr>ml_store := store\<rparr>) = (mr', s')"
    using turn op r a by (auto simp: master_receive_turn_def Let_def)
  show thesis
    using that [OF op r] master_admit_SomeD [OF a] c
      master_consume_image [of access state now p stream "mr\<lparr>mr_rx := rx_enter state (mr_rx mr)\<rparr>"
        "s\<lparr>ml_store := store\<rparr>"]
    by auto
qed

end
