(* ===== verification/Demo_Slave.thy ===== *)
theory Demo_Slave
  imports Slave_Api Master_Discovery Slave_L2 Master_L2
begin

text \<open>
  A slave of the demonstration, \<open>run_slave_thread\<close> of \<^verbatim>\<open>src/demo/src/main.rs\<close>: the main loop that
  starts the management service and the cyclic threads as the device's state moves on, together
  with the components it starts. All of them share the state manager, the status store, the
  stream store and the hardware, so one record holds the device, and the components are the steps
  of a transition relation on it. Starting a thread, a server or a socket is a flag or an argument.
\<close>

section \<open>The device\<close>

datatype demo_slave_role = Temperature | Valve

record demo_slave_config =
  dc_role :: demo_slave_role
  dc_interface_name :: string
  dc_mac_address :: bytes
  dc_api_ip :: bytes
  dc_component :: string
  dc_trusted_master_mac :: mac_addr

text \<open>\<open>dv_l2\<close> are the input and output streams the cyclic threads were started with, \<open>dv_rx\<close> and
  \<open>dv_tx\<close> the memories of the receiver and the sender as long as they run; \<open>dv_waiting\<close> says that the
  receiver has found \<open>Op\<close> and waits for a frame.\<close>

record demo_slave =
  dv_api :: "dummy_hardware slave_api"
  dv_auth :: discovery_auth_handler
  dv_running :: bool
  dv_listening :: bool
  dv_server :: bool
  dv_previous_state :: "device_state option"
  dv_l2 :: "(stream_config list \<times> stream_config list) option"
  dv_rx :: "rx_state option"
  dv_tx :: "tx_state option"
  dv_waiting :: bool

definition demo_hardware :: "demo_slave_config \<Rightarrow> dummy_hardware" where
  "demo_hardware config =
     (case dc_role config of
        Temperature \<Rightarrow> new_temperature_sensor (dc_interface_name config) (dc_mac_address config)
      | Valve \<Rightarrow> new_valve_controller (dc_interface_name config) (dc_mac_address config))"

text \<open>What runs before the main loop; \<open>Inl\<close> is the refusal of the state manager.\<close>

definition demo_slave_start :: "bytes \<Rightarrow> u64 \<Rightarrow> demo_slave_config \<Rightarrow> status_code + demo_slave" where
  "demo_slave_start shared_secret wall config =
     (case set_target_state state_manager_new DiscoverySync of
        (Inl code, _) \<Rightarrow> Inl code
      | (Inr _, state) \<Rightarrow> Inr
          \<lparr>dv_api =
             \<lparr>sa_state = state,
              sa_status = update_state DiscoverySync wall (status_store_new wall),
              sa_tokens = token_store_new shared_secret,
              sa_streams = stream_store_new shared_secret,
              sa_hardware = demo_hardware config\<rparr>,
           dv_auth = add_new_device (dc_trusted_master_mac config) (discovery_auth_new shared_secret),
           dv_running = True, dv_listening = True, dv_server = False, dv_previous_state = None,
           dv_l2 = None, dv_rx = None, dv_tx = None, dv_waiting = False\<rparr>)"

section \<open>The main loop\<close>

datatype 'a loop_turn = Next 'a | Leave 'a | Fail status_code

definition demo_publish :: "device_state \<Rightarrow> u64 \<Rightarrow> demo_slave \<Rightarrow> demo_slave" where
  "demo_publish state wall d =
     d\<lparr>dv_api := (dv_api d)\<lparr>sa_status := update_state state wall (sa_status (dv_api d))\<rparr>\<rparr>"

text \<open>A turn of the loop. \<open>started\<close> is what opening the socket of the cyclic handler gives, \<open>ins\<close>
  and \<open>outs\<close> the orders in which the stream store is walked.\<close>

definition demo_loop_turn ::
    "u64 \<Rightarrow> status_code + unit \<Rightarrow> u16 list \<Rightarrow> u16 list \<Rightarrow> demo_slave \<Rightarrow> demo_slave loop_turn" where
  "demo_loop_turn wall started ins outs d =
     (let current_state = sa_state (dv_api d);
          d = d\<lparr>dv_previous_state := Some current_state\<rparr>
      in if current_state = PreOp then
           (if \<not> dv_server d then Next ((demo_publish PreOp wall d)\<lparr>dv_server := True\<rparr>) else Next d)
         else if current_state = SafeOp \<or> current_state = Op then
           (if dv_l2 d = None then
              (case started of
                 Inl code \<Rightarrow> Fail code
               | Inr _ \<Rightarrow> Next (d\<lparr>dv_l2 := Some (get_streams_by_direction ins Input (sa_streams (dv_api d)),
                                               get_streams_by_direction outs Output (sa_streams (dv_api d))),
                                 dv_rx := Some rx_new, dv_tx := Some tx_new\<rparr>))
            else Next d)
         else if current_state = Shutdown then Leave (demo_publish Shutdown wall d)
         else if current_state = Error then Next (demo_publish Error wall d)
         else Next d)"

section \<open>The components at work\<close>

definition listener_of :: "demo_slave \<Rightarrow> dummy_hardware listener" where
  "listener_of d =
     \<lparr>ln_state = sa_state (dv_api d), ln_hardware = sa_hardware (dv_api d), ln_auth = dv_auth d\<rparr>"

definition l2_of :: "demo_slave \<Rightarrow> dummy_hardware slave_l2" where
  "l2_of d =
     \<lparr>sl_store = sa_streams (dv_api d), sl_status = sa_status (dv_api d), sl_image = sa_hardware (dv_api d)\<rparr>"

definition with_listener :: "dummy_hardware listener \<Rightarrow> demo_slave \<Rightarrow> demo_slave" where
  "with_listener l d =
     d\<lparr>dv_api := (dv_api d)\<lparr>sa_state := ln_state l, sa_hardware := ln_hardware l\<rparr>, dv_auth := ln_auth l,
       dv_listening := (ln_state l = DiscoverySync)\<rparr>"

definition with_l2 :: "dummy_hardware slave_l2 \<Rightarrow> demo_slave \<Rightarrow> demo_slave" where
  "with_l2 s d =
     d\<lparr>dv_api := (dv_api d)\<lparr>sa_streams := sl_store s, sa_status := sl_status s, sa_hardware := sl_image s\<rparr>\<rparr>"

text \<open>
  The listener's step runs from the receipt of a message to the test at the head of its loop;
  between the two the thread waits for nothing. The receiver tests the state in one step and treats the
  frame it has waited for in another. The service takes requests once it is started,
  and ends with the main loop, as does the task that simulates the temperature; the valve's task
  only reads. A turn that fails ends the whole device and is no step.
\<close>

inductive demo_step ::
    "dummy_hardware listener_env \<Rightarrow> dummy_hardware api_env \<Rightarrow> (bytes \<Rightarrow> string) \<Rightarrow> keyed_hash \<Rightarrow>
       demo_slave \<Rightarrow> demo_slave \<Rightarrow> bool"
  for lenv env enc H where
  listen: "dv_listening d \<Longrightarrow> listener_turn lenv received (listener_of d) = Continue (sent, l) \<Longrightarrow>
    demo_step lenv env enc H d (with_listener l d)"
| loop: "dv_running d \<Longrightarrow> demo_loop_turn wall started ins outs d = Next d' \<Longrightarrow> demo_step lenv env enc H d d'"
| leave: "dv_running d \<Longrightarrow> demo_loop_turn wall started ins outs d = Leave d' \<Longrightarrow>
    demo_step lenv env enc H d (d'\<lparr>dv_running := False, dv_server := False\<rparr>)"
| api: "dv_server d \<Longrightarrow> api_step env enc e (dv_api d) = (r, s) \<Longrightarrow>
    demo_step lenv env enc H d (d\<lparr>dv_api := s\<rparr>)"
| check: "dv_rx d = Some rx \<Longrightarrow> \<not> dv_waiting d \<Longrightarrow>
    slave_receive_check (slave_state (l2_of d)) rx = Continue (waits, rx') \<Longrightarrow>
    demo_step lenv env enc H d (d\<lparr>dv_rx := Some rx', dv_waiting := waits\<rparr>)"
| receive: "dv_rx d = Some rx \<Longrightarrow> dv_l2 d = Some (inputs, outputs) \<Longrightarrow>
    slave_frame H dummy_process_image (stream_map inputs) received now wall (rx, l2_of d) = (rx', s) \<Longrightarrow>
    dv_waiting d \<Longrightarrow>
    demo_step lenv env enc H d ((with_l2 s d)\<lparr>dv_rx := Some rx', dv_waiting := False\<rparr>)"
| receiver_ends: "dv_rx d = Some rx \<Longrightarrow> \<not> dv_waiting d \<Longrightarrow>
    slave_receive_check (slave_state (l2_of d)) rx = Stop \<Longrightarrow>
    demo_step lenv env enc H d (d\<lparr>dv_rx := None\<rparr>)"
| send: "dv_tx d = Some tx \<Longrightarrow> dv_l2 d = Some (inputs, outputs) \<Longrightarrow> length is = length outputs \<Longrightarrow>
    slave_send_tick H dummy_process_image mac (zip outputs is) (tx, l2_of d) = Continue (frames, tx', s) \<Longrightarrow>
    demo_step lenv env enc H d ((with_l2 s d)\<lparr>dv_tx := Some tx'\<rparr>)"
| sender_ends: "dv_tx d = Some tx \<Longrightarrow> dv_l2 d = Some (inputs, outputs) \<Longrightarrow>
    slave_send_tick H dummy_process_image mac (zip outputs is) (tx, l2_of d) = Stop \<Longrightarrow>
    demo_step lenv env enc H d (d\<lparr>dv_tx := None\<rparr>)"
| wave: "dv_server d \<Longrightarrow> dh_role (sa_hardware (dv_api d)) = TemperatureSensor \<Longrightarrow>
    simulate_sensor_change value (sa_hardware (dv_api d)) = Some h \<Longrightarrow>
    demo_step lenv env enc H d (d\<lparr>dv_api := (dv_api d)\<lparr>sa_hardware := h\<rparr>\<rparr>)"

inductive_cases demo_stepE: "demo_step lenv env enc H d d'"

abbreviation demo_reaches where
  "demo_reaches lenv env enc H \<equiv> (demo_step lenv env enc H)\<^sup>*\<^sup>*"

section \<open>What the cyclic threads keep\<close>

text \<open>What every part of a turn of the receiver does to the station's stores, a turn does; and what
  sending one stream does, a tick does.\<close>

lemma slave_receive_follows:
  assumes refl: "\<And>s. R s s" and trans: "\<And>s s' s''. R s s' \<Longrightarrow> R s' s'' \<Longrightarrow> R s s''"
    and admit: "\<And>f s. R s (snd (slave_admit H streams f s))"
    and consume: "\<And>parsed stream rx s. R s (snd (slave_consume access now wall parsed stream (rx, s)))"
    and turn: "slave_frame H access streams received now wall (rx, s) = (rx', s')"
  shows "R s s'"
proof -
  from turn consider "s' = s"
    | f where "s' = snd (slave_admit H streams f s)"
    | f parsed stream rx1 where
        "slave_consume access now wall parsed stream (rx1, snd (slave_admit H streams f s)) = (rx', s')"
    by (cases received) (auto simp: slave_frame_def case_prod_beta split: option.splits)
  then show ?thesis
  proof cases
    case (3 f parsed stream rx1)
    then have "s' = snd (slave_consume access now wall parsed stream (rx1, snd (slave_admit H streams f s)))"
      by simp
    then show ?thesis using trans [OF admit consume] by simp
  qed (use refl admit in simp_all)
qed

lemma slave_send_streams_follow:
  assumes refl: "\<And>s. R s s" and trans: "\<And>s s' s''. R s s' \<Longrightarrow> R s' s'' \<Longrightarrow> R s s''"
    and one: "\<And>stream i tx s fo tx' s'. slave_send_stream H access mac st stream i (tx, s) = Continue (fo, tx', s') \<Longrightarrow> R s s'"
  shows "slave_send_streams H access mac st xs (tx, s) = Continue (frames, tx', s') \<Longrightarrow> R s s'"
proof (induction xs arbitrary: tx s frames)
  case (Cons x xs)
  obtain stream i where x: "x = (stream, i)" by fastforce
  from Cons.prems obtain fo tx1 s1 frames1 where
    "slave_send_stream H access mac st stream i (tx, s) = Continue (fo, tx1, s1)"
    "slave_send_streams H access mac st xs (tx1, s1) = Continue (frames1, tx', s')"
    by (auto simp: x split: turn.splits)
  with Cons.IH show ?case by (blast intro: trans one)
qed (simp add: refl)

lemma slave_send_follows:
  assumes refl: "\<And>s. R s s" and trans: "\<And>s s' s''. R s s' \<Longrightarrow> R s' s'' \<Longrightarrow> R s s''"
    and one: "\<And>st stream i tx s fo tx' s'. slave_send_stream H access mac st stream i (tx, s) = Continue (fo, tx', s') \<Longrightarrow> R s s'"
    and tick: "slave_send_tick H access mac xs (tx, s) = Continue (frames, tx', s')"
  shows "R s s'"
  using tick slave_send_streams_follow [where R = R, OF refl trans one]
  by (auto simp: slave_send_tick_def Let_def refl split: if_splits)

text \<open>Every destination in the store has six octets.\<close>

definition macs_ok :: "stream_store \<Rightarrow> bool" where
  "macs_ok s \<longleftrightarrow> (\<forall>i e. ss_streams s i = Some e \<longrightarrow> sendable (se_stream_config e))"

text \<open>The threads keep the published state, and the destinations.\<close>

definition l2_keeps :: "dummy_hardware slave_l2 \<Rightarrow> dummy_hardware slave_l2 \<Rightarrow> bool" where
  "l2_keeps s s' \<longleftrightarrow> ds_state (st_current (sl_status s')) = ds_state (st_current (sl_status s)) \<and>
     (macs_ok (sl_store s) \<longrightarrow> macs_ok (sl_store s'))"

lemma l2_keeps_refl [simp]: "l2_keeps s s"
  by (simp add: l2_keeps_def)

lemma l2_keeps_trans: "l2_keeps s s' \<Longrightarrow> l2_keeps s' s'' \<Longrightarrow> l2_keeps s s''"
  by (simp add: l2_keeps_def)

lemma slave_code_state [simp]:
  "ds_state (st_current (sl_status (slave_code code s))) = ds_state (st_current (sl_status s))"
  by (simp add: slave_code_def update_status_code_def publish_def append_log_def Let_def)

lemma slave_report_state [simp]:
  "ds_state (st_current (sl_status (slave_report update_receive_cycle_metrics m wall s))) =
     ds_state (st_current (sl_status s))"
  "ds_state (st_current (sl_status (slave_report update_send_cycle_metrics m wall s))) =
     ds_state (st_current (sl_status s))"
  by (simp_all add: slave_report_def update_receive_cycle_metrics_def update_send_cycle_metrics_def
      split: option.split)

lemma increment_missed_state [simp]:
  "ds_state (st_current (increment_missed_cycles_by n wall s)) = ds_state (st_current s)"
  by (simp add: increment_missed_cycles_by_def publish_def append_log_def Let_def)

lemma validate_stream_tag_macs: "macs_ok s \<Longrightarrow> macs_ok (snd (validate_stream_tag H h p n t s))"
  by (auto simp: validate_stream_tag_def macs_ok_def Let_def split: option.splits if_splits)

lemma cyclic_frame_macs: "macs_ok s \<Longrightarrow> macs_ok (snd (cyclic_frame H access img mac micros stream s))"
  by (auto simp: cyclic_frame_def generate_stream_tag_def macs_ok_def Let_def
      split: option.splits sum.splits if_splits prod.splits)

lemma slave_admit_keeps: "l2_keeps s (snd (slave_admit H streams frame s))"
  by (simp add: l2_keeps_def slave_admit_def Let_def case_prod_beta validate_stream_tag_macs
      split: sum.split option.split bool.split status_code.split)

lemma slave_consume_keeps: "l2_keeps s (snd (slave_consume access now wall parsed stream (rx, s)))"
  by (simp add: l2_keeps_def slave_consume_def Let_def case_prod_beta split: sum.split option.split)

lemma slave_receive_keeps:
  "slave_frame H access streams received now wall (rx, s) = (rx', s') \<Longrightarrow> l2_keeps s s'"
  by (rule slave_receive_follows [where R = l2_keeps, OF l2_keeps_refl l2_keeps_trans slave_admit_keeps slave_consume_keeps])

lemma slave_send_stream_keeps:
  assumes "slave_send_stream H access mac st stream i (tx, s) = Continue (fo, tx', s')"
  shows "l2_keeps s s'"
  using assms cyclic_frame_macs
  by (auto simp: slave_send_stream_def l2_keeps_def Let_def case_prod_beta
      split: if_splits option.splits sum.splits)

lemma slave_send_keeps:
  "slave_send_tick H access mac xs (tx, s) = Continue (frames, tx', s') \<Longrightarrow> l2_keeps s s'"
  by (rule slave_send_follows [where R = l2_keeps, OF l2_keeps_refl l2_keeps_trans slave_send_stream_keeps])

text \<open>With six octets in every destination the sender never panics.\<close>

lemma slave_send_streams_ok:
  "\<forall>(stream, i) \<in> set xs. sendable stream \<Longrightarrow>
   \<exists>frames ts'. slave_send_streams H access mac st xs ts = Continue (frames, ts')"
proof (induction xs arbitrary: ts)
  case (Cons x xs)
  obtain stream i where x: "x = (stream, i)" by fastforce
  with Cons.prems have "sendable stream" by simp
  then have [simp]: "fst (cyclic_frame H access img mac micros stream store) = None \<longleftrightarrow> False" for img micros store
    using cyclic_frame_no_panic [of stream H access img mac micros store] by simp
  have "\<exists>fo ts1. slave_send_stream H access mac st stream i ts = Continue (fo, ts1)"
    by (auto simp: slave_send_stream_def Let_def case_prod_beta split: option.splits sum.splits prod.split)
  then obtain fo ts1 where one: "slave_send_stream H access mac st stream i ts = Continue (fo, ts1)" by blast
  obtain frames ts' where "slave_send_streams H access mac st xs ts1 = Continue (frames, ts')"
    using Cons by fastforce
  with one show ?case by (simp add: x split: prod.split)
qed simp

section \<open>The invariant of the device\<close>

lemma config_map_configs: "config_map cs i = Some e \<Longrightarrow> se_stream_config e \<in> set cs"
proof -
  assume "config_map cs i = Some e"
  then have "(i, e) \<in> set (map (\<lambda>c. (config_id c, fresh_entry c)) cs)"
    unfolding config_map_def by (rule map_of_SomeD)
  then show ?thesis by (auto simp: fresh_entry_def)
qed

lemma get_streams_sendable:
  "macs_ok s \<Longrightarrow> stream \<in> set (get_streams_by_direction order dir s) \<Longrightarrow> sendable stream"
  by (auto simp: get_streams_by_direction_def map_values_def macs_ok_def List.map_filter_def
      split: option.splits)

text \<open>What the service validated has a destination of six octets.\<close>

lemma configure_macs:
  "macs_ok (sa_streams s) \<Longrightarrow> macs_ok (sa_streams (snd (rpc_configure_streams access streams s)))"
  by (auto simp: rpc_configure_streams_eq macs_ok_def sendable_def stream_ok_def
      dest!: config_map_configs split: sum.split)

lemma perform_macs: "macs_ok (sa_streams s) \<Longrightarrow> macs_ok (sa_streams (snd (perform env wall req s)))"
  by (cases req) (auto simp: case_prod_beta configure_macs rpc_set_target_state_def rpc_set_manager_def
      rpc_set_status_def split: sum.split prod.split)

lemma api_step_macs:
  assumes "api_step env enc e s = (r, s')" and "macs_ok (sa_streams s)"
  shows "macs_ok (sa_streams s')"
proof (cases e)
  case (TokenRequest key i)
  with assms show ?thesis
    by (auto simp: rpc_get_token_def issue_token_eq Let_def case_prod_beta split: if_splits)
next
  case (Request now wall token req)
  have "macs_ok (sa_streams (snd (serve env now wall token req s)))"
    using assms(2) by (auto simp: serve_def api_validate_eq case_prod_beta perform_macs split: option.split)
  with assms(1) Request show ?thesis by (auto simp: case_prod_beta)
qed

text \<open>While the listener runs the device is in \<open>DiscoverySync\<close> and the service has not started;
  once it has, the published state is the manager's. No destination is too short.\<close>

definition demo_inv :: "demo_slave \<Rightarrow> bool" where
  "demo_inv d \<longleftrightarrow> (dv_listening d \<longrightarrow> sa_state (dv_api d) = DiscoverySync \<and> \<not> dv_server d) \<and>
     (dv_server d \<longrightarrow> published (dv_api d))"

definition sender_inv :: "demo_slave \<Rightarrow> bool" where
  "sender_inv d \<longleftrightarrow> macs_ok (sa_streams (dv_api d)) \<and>
     (\<forall>ins outs. dv_l2 d = Some (ins, outs) \<longrightarrow> (\<forall>stream \<in> set outs. sendable stream))"

lemma demo_start_inv: "demo_slave_start secret wall config = Inr d \<Longrightarrow> demo_inv d"
  by (auto simp: demo_slave_start_def state_manager_new_def demo_inv_def)

lemma demo_loop_inv:
  assumes "demo_loop_turn wall started ins outs d = t" and "demo_inv d"
  shows "t = Next d' \<Longrightarrow> demo_inv d'" and "t = Leave d' \<Longrightarrow> demo_inv (d'\<lparr>dv_server := False\<rparr>)"
  using assms
  by (auto simp: demo_loop_turn_def demo_publish_def demo_inv_def published_def Let_def
      split: if_splits sum.splits)

lemma sender_loop_inv:
  "demo_loop_turn wall started ins outs d = t \<Longrightarrow> sender_inv d \<Longrightarrow> t = Next d' \<or> t = Leave d' \<Longrightarrow> sender_inv d'"
  by (auto simp: demo_loop_turn_def demo_publish_def sender_inv_def Let_def
      dest: get_streams_sendable split: if_splits sum.splits)

lemma demo_l2_inv:
  "l2_keeps (l2_of d) s \<Longrightarrow> demo_inv d \<Longrightarrow> demo_inv (with_l2 s d)"
  "l2_keeps (l2_of d) s \<Longrightarrow> sender_inv d \<Longrightarrow> sender_inv (with_l2 s d)"
  by (auto simp: l2_keeps_def l2_of_def with_l2_def demo_inv_def sender_inv_def published_def)

lemma demo_step_inv: "demo_step lenv env enc H d d' \<Longrightarrow> demo_inv d \<Longrightarrow> demo_inv d'"
proof (induction rule: demo_step.induct)
  case (listen d received sent l)
  then show ?case by (simp add: demo_inv_def with_listener_def)
next
  case (loop d wall started ins outs d')
  then show ?case by (blast intro: demo_loop_inv(1))
next
  case (leave d wall started ins outs d')
  then have "demo_inv (d'\<lparr>dv_server := False\<rparr>)" by (blast intro: demo_loop_inv(2))
  then show ?case by (simp add: demo_inv_def)
next
  case (api d e r s)
  then have "published s"
    using api_run_published [of "dv_api d" env enc "[e]"] by (simp add: demo_inv_def)
  with api show ?case by (simp add: demo_inv_def)
next
  case (receive d rx inputs outputs received now wall rx' s)
  from demo_l2_inv(1) [OF slave_receive_keeps [OF receive(3)] receive(5)]
  show ?case by (simp add: demo_inv_def)
next
  case (send d tx inputs outputs "is" mac frames tx' s)
  from demo_l2_inv(1) [OF slave_send_keeps [OF send(4)] send(5)]
  show ?case by (simp add: demo_inv_def)
qed (simp_all add: demo_inv_def published_def)

lemma demo_reaches_inv: "demo_reaches lenv env enc H d d' \<Longrightarrow> demo_inv d \<Longrightarrow> demo_inv d'"
  by (induction rule: rtranclp_induct) (auto intro: demo_step_inv)

lemma sender_step_inv: "demo_step lenv env enc H d d' \<Longrightarrow> sender_inv d \<Longrightarrow> sender_inv d'"
proof (induction rule: demo_step.induct)
  case (listen d received sent l)
  then show ?case by (simp add: sender_inv_def with_listener_def)
next
  case (loop d wall started ins outs d')
  then show ?case by (blast intro: sender_loop_inv)
next
  case (leave d wall started ins outs d')
  then have "sender_inv d'" by (blast intro: sender_loop_inv)
  then show ?case by (simp add: sender_inv_def)
next
  case (api d e r s)
  with api_step_macs [OF api(2)] show ?case by (simp add: sender_inv_def)
next
  case (receive d rx inputs outputs received now wall rx' s)
  from demo_l2_inv(2) [OF slave_receive_keeps [OF receive(3)] receive(5)]
  show ?case by (simp add: sender_inv_def)
next
  case (send d tx inputs outputs "is" mac frames tx' s)
  from demo_l2_inv(2) [OF slave_send_keeps [OF send(4)] send(5)]
  show ?case by (simp add: sender_inv_def)
qed (simp_all add: sender_inv_def)

lemma sender_reaches_inv: "demo_reaches lenv env enc H d d' \<Longrightarrow> sender_inv d \<Longrightarrow> sender_inv d'"
  by (induction rule: rtranclp_induct) (auto intro: sender_step_inv)

text \<open>The cyclic threads are started once, and an ended one stays ended.\<close>

lemma demo_step_l2:
  "demo_step lenv env enc H d d' \<Longrightarrow> dv_l2 d \<noteq> None \<Longrightarrow>
   dv_l2 d' = dv_l2 d \<and> (dv_rx d = None \<longrightarrow> dv_rx d' = None) \<and> (dv_tx d = None \<longrightarrow> dv_tx d' = None)"
  by (induction rule: demo_step.induct)
    (auto simp: demo_loop_turn_def demo_publish_def with_listener_def with_l2_def Let_def
      split: if_splits sum.splits)

lemma demo_reaches_l2:
  "demo_reaches lenv env enc H d d' \<Longrightarrow> dv_l2 d \<noteq> None \<Longrightarrow>
   dv_l2 d' = dv_l2 d \<and> (dv_rx d = None \<longrightarrow> dv_rx d' = None) \<and> (dv_tx d = None \<longrightarrow> dv_tx d' = None)"
proof (induction rule: rtranclp_induct)
  case (step d1 d2)
  then show ?case using demo_step_l2 [OF step(2)] by simp
qed simp

section \<open>Properties\<close>

definition valve_config :: demo_slave_config where
  "valve_config = \<lparr>dc_role = Valve, dc_interface_name = ''veth-valve'',
     dc_mac_address = octets valve_mac, dc_api_ip = [10, 10, 0, 12], dc_component = ''slave-valve'',
     dc_trusted_master_mac = master_mac\<rparr>"

definition valve_api_env :: "dummy_hardware api_env" where
  "valve_api_env = \<lparr>env_hash = \<lambda>t. map (\<lambda>c. of_char c) t, env_info = dummy_device_access,
     env_image = dummy_process_image\<rparr>"



text \<open>
  C31 The cyclic threads are started once: after receiver and sender have ended, as they do when a
  master takes the device back to \<open>PreOp\<close>, they never run again, although the device can be
  configured anew and enter \<open>SafeOp\<close> and \<open>Op\<close> again; nor do the started streams ever change.
\<close>

theorem threads_not_restarted:
  assumes "demo_reaches lenv env enc H d d'" and "dv_l2 d \<noteq> None" and "dv_rx d = None" "dv_tx d = None"
  shows "dv_rx d' = None \<and> dv_tx d' = None \<and> dv_l2 d' = dv_l2 d"
  using demo_reaches_l2 [OF assms(1,2)] assms(3,4) by simp

definition returned_device :: demo_slave where
  "returned_device =
     \<lparr>dv_api = \<lparr>sa_state = PreOp, sa_status = update_state PreOp 0 (status_store_new 0),
        sa_tokens = \<lparr>ts_expected_shared_key = [], ts_tokens = [[7] \<mapsto> 100]\<rparr>,
        sa_streams = stream_store_new [], sa_hardware = demo_hardware valve_config\<rparr>,
      dv_auth = discovery_auth_new [], dv_running = True, dv_listening = False, dv_server = True,
      dv_previous_state = Some PreOp, dv_l2 = Some ([], []), dv_rx = None, dv_tx = None, dv_waiting = False\<rparr>"

theorem threads_not_restarted_witness:
  "\<exists>d'. demo_reaches valve_env (valve_api_env\<lparr>env_hash := \<lambda>_. [7]\<rparr>) (\<lambda>_. []) checksum_hash
      returned_device d' \<and> sa_state (dv_api d') = Op \<and> dv_running d' \<and> dv_rx d' = None \<and> dv_tx d' = None"
proof -
  let ?env = "valve_api_env\<lparr>env_hash := \<lambda>_. [7]\<rparr>"
  let ?q = "\<lambda>target. Request 5 0 (Some ''t'') (SetTargetState target)"
  obtain r1 s1 where s1: "api_step ?env (\<lambda>_. []) (?q SafeOp) (dv_api returned_device) = (r1, s1)"
    "sa_state s1 = SafeOp" "ts_tokens (sa_tokens s1) [7] = Some 100"
    by (simp add: returned_device_def serve_def api_validate_eq rpc_set_target_state_def
        rpc_set_manager_def rpc_set_status_def prune_expired_locked_def)
  obtain r2 s2 where s2: "api_step ?env (\<lambda>_. []) (?q Op) s1 = (r2, s2)" "sa_state s2 = Op"
    using s1(2,3) by (simp add: serve_def api_validate_eq rpc_set_target_state_def
        rpc_set_manager_def rpc_set_status_def)
  let ?d1 = "returned_device\<lparr>dv_api := s1\<rparr>" and ?d2 = "returned_device\<lparr>dv_api := s2\<rparr>"
  have "demo_step valve_env ?env (\<lambda>_. []) checksum_hash returned_device ?d1"
    by (rule demo_step.api [OF _ s1(1)]) (simp add: returned_device_def)
  moreover have "demo_step valve_env ?env (\<lambda>_. []) checksum_hash ?d1 ?d2"
    using demo_step.api [of ?d1 ?env "\<lambda>_. []" "?q Op" r2 s2] s2(1) by (simp add: returned_device_def)
  ultimately have reach: "demo_reaches valve_env ?env (\<lambda>_. []) checksum_hash returned_device ?d2"
    by (meson converse_rtranclp_into_rtranclp r_into_rtranclp)
  have "dv_rx ?d2 = None \<and> dv_tx ?d2 = None"
    using threads_not_restarted [OF reach] by (simp add: returned_device_def)
  with reach s2(2) show ?thesis by (auto simp: returned_device_def)
qed

text \<open>
  C30 No configuration makes the sender panic: from any device whose stream store is empty and whose
  cyclic threads have not started, whatever streams clients of the management service configure,
  a tick of the sender over the streams it was started with never panics; the service only lets
  destinations of six octets in, and the frame builder reads no more.
\<close>

theorem sender_never_panics:
  assumes "demo_reaches lenv env enc H d0 d"
    and "ss_streams (sa_streams (dv_api d0)) = Map.empty" "dv_l2 d0 = None"
    and "dv_l2 d = Some (inputs, outputs)"
  shows "slave_send_tick H' dummy_process_image mac (zip outputs is) (tx, l2_of d) \<noteq> Panic"
proof -
  have "sender_inv d0" using assms(2,3) by (simp add: sender_inv_def macs_ok_def)
  from sender_reaches_inv [OF assms(1) this] assms(4)
  have "\<forall>(stream, i) \<in> set (zip outputs is). sendable stream"
    by (auto simp: sender_inv_def dest: set_zip_leftD)
  note ok = slave_send_streams_ok [OF this, of H' dummy_process_image mac]
  have "slave_send_streams H' dummy_process_image mac st (zip outputs is) ts \<noteq> Panic" for st ts
    using ok [of st ts] by auto
  then show ?thesis by (simp add: slave_send_tick_def Let_def)
qed

definition sensor_stream :: stream_config where
  "sensor_stream = \<lparr>sc_stream_id = 1, sc_destination_mac = [2, 0, 0, 0, 0, 1], sc_vlan_id_pcp = 100,
     sc_cycle_time_nano = 1000000, sc_direction = direction_num Output,
     sc_stream_content = Some \<lparr>pos_byte_offset = 0, pos_bit_offset = 0, pos_bit_len = 16\<rparr>\<rparr>"

definition sensor_device :: demo_slave where
  "sensor_device = returned_device
     \<lparr>dv_api := (dv_api returned_device)\<lparr>sa_hardware := new_temperature_sensor ''eth0'' []\<rparr>, dv_l2 := None\<rparr>"

text \<open>The sensor is given its stream and goes to \<open>SafeOp\<close>; its main loop starts the threads.\<close>

lemma sensor_started:
  "\<exists>d inputs. demo_reaches valve_env (valve_api_env\<lparr>env_hash := \<lambda>_. [7]\<rparr>) (\<lambda>_. []) checksum_hash
      sensor_device d \<and> dv_l2 d = Some (inputs, [sensor_stream]) \<and> dv_rx d = Some rx_new \<and> dv_tx d = Some tx_new"
proof -
  let ?env = "valve_api_env\<lparr>env_hash := \<lambda>_. [7]\<rparr>"
  let ?q = "\<lambda>req. Request 5 0 (Some ''t'') req"
  have ok: "stream_ok [process_var ''Temperature'' DtUint16 Output 0 0 16] sensor_stream"
    by (auto simp: stream_ok_def sensor_stream_def process_var_def direction_try_from_def)
  obtain r1 s1 where s1: "api_step ?env (\<lambda>_. []) (?q (ConfigureStreams [sensor_stream]))
      (dv_api sensor_device) = (r1, s1)"
    "sa_state s1 = PreOp" "ts_tokens (sa_tokens s1) [7] = Some 100"
    "ss_streams (sa_streams s1) = config_map [sensor_stream]"
    using ok by (simp add: sensor_device_def returned_device_def serve_def api_validate_eq
        rpc_configure_streams_eq prune_expired_locked_def valve_api_env_def dummy_process_image_def
        dummy_get_layout_def new_temperature_sensor_def)
  obtain r2 s2 where s2: "api_step ?env (\<lambda>_. []) (?q (SetTargetState SafeOp)) s1 = (r2, s2)"
    "sa_state s2 = SafeOp" "sa_streams s2 = sa_streams s1"
    using s1(2,3) by (simp add: serve_def api_validate_eq rpc_set_target_state_def
        rpc_set_manager_def rpc_set_status_def)
  let ?d1 = "sensor_device\<lparr>dv_api := s1\<rparr>" and ?d2 = "sensor_device\<lparr>dv_api := s2\<rparr>"
  have srv: "dv_server sensor_device" "dv_l2 sensor_device = None" "dv_running sensor_device"
    by (simp_all add: sensor_device_def returned_device_def)
  have one: "demo_step valve_env ?env (\<lambda>_. []) checksum_hash sensor_device ?d1"
    by (rule demo_step.api [OF srv(1) s1(1)])
  have two: "demo_step valve_env ?env (\<lambda>_. []) checksum_hash ?d1 ?d2"
    using demo_step.api [of ?d1 ?env "\<lambda>_. []" "?q (SetTargetState SafeOp)" r2 s2] s2(1) srv(1) by simp
  have "get_streams_by_direction [1] Output (sa_streams s2) = [sensor_stream]"
    using s1(4) s2(3) by (simp add: get_streams_by_direction_def map_values_def config_map_def
        List.map_filter_simps fresh_entry_def config_id_def sensor_stream_def)
  then obtain d inputs where d: "demo_loop_turn 0 (Inr ()) [] [1] ?d2 = Next d"
    "dv_l2 d = Some (inputs, [sensor_stream])" "dv_rx d = Some rx_new" "dv_tx d = Some tx_new"
    using s2(2) srv(2) by (simp add: demo_loop_turn_def Let_def)
  have "dv_running ?d2" using srv(3) by simp
  from demo_step.loop [OF this d(1)] one two
  have reach: "demo_reaches valve_env ?env (\<lambda>_. []) checksum_hash sensor_device d"
    by (meson converse_rtranclp_into_rtranclp r_into_rtranclp)
  with d(2-4) show ?thesis by blast
qed

theorem sender_never_panics_witness:
  "\<exists>d inputs outputs. demo_reaches valve_env (valve_api_env\<lparr>env_hash := \<lambda>_. [7]\<rparr>) (\<lambda>_. []) checksum_hash
      sensor_device d \<and> dv_l2 d = Some (inputs, outputs) \<and> outputs = [sensor_stream] \<and>
     slave_send_tick checksum_hash dummy_process_image valve_mac (zip outputs
       [\<lparr>si_clock = 5, si_now = 6, si_micros = 7, si_wall = 0, si_send_failed = False\<rparr>])
       (tx_new, l2_of d) \<noteq> Panic"
proof -
  obtain d inputs where d: "demo_reaches valve_env (valve_api_env\<lparr>env_hash := \<lambda>_. [7]\<rparr>) (\<lambda>_. []) checksum_hash
      sensor_device d" "dv_l2 d = Some (inputs, [sensor_stream])"
    using sensor_started by blast
  have "ss_streams (sa_streams (dv_api sensor_device)) = Map.empty" "dv_l2 sensor_device = None"
    by (simp_all add: sensor_device_def returned_device_def stream_store_new_def)
  from sender_never_panics [OF d(1) this d(2)] d show ?thesis by blast
qed

end
