(* ===== verification/Rust_Text.thy ===== *)
theory Rust_Text
  imports TSN_Prelude "HOL-Library.Char_ord" "HOL-Library.Sublist"
begin

text \<open>
  The operations on text the program takes from Rust's standard library: printing and parsing of
  unsigned numbers, splitting into lines and words, prefixes and trailing commas. A text is the
  list of its characters; the characters of the program's own texts are ASCII, and the whitespace
  is Unicode's below 256.
\<close>

section \<open>Operations\<close>

definition digit_char :: "nat \<Rightarrow> char" where
  "digit_char d = ''0123456789'' ! d"

definition digit_value :: "char \<Rightarrow> nat option" where
  "digit_value c = (if 48 \<le> (of_char c :: nat) \<and> (of_char c :: nat) \<le> 57 then Some (of_char c - 48) else None)"

text \<open>\<open>{}\<close> of an unsigned integer.\<close>

fun dec_text :: "nat \<Rightarrow> string" where
  "dec_text n = (if n < 10 then [digit_char n] else dec_text (n div 10) @ [digit_char (n mod 10)])"

declare dec_text.simps [simp del]

text \<open>\<open>parse\<close> of an unsigned integer: an optional plus sign and at least one digit, no overflow.\<close>

fun digits_value :: "string \<Rightarrow> nat \<Rightarrow> nat option" where
  "digits_value [] n = Some n"
| "digits_value (c # cs) n =
     (case digit_value c of None \<Rightarrow> None | Some d \<Rightarrow> digits_value cs (10 * n + d))"

definition parse_u64 :: "string \<Rightarrow> u64 option" where
  "parse_u64 text =
     (let digits = (case text of c # cs \<Rightarrow> if c = CHR ''+'' then cs else text | [] \<Rightarrow> [])
      in if digits = [] then None
         else case digits_value digits 0 of
                None \<Rightarrow> None
              | Some n \<Rightarrow> if n < 2 ^ 64 then Some (of_nat n) else None)"

definition is_whitespace :: "char \<Rightarrow> bool" where
  "is_whitespace c \<longleftrightarrow> (let n = of_char c :: nat in (9 \<le> n \<and> n \<le> 13) \<or> n = 32 \<or> n = 133 \<or> n = 160)"

fun split_on :: "(char \<Rightarrow> bool) \<Rightarrow> string \<Rightarrow> string list" where
  "split_on sep [] = [[]]"
| "split_on sep (c # cs) =
     (if sep c then [] # split_on sep cs
      else case split_on sep cs of w # ws \<Rightarrow> (c # w) # ws | [] \<Rightarrow> [[c]])"

definition split_whitespace :: "string \<Rightarrow> string list" where
  "split_whitespace text = filter (\<lambda>w. w \<noteq> []) (split_on is_whitespace text)"

text \<open>\<open>lines\<close>: a last line break opens no line, and a carriage return before a break is dropped.\<close>

definition newline :: char where "newline = CHR 0x0A"
definition carriage_return :: char where "carriage_return = CHR 0x0D"

definition strip_cr :: "string \<Rightarrow> string" where
  "strip_cr l = (if l \<noteq> [] \<and> last l = carriage_return then butlast l else l)"

definition lines :: "string \<Rightarrow> string list" where
  "lines text =
     (let ls = split_on (\<lambda>c. c = newline) text
      in map strip_cr (butlast ls) @ (if last ls = [] then [] else [last ls]))"

definition trim_end_matches :: "char \<Rightarrow> string \<Rightarrow> string" where
  "trim_end_matches c text = rev (dropWhile (\<lambda>x. x = c) (rev text))"

fun strip_prefix :: "string \<Rightarrow> string \<Rightarrow> string option" where
  "strip_prefix [] text = Some text"
| "strip_prefix (p # ps) [] = None"
| "strip_prefix (p # ps) (c # cs) = (if p = c then strip_prefix ps cs else None)"

definition contains :: "string \<Rightarrow> string \<Rightarrow> bool" where
  "contains text part \<longleftrightarrow> sublist part text"

text \<open>\<open>join\<close>: the texts with a separator between them.\<close>

fun join_text :: "string \<Rightarrow> string list \<Rightarrow> string" where
  "join_text sep [] = []"
| "join_text sep [t] = t"
| "join_text sep (t # ts) = t @ sep @ join_text sep ts"

text \<open>\<open>find_map\<close> of an iterator.\<close>

fun find_map :: "('a \<Rightarrow> 'b option) \<Rightarrow> 'a list \<Rightarrow> 'b option" where
  "find_map f [] = None"
| "find_map f (x # xs) = (case f x of Some y \<Rightarrow> Some y | None \<Rightarrow> find_map f xs)"

section \<open>Numbers\<close>

definition digits :: "char set" where
  "digits = set ''0123456789''"

lemma less_10_cases: "d < 10 \<Longrightarrow> d \<in> {0, 1, 2, 3, 4, 5, 6, 7, 8, 9 :: nat}"
  by auto

lemma digit_value_char [simp]: "d < 10 \<Longrightarrow> digit_value (digit_char d) = Some d"
  by (drule less_10_cases) (auto simp: digit_value_def digit_char_def)

lemma digit_char_digits [simp]: "d < 10 \<Longrightarrow> digit_char d \<in> digits"
  by (drule less_10_cases) (auto simp: digits_def digit_char_def)

lemma set_dec_text: "set (dec_text n) \<subseteq> digits"
  by (induction n rule: dec_text.induct) (subst dec_text.simps, auto)

lemma dec_text_not_Nil [simp]: "dec_text n \<noteq> []"
  by (subst dec_text.simps) simp

lemma digits_value_append:
  "digits_value (xs @ ys) n = (case digits_value xs n of None \<Rightarrow> None | Some m \<Rightarrow> digits_value ys m)"
  by (induction xs arbitrary: n) (auto split: option.splits)

lemma digits_value_dec_text: "digits_value (dec_text n) 0 = Some n"
  by (induction n rule: dec_text.induct) (subst dec_text.simps, simp add: digits_value_append)

lemma parse_u64_dec_text: "n < 2 ^ 64 \<Longrightarrow> parse_u64 (dec_text n) = Some (of_nat n)"
proof -
  assume n: "n < 2 ^ 64"
  obtain c cs where d: "dec_text n = c # cs" by (cases "dec_text n") simp_all
  then have "c \<in> digits" using set_dec_text [of n] by simp
  then have "c \<noteq> CHR ''+''" by (auto simp: digits_def)
  then show ?thesis
    using n d digits_value_dec_text [of n] by (simp add: parse_u64_def Let_def)
qed

lemma parse_u64_dec_text_word [simp]: "parse_u64 (dec_text (unat w)) = Some w"
  using parse_u64_dec_text [of "unat w"] unat_lt [of w] by simp

section \<open>Words and lines\<close>

lemma split_on_not_Nil [simp]: "split_on sep t \<noteq> []"
  by (induction t) (auto split: list.splits)

lemma split_on_no_sep: "\<forall>c \<in> set t. \<not> sep c \<Longrightarrow> split_on sep t = [t]"
  by (induction t) auto

lemma split_on_append:
  "split_on sep (xs @ ys) =
     butlast (split_on sep xs) @ (last (split_on sep xs) @ hd (split_on sep ys)) # tl (split_on sep ys)"
proof (induction xs)
  case Nil
  show ?case by simp
next
  case (Cons c cs)
  then show ?case by (cases "split_on sep cs") auto
qed

lemma split_on_append_sep:
  "sep c \<Longrightarrow> split_on sep (xs @ c # ys) = split_on sep xs @ split_on sep ys"
  by (simp add: split_on_append append_butlast_last_id)

lemma whitespace_space [simp]: "is_whitespace CHR '' ''"
  by (simp add: is_whitespace_def)

text \<open>A text is split at a space, and a text without whitespace is one word.\<close>

lemma split_whitespace_space:
  "split_whitespace (xs @ CHR '' '' # ys) = split_whitespace xs @ split_whitespace ys"
  by (simp add: split_whitespace_def split_on_append_sep)

lemma split_whitespace_word:
  "\<forall>c \<in> set t. \<not> is_whitespace c \<Longrightarrow> split_whitespace t = (if t = [] then [] else [t])"
  by (simp add: split_whitespace_def split_on_no_sep)

lemma digits_not_whitespace: "c \<in> digits \<Longrightarrow> \<not> is_whitespace c"
  by (auto simp: digits_def is_whitespace_def)

lemma strip_prefix_append [simp]: "strip_prefix p (p @ t) = Some t"
  by (induction p) simp_all

lemma strip_prefix_iff: "strip_prefix p t = Some rest \<longleftrightarrow> t = p @ rest"
  by (induction p t rule: strip_prefix.induct) auto

lemma trim_end_matches_last: "t = [] \<or> last t \<noteq> c \<Longrightarrow> trim_end_matches c t = t"
  by (cases t rule: rev_cases) (simp_all add: trim_end_matches_def)

lemma find_map_append:
  "find_map f (xs @ ys) = (case find_map f xs of Some y \<Rightarrow> Some y | None \<Rightarrow> find_map f ys)"
  by (induction xs) (auto split: option.splits)

text \<open>Joining lines and splitting the text again.\<close>

definition unlines :: "string list \<Rightarrow> string" where
  "unlines ls = concat (map (\<lambda>l. l @ [newline]) ls)"

lemma split_on_unlines:
  "\<forall>l \<in> set ls. newline \<notin> set l \<Longrightarrow> split_on (\<lambda>c. c = newline) (unlines ls) = ls @ [[]]"
proof (induction ls)
  case (Cons l ls)
  have "unlines (l # ls) = l @ newline # unlines ls" by (simp add: unlines_def)
  moreover have "split_on (\<lambda>c. c = newline) l = [l]"
    using Cons.prems by (intro split_on_no_sep) auto
  ultimately show ?case using Cons by (simp add: split_on_append_sep)
qed (simp add: unlines_def)

lemma lines_unlines:
  assumes "\<forall>l \<in> set ls. newline \<notin> set l \<and> carriage_return \<notin> set l"
  shows "lines (unlines ls) = ls"
proof -
  have "strip_cr l = l" if "l \<in> set ls" for l
    using that assms last_in_set [of l] by (metis strip_cr_def)
  then show ?thesis
    using assms by (simp add: lines_def split_on_unlines map_idI)
qed

end
