(* ===== verification/Demo_Network.thy ===== *)
theory Demo_Network
  imports Rust_Text
begin

text \<open>
  \<^verbatim>\<open>src/common/src/demo_runtime.rs\<close>: VLAN tags, netmasks and the network of the demonstration,
  which is set up by running the \<^verbatim>\<open>ip\<close> command. Running a command is a parameter: a function from
  the arguments and the state of the operating system to the error of the start, or the success
  of the command with what it wrote to its error stream, and the new state.
\<close>

section \<open>Running commands\<close>

type_synonym 'o ip_runner = "string list \<Rightarrow> 'o \<Rightarrow> (string + bool \<times> string) \<times> 'o"
type_synonym ('e, 'o) action = "'o \<Rightarrow> ('e + unit) \<times> 'o"

definition trim :: "string \<Rightarrow> string" where
  "trim t = rev (dropWhile is_whitespace (rev (dropWhile is_whitespace t)))"

definition run_ip :: "'o ip_runner \<Rightarrow> string list \<Rightarrow> (string, 'o) action" where
  "run_ip ip arguments os =
     (case ip arguments os of
        (Inl error, os') \<Rightarrow> (Inl (''Failed to run ip command: '' @ error), os')
      | (Inr (success, stderr), os') \<Rightarrow>
          if success then (Inr (), os')
          else (Inl (''ip command failed: ip '' @ join_text '' '' arguments @ '': '' @ trim stderr), os'))"

definition run_ip_allow_fail :: "'o ip_runner \<Rightarrow> string list \<Rightarrow> 'o \<Rightarrow> 'o" where
  "run_ip_allow_fail ip arguments os = snd (ip arguments os)"

text \<open>The \<open>?\<close> operator between two actions, and along a list of them.\<close>

definition and_then :: "('e, 'o) action \<Rightarrow> ('e, 'o) action \<Rightarrow> ('e, 'o) action" where
  "and_then p q os = (case p os of (Inl e, os') \<Rightarrow> (Inl e, os') | (Inr _, os') \<Rightarrow> q os')"

primrec in_order :: "('e, 'o) action list \<Rightarrow> ('e, 'o) action" where
  "in_order [] = (\<lambda>os. (Inr (), os))"
| "in_order (p # ps) = and_then p (in_order ps)"

section \<open>Names\<close>

definition DEFAULT_DEMO_BRIDGE :: string where "DEFAULT_DEMO_BRIDGE = ''tsn-demo-br0''"
definition DEMO_MASTER_INTERFACE :: string where "DEMO_MASTER_INTERFACE = ''tsn-master0''"
definition DEMO_MASTER_BRIDGE_PEER :: string where "DEMO_MASTER_BRIDGE_PEER = ''tsn-master0-br''"
definition DEMO_TEMPERATURE_INTERFACE :: string where "DEMO_TEMPERATURE_INTERFACE = ''tsn-s-temp0''"
definition DEMO_TEMPERATURE_BRIDGE_PEER :: string where
  "DEMO_TEMPERATURE_BRIDGE_PEER = ''tsn-s-temp0-br''"
definition DEMO_VALVE_INTERFACE :: string where "DEMO_VALVE_INTERFACE = ''tsn-s-valve0''"
definition DEMO_VALVE_BRIDGE_PEER :: string where "DEMO_VALVE_BRIDGE_PEER = ''tsn-s-valve0-br''"
definition DEMO_MASTER_IP_CONFIG :: string where "DEMO_MASTER_IP_CONFIG = ''10.10.0.1/24''"

section \<open>VLAN tags\<close>

definition build_vlan_tag :: "u16 \<Rightarrow> u8 \<Rightarrow> u16" where
  "build_vlan_tag vlan_id priority_code_point =
     (let pcp = ucast (priority_code_point AND 0x07) :: u16
      in (push_bit 13 pcp AND 0xE000) OR (vlan_id AND 0x0FFF))"

definition vlan_identifier :: "u16 \<Rightarrow> u16" where
  "vlan_identifier vlan_tag = vlan_tag AND 0x0FFF"

section \<open>Netmasks\<close>

text \<open>One bit of the two nested loops, then an octet from its highest bit, then the mask.\<close>

definition mask_bit :: "bool \<Rightarrow> u8 \<times> bool \<Rightarrow> string + u8 \<times> bool" where
  "mask_bit bit_set s =
     (case s of (prefix_len, hit_zero) \<Rightarrow>
        if bit_set
        then if hit_zero then Inl ''Invalid non-contiguous netmask''
             else Inr (saturating_add prefix_len 1, hit_zero)
        else Inr (prefix_len, True))"

definition octet_bits :: "u8 \<Rightarrow> bool list" where
  "octet_bits octet = map (\<lambda>index. drop_bit index octet AND 1 = 1) [7, 6, 5, 4, 3, 2, 1, 0]"

fun mask_bits_from :: "bool list \<Rightarrow> u8 \<times> bool \<Rightarrow> string + u8 \<times> bool" where
  "mask_bits_from [] s = Inr s"
| "mask_bits_from (b # bs) s =
     (case mask_bit b s of Inl e \<Rightarrow> Inl e | Inr s' \<Rightarrow> mask_bits_from bs s')"

definition netmask_to_prefix_length :: "bytes \<Rightarrow> string + u8" where
  "netmask_to_prefix_length netmask =
     (case mask_bits_from (concat (map octet_bits netmask)) (0, False) of
        Inl e \<Rightarrow> Inl e | Inr (prefix_len, _) \<Rightarrow> Inr prefix_len)"

section \<open>The network\<close>

definition configure_interface_ipv4 :: "'o ip_runner \<Rightarrow> string \<Rightarrow> bytes \<Rightarrow> bytes \<Rightarrow> (string, 'o) action" where
  "configure_interface_ipv4 ip interface_name address netmask os =
     (case netmask_to_prefix_length netmask of
        Inl e \<Rightarrow> (Inl e, os)
      | Inr prefix_len \<Rightarrow>
          (let ip_config = join_text ''.'' (map (\<lambda>octet. dec_text (unat octet)) address) @ ''/'' @
                             dec_text (unat prefix_len)
           in in_order
                [run_ip ip [''addr'', ''flush'', ''dev'', interface_name],
                 run_ip ip [''addr'', ''add'', ip_config, ''dev'', interface_name],
                 run_ip ip [''link'', ''set'', ''dev'', interface_name, ''up'']] os))"

definition create_veth_pair :: "'o ip_runner \<Rightarrow> string \<Rightarrow> string \<Rightarrow> (string, 'o) action" where
  "create_veth_pair ip endpoint bridge_peer =
     in_order
       [run_ip ip [''link'', ''add'', ''name'', endpoint, ''type'', ''veth'', ''peer'', ''name'', bridge_peer],
        run_ip ip [''link'', ''set'', ''dev'', endpoint, ''up''],
        run_ip ip [''link'', ''set'', ''dev'', bridge_peer, ''up'']]"

definition attach_to_bridge :: "'o ip_runner \<Rightarrow> string \<Rightarrow> string \<Rightarrow> (string, 'o) action" where
  "attach_to_bridge ip interface_name bridge_name =
     in_order
       [run_ip ip [''link'', ''set'', ''dev'', interface_name, ''master'', bridge_name],
        run_ip ip [''link'', ''set'', ''dev'', interface_name, ''up'']]"

definition teardown_demo_network :: "'o ip_runner \<Rightarrow> (string, 'o) action" where
  "teardown_demo_network ip os =
     (let os = fold (\<lambda>interface. run_ip_allow_fail ip [''link'', ''del'', ''dev'', interface])
                 [DEMO_MASTER_INTERFACE, DEMO_MASTER_BRIDGE_PEER, DEMO_TEMPERATURE_INTERFACE,
                  DEMO_TEMPERATURE_BRIDGE_PEER, DEMO_VALVE_INTERFACE, DEMO_VALVE_BRIDGE_PEER] os;
          os = run_ip_allow_fail ip [''link'', ''set'', ''dev'', DEFAULT_DEMO_BRIDGE, ''down''] os;
          os = run_ip_allow_fail ip [''link'', ''del'', ''name'', DEFAULT_DEMO_BRIDGE, ''type'', ''bridge''] os
      in (Inr (), os))"

definition setup_demo_network :: "'o ip_runner \<Rightarrow> (string, 'o) action" where
  "setup_demo_network ip os =
     in_order
       [run_ip ip [''link'', ''add'', ''name'', DEFAULT_DEMO_BRIDGE, ''type'', ''bridge''],
        run_ip ip [''link'', ''set'', ''dev'', DEFAULT_DEMO_BRIDGE, ''up''],
        create_veth_pair ip DEMO_MASTER_INTERFACE DEMO_MASTER_BRIDGE_PEER,
        create_veth_pair ip DEMO_TEMPERATURE_INTERFACE DEMO_TEMPERATURE_BRIDGE_PEER,
        create_veth_pair ip DEMO_VALVE_INTERFACE DEMO_VALVE_BRIDGE_PEER,
        attach_to_bridge ip DEMO_MASTER_BRIDGE_PEER DEFAULT_DEMO_BRIDGE,
        attach_to_bridge ip DEMO_TEMPERATURE_BRIDGE_PEER DEFAULT_DEMO_BRIDGE,
        attach_to_bridge ip DEMO_VALVE_BRIDGE_PEER DEFAULT_DEMO_BRIDGE,
        run_ip ip [''addr'', ''flush'', ''dev'', DEMO_MASTER_INTERFACE],
        run_ip ip [''addr'', ''add'', DEMO_MASTER_IP_CONFIG, ''dev'', DEMO_MASTER_INTERFACE],
        run_ip ip [''link'', ''set'', ''dev'', DEMO_MASTER_INTERFACE, ''up'']]
       (snd (teardown_demo_network ip os))"

section \<open>What the commands do\<close>

text \<open>A runner that records the commands and lets some of them fail.\<close>

definition recorder :: "(string list \<Rightarrow> bool) \<Rightarrow> string list list ip_runner" where
  "recorder fails arguments os = (Inr (\<not> fails arguments, []), os @ [arguments])"

definition teardown_commands :: "string list list" where
  "teardown_commands =
     map (\<lambda>interface. [''link'', ''del'', ''dev'', interface])
       [DEMO_MASTER_INTERFACE, DEMO_MASTER_BRIDGE_PEER, DEMO_TEMPERATURE_INTERFACE,
        DEMO_TEMPERATURE_BRIDGE_PEER, DEMO_VALVE_INTERFACE, DEMO_VALVE_BRIDGE_PEER] @
     [[''link'', ''set'', ''dev'', DEFAULT_DEMO_BRIDGE, ''down''],
      [''link'', ''del'', ''name'', DEFAULT_DEMO_BRIDGE, ''type'', ''bridge'']]"

definition veth_commands :: "string \<Rightarrow> string \<Rightarrow> string list list" where
  "veth_commands endpoint peer =
     [[''link'', ''add'', ''name'', endpoint, ''type'', ''veth'', ''peer'', ''name'', peer],
      [''link'', ''set'', ''dev'', endpoint, ''up''], [''link'', ''set'', ''dev'', peer, ''up'']]"

definition attach_commands :: "string \<Rightarrow> string list list" where
  "attach_commands interface =
     [[''link'', ''set'', ''dev'', interface, ''master'', DEFAULT_DEMO_BRIDGE],
      [''link'', ''set'', ''dev'', interface, ''up'']]"

definition setup_commands :: "string list list" where
  "setup_commands =
     [[''link'', ''add'', ''name'', DEFAULT_DEMO_BRIDGE, ''type'', ''bridge''],
      [''link'', ''set'', ''dev'', DEFAULT_DEMO_BRIDGE, ''up'']] @
     veth_commands DEMO_MASTER_INTERFACE DEMO_MASTER_BRIDGE_PEER @
     veth_commands DEMO_TEMPERATURE_INTERFACE DEMO_TEMPERATURE_BRIDGE_PEER @
     veth_commands DEMO_VALVE_INTERFACE DEMO_VALVE_BRIDGE_PEER @
     attach_commands DEMO_MASTER_BRIDGE_PEER @ attach_commands DEMO_TEMPERATURE_BRIDGE_PEER @
     attach_commands DEMO_VALVE_BRIDGE_PEER @
     [[''addr'', ''flush'', ''dev'', DEMO_MASTER_INTERFACE],
      [''addr'', ''add'', DEMO_MASTER_IP_CONFIG, ''dev'', DEMO_MASTER_INTERFACE],
      [''link'', ''set'', ''dev'', DEMO_MASTER_INTERFACE, ''up'']]"

lemma and_then_assoc: "and_then (and_then p q) r = and_then p (and_then q r)"
  by (simp add: fun_eq_iff and_then_def case_prod_beta split: sum.splits)

lemma and_then_ok: "and_then p (\<lambda>os. (Inr (), os)) = p"
  by (auto simp: fun_eq_iff and_then_def split: prod.splits sum.splits)

lemma in_order_append: "in_order (ps @ qs) = and_then (in_order ps) (in_order qs)"
  by (induction ps) (simp_all add: and_then_assoc, simp add: and_then_def fun_eq_iff)

lemma in_order_concat: "in_order (map in_order pss) = in_order (concat pss)"
  by (induction pss) (simp_all add: in_order_append)

text \<open>Setting up is tearing down and then one sequence of commands.\<close>

lemma setup_demo_network_eq:
  "setup_demo_network ip os =
     in_order (map (run_ip ip) setup_commands) (snd (teardown_demo_network ip os))"
  unfolding setup_demo_network_def create_veth_pair_def attach_to_bridge_def setup_commands_def
    veth_commands_def attach_commands_def
  by (simp add: and_then_assoc and_then_ok)

lemma teardown_demo_network_eq:
  "teardown_demo_network ip os = (Inr (), fold (run_ip_allow_fail ip) teardown_commands os)"
  by (simp add: teardown_demo_network_def teardown_commands_def)

lemma fold_recorder: "fold (run_ip_allow_fail (recorder fails)) cmds os = os @ cmds"
  by (induction cmds arbitrary: os) (simp_all add: run_ip_allow_fail_def recorder_def)

lemma run_recorder:
  "in_order (map (run_ip (recorder fails)) cmds) os =
     (if \<exists>c \<in> set cmds. fails c
      then (Inl (''ip command failed: ip '' @ join_text '' '' (hd (dropWhile (\<lambda>c. \<not> fails c) cmds)) @ '': ''),
            os @ takeWhile (\<lambda>c. \<not> fails c) cmds @ [hd (dropWhile (\<lambda>c. \<not> fails c) cmds)])
      else (Inr (), os @ cmds))"
  by (induction cmds arbitrary: os) (simp_all add: and_then_def run_ip_def recorder_def trim_def)

text \<open>Every name a command creates, and every name a command deletes.\<close>

fun created :: "string list \<Rightarrow> string set" where
  "created (a # b # c # n # rest) =
     (if a = ''link'' \<and> b = ''add'' \<and> c = ''name''
      then insert n (case rest of [_, _, _, _, peer] \<Rightarrow> {peer} | _ \<Rightarrow> {}) else {})"
| "created _ = {}"

fun deleted :: "string list \<Rightarrow> string set" where
  "deleted (a # b # _ # n # rest) = (if a = ''link'' \<and> b = ''del'' then {n} else {})"
| "deleted _ = {}"

lemma created_deleted: "\<Union>(created ` set setup_commands) \<subseteq> \<Union>(deleted ` set teardown_commands)"
  by (simp add: setup_commands_def teardown_commands_def veth_commands_def attach_commands_def)

text \<open>Configuring an interface runs nothing when the mask is not contiguous.\<close>

lemma configure_interface_invalid:
  "netmask_to_prefix_length netmask = Inl e \<Longrightarrow>
   configure_interface_ipv4 ip interface address netmask os = (Inl e, os)"
  by (simp add: configure_interface_ipv4_def)

section \<open>Netmasks as words\<close>

lemma octet_bits_eq: "octet_bits b = map (bit b) (rev [0..<8])"
proof -
  have "drop_bit n b AND 1 = 1 \<longleftrightarrow> bit b n" for n :: nat
    by (simp add: and_one_eq bit_iff_odd_drop_bit odd_iff_mod_2_eq_one)
  moreover have "rev [0..<8] = [7, 6, 5, 4, 3, 2, 1, 0 :: nat]" by (simp add: upt_conv_Cons)
  ultimately show ?thesis by (simp only: octet_bits_def)
qed

lemma from_be_bits:
  "8 * length bs \<le> 32 \<Longrightarrow>
   map (bit (from_be bs :: u32)) (rev [0..<8 * length bs]) = concat (map octet_bits bs)"
proof (induction bs rule: rev_induct)
  case (snoc b bs)
  let ?w = "from_be (bs @ [b]) :: u32" and ?n = "8 * length bs"
  have "[0..<8 + ?n] = [0..<8] @ [8..<8 + ?n]"
    by (rule upt_add_eq_append) simp
  also have "[8..<8 + ?n] = map (\<lambda>k. k + 8) [0..<?n]"
    by (simp only: map_add_upt add.commute)
  finally have "[0..<8 + ?n] = [0..<8] @ map (\<lambda>k. k + 8) [0..<?n]" .
  then have "map (bit ?w) (rev [0..<8 * length (bs @ [b])]) =
      map (\<lambda>k. bit ?w (k + 8)) (rev [0..<?n]) @ map (bit ?w) (rev [0..<8])"
    by (simp add: rev_map o_def)
  moreover have "map (\<lambda>k. bit ?w (k + 8)) (rev [0..<?n]) = map (bit (from_be bs :: u32)) (rev [0..<?n])"
  proof (rule map_cong [OF refl])
    fix k assume "k \<in> set (rev [0..<?n])"
    with snoc.prems have "k + 8 < 32" by auto
    moreover have "\<not> bit b (k + 8)" using bit_imp_le_length [of b "k + 8"] by auto
    ultimately show "bit ?w (k + 8) = bit (from_be bs :: u32) k"
      by (simp add: from_be_snoc bit_simps)
  qed
  moreover have "map (bit ?w) (rev [0..<8]) = octet_bits b"
    unfolding octet_bits_eq by (rule map_cong [OF refl]) (auto simp: from_be_snoc bit_simps)
  ultimately show ?case using snoc by simp
qed simp

lemma word_bits_inject: "map (bit v) (rev [0..<32]) = map (bit w) (rev [0..<32]) \<longleftrightarrow> v = w" for v w :: u32
  by (auto simp: bit_eq_iff dest: bit_imp_le_length)

lemma prefix_bits:
  assumes "p \<le> 32"
  shows "map (bit (push_bit (32 - p) (- 1) :: u32)) (rev [0..<32]) = replicate p True @ replicate (32 - p) False"
proof (rule nth_equalityI)
  fix i assume "i < length (map (bit (push_bit (32 - p) (- 1) :: u32)) (rev [0..<32]))"
  then have "i < 32" by simp
  then show "map (bit (push_bit (32 - p) (- 1) :: u32)) (rev [0..<32]) ! i =
      (replicate p True @ replicate (32 - p) False) ! i"
    using assms by (auto simp: rev_nth nth_append bit_simps)
qed (use assms in simp)

lemma mask_bits_after_zero:
  "mask_bits_from bs (n, True) =
     (if True \<in> set bs then Inl ''Invalid non-contiguous netmask'' else Inr (n, True))"
  by (induction bs) (auto simp: mask_bit_def)

text \<open>The loops accept a block of ones followed by a block of zeros, and count the ones.\<close>

lemma mask_bits_from_iff:
  "unat n + length bs < 256 \<Longrightarrow>
   (\<exists>z. mask_bits_from bs (n, False) = Inr (m, z)) \<longleftrightarrow>
   (\<exists>k. unat m = unat n + k \<and> k \<le> length bs \<and> bs = replicate k True @ replicate (length bs - k) False)"
proof (induction bs arbitrary: n)
  case Nil
  show ?case by (auto simp: word_unat_eq_iff)
next
  case (Cons b bs)
  show ?case
  proof (cases b)
    case True
    have "unat (saturating_add n 1) = unat n + 1"
      using Cons.prems by (simp add: unat_saturating_add)
    with Cons.IH [of "saturating_add n 1"] Cons.prems
    have "(\<exists>z. mask_bits_from (b # bs) (n, False) = Inr (m, z)) \<longleftrightarrow>
        (\<exists>k. unat m = unat n + Suc k \<and> k \<le> length bs \<and>
           bs = replicate k True @ replicate (length bs - k) False)"
      using True by (simp add: mask_bit_def)
    also have "\<dots> \<longleftrightarrow> (\<exists>k. unat m = unat n + k \<and> k \<le> length (b # bs) \<and>
        b # bs = replicate k True @ replicate (length (b # bs) - k) False)"
      (is "_ \<longleftrightarrow> (\<exists>k. ?P k)")
    proof -
      have "\<not> ?P 0" using True by auto
      then have "(\<exists>k. ?P k) \<longleftrightarrow> (\<exists>k. ?P (Suc k))" by (metis not0_implies_Suc)
      then show ?thesis using True by simp
    qed
    finally show ?thesis .
  next
    case False
    have "(\<exists>k. unat m = unat n + k \<and> k \<le> length (b # bs) \<and>
        b # bs = replicate k True @ replicate (length (b # bs) - k) False) \<longleftrightarrow>
      unat m = unat n \<and> bs = replicate (length bs) False" (is "(\<exists>k. ?P k) \<longleftrightarrow> _")
    proof -
      have "\<not> ?P (Suc k)" for k using False by simp
      then have "(\<exists>k. ?P k) \<longleftrightarrow> ?P 0" by (metis not0_implies_Suc)
      then show ?thesis using False by simp
    qed
    moreover have "True \<notin> set bs \<longleftrightarrow> bs = replicate (length bs) False"
      by (metis (full_types) in_set_replicate replicate_length_same)
    ultimately show ?thesis
      using False by (auto simp: mask_bit_def mask_bits_after_zero word_unat_eq_iff)
  qed
qed

lemma netmask_prefix_iff:
  assumes "length netmask = 4"
  shows "netmask_to_prefix_length netmask = Inr p \<longleftrightarrow>
    unat p \<le> 32 \<and> from_be netmask = (push_bit (32 - unat p) (- 1) :: u32)"
proof -
  let ?bits = "concat (map octet_bits netmask)"
  have bits: "?bits = map (bit (from_be netmask :: u32)) (rev [0..<32])"
    using from_be_bits [of netmask] assms by simp
  then have len: "length ?bits = 32" by simp
  have "netmask_to_prefix_length netmask = Inr p \<longleftrightarrow> (\<exists>z. mask_bits_from ?bits (0, False) = Inr (p, z))"
    by (auto simp: netmask_to_prefix_length_def split: sum.splits)
  also have "\<dots> \<longleftrightarrow> unat p \<le> 32 \<and> ?bits = replicate (unat p) True @ replicate (32 - unat p) False"
    using mask_bits_from_iff [of 0 ?bits p] len by auto
  also have "\<dots> \<longleftrightarrow> unat p \<le> 32 \<and> from_be netmask = (push_bit (32 - unat p) (- 1) :: u32)"
    unfolding bits by (metis prefix_bits word_bits_inject)
  finally show ?thesis .
qed

section \<open>VLAN tags\<close>

lemma vlan_fields:
  "vlan_identifier (build_vlan_tag v pcp) = v AND 0x0FFF"
  "drop_bit 13 (build_vlan_tag v pcp) = ucast (pcp AND 7)"
proof -
  have lit: "(0xE000 :: u16) = push_bit 13 (mask 3)" "(0x0FFF :: u16) = mask 12" "(7 :: u8) = mask 3"
    by (simp_all add: mask_eq_exp_minus_1)
  show "vlan_identifier (build_vlan_tag v pcp) = v AND 0x0FFF"
    unfolding vlan_identifier_def build_vlan_tag_def Let_def lit
    by (rule bit_word_eqI) (auto simp: bit_simps)
  show "drop_bit 13 (build_vlan_tag v pcp) = ucast (pcp AND 7)"
    unfolding build_vlan_tag_def Let_def lit
    by (rule bit_word_eqI) (auto simp: bit_simps)
qed

section \<open>Properties\<close>

text \<open>
  The netmask check is exact: for the four octets of a mask the loops return the prefix length
  \<open>p\<close> exactly when \<open>p\<close> is at most 32 and the mask is the 32-bit word of \<open>p\<close> ones followed by
  zeros; every other mask is refused, and then an interface is not touched.
\<close>

lemma netmask_prefix:
  assumes "length netmask = 4"
  shows "(\<forall>p. netmask_to_prefix_length netmask = Inr p \<longleftrightarrow>
      unat p \<le> 32 \<and> from_be netmask = (push_bit (32 - unat p) (- 1) :: u32)) \<and>
    ((\<exists>p. p \<le> 32 \<and> from_be netmask = (push_bit (32 - p) (- 1) :: u32)) \<or>
      (\<exists>e. configure_interface_ipv4 ip interface address netmask os = (Inl e, os)))"
proof (intro conjI allI)
  show iff: "netmask_to_prefix_length netmask = Inr p \<longleftrightarrow>
      unat p \<le> 32 \<and> from_be netmask = (push_bit (32 - unat p) (- 1) :: u32)" for p
    by (rule netmask_prefix_iff [OF assms])
  show "(\<exists>p. p \<le> 32 \<and> from_be netmask = (push_bit (32 - p) (- 1) :: u32)) \<or>
      (\<exists>e. configure_interface_ipv4 ip interface address netmask os = (Inl e, os))"
    using iff configure_interface_invalid [of netmask _ ip interface address os]
    by (cases "netmask_to_prefix_length netmask") blast+
qed

lemma netmask_prefix_example:
  "netmask_to_prefix_length [255, 255, 255, 0] = Inr 24 \<and>
   netmask_to_prefix_length [255, 0, 255, 0] \<noteq> Inr 8 \<and>
   (\<exists>e. configure_interface_ipv4 (recorder (\<lambda>_. False)) ''eth0'' [10, 0, 0, 1] [1, 0, 0, 0] [] = (Inl e, []))"
proof -
  have "False" if "p \<le> 32" "from_be [1, 0, 0, 0] = (push_bit (32 - p) (- 1) :: u32)" for p
  proof -
    have "\<not> bit (from_be [1, 0, 0, 0] :: u32) 31" "from_be [1, 0, 0, 0] \<noteq> (0 :: u32)"
      by (simp_all add: from_be_def)
    moreover from this(1) that have "p = 0" by (auto simp: bit_simps)
    moreover have "push_bit 32 (- 1) = (0 :: u32)" by (rule bit_word_eqI) (simp add: bit_simps)
    ultimately show False using that(2) by (metis diff_zero)
  qed
  then have "\<nexists>p. p \<le> 32 \<and> from_be [1, 0, 0, 0] = (push_bit (32 - p) (- 1) :: u32)" by blast
  then have "\<exists>e. configure_interface_ipv4 (recorder (\<lambda>_. False)) ''eth0'' [10, 0, 0, 1] [1, 0, 0, 0] [] = (Inl e, [])"
    using netmask_prefix [of "[1, 0, 0, 0]", where ip = "recorder (\<lambda>_. False)" and interface = "''eth0''"
        and address = "[10, 0, 0, 1]" and os = "[]"] by fastforce
  moreover have "netmask_to_prefix_length [255, 255, 255, 0] = Inr 24"
    using netmask_prefix [THEN conjunct1, THEN spec, of "[255, 255, 255, 0]" 24] by (simp add: from_be_def mask_eq_exp_minus_1)
  moreover have "netmask_to_prefix_length [255, 0, 255, 0] \<noteq> Inr 8"
    using netmask_prefix [THEN conjunct1, THEN spec, of "[255, 0, 255, 0]" 8] by (simp add: from_be_def mask_eq_exp_minus_1)
  ultimately show ?thesis by blast
qed

end
