(* ===== verification/Post_Run.thy ===== *)
theory Post_Run
  imports Rust_Text L2_Utils
begin

text \<open>
  \<^verbatim>\<open>src/demo/src/post_run.rs\<close>: the analysis of the log files after a run of the demonstration,
  with the lines of \<^verbatim>\<open>src/demo/src/logging.rs\<close> and of the cyclic handlers it reads. Reading and
  writing a file is an argument. The performance figures are decimal fractions; the parser and
  the printer of \<open>f64\<close> for them are parameters, the analysis only carries their values over.
\<close>

section \<open>Lines of the log\<close>

text \<open>\<open>{timestamp} [{level}] [{target}] {args}\<close>, without the line break.\<close>

definition log_line :: "nat \<Rightarrow> string \<Rightarrow> string \<Rightarrow> string \<Rightarrow> string" where
  "log_line timestamp level target args =
     dec_text timestamp @ '' ['' @ level @ ''] ['' @ target @ ''] '' @ args"

definition bool_text :: "bool \<Rightarrow> string" where
  "bool_text b = (if b then ''true'' else ''false'')"

text \<open>The final line of a cyclic thread about its cycle or jitter metrics.\<close>

definition metrics_message :: "string \<Rightarrow> string \<Rightarrow> string \<Rightarrow> cycle_metrics \<Rightarrow> string" where
  "metrics_message kind component dir metrics =
     (case metrics_values metrics of
        Some (min_ns, max_ns, avg_ns) \<Rightarrow>
          ''L2 '' @ kind @ '' metrics component='' @ component @ '' direction='' @ dir @
          '' min_ns='' @ dec_text (unat min_ns) @ '' max_ns='' @ dec_text (unat max_ns) @
          '' avg_ns='' @ dec_text (unat avg_ns) @ '' samples='' @ dec_text (unat (cm_samples metrics))
      | None \<Rightarrow>
          ''L2 '' @ kind @ '' metrics component='' @ component @ '' direction='' @ dir @
          '' unavailable=true'')"

definition missed_message :: "string \<Rightarrow> u64 \<Rightarrow> string" where
  "missed_message component n =
     ''L2 missed cycles component='' @ component @ '' total='' @ dec_text (unat n)"

section \<open>Parsing\<close>

record cycle_stats =
  cs_min_ns :: u64
  cs_max_ns :: u64
  cs_avg_ns :: u64

record device_cycles =
  dc_send :: "cycle_stats option"
  dc_receive :: "cycle_stats option"

record master_control_metrics =
  mc_valve_open_close_cycles :: u64
  mc_temperature_wave_iterations :: u64

record 'f system_performance_metrics =
  sp_cpu_max_pct :: 'f
  sp_cpu_avg_pct :: 'f
  sp_ram_max_mib :: 'f
  sp_ram_avg_mib :: 'f

definition field_token :: "string \<Rightarrow> string \<Rightarrow> string option" where
  "field_token key token = strip_prefix key (trim_end_matches CHR '','' token)"

definition parse_numeric_field_u64 :: "string \<Rightarrow> string \<Rightarrow> u64 option" where
  "parse_numeric_field_u64 line field_name =
     (let key = field_name @ ''=''
      in find_map (\<lambda>token. Option.bind (field_token key token) parse_u64) (split_whitespace line))"

definition parse_bool_field :: "string \<Rightarrow> string \<Rightarrow> bool option" where
  "parse_bool_field line field_name =
     (let key = field_name @ ''=''
      in find_map (\<lambda>token. Option.bind (field_token key token)
           (\<lambda>v. if v = ''true'' then Some True else if v = ''false'' then Some False else None))
         (split_whitespace line))"

definition parse_numeric_field_f64 :: "(string \<Rightarrow> 'f option) \<Rightarrow> string \<Rightarrow> string \<Rightarrow> 'f option" where
  "parse_numeric_field_f64 parse_f64 line field_name =
     (let key = field_name @ ''=''
      in find_map (\<lambda>token. Option.bind (field_token key token) parse_f64) (split_whitespace line))"

definition parse_cycle_stats :: "string \<Rightarrow> cycle_stats option" where
  "parse_cycle_stats line =
     do {
       min_ns \<leftarrow> parse_numeric_field_u64 line ''min_ns'';
       max_ns \<leftarrow> parse_numeric_field_u64 line ''max_ns'';
       avg_ns \<leftarrow> parse_numeric_field_u64 line ''avg_ns'';
       Some \<lparr>cs_min_ns = min_ns, cs_max_ns = max_ns, cs_avg_ns = avg_ns\<rparr>
     }"

text \<open>The two parsers that differ in the word they look for.\<close>

definition cycles_line :: "string \<Rightarrow> string \<Rightarrow> device_cycles \<Rightarrow> device_cycles" where
  "cycles_line marker line cycles =
     (if \<not> contains line marker then cycles
      else if contains line ''direction=send'' then cycles\<lparr>dc_send := parse_cycle_stats line\<rparr>
      else if contains line ''direction=receive'' then cycles\<lparr>dc_receive := parse_cycle_stats line\<rparr>
      else cycles)"

definition parse_device_cycles :: "string \<Rightarrow> device_cycles" where
  "parse_device_cycles content =
     fold (cycles_line ''L2 cycle metrics'') (lines content) \<lparr>dc_send = None, dc_receive = None\<rparr>"

definition parse_device_jitter :: "string \<Rightarrow> device_cycles" where
  "parse_device_jitter content =
     fold (cycles_line ''L2 jitter metrics'') (lines content) \<lparr>dc_send = None, dc_receive = None\<rparr>"

definition unwrap_or :: "'a option \<Rightarrow> 'a \<Rightarrow> 'a" where
  "unwrap_or x d = (case x of Some v \<Rightarrow> v | None \<Rightarrow> d)"

definition parse_master_missed_cycles :: "string \<Rightarrow> u64" where
  "parse_master_missed_cycles content =
     fold (\<lambda>line total.
        if contains line ''L2 missed cycles component=master''
        then unwrap_or (parse_numeric_field_u64 line ''total'') total else total) (lines content) 0"

definition parse_slave_missed_cycles :: "string \<Rightarrow> u64 \<times> u64" where
  "parse_slave_missed_cycles master_log =
     fold (\<lambda>line (temperature_missed_cycles, valve_missed_cycles).
        if contains line ''Temperature status update:''
        then (unwrap_or (parse_numeric_field_u64 line ''missed_cycles'') temperature_missed_cycles,
              valve_missed_cycles)
        else if contains line ''Valve status update:''
        then (temperature_missed_cycles,
              unwrap_or (parse_numeric_field_u64 line ''missed_cycles'') valve_missed_cycles)
        else (temperature_missed_cycles, valve_missed_cycles)) (lines master_log) (0, 0)"

datatype temperature_phase = WaitingAtZero | Rising | Falling

record control_scan =
  cn_metrics :: master_control_metrics
  cn_previous_valve_state :: "bool option"
  cn_temperature_phase :: temperature_phase

definition scan_valve :: "bool \<Rightarrow> control_scan \<Rightarrow> control_scan" where
  "scan_valve valve_open s =
     (let m = cn_metrics s;
          m = (if cn_previous_valve_state s = Some True \<and> \<not> valve_open
               then m\<lparr>mc_valve_open_close_cycles := saturating_add (mc_valve_open_close_cycles m) 1\<rparr> else m)
      in s\<lparr>cn_metrics := m, cn_previous_valve_state := Some valve_open\<rparr>)"

definition scan_temperature :: "u64 \<Rightarrow> control_scan \<Rightarrow> control_scan" where
  "scan_temperature temperature s =
     (case cn_temperature_phase s of
        WaitingAtZero \<Rightarrow> if temperature \<le> 5 then s\<lparr>cn_temperature_phase := Rising\<rparr> else s
      | Rising \<Rightarrow> if 145 \<le> temperature then s\<lparr>cn_temperature_phase := Falling\<rparr> else s
      | Falling \<Rightarrow>
          if temperature \<le> 5
          then s\<lparr>cn_metrics := (cn_metrics s)\<lparr>mc_temperature_wave_iterations :=
                    saturating_add (mc_temperature_wave_iterations (cn_metrics s)) 1\<rparr>,
                 cn_temperature_phase := Rising\<rparr>
          else s)"

definition scan_line :: "string \<Rightarrow> control_scan \<Rightarrow> control_scan" where
  "scan_line line s =
     (if \<not> contains line ''Control loop:'' then s
      else
        let s = (case parse_bool_field line ''valve_open'' of
                   Some valve_open \<Rightarrow> scan_valve valve_open s | None \<Rightarrow> s)
        in case parse_numeric_field_u64 line ''temperature'' of
             Some temperature \<Rightarrow> scan_temperature temperature s
           | None \<Rightarrow> s)"

definition scan_start :: control_scan where
  "scan_start =
     \<lparr>cn_metrics = \<lparr>mc_valve_open_close_cycles = 0, mc_temperature_wave_iterations = 0\<rparr>,
      cn_previous_valve_state = None, cn_temperature_phase = WaitingAtZero\<rparr>"

definition parse_control_metrics :: "string \<Rightarrow> master_control_metrics" where
  "parse_control_metrics master_log = cn_metrics (fold scan_line (lines master_log) scan_start)"

text \<open>The figures of the first line that has all four: \<open>None\<close> is \<open>available: false\<close>.\<close>

definition performance_line ::
    "(string \<Rightarrow> 'f option) \<Rightarrow> string \<Rightarrow> 'f system_performance_metrics option" where
  "performance_line parse_f64 line =
     (if \<not> contains line ''System performance:'' then None
      else do {
        cpu_max_pct \<leftarrow> parse_numeric_field_f64 parse_f64 line ''cpu_max_pct'';
        cpu_avg_pct \<leftarrow> parse_numeric_field_f64 parse_f64 line ''cpu_avg_pct'';
        ram_max_mib \<leftarrow> parse_numeric_field_f64 parse_f64 line ''ram_max_mib'';
        ram_avg_mib \<leftarrow> parse_numeric_field_f64 parse_f64 line ''ram_avg_mib'';
        Some \<lparr>sp_cpu_max_pct = cpu_max_pct, sp_cpu_avg_pct = cpu_avg_pct,
              sp_ram_max_mib = ram_max_mib, sp_ram_avg_mib = ram_avg_mib\<rparr>
      })"

definition parse_system_performance_metrics ::
    "(string \<Rightarrow> 'f option) \<Rightarrow> string \<Rightarrow> 'f system_performance_metrics option" where
  "parse_system_performance_metrics parse_f64 master_log =
     find_map (performance_line parse_f64) (lines master_log)"
section \<open>The summary\<close>

text \<open>\<open>{:.3}\<close> of a non-negative \<open>f64\<close>: three decimals, to nearest, ties to even.\<close>

definition fixed3_text :: "real \<Rightarrow> string" where
  "fixed3_text x =
     (let n = nat (round_even (x * 1000))
      in dec_text (n div 1000) @ ''.'' @
         [digit_char (n div 100 mod 10), digit_char (n div 10 mod 10), digit_char (n mod 10)])"

definition ns_to_ms :: "u64 \<Rightarrow> real" where
  "ns_to_ms n = f64_div (f64_round (of_nat (unat n))) 1000000"

definition format_cycle_line :: "string \<Rightarrow> cycle_stats option \<Rightarrow> string" where
  "format_cycle_line label stats =
     (case stats of
        Some stats \<Rightarrow>
          (let min_ms = ns_to_ms (cs_min_ns stats);
               max_ms = ns_to_ms (cs_max_ns stats);
               avg_ms = ns_to_ms (cs_avg_ns stats)
           in ''  '' @ label @ '': min_ms='' @ fixed3_text min_ms @ '' max_ms='' @ fixed3_text max_ms @
              '' avg_ms='' @ fixed3_text avg_ms)
      | None \<Rightarrow> ''  '' @ label @ '': unavailable'')"

definition cycle_section :: "string \<Rightarrow> device_cycles \<Rightarrow> string list" where
  "cycle_section title cycles =
     [title, format_cycle_line ''send'' (dc_send cycles), format_cycle_line ''receive'' (dc_receive cycles), []]"

text \<open>The lines of the summary, from the contents of the three logs.\<close>

definition summary_lines ::
    "(string \<Rightarrow> 'f option) \<Rightarrow> ('f \<Rightarrow> string) \<Rightarrow> string \<Rightarrow> string \<Rightarrow> string \<Rightarrow> string list" where
  "summary_lines parse_f64 f64_text master_content temperature_content valve_content =
     (let (temperature_missed, valve_missed) = parse_slave_missed_cycles master_content;
          control = parse_control_metrics master_content
      in [''TSN Fieldbus Demo Post-Run Summary'',
          ''=================================='',
          ''valve_opened_and_closed_cycles='' @ dec_text (unat (mc_valve_open_close_cycles control)),
          ''temperature_iterations_0_to_150_and_back='' @
            dec_text (unat (mc_temperature_wave_iterations control)),
          []] @
         cycle_section ''master_cycle_times:'' (parse_device_cycles master_content) @
         cycle_section ''temperature_slave_cycle_times:'' (parse_device_cycles temperature_content) @
         cycle_section ''valve_slave_cycle_times:'' (parse_device_cycles valve_content) @
         cycle_section ''master_jitter_times:'' (parse_device_jitter master_content) @
         cycle_section ''temperature_slave_jitter_times:'' (parse_device_jitter temperature_content) @
         cycle_section ''valve_slave_jitter_times:'' (parse_device_jitter valve_content) @
         [''missed_cycles:'',
          ''  master='' @ dec_text (unat (parse_master_missed_cycles master_content)),
          ''  temperature_slave='' @ dec_text (unat temperature_missed),
          ''  valve_slave='' @ dec_text (unat valve_missed),
          [],
          ''system_performance:''] @
         (case parse_system_performance_metrics parse_f64 master_content of
            Some m \<Rightarrow>
              [''  cpu_usage_max_percent='' @ f64_text (sp_cpu_max_pct m),
               ''  cpu_usage_avg_percent='' @ f64_text (sp_cpu_avg_pct m),
               ''  ram_usage_max_mib='' @ f64_text (sp_ram_max_mib m),
               ''  ram_usage_avg_mib='' @ f64_text (sp_ram_avg_mib m)]
          | None \<Rightarrow> [''  unavailable'']))"

record 'o file_system =
  fs_read :: "string \<Rightarrow> 'o \<Rightarrow> string + string"
  fs_write :: "string \<Rightarrow> string \<Rightarrow> 'o \<Rightarrow> (string + unit) \<times> 'o"

definition path_join :: "string \<Rightarrow> string \<Rightarrow> string" where
  "path_join dir file = (if dir = [] \<or> last dir = CHR ''/'' then dir @ file else dir @ ''/'' @ file)"

text \<open>The result, the lines that are logged, and the file system afterwards.\<close>

definition run_post_run_log_analysis ::
    "(string \<Rightarrow> 'f option) \<Rightarrow> ('f \<Rightarrow> string) \<Rightarrow> 'o file_system \<Rightarrow> string \<Rightarrow> 'o \<Rightarrow>
       (string + unit) \<times> string list \<times> 'o" where
  "run_post_run_log_analysis parse_f64 f64_text fs log_directory os =
     (let master_log_path = path_join log_directory ''master.log'';
          temperature_log_path = path_join log_directory ''slave-temperature.log'';
          valve_log_path = path_join log_directory ''slave-valve.log'';
          failed = (\<lambda>path error. (Inl (''Failed to read '' @ path @ '': '' @ error), [], os))
      in case fs_read fs master_log_path os of
           Inl error \<Rightarrow> failed master_log_path error
         | Inr master_content \<Rightarrow>
      (case fs_read fs temperature_log_path os of
           Inl error \<Rightarrow> failed temperature_log_path error
         | Inr temperature_content \<Rightarrow>
      (case fs_read fs valve_log_path os of
           Inl error \<Rightarrow> failed valve_log_path error
         | Inr valve_content \<Rightarrow>
             (let ls = summary_lines parse_f64 f64_text master_content temperature_content valve_content;
                  summary_path = path_join log_directory ''post_run_summary.txt''
              in case fs_write fs summary_path (join_text [newline] ls) os of
                   (Inl error, os') \<Rightarrow> (Inl (''Failed to write '' @ summary_path @ '': '' @ error), [], os')
                 | (Inr _, os') \<Rightarrow> (Inr (), map (\<lambda>line. ''[PostRunAnalyzer] '' @ line) ls, os')))))"

section \<open>Words of a line\<close>

fun unwords :: "string list \<Rightarrow> string" where
  "unwords [] = []"
| "unwords [w] = w"
| "unwords (w # ws) = w @ CHR '' '' # unwords ws"

definition plain :: "string \<Rightarrow> bool" where
  "plain w \<longleftrightarrow> w \<noteq> [] \<and> (\<forall>c \<in> set w. \<not> is_whitespace c)"

lemma plain_dec_text [simp]: "plain (dec_text n)"
  using set_dec_text [of n] by (auto simp: plain_def digits_not_whitespace)

lemma plain_append: "plain u \<Longrightarrow> plain v \<Longrightarrow> plain (u @ v)"
  by (auto simp: plain_def)

lemma plain_field [simp]: "plain key \<Longrightarrow> plain (key @ dec_text n)"
  by (simp add: plain_append)

lemma split_whitespace_unwords: "\<forall>w \<in> set ws. plain w \<Longrightarrow> split_whitespace (unwords ws) = ws"
proof (induction ws rule: unwords.induct)
  case 1
  show ?case by (simp add: split_whitespace_def)
next
  case (2 w)
  then show ?case by (simp add: split_whitespace_word plain_def)
next
  case (3 w v vs)
  then have "split_whitespace w = [w]" by (simp add: split_whitespace_word plain_def)
  with 3 show ?case by (simp add: split_whitespace_space)
qed

lemma unwords_Cons: "ws \<noteq> [] \<Longrightarrow> unwords (w # ws) = w @ CHR '' '' # unwords ws"
  by (cases ws) simp_all

lemma set_unwords: "set (unwords ws) \<subseteq> insert CHR '' '' (\<Union>w \<in> set ws. set w)"
  by (induction ws rule: unwords.induct) auto

lemma log_line_unwords:
  "ws \<noteq> [] \<Longrightarrow> log_line timestamp level target (unwords ws) =
     unwords (dec_text timestamp # (''['' @ level @ '']'') # (''['' @ target @ '']'') # ws)"
  by (simp add: log_line_def unwords_Cons)

lemma contains_append: "contains t part \<Longrightarrow> contains (u @ t @ v) part"
  unfolding contains_def sublist_def by (metis append.assoc)

lemma contains_args: "contains args part \<Longrightarrow> contains (log_line timestamp level target args) part"
  using contains_append [of args part "dec_text timestamp @ '' ['' @ level @ ''] ['' @ target @ ''] ''" "[]"]
  by (simp add: log_line_def)

section \<open>Fields of a line\<close>

lemma set_trim_end_matches: "set (trim_end_matches c t) \<subseteq> set t"
  unfolding trim_end_matches_def by (auto dest: set_dropWhileD)

lemma field_token_absent: "c \<in> set key \<Longrightarrow> c \<notin> set token \<Longrightarrow> field_token key token = None"
  using set_trim_end_matches [of "CHR '',''" token]
  by (cases "field_token key token") (auto simp: field_token_def strip_prefix_iff)

lemma field_token_key:
  "v \<noteq> [] \<Longrightarrow> last v \<noteq> CHR '','' \<Longrightarrow> field_token key (key @ v) = Some v"
  by (simp add: field_token_def trim_end_matches_last)

lemma not_in_digits: "c \<notin> digits \<Longrightarrow> c \<notin> set (dec_text n)"
  using set_dec_text by auto

lemma last_dec_text [simp]: "last (dec_text n) \<noteq> CHR '',''"
proof
  assume "last (dec_text n) = CHR '',''"
  then have "CHR '','' \<in> set (dec_text n)" by (metis last_in_set dec_text_not_Nil)
  then show False using set_dec_text [of n] by (auto simp: digits_def)
qed

lemma field_token_number [simp]: "field_token key (key @ dec_text n) = Some (dec_text n)"
  by (simp add: field_token_key)

lemma field_token_bool [simp]: "field_token key (key @ bool_text b) = Some (bool_text b)"
  by (simp add: field_token_key bool_text_def)

text \<open>What the analysis finds in the words of a line: a number, or a truth value.\<close>

lemma parse_field_words:
  assumes "\<forall>w \<in> set ws. plain w"
  shows "parse_numeric_field_u64 (unwords ws) field =
      find_map (\<lambda>w. Option.bind (field_token (field @ ''='') w) parse_u64) ws"
    and "parse_bool_field (unwords ws) field =
      find_map (\<lambda>w. Option.bind (field_token (field @ ''='') w)
        (\<lambda>v. if v = ''true'' then Some True else if v = ''false'' then Some False else None)) ws"
  using split_whitespace_unwords [OF assms]
  by (simp_all add: parse_numeric_field_u64_def parse_bool_field_def)

text \<open>A word without an equality sign holds no field.\<close>

lemma field_token_no_eq [simp]: "CHR ''='' \<notin> set w \<Longrightarrow> field_token (field @ ''='') w = None"
  by (rule field_token_absent [of "CHR ''=''"]) simp_all

definition dull :: "string \<Rightarrow> bool" where
  "dull w \<longleftrightarrow> plain w \<and> CHR ''='' \<notin> set w"

lemma find_map_dull:
  "\<forall>w \<in> set us. CHR ''='' \<notin> set w \<Longrightarrow>
   find_map (\<lambda>w. Option.bind (field_token (field @ ''='') w) g) (us @ ws) =
   find_map (\<lambda>w. Option.bind (field_token (field @ ''='') w) g) ws"
  by (induction us) simp_all

section \<open>The log of the control loop\<close>

text \<open>The message of \<^verbatim>\<open>src/demo/src/main.rs\<close>.\<close>

definition control_message :: "u16 \<Rightarrow> bool \<Rightarrow> string" where
  "control_message temperature valve_open =
     ''Control loop: temperature='' @ dec_text (unat temperature) @ '' valve_open='' @ bool_text valve_open"

lemma control_message_words:
  "control_message t b = unwords [''Control'', ''loop:'', ''temperature='' @ dec_text (unat t),
     ''valve_open='' @ bool_text b]"
  by (simp add: control_message_def)

datatype loop_entry =
    ControlEntry nat string string u16 bool
  | OtherEntry string

fun entry_text :: "loop_entry \<Rightarrow> string" where
  "entry_text (ControlEntry timestamp level target t b) = log_line timestamp level target (control_message t b)"
| "entry_text (OtherEntry line) = line"

text \<open>Levels and targets are words without an equality sign; other lines do not name the loop.\<close>

fun entry_ok :: "loop_entry \<Rightarrow> bool" where
  "entry_ok (ControlEntry timestamp level target t b) \<longleftrightarrow> dull level \<and> dull target"
| "entry_ok (OtherEntry line) \<longleftrightarrow>
     \<not> contains line ''Control loop:'' \<and> newline \<notin> set line \<and> carriage_return \<notin> set line"

fun control_values :: "loop_entry list \<Rightarrow> (u16 \<times> bool) list" where
  "control_values [] = []"
| "control_values (ControlEntry _ _ _ t b # es) = (t, b) # control_values es"
| "control_values (OtherEntry _ # es) = control_values es"

lemma plain_bool_text [simp]: "plain key \<Longrightarrow> plain (key @ bool_text b)"
  by (auto simp: plain_append bool_text_def plain_def is_whitespace_def)

lemma plain_literals [simp]:
  "plain ''Control''" "plain ''loop:''" "plain ''temperature=''" "plain ''valve_open=''"
  by (simp_all add: plain_def is_whitespace_def)

lemma plain_bracket: "plain w \<Longrightarrow> plain (''['' @ w @ '']'')"
  by (simp add: plain_def is_whitespace_def)

definition log_words :: "nat \<Rightarrow> string \<Rightarrow> string \<Rightarrow> string list" where
  "log_words ts level target = [dec_text ts, ''['' @ level @ '']'', ''['' @ target @ '']'']"

lemma control_line_words:
  "log_line ts level target (control_message t b) =
     unwords ((log_words ts level target @ [''Control'', ''loop:'']) @
       [''temperature='' @ dec_text (unat t), ''valve_open='' @ bool_text b])"
  by (simp add: control_message_def log_line_def log_words_def)

lemma control_words_plain:
  assumes "dull level" "dull target"
  shows "\<forall>w \<in> set ((log_words ts level target @ [''Control'', ''loop:'']) @
    [''temperature='' @ dec_text (unat t), ''valve_open='' @ bool_text b]). plain w"
  using assms by (simp add: dull_def plain_bracket log_words_def del: append.simps)

text \<open>Words hold no line breaks.\<close>

lemma unwords_one_line:
  assumes "\<forall>w \<in> set ws. plain w"
  shows "newline \<notin> set (unwords ws)" and "carriage_return \<notin> set (unwords ws)"
proof -
  have "is_whitespace newline" "is_whitespace carriage_return"
    by (simp_all add: is_whitespace_def newline_def carriage_return_def)
  then show "newline \<notin> set (unwords ws)" "carriage_return \<notin> set (unwords ws)"
    using assms set_unwords [of ws] by (auto simp: plain_def newline_def carriage_return_def)
qed

lemma control_line_fields:
  assumes "dull level" "dull target"
  shows "parse_numeric_field_u64 (log_line ts level target (control_message t b)) ''temperature'' =
      Some (ucast t)"
    and "parse_bool_field (log_line ts level target (control_message t b)) ''valve_open'' = Some b"
    and "contains (log_line ts level target (control_message t b)) ''Control loop:''"
proof -
  let ?us = "log_words ts level target @ [''Control'', ''loop:'']"
  let ?t = "''temperature='' @ dec_text (unat t)" and ?b = "''valve_open='' @ bool_text b"
  note line = control_line_words [of ts level target t b] and pl = control_words_plain [OF assms, of ts t b]
  have dull: "\<forall>w \<in> set ?us. CHR ''='' \<notin> set w"
    using assms not_in_digits [of "CHR ''=''"] by (auto simp: dull_def digits_def log_words_def)
  have "CHR ''v'' \<notin> set ?t" using not_in_digits [of "CHR ''v''"] by (auto simp: digits_def)
  then have none: "field_token (''valve_open'' @ ''='') ?t = None"
    by (intro field_token_absent [of "CHR ''v''"]) simp_all
  have "field_token (''temperature'' @ ''='') ?t = Some (dec_text (unat t))"
    using field_token_number [of "''temperature=''" "unat t"] by simp
  moreover have "parse_u64 (dec_text (unat t)) = Some (ucast t)"
    using parse_u64_dec_text_word [of "ucast t :: u64"] by simp
  ultimately show "parse_numeric_field_u64 (log_line ts level target (control_message t b)) ''temperature'' =
      Some (ucast t)"
    unfolding line parse_field_words(1) [OF pl] find_map_dull [OF dull] by simp
  have "field_token (''valve_open'' @ ''='') ?b = Some (bool_text b)"
    using field_token_bool [of "''valve_open=''" b] by simp
  then show "parse_bool_field (log_line ts level target (control_message t b)) ''valve_open'' = Some b"
    unfolding line parse_field_words(2) [OF pl] find_map_dull [OF dull]
    using none by (simp add: bool_text_def)
  have "contains (control_message t b) ''Control loop:''"
    by (simp add: control_message_def contains_def)
  then show "contains (log_line ts level target (control_message t b)) ''Control loop:''"
    by (rule contains_args)
qed

lemma entry_one_line:
  assumes "entry_ok e"
  shows "newline \<notin> set (entry_text e) \<and> carriage_return \<notin> set (entry_text e)"
proof (cases e)
  case (ControlEntry ts level target t b)
  with assms have "dull level" "dull target" by simp_all
  from unwords_one_line [OF control_words_plain [OF this, of ts t b]] show ?thesis
    by (simp only: ControlEntry entry_text.simps control_line_words) simp
qed (use assms in simp)

definition scan_value :: "u16 \<times> bool \<Rightarrow> control_scan \<Rightarrow> control_scan" where
  "scan_value v s = scan_temperature (ucast (fst v)) (scan_valve (snd v) s)"

lemma scan_entries:
  "\<forall>e \<in> set es. entry_ok e \<Longrightarrow>
   fold scan_line (map entry_text es) s = fold scan_value (control_values es) s"
proof (induction es arbitrary: s)
  case (Cons e es)
  show ?case
  proof (cases e)
    case (ControlEntry ts level target t b)
    with Cons.prems have "dull level" "dull target" by simp_all
    note control_line_fields [OF this, of ts t b]
    then have "scan_line (entry_text e) s = scan_value (t, b) s"
      by (simp add: ControlEntry scan_line_def scan_value_def)
    with Cons ControlEntry show ?thesis by simp
  next
    case (OtherEntry line)
    with Cons show ?thesis by (simp add: scan_line_def)
  qed
qed simp

section \<open>The final reports of the cyclic threads\<close>

text \<open>A word that occurs in a line occurs in one of its words.\<close>

lemma contains_unwords:
  "plain part \<Longrightarrow> contains (unwords ws) part \<Longrightarrow> \<exists>w \<in> set ws. contains w part"
proof (induction ws rule: unwords.induct)
  case (3 w v vs)
  have "\<not> (part = xs @ zs \<and> prefix zs (CHR '' '' # unwords (v # vs)) \<and> zs \<noteq> [])" for xs zs
    using 3(2) by (auto simp: plain_def prefix_Cons)
  then have "sublist part w \<or> sublist part (CHR '' '' # unwords (v # vs))"
    using 3(3) by (fastforce simp: contains_def sublist_append)
  moreover have "\<not> prefix part (CHR '' '' # unwords (v # vs))"
    using 3(2) by (auto simp: plain_def prefix_Cons)
  ultimately have "contains w part \<or> contains (unwords (v # vs)) part"
    by (auto simp: contains_def sublist_Cons_right)
  with 3(1,2) show ?case by auto
qed (simp_all add: contains_def plain_def)

definition report_words :: "string \<Rightarrow> string \<Rightarrow> string \<Rightarrow> cycle_stats \<Rightarrow> u64 \<Rightarrow> string list" where
  "report_words kind component dir st n =
     [''L2'', kind, ''metrics'', ''component='' @ component, ''direction='' @ dir,
      ''min_ns='' @ dec_text (unat (cs_min_ns st)), ''max_ns='' @ dec_text (unat (cs_max_ns st)),
      ''avg_ns='' @ dec_text (unat (cs_avg_ns st)), ''samples='' @ dec_text (unat n)]"

lemma report_line_words:
  assumes "metrics_values m = Some (cs_min_ns st, cs_max_ns st, cs_avg_ns st)"
  shows "log_line ts level target (metrics_message kind component dir m) =
    unwords (log_words ts level target @ report_words kind component dir st (cm_samples m))"
  using assms by (simp add: metrics_message_def log_line_def log_words_def report_words_def)

definition direction_words :: "string set" where
  "direction_words = {''send'', ''receive''}"

definition component_words :: "string set" where
  "component_words = {''master'', ''slave''}"

lemma report_words_plain:
  assumes "dull level" "dull target" "kind \<in> {''cycle'', ''jitter''}" "component \<in> component_words"
    "dir \<in> direction_words"
  shows "\<forall>w \<in> set (log_words ts level target @ report_words kind component dir st n). plain w"
proof -
  have "plain ''L2''" "plain kind" "plain ''metrics''" "plain (''component='' @ component)"
    "plain (''direction='' @ dir)" "plain ''min_ns=''" "plain ''max_ns=''" "plain ''avg_ns=''"
    "plain ''samples=''"
    using assms by (auto simp: component_words_def direction_words_def plain_def is_whitespace_def)
  moreover from this(6-9) have "plain (''min_ns='' @ dec_text k)" "plain (''max_ns='' @ dec_text k)"
    "plain (''avg_ns='' @ dec_text k)" "plain (''samples='' @ dec_text k)" for k
    by (simp_all only: plain_field)
  ultimately show ?thesis
    using assms(1,2) unfolding log_words_def report_words_def
    by (auto simp: dull_def plain_bracket simp del: append.simps intro: plain_bracket)
qed

lemma report_line_stats:
  assumes "dull level" "dull target" "kind \<in> {''cycle'', ''jitter''}" "component \<in> component_words"
    "dir \<in> direction_words"
  shows "parse_cycle_stats (unwords (log_words ts level target @ report_words kind component dir st n)) = Some st"
proof -
  let ?us = "log_words ts level target @ [''L2'', kind, ''metrics'']"
  let ?min = "''min_ns='' @ dec_text (unat (cs_min_ns st))"
    and ?max = "''max_ns='' @ dec_text (unat (cs_max_ns st))"
    and ?avg = "''avg_ns='' @ dec_text (unat (cs_avg_ns st))"
  let ?vs = "[''component='' @ component, ''direction='' @ dir, ?min, ?max, ?avg,
      ''samples='' @ dec_text (unat n)]"
  have ws: "log_words ts level target @ report_words kind component dir st n = ?us @ ?vs"
    by (simp add: report_words_def)
  note pl = report_words_plain [OF assms, of ts st n, unfolded ws]
  have dull: "\<forall>w \<in> set ?us. CHR ''='' \<notin> set w"
    using assms not_in_digits [of "CHR ''=''"] by (auto simp: dull_def digits_def log_words_def)
  have c: "CHR ''_'' \<notin> set (''component='' @ component)" "CHR ''_'' \<notin> set (''direction='' @ dir)"
    using assms(4,5) by (auto simp: component_words_def direction_words_def)
  have absent: "field_token ([a, b, d, CHR ''_'', CHR ''n'', CHR ''s''] @ ''='') (''component='' @ component) = None"
    "field_token ([a, b, d, CHR ''_'', CHR ''n'', CHR ''s''] @ ''='') (''direction='' @ dir) = None" for a b d
    using c by (auto intro!: field_token_absent [of "CHR ''_''"])
  have other: "CHR ''x'' \<notin> set ?min" "CHR ''v'' \<notin> set ?min" "CHR ''v'' \<notin> set ?max"
    using not_in_digits [of "CHR ''x''"] not_in_digits [of "CHR ''v''"] by (auto simp: digits_def)
  have "field_token (''max_ns'' @ ''='') ?min = None" "field_token (''avg_ns'' @ ''='') ?min = None"
    "field_token (''avg_ns'' @ ''='') ?max = None"
    using other by (auto intro: field_token_absent [of "CHR ''x''"] field_token_absent [of "CHR ''v''"])
  moreover have "field_token (''min_ns'' @ ''='') ?min = Some (dec_text (unat (cs_min_ns st)))"
    "field_token (''max_ns'' @ ''='') ?max = Some (dec_text (unat (cs_max_ns st)))"
    "field_token (''avg_ns'' @ ''='') ?avg = Some (dec_text (unat (cs_avg_ns st)))"
    using field_token_number [of "''min_ns=''"] field_token_number [of "''max_ns=''"]
      field_token_number [of "''avg_ns=''"] by simp_all
  ultimately have "parse_numeric_field_u64 (unwords (?us @ ?vs)) ''min_ns'' = Some (cs_min_ns st)"
    "parse_numeric_field_u64 (unwords (?us @ ?vs)) ''max_ns'' = Some (cs_max_ns st)"
    "parse_numeric_field_u64 (unwords (?us @ ?vs)) ''avg_ns'' = Some (cs_avg_ns st)"
    unfolding parse_field_words(1) [OF pl] find_map_dull [OF dull]
    using absent by (simp_all del: append.simps)
  then show ?thesis unfolding ws by (simp add: parse_cycle_stats_def)
qed

lemma contains_set: "contains w part \<Longrightarrow> set part \<subseteq> set w"
  by (simp add: contains_def set_mono_sublist)

lemma contains_word: "w \<in> set ws \<Longrightarrow> contains (unwords ws) w"
proof (induction ws rule: unwords.induct)
  case (3 w' v vs)
  have "contains (w' @ [CHR '' ''] @ unwords (v # vs)) w"
  proof (cases "w = w'")
    case True
    then show ?thesis by (simp add: contains_def)
  next
    case False
    with 3 have "contains (unwords (v # vs)) w" by auto
    from contains_append [OF this, of "w' @ '' ''" "[]"] show ?thesis by simp
  qed
  then show ?case by simp
qed (simp_all add: contains_def)

lemma report_line_direction:
  assumes "dull level" "dull target" "kind \<in> {''cycle'', ''jitter''}" "component \<in> component_words"
    "dir \<in> direction_words"
  shows "contains (unwords (log_words ts level target @ report_words kind component dir st n))
      ''direction=send'' \<longleftrightarrow> dir = ''send''"
    and "contains (unwords (log_words ts level target @ report_words kind component dir st n))
      (''direction='' @ dir)"
proof -
  let ?ws = "log_words ts level target @ report_words kind component dir st n"
  show own: "contains (unwords ?ws) (''direction='' @ dir)"
    by (rule contains_word) (simp add: report_words_def)
  have "\<not> contains w ''direction=send''" if "w \<in> set ?ws" "dir = ''receive''" for w
  proof -
    have "CHR ''='' \<notin> set w \<or> CHR ''d'' \<notin> set w \<or> CHR ''s'' \<notin> set w"
      using that assms not_in_digits [of "CHR ''=''"] not_in_digits [of "CHR ''d''"]
      by (auto simp: log_words_def report_words_def component_words_def dull_def digits_def)
    then show ?thesis by (auto dest: contains_set)
  qed
  moreover have "plain ''direction=send''" by (simp add: plain_def is_whitespace_def)
  ultimately have "\<not> contains (unwords ?ws) ''direction=send''" if "dir = ''receive''"
    using that contains_unwords [of "''direction=send''" ?ws] by blast
  then show "contains (unwords ?ws) ''direction=send'' \<longleftrightarrow> dir = ''send''"
    using own assms(5) by (auto simp: direction_words_def)
qed

text \<open>The line of one thread sets the statistics of its direction.\<close>

abbreviation report_marker :: "string \<Rightarrow> string" where
  "report_marker kind \<equiv> ''L2 '' @ kind @ '' metrics''"

lemma contains_start: "contains (log_line timestamp level target (part @ rest)) part"
  by (rule contains_args) (metis append_Nil contains_def sublist_appendI)

lemma report_contains:
  assumes "metrics_values m = Some v"
  shows "contains (log_line ts level target (metrics_message kind component dir m)) (report_marker kind)"
proof -
  have "metrics_message kind component dir m = report_marker kind @ drop (length (report_marker kind))
      (metrics_message kind component dir m)"
    using assms by (simp add: metrics_message_def split: prod.split)
  then show ?thesis using contains_start by metis
qed

lemma report_line:
  assumes "dull level" "dull target" and kind: "kind \<in> {''cycle'', ''jitter''}"
    and "component \<in> component_words" "dir \<in> direction_words"
    and m: "metrics_values m = Some (cs_min_ns st, cs_max_ns st, cs_avg_ns st)"
  shows "cycles_line (report_marker kind)
      (log_line ts level target (metrics_message kind component dir m)) c =
    (if dir = ''send'' then c\<lparr>dc_send := Some st\<rparr> else c\<lparr>dc_receive := Some st\<rparr>)"
proof -
  let ?line = "log_line ts level target (metrics_message kind component dir m)"
  note report_contains [OF m, of ts level target kind component dir]
  moreover note dir = report_line_direction [OF assms(1-5), of ts st "cm_samples m", folded report_line_words [OF m]]
    and stats = report_line_stats [OF assms(1-5), of ts st "cm_samples m", folded report_line_words [OF m]]
  ultimately show ?thesis
    using assms(5) by (auto simp: cycles_line_def direction_words_def)
qed

text \<open>The lines without the marker do not count.\<close>

lemma fold_cycles_filter:
  "fold (cycles_line marker) ls c = fold (cycles_line marker) (filter (\<lambda>line. contains line marker) ls) c"
  by (induction ls arbitrary: c) (simp_all add: cycles_line_def)

lemma report_one_line:
  fixes st :: cycle_stats
  assumes "dull level" "dull target" "kind \<in> {''cycle'', ''jitter''}" "component \<in> component_words"
    and "dir \<in> direction_words"
    and "metrics_values m = Some (cs_min_ns st, cs_max_ns st, cs_avg_ns st)"
  shows "newline \<notin> set (log_line ts level target (metrics_message kind component dir m)) \<and>
    carriage_return \<notin> set (log_line ts level target (metrics_message kind component dir m))"
  using unwords_one_line [OF report_words_plain [OF assms(1-5), of ts st]]
  by (simp add: report_line_words [OF assms(6)])

section \<open>What the counters count\<close>

text \<open>The closings of the valve in a sequence of its states.\<close>

definition closings :: "bool list \<Rightarrow> nat" where
  "closings bs = length (filter (\<lambda>(a, b). a \<and> \<not> b) (zip bs (tl bs)))"

text \<open>The turning points of the temperature: reaching 145 (\<open>True\<close>) and 5 (\<open>False\<close>), from the
  first low one on, without repetitions; every second one after the first ends a wave.\<close>

definition extremes :: "u16 list \<Rightarrow> bool list" where
  "extremes ts = List.map_filter (\<lambda>t. if t \<le> 5 then Some False else if 145 \<le> t then Some True else None) ts"

definition turning_points :: "u16 list \<Rightarrow> bool list" where
  "turning_points ts = remdups_adj (dropWhile id (extremes ts))"

definition waves :: "u16 list \<Rightarrow> nat" where
  "waves ts = (length (turning_points ts) - 1) div 2"

lemma closings_simps [simp]:
  "closings [] = 0" "closings [b] = 0"
  "closings (a # b # bs) = (if a \<and> \<not> b then 1 else 0) + closings (b # bs)"
  by (simp_all add: closings_def)

lemma scan_temperature_valve [simp]:
  "mc_valve_open_close_cycles (cn_metrics (scan_temperature t s)) = mc_valve_open_close_cycles (cn_metrics s)"
  "cn_previous_valve_state (scan_temperature t s) = cn_previous_valve_state s"
  by (simp_all add: scan_temperature_def split: temperature_phase.split)

lemma scan_valve_temperature [simp]:
  "mc_temperature_wave_iterations (cn_metrics (scan_valve b s)) = mc_temperature_wave_iterations (cn_metrics s)"
  "cn_temperature_phase (scan_valve b s) = cn_temperature_phase s"
  "cn_previous_valve_state (scan_valve b s) = Some b"
  by (simp_all add: scan_valve_def Let_def)

lemma scan_closings:
  "unat (mc_valve_open_close_cycles (cn_metrics s)) + length vs < 2 ^ 64 \<Longrightarrow>
   unat (mc_valve_open_close_cycles (cn_metrics (fold scan_value vs s))) =
     unat (mc_valve_open_close_cycles (cn_metrics s)) +
     closings ((case cn_previous_valve_state s of None \<Rightarrow> [] | Some b \<Rightarrow> [b]) @ map snd vs)"
proof (induction vs arbitrary: s)
  case Nil
  show ?case by (simp split: option.splits)
next
  case (Cons v vs)
  let ?s = "scan_value v s"
  have "unat (saturating_add (mc_valve_open_close_cycles (cn_metrics s)) 1) =
      unat (mc_valve_open_close_cycles (cn_metrics s)) + 1"
    using Cons.prems by (simp add: unat_saturating_add)
  then have step: "unat (mc_valve_open_close_cycles (cn_metrics ?s)) =
      unat (mc_valve_open_close_cycles (cn_metrics s)) +
      (if cn_previous_valve_state s = Some True \<and> \<not> snd v then 1 else 0)"
    by (simp add: scan_value_def scan_valve_def Let_def)
  then have "unat (mc_valve_open_close_cycles (cn_metrics ?s)) + length vs < 2 ^ 64"
    using Cons.prems by (simp split: if_splits)
  from Cons.IH [OF this] step show ?case
    by (simp add: scan_value_def split: option.splits)
qed

lemma extremes_simps [simp]:
  "extremes [] = []"
  "extremes (t # ts) = (if t \<le> 5 then False # extremes ts else if 145 \<le> t then True # extremes ts
     else extremes ts)"
  by (simp_all add: extremes_def List.map_filter_simps)

lemma thresholds: "(ucast t :: u64) \<le> 5 \<longleftrightarrow> t \<le> 5" "145 \<le> (ucast t :: u64) \<longleftrightarrow> 145 \<le> t" for t :: u16
  by (simp_all add: word_le_nat_alt)

lemma length_remdups_adj_Cons: "0 < length (remdups_adj (x # xs))"
  by simp

definition waves_from :: "temperature_phase \<Rightarrow> u16 list \<Rightarrow> nat" where
  "waves_from phase ts =
     (case phase of
        WaitingAtZero \<Rightarrow> waves ts
      | Rising \<Rightarrow> (length (remdups_adj (False # extremes ts)) - 1) div 2
      | Falling \<Rightarrow> length (remdups_adj (True # extremes ts)) div 2)"

text \<open>One temperature moves the phase as the next extreme moves the reference.\<close>

lemma waves_from_Cons:
  "waves_from phase (t # ts) =
     (case phase of
        WaitingAtZero \<Rightarrow> waves_from (if t \<le> 5 then Rising else WaitingAtZero) ts
      | Rising \<Rightarrow> waves_from (if 145 \<le> t then Falling else Rising) ts
      | Falling \<Rightarrow> (if t \<le> 5 then 1 + waves_from Rising ts else waves_from Falling ts))"
proof -
  have excl: "\<not> (t \<le> 5 \<and> 145 \<le> t)" by (simp add: word_le_nat_alt)
  obtain n where "length (remdups_adj (False # extremes ts)) = Suc n"
    using length_remdups_adj_Cons [of False "extremes ts"] gr0_conv_Suc by blast
  then show ?thesis
    using excl
    by (cases phase) (auto simp: waves_from_def waves_def turning_points_def)
qed

lemma scan_waves:
  "unat (mc_temperature_wave_iterations (cn_metrics s)) + length vs < 2 ^ 64 \<Longrightarrow>
   unat (mc_temperature_wave_iterations (cn_metrics (fold scan_value vs s))) =
     unat (mc_temperature_wave_iterations (cn_metrics s)) +
     waves_from (cn_temperature_phase s) (map fst vs)"
proof (induction vs arbitrary: s)
  case Nil
  show ?case
    by (simp add: waves_from_def waves_def turning_points_def split: temperature_phase.split)
next
  case (Cons v vs)
  let ?s = "scan_value v s" and ?p = "cn_temperature_phase s" and ?t = "fst v"
  have inc: "unat (saturating_add (mc_temperature_wave_iterations (cn_metrics s)) 1) =
      unat (mc_temperature_wave_iterations (cn_metrics s)) + 1"
    using Cons.prems by (simp add: unat_saturating_add)
  then have step: "unat (mc_temperature_wave_iterations (cn_metrics ?s)) =
      unat (mc_temperature_wave_iterations (cn_metrics s)) + (if ?p = Falling \<and> ?t \<le> 5 then 1 else 0)"
    and phase: "cn_temperature_phase ?s = (case ?p of
        WaitingAtZero \<Rightarrow> if ?t \<le> 5 then Rising else WaitingAtZero
      | Rising \<Rightarrow> if 145 \<le> ?t then Falling else Rising
      | Falling \<Rightarrow> if ?t \<le> 5 then Rising else Falling)"
    by (simp_all add: scan_value_def scan_temperature_def thresholds split: temperature_phase.split)
  then have "unat (mc_temperature_wave_iterations (cn_metrics ?s)) + length vs < 2 ^ 64"
    using Cons.prems by (simp split: if_splits)
  from Cons.IH [OF this] step phase show ?case
    by (cases ?p) (simp_all add: waves_from_Cons)
qed

section \<open>Properties\<close>

text \<open>
  C32 The analysis counts what the control loop did: from a log that holds the loop's messages
  among any other lines, the summary's counters are the number of times the valve went from open
  to closed and the number of waves the temperature completed, a wave being every second turning
  point after the first low one.
\<close>

theorem control_log_counted:
  assumes "\<forall>e \<in> set es. entry_ok e" and "length (control_values es) < 2 ^ 64"
  shows "map_prod unat unat (let m = parse_control_metrics (unlines (map entry_text es))
      in (mc_valve_open_close_cycles m, mc_temperature_wave_iterations m)) =
    (closings (map snd (control_values es)), waves (map fst (control_values es)))"
proof -
  have "lines (unlines (map entry_text es)) = map entry_text es"
    using assms(1) entry_one_line by (intro lines_unlines) auto
  then have "parse_control_metrics (unlines (map entry_text es)) =
      cn_metrics (fold scan_value (control_values es) scan_start)"
    using scan_entries [OF assms(1)] by (simp add: parse_control_metrics_def)
  then show ?thesis
    using scan_closings [of scan_start "control_values es"] scan_waves [of scan_start "control_values es"]
      assms(2) by (simp add: scan_start_def waves_from_def Let_def)
qed

text \<open>The statistics of the recorded values; the average is rounded down.\<close>

definition recorded :: "u64 list \<Rightarrow> cycle_stats" where
  "recorded xs = \<lparr>cs_min_ns = Min (set xs), cs_max_ns = Max (set xs),
     cs_avg_ns = of_nat (sum_list (map unat xs) div length xs)\<rparr>"

lemma metrics_values_recorded:
  assumes "xs \<noteq> []" "length xs < 2 ^ 64"
  shows "metrics_values (foldl metrics_record cycle_metrics_default xs) =
    Some (cs_min_ns (recorded xs), cs_max_ns (recorded xs), cs_avg_ns (recorded xs))"
proof -
  obtain avg where avg: "metrics_values (record_all xs) = Some (Min (set xs), Max (set xs), avg)"
    "unat avg = sum_list (map unat xs) div length xs"
    using metrics_values_record_all [OF assms] by blast
  have "of_nat (sum_list (map unat xs) div length xs) = avg" unfolding avg(2) [symmetric] by simp
  then show ?thesis using avg(1) by (simp add: record_all_def recorded_def)
qed

text \<open>
  The summary reports what the threads measured: from a log in which the final reports of the receiver
  and of the sender are the only lines of their kind, in either order, the analysis reads back, per
  direction, the statistics of the recorded values.
\<close>

lemma reports_read_back:
  assumes "xs \<noteq> []" "length xs < 2 ^ 64" and "ys \<noteq> []" "length ys < 2 ^ 64"
    and "dull level" "dull target" "kind \<in> {''cycle'', ''jitter''}" "component \<in> component_words"
    and "rx = log_line ta level target (metrics_message kind component ''receive''
      (foldl metrics_record cycle_metrics_default xs))"
    and "tx = log_line tb level target (metrics_message kind component ''send''
      (foldl metrics_record cycle_metrics_default ys))"
    and "filter (\<lambda>line. contains line (report_marker kind)) ls \<in> {[rx, tx], [tx, rx]}"
    and "\<forall>line \<in> set ls. newline \<notin> set line \<and> carriage_return \<notin> set line"
  shows "fold (cycles_line (report_marker kind)) (lines (unlines ls)) \<lparr>dc_send = None, dc_receive = None\<rparr> =
    \<lparr>dc_send = Some (recorded ys), dc_receive = Some (recorded xs)\<rparr>"
proof -
  have dirs: "''receive'' \<in> direction_words" "''send'' \<in> direction_words"
    by (simp_all add: direction_words_def)
  note line = report_line [OF assms(5-8) dirs(1) metrics_values_recorded [OF assms(1,2)], of ta, folded assms(9)]
    report_line [OF assms(5-8) dirs(2) metrics_values_recorded [OF assms(3,4)], of tb, folded assms(10)]
  have "lines (unlines ls) = ls" using assms(12) by (intro lines_unlines) auto
  then show ?thesis
    using assms(11) by (subst fold_cycles_filter) (auto simp: line [simplified])
qed

text \<open>A line none of whose words has all the characters of a part of the marker.\<close>

lemma absent_words:
  assumes "\<forall>w \<in> set ws. plain w \<and> \<not> set part \<subseteq> set w" "plain part" "contains marker part"
  shows "\<not> contains (unwords ws) marker"
proof
  assume "contains (unwords ws) marker"
  then have "contains (unwords ws) part"
    using assms(3) unfolding contains_def by (rule sublist_order.order.trans [rotated])
  then obtain w where "w \<in> set ws" "contains w part" using contains_unwords [OF assms(2)] assms(1) by blast
  then show False using assms(1) contains_set by blast
qed

definition example_log :: "loop_entry list" where
  "example_log =
     [OtherEntry ''noise temperature=3'', ControlEntry 17 ''DEBUG'' ''demo'' 2 False,
      ControlEntry 18 ''DEBUG'' ''demo'' 120 True, ControlEntry 19 ''DEBUG'' ''demo'' 150 True,
      OtherEntry ''1 [INFO] [demo] x'', ControlEntry 20 ''DEBUG'' ''demo'' 90 False,
      ControlEntry 21 ''DEBUG'' ''demo'' 0 False]"

theorem control_log_counted_witness:
  "unat (mc_valve_open_close_cycles (parse_control_metrics (unlines (map entry_text example_log)))) = 1 \<and>
   unat (mc_temperature_wave_iterations (parse_control_metrics (unlines (map entry_text example_log)))) = 1"
proof -
  have "\<forall>e \<in> set example_log. entry_ok e"
    by (simp add: example_log_def dull_def plain_def is_whitespace_def contains_def newline_def
        carriage_return_def sublist_Cons_right)
  then show ?thesis
    using control_log_counted [of example_log]
    by (simp add: Let_def example_log_def waves_def turning_points_def word_le_nat_alt)
qed

end
