(* ===== verification/Master_Hardware.thy ===== *)
theory Master_Hardware
  imports Bit_Fields
begin

text \<open>
  \<^verbatim>\<open>src/master/src/hardware_mock.rs\<close>: the master's process image. It is addressed in whole
  bytes; the bit offset of a position is not used. A poisoned lock is taken over by the code, so
  every access succeeds in taking it.
\<close>

section \<open>State and operations\<close>

record master_process_image =
  mp_input_image :: bytes
  mp_output_image :: bytes

definition master_image_new :: master_process_image where
  "master_image_new = \<lparr>mp_input_image = replicate 2 0, mp_output_image = replicate 1 0\<rparr>"

definition read_temperature_u16 :: "master_process_image \<Rightarrow> u16" where
  "read_temperature_u16 m =
     (let guard = mp_input_image m
      in if length guard < 2 then 0 else from_be [guard ! 0, guard ! 1])"

definition write_valve_state :: "bool \<Rightarrow> master_process_image \<Rightarrow> master_process_image" where
  "write_valve_state is_open m =
     (let guard = mp_output_image m
      in if guard = [] then m
         else if is_open then m\<lparr>mp_output_image := guard[0 := guard ! 0 OR 0x01]\<rparr>
         else m\<lparr>mp_output_image := guard[0 := guard ! 0 AND NOT 0x01]\<rparr>)"

definition master_get_layout :: "master_process_image \<Rightarrow> status_code + process_variable list" where
  "master_get_layout m = Inr []"

definition master_read_image :: "bytes \<Rightarrow> position \<Rightarrow> status_code + bytes" where
  "master_read_image guard pos =
     (let byte_len = unat (div_ceil (pos_bit_len pos) 8);
          offset = unat (pos_byte_offset pos)
      in if offset + byte_len \<le> length guard then Inr (take byte_len (drop offset guard))
         else Inl ErrInvalidLen)"

definition master_write_image :: "bytes \<Rightarrow> bytes \<Rightarrow> position \<Rightarrow> (status_code + unit) \<times> bytes" where
  "master_write_image guard data pos =
     (let byte_len = unat (div_ceil (pos_bit_len pos) 8) in
      if length data \<noteq> byte_len then (Inl ErrInvalidLen, guard)
      else
        (let offset = unat (pos_byte_offset pos) in
         if \<not> offset + byte_len \<le> length guard then (Inl ErrInvalidLen, guard)
         else (Inr (), take offset guard @ data @ drop (offset + byte_len) guard)))"

definition master_read_outputs :: "master_process_image \<Rightarrow> position \<Rightarrow> status_code + bytes" where
  "master_read_outputs m pos = master_read_image (mp_output_image m) pos"

definition master_write_inputs ::
    "master_process_image \<Rightarrow> bytes \<Rightarrow> position \<Rightarrow> (status_code + unit) \<times> master_process_image" where
  "master_write_inputs m data pos =
     (let (r, guard) = master_write_image (mp_input_image m) data pos
      in (r, m\<lparr>mp_input_image := guard\<rparr>))"

definition master_process_image_access :: "master_process_image process_image_access" where
  "master_process_image_access =
     \<lparr>get_layout = master_get_layout, read_outputs = master_read_outputs,
      write_inputs = master_write_inputs\<rparr>"

section \<open>The interface\<close>

definition byte_span :: "position \<Rightarrow> nat \<times> nat" where
  "byte_span pos = (unat (pos_byte_offset pos),
     unat (pos_byte_offset pos) + (unat (pos_bit_len pos) + 7) div 8)"

definition disjoint_bytes :: "position \<Rightarrow> position \<Rightarrow> bool" where
  "disjoint_bytes p q \<longleftrightarrow> snd (byte_span p) \<le> fst (byte_span q) \<or> snd (byte_span q) \<le> fst (byte_span p)"

lemma take_drop_put_other:
  assumes "a + length d \<le> length xs" and "b + n \<le> length xs"
    and "a + length d \<le> b \<or> b + n \<le> a"
  shows "take n (drop b (take a xs @ d @ drop (a + length d) xs)) = take n (drop b xs)"
  using assms by (intro nth_equalityI) (auto simp: nth_append)

interpretation master: image_access master_read_image master_write_image "\<lambda>_ d. d" disjoint_bytes
  "\<lambda>_. True"
proof unfold_locales
  fix m m' d d' p q
  assume w: "master_write_image m d p = (Inr (), m')"
  then have len: "length d = (unat (pos_bit_len p) + 7) div 8"
    and fits: "unat (pos_byte_offset p) + length d \<le> length m"
    and m': "m' = take (unat (pos_byte_offset p)) m @ d @ drop (unat (pos_byte_offset p) + length d) m"
    by (auto simp: master_write_image_def Let_def unat_div_ceil split: if_splits)
  then have l': "length m' = length m" by simp
  show "master_read_image m' p = Inr d"
    using fits len l' by (simp add: master_read_image_def Let_def unat_div_ceil m')
  show "fst (master_write_image m' d' q) = fst (master_write_image m d' q)"
    by (simp add: master_write_image_def Let_def l')
  have other: "take n (drop b m') = take n (drop b m)"
    if "b + n \<le> length m"
      "unat (pos_byte_offset p) + length d \<le> b \<or> b + n \<le> unat (pos_byte_offset p)" for b n
    unfolding m' by (rule take_drop_put_other [OF fits that])
  show "disjoint_bytes p q \<Longrightarrow> master_read_image m' q = master_read_image m q"
    by (auto simp: master_read_image_def Let_def unat_div_ceil l' disjoint_bytes_def byte_span_def
        len [symmetric] intro!: other)
qed (auto simp: master_write_image_def Let_def split: if_splits)

lemma read_temperature_written:
  assumes "length d = 2" and "length (mp_input_image m) = 2"
    and "pos_byte_offset p = 0" and "pos_bit_len p = 16"
  shows "master_write_inputs m d p = (Inr (), m\<lparr>mp_input_image := d\<rparr>)"
  using assms by (simp add: master_write_inputs_def master_write_image_def unat_div_ceil Let_def)

end
