(* ===== verification/Demo_Process.thy ===== *)
theory Demo_Process
  imports Post_Run Slave_Hardware Master_Hardware
begin

text \<open>
  The process of the demonstration in \<^verbatim>\<open>src/demo/src/main.rs\<close>: the simulated temperature, the
  master's control loop, the observation of the valve, and the measurement of the program's own
  use of the processor and of memory. The contents of the files under \<^verbatim>\<open>/proc\<close> and the system's
  page size are arguments.
\<close>

section \<open>Process load\<close>

record aggregate_f64 =
  ag_max :: real
  ag_total :: real
  ag_samples :: u64

definition aggregate_default :: aggregate_f64 where
  "aggregate_default = \<lparr>ag_max = 0, ag_total = 0, ag_samples = 0\<rparr>"

definition aggregate_record :: "real \<Rightarrow> aggregate_f64 \<Rightarrow> aggregate_f64" where
  "aggregate_record value a =
     \<lparr>ag_max = max (ag_max a) value, ag_total = f64_round (ag_total a + value),
      ag_samples = saturating_add (ag_samples a) 1\<rparr>"

definition aggregate_average :: "aggregate_f64 \<Rightarrow> real" where
  "aggregate_average a =
     (if ag_samples a = 0 then 0 else f64_div (ag_total a) (f64_round (of_nat (unat (ag_samples a)))))"

record performance_stats =
  ps_cpu :: aggregate_f64
  ps_ram_mib :: aggregate_f64

definition performance_default :: performance_stats where
  "performance_default = \<lparr>ps_cpu = aggregate_default, ps_ram_mib = aggregate_default\<rparr>"

fun sum_fields :: "string list \<Rightarrow> u64 \<Rightarrow> u64 option" where
  "sum_fields [] total_jiffies = Some total_jiffies"
| "sum_fields (v # vs) total_jiffies =
     (case parse_u64 v of None \<Rightarrow> None | Some n \<Rightarrow> sum_fields vs (saturating_add total_jiffies n))"

definition read_total_cpu_jiffies :: "string option \<Rightarrow> u64 option" where
  "read_total_cpu_jiffies proc_stat =
     (case proc_stat of
        None \<Rightarrow> None
      | Some content \<Rightarrow>
          (case lines content of
             [] \<Rightarrow> None
           | first_line # _ \<Rightarrow>
               (case split_whitespace first_line of
                  [] \<Rightarrow> None
                | label # columns \<Rightarrow> if label \<noteq> ''cpu'' then None else sum_fields columns 0)))"

definition read_process_cpu_jiffies :: "string option \<Rightarrow> u64 option" where
  "read_process_cpu_jiffies proc_self_stat =
     (case proc_self_stat of
        None \<Rightarrow> None
      | Some content \<Rightarrow>
          (let columns = split_whitespace content
           in if length columns \<le> 14 then None
              else do {
                utime \<leftarrow> parse_u64 (columns ! 13);
                stime \<leftarrow> parse_u64 (columns ! 14);
                Some (saturating_add utime stime)
              }))"

text \<open>\<open>page_size\<close> is the signed result of \<open>sysconf\<close>; the product is on \<open>u64\<close>.\<close>

definition saturating_mul :: "u64 \<Rightarrow> u64 \<Rightarrow> u64" where
  "saturating_mul a b = (if 2 ^ 64 \<le> unat a * unat b then - 1 else a * b)"

definition read_process_resident_mib :: "string option \<Rightarrow> int \<Rightarrow> real option" where
  "read_process_resident_mib proc_self_statm page_size =
     (case proc_self_statm of
        None \<Rightarrow> None
      | Some content \<Rightarrow>
          (let words = split_whitespace content
           in if length words \<le> 1 then None
              else case parse_u64 (words ! 1) of
                None \<Rightarrow> None
              | Some resident_pages \<Rightarrow>
                  if page_size \<le> 0 then None
                  else let resident_bytes = saturating_mul resident_pages (of_int page_size)
                       in Some (f64_div (f64_round (of_nat (unat resident_bytes))) (1024 * 1024))))"

text \<open>A turn of the measuring task, with what the three readers give.\<close>

type_synonym jiffies = "u64 option \<times> u64 option"

definition saturating_sub :: "u64 \<Rightarrow> u64 \<Rightarrow> u64" where
  "saturating_sub a b = (if a < b then 0 else a - b)"

definition performance_turn ::
    "jiffies \<Rightarrow> real option \<Rightarrow> jiffies \<times> performance_stats \<Rightarrow> jiffies \<times> performance_stats" where
  "performance_turn current current_ram_mib s =
     (let (previous, stats) = s;
          stats = (case (previous, current) of
            ((Some previous_total, Some previous_process), (Some current_total, Some current_process)) \<Rightarrow>
              (let total_delta = saturating_sub current_total previous_total;
                   process_delta = saturating_sub current_process previous_process
               in if 0 < total_delta
                  then stats\<lparr>ps_cpu := aggregate_record
                         (f64_mul (f64_div (f64_round (of_nat (unat process_delta)))
                            (f64_round (of_nat (unat total_delta)))) 100) (ps_cpu stats)\<rparr>
                  else stats)
          | _ \<Rightarrow> stats);
          stats = (case current_ram_mib of
            Some ram_mib \<Rightarrow> stats\<lparr>ps_ram_mib := aggregate_record ram_mib (ps_ram_mib stats)\<rparr>
          | None \<Rightarrow> stats)
      in (current, stats))"

section \<open>The simulated process\<close>

definition wave_value :: "u32 \<Rightarrow> u32" where
  "wave_value step =
     (let phase = step mod 200
      in if phase < 100 then (phase * 150) div 100 else ((200 - phase) * 150) div 100)"

text \<open>A tick of the temperature task; \<open>None\<close> is the panic of the hardware's write.\<close>

definition wave_turn :: "u32 \<times> dummy_hardware \<Rightarrow> (u32 \<times> dummy_hardware) option" where
  "wave_turn s =
     (let (step, hardware) = s
      in case simulate_sensor_change (ucast (wave_value step)) hardware of
           None \<Rightarrow> None
         | Some hardware' \<Rightarrow> Some ((step + 1) mod 200, hardware'))"

text \<open>A tick of the task that watches the valve: the new last state and whether it is logged.\<close>

definition valve_watch_turn :: "dummy_hardware \<Rightarrow> bool \<Rightarrow> (bool \<times> bool) option" where
  "valve_watch_turn hardware last_state =
     (case get_valve_status hardware of
        None \<Rightarrow> None
      | Some current_state \<Rightarrow> Some (current_state, current_state \<noteq> last_state))"

section \<open>The control loop\<close>

record control_loop =
  lp_previous_temperature :: u16
  lp_previous_valve_state :: bool

definition control_loop_start :: control_loop where
  "control_loop_start = \<lparr>lp_previous_temperature = 0, lp_previous_valve_state = False\<rparr>"

text \<open>A turn: the message that is logged, if any, the loop's memory and the process image.\<close>

definition control_turn ::
    "control_loop \<times> master_process_image \<Rightarrow> string option \<times> control_loop \<times> master_process_image" where
  "control_turn s =
     (let (loop, process_image) = s;
          temperature = read_temperature_u16 process_image;
          valve_open = 100 < temperature;
          process_image = write_valve_state valve_open process_image
      in if lp_previous_temperature loop \<noteq> temperature \<or> lp_previous_valve_state loop \<noteq> valve_open
         then (Some (control_message temperature valve_open),
               \<lparr>lp_previous_temperature = temperature, lp_previous_valve_state = valve_open\<rparr>, process_image)
         else (None, loop, process_image))"

text \<open>Turns with a temperature arriving before each, as the cyclic receiver writes it; the log is
  the lines of the messages, with their timestamps.\<close>

definition temperature_arrives :: "u16 \<Rightarrow> master_process_image \<Rightarrow> master_process_image" where
  "temperature_arrives t process_image = process_image\<lparr>mp_input_image := be16 t\<rparr>"

fun control_log ::
    "(nat \<times> u16) list \<Rightarrow> control_loop \<times> master_process_image \<Rightarrow> string list" where
  "control_log [] s = []"
| "control_log ((timestamp, t) # ts) (loop, process_image) =
     (let (message, s') = control_turn (loop, temperature_arrives t process_image)
      in (case message of None \<Rightarrow> [] | Some m \<Rightarrow> [log_line timestamp ''DEBUG'' ''demo'' m]) @ control_log ts s')"

section \<open>The temperature task\<close>

lemma sum_fields_dec_text:
  fixes xs :: "u64 list"
  shows "\<exists>n. sum_fields (map (\<lambda>x. dec_text (unat x)) xs) t = Some n \<and>
     unat n = min (unat t + sum_list (map unat xs)) (2 ^ 64 - 1)"
proof (induction xs arbitrary: t)
  case Nil
  then show ?case using unat_lt [of t] by simp
next
  case (Cons x xs)
  from Cons.IH [of "saturating_add t x"] show ?case
    by (auto simp: unat_saturating_add)
qed

lemma unat_wave_value:
  "unat (wave_value step) =
     (let phase = unat step mod 200 in if phase < 100 then phase * 150 div 100 else (200 - phase) * 150 div 100)"
proof -
  let ?p = "step mod 200"
  have p: "unat ?p = unat step mod 200" by (simp add: unat_mod)
  have less: "unat step mod 200 < 200" by simp
  have "unat (?p * 150) = unat ?p * 150"
    using less p by (simp add: unat_word_ariths)
  moreover have "unat (200 - ?p) = 200 - unat ?p"
    using less p by (simp add: unat_sub word_le_nat_alt)
  moreover have "unat (q * 150) = unat q * 150" if "unat q \<le> 200" for q :: u32
    using that by (simp add: unat_word_ariths)
  from this [of "200 - ?p"] have "unat ((200 - ?p) * 150) = unat (200 - ?p) * 150"
    using less p calculation(2) by simp
  ultimately show ?thesis
    unfolding wave_value_def Let_def word_less_nat_alt by (simp only: unat_div p if_distrib [of unat]) simp
qed

lemma wave_value_bound: "unat (wave_value step) \<le> 150"
proof -
  have "unat step mod 200 < 200" by simp
  then have "3 * (unat step mod 200) div 2 \<le> 150" if "unat step mod 200 < 100" using that by linarith
  moreover have "3 * (200 - unat step mod 200) div 2 \<le> 150" if "\<not> unat step mod 200 < 100"
    using that by linarith
  ultimately show ?thesis unfolding unat_wave_value Let_def by simp
qed

text \<open>The temperature task never panics on the sensor's hardware, and its image holds the wave.\<close>

lemma wave_turn_ok:
  assumes "length (dh_output_image h) = 2"
  shows "\<exists>h'. wave_turn (step, h) = Some ((step + 1) mod 200, h') \<and> length (dh_output_image h') = 2"
  using assms by (simp add: wave_turn_def simulate_sensor_change_def)

section \<open>The log of the control loop\<close>

fun control_entries :: "(nat \<times> u16) list \<Rightarrow> u16 \<Rightarrow> loop_entry list" where
  "control_entries [] p = []"
| "control_entries ((n, t) # ts) p =
     (if t = p then [] else [ControlEntry n ''DEBUG'' ''demo'' t (100 < t)]) @ control_entries ts t"

lemma control_turn_arrives:
  "control_turn (\<lparr>lp_previous_temperature = p, lp_previous_valve_state = (100 < p)\<rparr>, temperature_arrives t img) =
     (if t = p then None else Some (control_message t (100 < t)),
      \<lparr>lp_previous_temperature = t, lp_previous_valve_state = (100 < t)\<rparr>,
      write_valve_state (100 < t) (temperature_arrives t img))"
proof -
  have "read_temperature_u16 (temperature_arrives t img) = t"
    using from_be_be_bytes [of 2 t]
    by (simp add: read_temperature_u16_def temperature_arrives_def numeral_eq_Suc)
  then show ?thesis by (auto simp: control_turn_def Let_def)
qed

lemma control_log_entries:
  "control_log ts (\<lparr>lp_previous_temperature = p, lp_previous_valve_state = (100 < p)\<rparr>, img) =
     map entry_text (control_entries ts p)"
  by (induction ts p arbitrary: img rule: control_entries.induct) (simp_all add: control_turn_arrives)

lemma control_entries_ok: "e \<in> set (control_entries ts p) \<Longrightarrow> entry_ok e"
  by (induction ts p rule: control_entries.induct)
    (auto simp: dull_def plain_def is_whitespace_def split: if_splits)

lemma control_values_append [simp]: "control_values (es @ fs) = control_values es @ control_values fs"
  by (induction es rule: control_values.induct) simp_all

lemma control_values_entries:
  "control_values (control_entries ts p) =
     map (\<lambda>t. (t, 100 < t)) (tl (remdups_adj (p # map snd ts)))"
proof (induction ts p rule: control_entries.induct)
  case (2 n t ts p)
  show ?case
  proof (cases "t = p")
    case False
    have "control_values (control_entries ((n, t) # ts) p) =
        map (\<lambda>t. (t, 100 < t)) (t # tl (remdups_adj (t # map snd ts)))"
      using 2 False by (simp del: remdups_adj_Cons_alt)
    also have "\<dots> = map (\<lambda>t. (t, 100 < t)) (remdups_adj (t # map snd ts))"
      by (simp only: remdups_adj_Cons_alt)
    also have "remdups_adj (t # map snd ts) = tl (remdups_adj (p # map snd ((n, t) # ts)))"
      using False by simp
    finally show ?thesis .
  qed (use 2 in simp)
qed simp

section \<open>One period of the wave\<close>

definition wave_period :: "u16 list" where
  "wave_period = map (\<lambda>n. ucast (wave_value (of_nat n))) [0..<200]"

text \<open>What the analysis has seen after \<open>k\<close> periods.\<close>

definition after_periods :: "nat \<Rightarrow> control_scan" where
  "after_periods k =
     \<lparr>cn_metrics = \<lparr>mc_valve_open_close_cycles = of_nat k, mc_temperature_wave_iterations = of_nat k\<rparr>,
      cn_previous_valve_state = Some False, cn_temperature_phase = Rising\<rparr>"

lemma wave_period_eq: "wave_period = map (\<lambda>n. of_nat (if n < 100 then n * 150 div 100 else (200 - n) * 150 div 100)) [0..<200]"
proof -
  have "(ucast (wave_value (of_nat n)) :: u16) =
      of_nat (if n < 100 then n * 150 div 100 else (200 - n) * 150 div 100)" if "n < 200" for n
  proof -
    have "unat (of_nat n :: u32) = n" using that by (simp add: unat_of_nat)
    then have "unat (wave_value (of_nat n)) = (if n < 100 then n * 150 div 100 else (200 - n) * 150 div 100)"
      using that by (simp add: unat_wave_value Let_def)
    then show ?thesis by (simp add: word_unat_eq_iff unat_of_nat unat_ucast_mod)
  qed
  then show ?thesis by (simp add: wave_period_def)
qed

lemma fold_stable: "\<forall>x \<in> set xs. f x s = s \<Longrightarrow> fold f xs s = s"
  by (induction xs) simp_all

text \<open>The value of step \<open>n\<close>, and what the analysis does with it in the phases of a period.\<close>

definition wave_nat :: "nat \<Rightarrow> nat" where
  "wave_nat n = (if n < 100 then n * 150 div 100 else (200 - n) * 150 div 100)"

definition scan_nat :: "nat \<Rightarrow> control_scan \<Rightarrow> control_scan" where
  "scan_nat n = scan_value (of_nat (wave_nat n), 100 < (of_nat (wave_nat n) :: u16))"

lemma wave_nat_bound: "n < 200 \<Longrightarrow> wave_nat n \<le> 150"
  unfolding wave_nat_def by (simp split: if_splits) linarith

lemma wave_compare:
  assumes "n < 200"
  shows "100 < (of_nat (wave_nat n) :: u16) \<longleftrightarrow> 100 < wave_nat n"
    and "(of_nat (wave_nat n) :: u16) \<le> 5 \<longleftrightarrow> wave_nat n \<le> 5"
    and "145 \<le> (of_nat (wave_nat n) :: u16) \<longleftrightarrow> 145 \<le> wave_nat n"
  using wave_nat_bound [OF assms] by (simp_all add: word_less_nat_alt word_le_nat_alt unat_of_nat)

abbreviation scan_at :: "master_control_metrics \<Rightarrow> bool \<Rightarrow> temperature_phase \<Rightarrow> control_scan" where
  "scan_at m p phase \<equiv> \<lparr>cn_metrics = m, cn_previous_valve_state = Some p, cn_temperature_phase = phase\<rparr>"

lemma scan_nat_at:
  "n < 200 \<Longrightarrow> scan_nat n (scan_at m p phase) =
     (let open_now = (100 < wave_nat n);
          m = (if p \<and> \<not> open_now
               then m\<lparr>mc_valve_open_close_cycles := saturating_add (mc_valve_open_close_cycles m) 1\<rparr> else m)
      in case phase of
           WaitingAtZero \<Rightarrow> scan_at m open_now (if wave_nat n \<le> 5 then Rising else phase)
         | Rising \<Rightarrow> scan_at m open_now (if 145 \<le> wave_nat n then Falling else Rising)
         | Falling \<Rightarrow>
             if wave_nat n \<le> 5
             then scan_at (m\<lparr>mc_temperature_wave_iterations :=
                    saturating_add (mc_temperature_wave_iterations m) 1\<rparr>) open_now Rising
             else scan_at m open_now Falling)"
  by (simp add: scan_nat_def scan_value_def scan_temperature_def scan_valve_def thresholds wave_compare Let_def
      split: temperature_phase.split)

lemma wave_steps:
  "fold scan_nat [0..<68] (scan_at m False Rising) = scan_at m False Rising"
  "scan_nat 68 (scan_at m False Rising) = scan_at m True Rising"
  "fold scan_nat [69..<97] (scan_at m True Rising) = scan_at m True Rising"
  "scan_nat 97 (scan_at m True Rising) = scan_at m True Falling"
  "fold scan_nat [98..<133] (scan_at m True Falling) = scan_at m True Falling"
  "scan_nat 133 (scan_at m True Falling) = scan_at (m\<lparr>mc_valve_open_close_cycles :=
     saturating_add (mc_valve_open_close_cycles m) 1\<rparr>) False Falling"
  "fold scan_nat [134..<197] (scan_at m False Falling) = scan_at m False Falling"
  "scan_nat 197 (scan_at m False Falling) = scan_at (m\<lparr>mc_temperature_wave_iterations :=
     saturating_add (mc_temperature_wave_iterations m) 1\<rparr>) False Rising"
  "fold scan_nat [198..<200] (scan_at m False Rising) = scan_at m False Rising"
proof -
  have A: "wave_nat n \<le> 100" if "n < 68" for n using that by (simp add: wave_nat_def)
  have B: "100 < wave_nat n \<and> wave_nat n < 145" if "69 \<le> n" "n < 97" for n
    using that by (simp add: wave_nat_def) linarith
  have C: "100 < wave_nat n" if "98 \<le> n" "n < 133" for n using that by (simp add: wave_nat_def) linarith
  have D: "5 < wave_nat n \<and> wave_nat n \<le> 100" if "134 \<le> n" "n < 197" for n
    using that by (simp add: wave_nat_def) linarith
  have E: "wave_nat n \<le> 100" if "198 \<le> n" "n < 200" for n using that by (simp add: wave_nat_def)
  show "fold scan_nat [0..<68] (scan_at m False Rising) = scan_at m False Rising"
    by (rule fold_stable) (use A in \<open>fastforce simp: scan_nat_at\<close>)
  show "fold scan_nat [69..<97] (scan_at m True Rising) = scan_at m True Rising"
    by (rule fold_stable) (use B in \<open>fastforce simp: scan_nat_at\<close>)
  show "fold scan_nat [98..<133] (scan_at m True Falling) = scan_at m True Falling"
    by (rule fold_stable) (use C in \<open>fastforce simp: scan_nat_at\<close>)
  show "fold scan_nat [134..<197] (scan_at m False Falling) = scan_at m False Falling"
    by (rule fold_stable) (use D in \<open>fastforce simp: scan_nat_at\<close>)
  show "fold scan_nat [198..<200] (scan_at m False Rising) = scan_at m False Rising"
    by (rule fold_stable) (use E in \<open>fastforce simp: scan_nat_at\<close>)
qed (simp_all add: scan_nat_at wave_nat_def)

lemma after_period:
  assumes "n < 2 ^ 64 - 1"
  shows "fold scan_value (map (\<lambda>t. (t, 100 < t)) wave_period) (after_periods n) = after_periods (Suc n)"
proof -
  have "unat (of_nat (Suc n) :: u64) = Suc n" "unat (of_nat n :: u64) = n"
    using assms by (simp_all only: unat_of_nat) simp_all
  then have sat: "saturating_add (of_nat n) 1 = (of_nat (Suc n) :: u64)"
    using assms by (simp add: word_unat_eq_iff unat_saturating_add del: of_nat_Suc)
  have "[0..<200] = [0..<68] @ 68 # [69..<97] @ 97 # [98..<133] @ 133 # [134..<197] @ 197 # [198..<200]"
    by (simp add: upt_conv_Cons)
  then have split: "fold scan_nat [0..<200] s = fold scan_nat [198..<200] (scan_nat 197
      (fold scan_nat [134..<197] (scan_nat 133 (fold scan_nat [98..<133] (scan_nat 97
        (fold scan_nat [69..<97] (scan_nat 68 (fold scan_nat [0..<68] s))))))))" for s
    by (simp only: fold_append fold_simps comp_apply)
  have "map (\<lambda>t. (t, 100 < t)) wave_period =
      map (\<lambda>n. (of_nat (wave_nat n), 100 < (of_nat (wave_nat n) :: u16))) [0..<200]"
    by (simp add: wave_period_eq wave_nat_def)
  moreover have "scan_value \<circ> (\<lambda>n. (of_nat (wave_nat n), 100 < (of_nat (wave_nat n) :: u16))) = scan_nat"
    by (simp add: fun_eq_iff scan_nat_def)
  ultimately have "fold scan_value (map (\<lambda>t. (t, 100 < t)) wave_period) s = fold scan_nat [0..<200] s" for s
    by (simp only: fold_map)
  then show ?thesis
    unfolding after_periods_def split by (simp only: wave_steps) (simp add: sat del: of_nat_Suc)
qed

lemma after_all_periods:
  "n + k < 2 ^ 64 \<Longrightarrow>
   fold scan_value (map (\<lambda>t. (t, 100 < t)) (concat (replicate k wave_period))) (after_periods n) =
     after_periods (n + k)"
proof (induction k arbitrary: n)
  case (Suc k)
  then have "fold scan_value (map (\<lambda>t. (t, 100 < t)) wave_period) (after_periods n) = after_periods (Suc n)"
    by (intro after_period) simp
  with Suc show ?case by simp
qed simp

text \<open>The first value of the wave is the loop's initial one and is not logged; the second one
  brings the analysis to where the first would have.\<close>

lemma wave_period_Cons: "\<exists>ts. wave_period = 0 # 1 # ts"
  by (simp add: wave_period_eq upt_conv_Cons)

lemma scan_first:
  "scan_value (0, False) (after_periods 0) = after_periods 0"
  "scan_value (1, False) (after_periods 0) = after_periods 0"
  "scan_value (1, False) scan_start = after_periods 0"
  by (simp_all add: after_periods_def scan_value_def scan_valve_def scan_temperature_def scan_start_def
      word_le_nat_alt)

lemma scan_periods:
  assumes "k < 2 ^ 64" and "0 < k"
  shows "fold scan_value (map (\<lambda>t. (t, 100 < t)) (tl (concat (replicate k wave_period)))) scan_start =
    after_periods k"
proof -
  obtain ts where w: "wave_period = 0 # 1 # ts" using wave_period_Cons by blast
  obtain j where "k = Suc j" using assms(2) by (cases k) simp_all
  then have "concat (replicate k wave_period) = 0 # 1 # (ts @ concat (replicate j wave_period))"
    by (simp add: w)
  then obtain us where us: "concat (replicate k wave_period) = 0 # 1 # us" by blast
  have "fold scan_value (map (\<lambda>t. (t, 100 < t)) (0 # 1 # us)) (after_periods 0) = after_periods k"
    using after_all_periods [of 0 k] assms(1) unfolding us by simp
  then show ?thesis by (simp add: us scan_first)
qed

section \<open>Properties\<close>

text \<open>
  C26 The demonstration's report is right: when the control loop has seen \<open>k\<close> periods of the
  simulated temperature, every value of the wave at least once and in order, the analysis of the
  lines it logged reports exactly \<open>k\<close> temperature iterations and \<open>k\<close> openings and closings of the
  valve.
\<close>

theorem demo_report:
  assumes "remdups_adj (map snd samples) = concat (replicate k wave_period)" and "k < 2 ^ 64"
  shows "parse_control_metrics (unlines (control_log samples (control_loop_start, process_image))) =
    \<lparr>mc_valve_open_close_cycles = of_nat k, mc_temperature_wave_iterations = of_nat k\<rparr>"
proof -
  let ?es = "control_entries samples 0"
  have "control_log samples (control_loop_start, process_image) = map entry_text ?es"
    using control_log_entries [of samples 0 process_image] by (simp add: control_loop_start_def)
  moreover have "lines (unlines (map entry_text ?es)) = map entry_text ?es"
    using control_entries_ok entry_one_line by (intro lines_unlines) auto
  ultimately have eq: "parse_control_metrics (unlines (control_log samples (control_loop_start, process_image))) =
      cn_metrics (fold scan_value (control_values ?es) scan_start)"
    using scan_entries [of ?es scan_start] control_entries_ok by (simp add: parse_control_metrics_def)
  show ?thesis
  proof (cases k)
    case 0
    then have "samples = []" using assms(1) by simp
    with 0 eq show ?thesis by (simp add: scan_start_def)
  next
    case (Suc j)
    obtain ts where "wave_period = 0 # 1 # ts" using wave_period_Cons by blast
    then have "remdups_adj (map snd samples) = 0 # 1 # (ts @ concat (replicate j wave_period))"
      using Suc assms(1) by simp
    then obtain us where "remdups_adj (map snd samples) = 0 # us" by blast
    then obtain vs where "map snd samples = 0 # vs"
      by (cases "map snd samples") (simp_all add: remdups_adj_Cons split: list.splits if_splits)
    then have "remdups_adj (0 # map snd samples) = concat (replicate k wave_period)"
      using assms(1) by simp
    then have "fold scan_value (control_values ?es) scan_start = after_periods k"
      using scan_periods [OF assms(2)] Suc by (simp only: control_values_entries zero_less_Suc)
    then show ?thesis by (simp add: eq after_periods_def)
  qed
qed

lemma wave_period_adjacent: "remdups_adj wave_period = wave_period"
  by (simp add: wave_period_eq upt_conv_Cons)

theorem demo_report_witness:
  "parse_control_metrics (unlines (control_log (map (\<lambda>t. (17, t)) wave_period)
     (control_loop_start, master_image_new))) =
   \<lparr>mc_valve_open_close_cycles = 1, mc_temperature_wave_iterations = 1\<rparr>"
  using demo_report [of "map (\<lambda>t. (17, t)) wave_period" 1 master_image_new] wave_period_adjacent
  by (simp add: o_def)

end
