(* ===== verification/Demo_Discovery.thy ===== *)
theory Demo_Discovery
  imports Master_Discovery
begin

text \<open>
  The first part of \<open>run_master_thread\<close> in \<^verbatim>\<open>src/demo/src/main.rs\<close>: up to ten rounds of discovery,
  the choice of the two slaves by their device numbers, and the assignment of their addresses.
  What sending a request gives and what arrives until its timeout is an argument per request.
\<close>

section \<open>The rounds\<close>

definition TEMPERATURE_SLAVE_IP :: bytes where "TEMPERATURE_SLAVE_IP = [10, 10, 0, 11]"
definition VALVE_SLAVE_IP :: bytes where "VALVE_SLAVE_IP = [10, 10, 0, 12]"
definition NETMASK :: bytes where "NETMASK = [255, 255, 255, 0]"
definition GATEWAY :: bytes where "GATEWAY = [0, 0, 0, 0]"

datatype setup_error =
    DiscoveryFailed status_code
  | NotBothDiscovered
  | TemperatureNotFound
  | ValveNotFound
  | TemperatureAddressFailed status_code
  | ValveAddressFailed status_code

type_synonym exchange = "bool option \<times> bytes option list"

text \<open>The loop over the rounds, left as soon as two devices are known; the frames sent come along.\<close>

fun discovery_rounds ::
    "'z sdcp_env_scheme \<Rightarrow> exchange list \<Rightarrow> discovery_master \<Rightarrow>
       ((setup_error + unit) \<times> bytes list \<times> discovery_master) option" where
  "discovery_rounds env [] m = Some (Inr (), [], m)"
| "discovery_rounds env ((send_result, received) # rounds) m =
     (case discover_devices env send_result received m of
        None \<Rightarrow> None
      | Some (Inl code, frames, m') \<Rightarrow> Some (Inl (DiscoveryFailed code), frames, m')
      | Some (Inr _, frames, m') \<Rightarrow>
          if 2 \<le> card (dom (dm_devices m')) then Some (Inr (), frames, m')
          else map_option (\<lambda>(r, more, m''). (r, frames @ more, m'')) (discovery_rounds env rounds m'))"

text \<open>The slaves by their device numbers; of several with the same number the last one visited.\<close>

definition pick_slaves :: "discovered_device list \<Rightarrow> mac_addr option \<times> mac_addr option" where
  "pick_slaves devices =
     fold (\<lambda>device (temperature, valve).
        if dd_device_id device = 1 then (Some (dd_mac_address device), valve)
        else if dd_device_id device = 2 then (temperature, Some (dd_mac_address device))
        else (temperature, valve)) devices (None, None)"

text \<open>\<open>order\<close> is the order in which the table of devices is walked.\<close>

definition find_slaves ::
    "'z sdcp_env_scheme \<Rightarrow> exchange list \<Rightarrow> mac_addr list \<Rightarrow> discovery_master \<Rightarrow>
       ((setup_error + mac_addr \<times> mac_addr) \<times> bytes list \<times> discovery_master) option" where
  "find_slaves env rounds order m =
     (case discovery_rounds env (take 10 rounds) m of
        None \<Rightarrow> None
      | Some (Inl error, frames, m') \<Rightarrow> Some (Inl error, frames, m')
      | Some (Inr _, frames, m') \<Rightarrow>
          Some (if card (dom (dm_devices m')) < 2 then Inl NotBothDiscovered
                else (case pick_slaves (List.map_filter (dm_devices m') order) of
                        (None, _) \<Rightarrow> Inl TemperatureNotFound
                      | (Some temperature, None) \<Rightarrow> Inl ValveNotFound
                      | (Some temperature, Some valve) \<Rightarrow> Inr (temperature, valve)), frames, m'))"

definition address_slave ::
    "'z sdcp_env_scheme \<Rightarrow> (status_code \<Rightarrow> setup_error) \<Rightarrow> mac_addr \<Rightarrow> bytes \<Rightarrow> exchange \<Rightarrow> discovery_master \<Rightarrow>
       ((setup_error + unit) \<times> bytes list \<times> discovery_master) option" where
  "address_slave env error mac ip x m =
     map_option (\<lambda>(r, frames, m'). (map_sum error id r, frames, m'))
       (set_ip_config env mac ip NETMASK GATEWAY (fst x) (snd x) m)"

definition address_slaves ::
    "'z sdcp_env_scheme \<Rightarrow> mac_addr \<times> mac_addr \<Rightarrow> exchange \<Rightarrow> exchange \<Rightarrow> discovery_master \<Rightarrow>
       ((setup_error + unit) \<times> bytes list \<times> discovery_master) option" where
  "address_slaves env slaves x_temperature x_valve m =
     (case address_slave env TemperatureAddressFailed (fst slaves) TEMPERATURE_SLAVE_IP x_temperature m of
        None \<Rightarrow> None
      | Some (Inl error, frames, m') \<Rightarrow> Some (Inl error, frames, m')
      | Some (Inr _, frames, m') \<Rightarrow>
          map_option (\<lambda>(r, more, m''). (r, frames @ more, m''))
            (address_slave env ValveAddressFailed (snd slaves) VALVE_SLAVE_IP x_valve m'))"

definition setup_slaves ::
    "'z sdcp_env_scheme \<Rightarrow> exchange list \<Rightarrow> mac_addr list \<Rightarrow> exchange \<Rightarrow> exchange \<Rightarrow> discovery_master \<Rightarrow>
       ((setup_error + mac_addr \<times> mac_addr) \<times> bytes list \<times> discovery_master) option" where
  "setup_slaves env rounds order x_temperature x_valve m =
     (case find_slaves env rounds order m of
        None \<Rightarrow> None
      | Some (Inl error, frames, m') \<Rightarrow> Some (Inl error, frames, m')
      | Some (Inr slaves, frames, m') \<Rightarrow>
          map_option (\<lambda>(r, more, m''). (map_sum id (\<lambda>_. slaves) r, frames @ more, m''))
            (address_slaves env slaves x_temperature x_valve m'))"

section \<open>A round that finds both\<close>

text \<open>Other traffic: frames that are no message of the discovery protocol.\<close>

definition background :: "'z sdcp_env_scheme \<Rightarrow> bytes option list \<Rightarrow> bool" where
  "background env events \<longleftrightarrow>
     (\<forall>f d s h tlvs n t. Some f \<in> set events \<longrightarrow> \<not> carries (sv_pnet env) f d s h tlvs n t)"

lemma discover_step_background:
  assumes "background env [e]"
  shows "discover_step env tid nm e = nm"
proof (cases e)
  case (Some f)
  obtain nd m where nm: "nm = (nd, m)" by fastforce
  show ?thesis
  proof (cases rule: process_cases [of env f tid "dm_auth m"])
    case (message d s h tlvs n t)
    then show ?thesis using assms unfolding background_def Some by (metis list.set_intros(1))
  qed (simp add: discover_step_def nm Some)
qed (simp add: discover_step_def case_prod_beta)

lemma discover_loop_background: "background env events \<Longrightarrow> discover_loop env tid events nm = nm"
proof (induction events arbitrary: nm)
  case (Cons e events)
  then have "background env [e]" "background env events" by (auto simp: background_def)
  with Cons.IH discover_step_background show ?case by simp
qed simp

lemma discover_step_found:
  assumes "carries (sv_pnet env) f d s h tlvs n t" and "sh_op_code h = DiscoverRes"
    and "sh_transaction_id h = tid" and "admitted env (dm_auth m) s h tlvs n t"
    and "device_of s tlvs = Some device" and "dm_devices m s = None"
  shows "discover_step env tid (nd, m) (Some f) =
    (nd @ [device], m\<lparr>dm_auth := after_receive s n (dm_auth m), dm_devices := (dm_devices m)(s \<mapsto> device)\<rparr>)"
proof -
  have "dd_mac_address device = s"
    using assms(5) by (auto simp: device_of_def discovered_device_new_def split: sum.splits)
  then show ?thesis
    using process_on_message [OF assms(1-3), of "dm_auth m"] assms(4-6)
    by (simp add: discover_step_def Let_def)
qed

text \<open>The slave's part of a round.\<close>

definition answered :: "mac_addr \<Rightarrow> mac_addr \<Rightarrow> discovery_master \<Rightarrow> 'p listener \<Rightarrow> 'p listener" where
  "answered mm sm m s =
     s\<lparr>ln_auth := after_send sm (after_receive mm (next_number (dm_auth m) mm) (ln_auth s))\<rparr>"

lemma discovery_answered:
  assumes "linked menv senv mm sm m s" and "dm_auth m1 = dm_auth m"
  shows "\<exists>req resp. build_request_frame menv BROADCAST_MAC DiscoverReq tid None m1 =
      Some (Inr req, m1\<lparr>dm_auth := after_send mm (dm_auth m)\<rparr>) \<and>
    listener_turn senv (Some req) s = Continue (Some resp, answered mm sm m s) \<and>
    carries (sv_pnet menv) resp mm sm (sdcp_header_new DiscoverRes tid) (tlv_bytes (identity_tlv (identity senv s)))
      (next_number (ln_auth s) sm) (own_tag (sv_hash menv) (sdcp_header_new DiscoverRes tid)
        (tlv_bytes (identity_tlv (identity senv s))) (next_number (ln_auth s) sm) (ln_auth s))"
proof -
  let ?s1 = "s\<lparr>ln_auth := after_receive mm (next_number (dm_auth m) mm) (ln_auth s)\<rparr>"
  from request_served [OF assms(1) _ assms(2), of None BROADCAST_MAC DiscoverReq tid] obtain req where
    req: "build_request_frame menv BROADCAST_MAC DiscoverReq tid None m1 =
      Some (Inr req, m1\<lparr>dm_auth := after_send mm (dm_auth m)\<rparr>)"
    "listener_turn senv (Some req) s = as_turn (dispatch senv (sdcp_header_new DiscoverReq tid)
      (opt_tlv_bytes None) mm ?s1)" by auto
  from response_given [OF assms(1) tlv_ok_identity, of ?s1 "next_number (dm_auth m) mm" DiscoverRes tid
      "identity senv s"]
  obtain resp where "send_response senv mm DiscoverRes tid (identity_tlv (identity senv s)) ?s1 =
      Some (Some resp, answered mm sm m s)"
    and resp: "carries (sv_pnet menv) resp mm sm (sdcp_header_new DiscoverRes tid)
      (tlv_bytes (identity_tlv (identity senv s))) (next_number (ln_auth s) sm)
      (own_tag (sv_hash menv) (sdcp_header_new DiscoverRes tid) (tlv_bytes (identity_tlv (identity senv s)))
        (next_number (ln_auth s) sm) (ln_auth s))"
    by (auto simp: answered_def)
  with req have "listener_turn senv (Some req) s = Continue (Some resp, answered mm sm m s)"
    by (simp add: dispatch_def handle_discovery_eq)
  with req(1) resp show ?thesis by blast
qed

text \<open>The master after a round in which first \<open>a\<close> and then \<open>b\<close> answers.\<close>

definition after_round ::
    "mac_addr \<Rightarrow> (mac_addr \<times> u64 \<times> discovered_device) list \<Rightarrow> discovery_master \<Rightarrow> discovery_master" where
  "after_round mm answers m =
     fold (\<lambda>(s, n, device) m. m\<lparr>dm_auth := after_receive s n (dm_auth m),
                              dm_devices := (dm_devices m)(s \<mapsto> device)\<rparr>)
       answers (m\<lparr>dm_counter := dm_counter m + 1, dm_auth := after_send mm (dm_auth m)\<rparr>)"

lemma discover_both:
  assumes la: "linked menv aenv mm am m a" and lb: "linked menv benv mm bm m b" and ne: "am \<noteq> bm"
    and ea: "expects m am a" and eb: "expects m bm b" and none: "dm_devices m = Map.empty"
    and bg: "background menv n1" "background menv n2" "background menv n3"
  shows "\<exists>req ra rb. listener_turn aenv (Some req) a = Continue (Some ra, answered mm am m a) \<and>
    listener_turn benv (Some req) b = Continue (Some rb, answered mm bm m b) \<and>
    discover_devices menv (Some True) (n1 @ Some ra # n2 @ Some rb # n3) m =
      Some (Inr [discovered_device_new am (identity aenv a), discovered_device_new bm (identity benv b)], [req],
        after_round mm [(am, next_number (ln_auth a) am, discovered_device_new am (identity aenv a)),
                        (bm, next_number (ln_auth b) bm, discovered_device_new bm (identity benv b))] m)"
proof -
  let ?tid = "dm_counter m" and ?m1 = "m\<lparr>dm_counter := dm_counter m + 1\<rparr>"
  let ?m2 = "?m1\<lparr>dm_auth := after_send mm (dm_auth m)\<rparr>"
  let ?da = "discovered_device_new am (identity aenv a)" and ?db = "discovered_device_new bm (identity benv b)"
  let ?m3 = "?m2\<lparr>dm_auth := after_receive am (next_number (ln_auth a) am) (dm_auth ?m2),
    dm_devices := (dm_devices ?m2)(am \<mapsto> ?da)\<rparr>"
  obtain req ra where a: "build_request_frame menv BROADCAST_MAC DiscoverReq ?tid None ?m1 = Some (Inr req, ?m2)"
    "listener_turn aenv (Some req) a = Continue (Some ra, answered mm am m a)"
    and ra: "carries (sv_pnet menv) ra mm am (sdcp_header_new DiscoverRes ?tid)
      (tlv_bytes (identity_tlv (identity aenv a))) (next_number (ln_auth a) am)
      (own_tag (sv_hash menv) (sdcp_header_new DiscoverRes ?tid) (tlv_bytes (identity_tlv (identity aenv a)))
        (next_number (ln_auth a) am) (ln_auth a))"
    using discovery_answered [OF la, of ?m1 ?tid] by auto
  obtain req' rb where b: "build_request_frame menv BROADCAST_MAC DiscoverReq ?tid None ?m1 = Some (Inr req', ?m2)"
    "listener_turn benv (Some req') b = Continue (Some rb, answered mm bm m b)"
    and rb: "carries (sv_pnet menv) rb mm bm (sdcp_header_new DiscoverRes ?tid)
      (tlv_bytes (identity_tlv (identity benv b))) (next_number (ln_auth b) bm)
      (own_tag (sv_hash menv) (sdcp_header_new DiscoverRes ?tid) (tlv_bytes (identity_tlv (identity benv b)))
        (next_number (ln_auth b) bm) (ln_auth b))"
    using discovery_answered [OF lb, of ?m1 ?tid] by auto
  have macs: "am \<noteq> mm" "bm \<noteq> mm" using la lb by (auto simp: linked_def)
  have "discover_step menv ?tid ([], ?m2) (Some ra) = ([] @ [?da], ?m3)"
    using response_admitted [OF la ea, of "dm_auth ?m2"] device_of_identity macs none
    by (intro discover_step_found [OF ra]) simp_all
  moreover have "discover_step menv ?tid ([?da], ?m3) (Some rb) = ([?da] @ [?db],
      ?m3\<lparr>dm_auth := after_receive bm (next_number (ln_auth b) bm) (dm_auth ?m3),
        dm_devices := (dm_devices ?m3)(bm \<mapsto> ?db)\<rparr>)"
    using response_admitted [OF lb eb, of "dm_auth ?m3"] device_of_identity macs none ne
    by (intro discover_step_found [OF rb]) simp_all
  ultimately have "discover_loop menv ?tid (n1 @ Some ra # n2 @ Some rb # n3) ([], ?m2) = ([?da, ?db],
      ?m3\<lparr>dm_auth := after_receive bm (next_number (ln_auth b) bm) (dm_auth ?m3),
        dm_devices := (dm_devices ?m3)(bm \<mapsto> ?db)\<rparr>)"
    by (simp add: discover_loop_background bg)
  then have "discover_devices menv (Some True) (n1 @ Some ra # n2 @ Some rb # n3) m = Some (Inr [?da, ?db], [req],
      after_round mm [(am, next_number (ln_auth a) am, ?da), (bm, next_number (ln_auth b) bm, ?db)] m)"
    using la a(1) by (simp add: discover_devices_def linked_def next_transaction_id_def send_frame_def
        after_round_def)
  moreover have "req' = req" using a(1) b(1) by simp
  ultimately show ?thesis using a(2) b(2) by blast
qed

lemma pick_slaves_fold:
  assumes "dd_device_id a = 1" and "dd_device_id b = 2" and "set xs \<subseteq> {a, b}"
  shows "fold (\<lambda>device (temperature, valve).
        if dd_device_id device = 1 then (Some (dd_mac_address device), valve)
        else if dd_device_id device = 2 then (temperature, Some (dd_mac_address device))
        else (temperature, valve)) xs (x, y) =
    (if a \<in> set xs then Some (dd_mac_address a) else x, if b \<in> set xs then Some (dd_mac_address b) else y)"
proof -
  have "a \<noteq> b" using assms(1,2) by auto
  then show ?thesis using assms by (induction xs arbitrary: x y) auto
qed

lemma pick_both:
  assumes "dd_device_id a = 1" and "dd_device_id b = 2" and "set xs = {a, b}"
  shows "pick_slaves xs = (Some (dd_mac_address a), Some (dd_mac_address b))"
  using pick_slaves_fold [OF assms(1,2), of xs None None] assms(3) by (simp add: pick_slaves_def)

section \<open>Addressing both\<close>

lemma linked_answered:
  assumes "linked menv senv mm sm m s" and "dm_state m' = dm_state m"
    and "da_shared_secret (dm_auth m') = da_shared_secret (dm_auth m)"
    and "next_number (dm_auth m) mm < next_number (dm_auth m') mm"
  shows "linked menv senv mm sm m' (answered mm sm m s)"
  using assms by (simp add: linked_def answered_def)

lemma last_answered:
  assumes "linked menv senv mm sm m s" and "next_number (ln_auth s) sm < - 1"
    and "rx_number (dm_auth m') sm = Some (next_number (ln_auth s) sm)"
  shows "last_from m' sm < next_number (ln_auth (answered mm sm m s)) sm"
  using assms by (auto simp: linked_def answered_def last_from_def intro!: saturating_add_1_less)

lemma answered_simps [simp]:
  "ln_hardware (answered mm sm m s) = ln_hardware s" "ln_state (answered mm sm m s) = ln_state s"
  by (simp_all add: answered_def)

lemma after_round_simps:
  assumes "am \<noteq> mm" "bm \<noteq> mm" "am \<noteq> bm" "dm_devices m = Map.empty"
  shows "dm_state (after_round mm [(am, na, a), (bm, nb, b)] m) = dm_state m"
    and "da_shared_secret (dm_auth (after_round mm [(am, na, a), (bm, nb, b)] m)) = da_shared_secret (dm_auth m)"
    and "next_number (dm_auth (after_round mm [(am, na, a), (bm, nb, b)] m)) mm =
      saturating_add (next_number (dm_auth m) mm) 1"
    and "rx_number (dm_auth (after_round mm [(am, na, a), (bm, nb, b)] m)) am = Some na"
    and "rx_number (dm_auth (after_round mm [(am, na, a), (bm, nb, b)] m)) bm = Some nb"
    and "dm_devices (after_round mm [(am, na, a), (bm, nb, b)] m) = [am \<mapsto> a, bm \<mapsto> b]"
  using assms by (simp_all add: after_round_def)

lemma address_both:
  assumes lt: "linked menv tenv mm tm m t" "linked menv venv mm vm m v" "tm \<noteq> vm"
    and m1: "dm_state m1 = dm_state m" "da_shared_secret (dm_auth m1) = da_shared_secret (dm_auth m)"
      "next_number (dm_auth m) mm < next_number (dm_auth m1) mm"
      "rx_number (dm_auth m1) tm = Some (next_number (ln_auth t) tm)"
      "rx_number (dm_auth m1) vm = Some (next_number (ln_auth v) vm)"
    and room: "next_number (ln_auth t) tm < - 1" "next_number (ln_auth v) vm < - 1"
    and pre: "from_others menv tm pre_t" "from_others menv vm pre_v"
    and hw: "configure_hardware tenv TEMPERATURE_SLAVE_IP NETMASK GATEWAY (ln_hardware t) = (Inr (), hw_t)"
      "configure_hardware venv VALVE_SLAVE_IP NETMASK GATEWAY (ln_hardware v) = (Inr (), hw_v)"
  shows "\<exists>ft bt t' fv bv v' m'.
    listener_turn tenv (Some ft) (answered mm tm m t) = Continue (Some bt, t') \<and>
    listener_turn venv (Some fv) (answered mm vm m v) = Continue (Some bv, v') \<and>
    ln_hardware t' = hw_t \<and> ln_state t' = PreOp \<and> ln_hardware v' = hw_v \<and> ln_state v' = PreOp \<and>
    address_slaves menv (tm, vm) (Some True, pre_t @ Some bt # post_t) (Some True, pre_v @ Some bv # post_v) m1 =
      Some (Inr (), [ft, fv], m') \<and> dm_state m' = dm_state m"
proof -
  note lengths = TEMPERATURE_SLAVE_IP_def VALVE_SLAVE_IP_def NETMASK_def GATEWAY_def
  have ips: "length TEMPERATURE_SLAVE_IP = 4" "length VALVE_SLAVE_IP = 4" "length NETMASK = 4" "length GATEWAY = 4"
    by (simp_all add: lengths)
  have "configure_hardware tenv TEMPERATURE_SLAVE_IP NETMASK GATEWAY (ln_hardware (answered mm tm m t)) =
      (Inr (), hw_t)" using hw by simp
  from set_ip_exchange [OF linked_answered [OF lt(1) m1(1-3)] last_answered [OF lt(1) room(1) m1(4)] pre(1)
      ips(1,3,4) this, where post = post_t] obtain ft bt t' m2 where
    t: "listener_turn tenv (Some ft) (answered mm tm m t) = Continue (Some bt, t')"
      "ln_hardware t' = hw_t" "ln_state t' = PreOp"
    and first: "set_ip_config menv tm TEMPERATURE_SLAVE_IP NETMASK GATEWAY (Some True) (pre_t @ Some bt # post_t) m1 =
      Some (Inr (), [ft], m2)" and m2: "after_request mm tm m1 m2" by auto
  have "vm \<noteq> mm" using lt(2) by (auto simp: linked_def)
  then have m2': "dm_state m2 = dm_state m" "da_shared_secret (dm_auth m2) = da_shared_secret (dm_auth m)"
    "rx_number (dm_auth m2) vm = Some (next_number (ln_auth v) vm)"
    "next_number (dm_auth m) mm < next_number (dm_auth m2) mm"
    using m1 m2 lt(3) saturating_add_ge [of "next_number (dm_auth m1) mm" 1]
    by (auto simp: after_request_def)
  have "configure_hardware venv VALVE_SLAVE_IP NETMASK GATEWAY (ln_hardware (answered mm vm m v)) =
      (Inr (), hw_v)" using hw by simp
  from set_ip_exchange [OF linked_answered [OF lt(2) m2'(1,2,4)] last_answered [OF lt(2) room(2) m2'(3)] pre(2)
      ips(2,3,4) this, where post = post_v] obtain fv bv v' m3 where
    v: "listener_turn venv (Some fv) (answered mm vm m v) = Continue (Some bv, v')"
      "ln_hardware v' = hw_v" "ln_state v' = PreOp"
    and second: "set_ip_config menv vm VALVE_SLAVE_IP NETMASK GATEWAY (Some True) (pre_v @ Some bv # post_v) m2 =
      Some (Inr (), [fv], m3)" and m3: "after_request mm vm m2 m3" by auto
  have "address_slaves menv (tm, vm) (Some True, pre_t @ Some bt # post_t) (Some True, pre_v @ Some bv # post_v) m1 =
      Some (Inr (), [ft, fv], m3)"
    by (simp add: address_slaves_def address_slave_def first second)
  moreover have "dm_state m3 = dm_state m" using m3 m2'(1) by (simp add: after_request_def)
  ultimately show ?thesis using t v by blast
qed

section \<open>Finding and addressing both\<close>

lemma both_set_up:
  assumes "linked menv tenv mm tm m t" "linked menv venv mm vm m v" "tm \<noteq> vm"
    and "expects m tm t" "expects m vm v" "dm_devices m = Map.empty"
    and "sdi_device_id (identity tenv t) = 1" "sdi_device_id (identity venv v) = 2" "set order = {tm, vm}"
    and "next_number (dm_auth m) mm < - 1" "next_number (ln_auth t) tm < - 1" "next_number (ln_auth v) vm < - 1"
    and "background menv n1" "background menv n2" "background menv n3"
    and "from_others menv tm pre_t" "from_others menv vm pre_v"
    and "configure_hardware tenv TEMPERATURE_SLAVE_IP NETMASK GATEWAY (ln_hardware t) = (Inr (), hw_t)"
    and "configure_hardware venv VALVE_SLAVE_IP NETMASK GATEWAY (ln_hardware v) = (Inr (), hw_v)"
  shows "\<exists>req rt rv t1 v1 ft bt t2 fv bv v2 m'.
    listener_turn tenv (Some req) t = Continue (Some rt, t1) \<and>
    listener_turn venv (Some req) v = Continue (Some rv, v1) \<and>
    listener_turn tenv (Some ft) t1 = Continue (Some bt, t2) \<and>
    listener_turn venv (Some fv) v1 = Continue (Some bv, v2) \<and>
    ln_hardware t2 = hw_t \<and> ln_state t2 = PreOp \<and> ln_hardware v2 = hw_v \<and> ln_state v2 = PreOp \<and>
    setup_slaves menv ((Some True, n1 @ Some rt # n2 @ Some rv # n3) # rounds) order
      (Some True, pre_t @ Some bt # post_t) (Some True, pre_v @ Some bv # post_v) m =
      Some (Inr (tm, vm), [req, ft, fv], m') \<and> dm_state m' = DiscoverySync"
proof -
  let ?dt = "discovered_device_new tm (identity tenv t)" and ?dv = "discovered_device_new vm (identity venv v)"
  let ?m1 = "after_round mm [(tm, next_number (ln_auth t) tm, ?dt), (vm, next_number (ln_auth v) vm, ?dv)] m"
  from discover_both [OF assms(1-6,13-15)] obtain req rt rv where
    t: "listener_turn tenv (Some req) t = Continue (Some rt, answered mm tm m t)"
    and v: "listener_turn venv (Some req) v = Continue (Some rv, answered mm vm m v)"
    and round: "discover_devices menv (Some True) (n1 @ Some rt # n2 @ Some rv # n3) m =
      Some (Inr [?dt, ?dv], [req], ?m1)" by blast
  have macs: "tm \<noteq> mm" "vm \<noteq> mm" using assms(1,2) by (auto simp: linked_def)
  note after = after_round_simps [OF macs assms(3,6)]
  have "set (List.map_filter (dm_devices ?m1) order) = {?dt, ?dv}"
    using assms(3,9) by (auto simp: after(6) List.map_filter_def)
  then have "pick_slaves (List.map_filter (dm_devices ?m1) order) = (Some tm, Some vm)"
    using pick_both [of ?dt ?dv] assms(7,8) by (simp add: discovered_device_new_def)
  then have found: "find_slaves menv ((Some True, n1 @ Some rt # n2 @ Some rv # n3) # rounds) order m =
      Some (Inr (tm, vm), [req], ?m1)"
    using assms(3) round by (simp add: find_slaves_def after(6))
  have "next_number (dm_auth m) mm < next_number (dm_auth ?m1) mm"
    using assms(10) by (simp add: after(3) saturating_add_1_less)
  from address_both [OF assms(1-3) after(1,2) this after(4,5) assms(11,12,16-19), of post_t post_v]
  obtain ft bt t2 fv bv v2 m' where
    "listener_turn tenv (Some ft) (answered mm tm m t) = Continue (Some bt, t2)"
    "listener_turn venv (Some fv) (answered mm vm m v) = Continue (Some bv, v2)"
    "ln_hardware t2 = hw_t" "ln_state t2 = PreOp" "ln_hardware v2 = hw_v" "ln_state v2 = PreOp"
    "address_slaves menv (tm, vm) (Some True, pre_t @ Some bt # post_t) (Some True, pre_v @ Some bv # post_v) ?m1 =
      Some (Inr (), [ft, fv], m')" "dm_state m' = dm_state m" by blast
  moreover have "dm_state m = DiscoverySync" using assms(1) by (simp add: linked_def)
  ultimately show ?thesis
    using t v found by (auto simp: setup_slaves_def intro!: exI)
qed

section \<open>Properties\<close>

text \<open>
  C3 The master sets up its slaves: when both slaves, not known yet and with room in their sequence
  numbers, hear the first request and answer it before the timeout, among other traffic, and later
  each answers the request to set its address, the master ends with exactly these two, in their
  roles, whatever way its table is walked; both slaves have applied their addresses and are in
  \<open>PreOp\<close>, and three frames were sent.
\<close>

theorem slaves_set_up:
  assumes "linked menv tenv mm tm m t" "linked menv venv mm vm m v" "tm \<noteq> vm"
    and "expects m tm t" "expects m vm v" "dm_devices m = Map.empty"
    and "sdi_device_id (identity tenv t) = 1" "sdi_device_id (identity venv v) = 2" "set order = {tm, vm}"
    and "next_number (dm_auth m) mm < - 1" "next_number (ln_auth t) tm < - 1" "next_number (ln_auth v) vm < - 1"
    and "background menv n1" "background menv n2" "background menv n3"
    and "from_others menv tm pre_t" "from_others menv vm pre_v"
    and "configure_hardware tenv TEMPERATURE_SLAVE_IP NETMASK GATEWAY (ln_hardware t) = (Inr (), hw_t)"
    and "configure_hardware venv VALVE_SLAVE_IP NETMASK GATEWAY (ln_hardware v) = (Inr (), hw_v)"
  shows "\<exists>req rt rv t1 v1 ft bt t2 fv bv v2 m'.
    listener_turn tenv (Some req) t = Continue (Some rt, t1) \<and>
    listener_turn venv (Some req) v = Continue (Some rv, v1) \<and>
    listener_turn tenv (Some ft) t1 = Continue (Some bt, t2) \<and>
    listener_turn venv (Some fv) v1 = Continue (Some bv, v2) \<and>
    ln_hardware t2 = hw_t \<and> ln_state t2 = PreOp \<and> ln_hardware v2 = hw_v \<and> ln_state v2 = PreOp \<and>
    setup_slaves menv ((Some True, n1 @ Some rt # n2 @ Some rv # n3) # rounds) order
      (Some True, pre_t @ Some bt # post_t) (Some True, pre_v @ Some bv # post_v) m =
      Some (Inr (tm, vm), [req, ft, fv], m') \<and> dm_state m' = DiscoverySync"
  by (rule both_set_up [OF assms])

definition sensor_mac :: mac_addr where "sensor_mac = MacAddr 2 0x42 0xAC 0x10 0 0x11"

definition sensor_env :: "dummy_hardware listener_env" where
  "sensor_env = valve_env\<lparr>sv_mac := Some sensor_mac\<rparr>"

definition sensor_listener :: "dummy_hardware listener" where
  "sensor_listener = valve_listener
     \<lparr>ln_hardware := new_temperature_sensor ''veth-temp'' (octets sensor_mac)\<rparr>"

lemma sensor_simps [simp]:
  "env_ok sensor_env" "sv_mac sensor_env = Some sensor_mac" "sv_pnet sensor_env = wire_pnet"
  "sv_hash sensor_env = checksum_hash" "ln_state sensor_listener = DiscoverySync"
  "ln_auth sensor_listener = ln_auth valve_listener"
  using valve_env_simps by (simp_all add: sensor_env_def sensor_listener_def env_ok_def)

lemma sensor_linked: "linked example_master_env sensor_env master_mac sensor_mac example_master sensor_listener"
  by (simp add: linked_def example_master_env_def env_ok_def wire_pnet_ok checksum_hash_ok)
    (simp add: master_mac_def sensor_mac_def)

lemma sensor_expects: "expects example_master sensor_mac sensor_listener"
  by (simp add: expects_def)

lemma example_identities:
  "sdi_device_id (identity sensor_env sensor_listener) = 1"
  "sdi_device_id (identity valve_env valve_listener) = 2"
  by (simp_all add: identity_def sensor_env_def sensor_listener_def valve_env_def valve_listener_def
      dummy_device_access_def dummy_read_device_info_def new_temperature_sensor_def new_valve_controller_def
      dummy_device_info_def)

lemma example_configured:
  "\<exists>hw. configure_hardware sensor_env TEMPERATURE_SLAVE_IP NETMASK GATEWAY (ln_hardware sensor_listener) =
     (Inr (), hw) \<and> di_ip_address (dh_device_info hw) = [10, 10, 0, 11]"
  "\<exists>hw. configure_hardware valve_env VALVE_SLAVE_IP NETMASK GATEWAY (ln_hardware valve_listener) =
     (Inr (), hw) \<and> di_ip_address (dh_device_info hw) = [10, 10, 0, 12]"
  by (simp_all add: configure_hardware_def sensor_env_def valve_env_def dummy_device_access_def
      dummy_network_access_def dummy_read_device_info_def dummy_write_device_info_def
      dummy_apply_ip_config_def TEMPERATURE_SLAVE_IP_def VALVE_SLAVE_IP_def split: option.split)

theorem slaves_set_up_witness:
  "\<exists>req rt rv t1 v1 ft bt t2 fv bv v2 m'.
    listener_turn sensor_env (Some req) sensor_listener = Continue (Some rt, t1) \<and>
    listener_turn valve_env (Some req) valve_listener = Continue (Some rv, v1) \<and>
    listener_turn sensor_env (Some ft) t1 = Continue (Some bt, t2) \<and>
    listener_turn valve_env (Some fv) v1 = Continue (Some bv, v2) \<and>
    di_ip_address (dh_device_info (ln_hardware t2)) = [10, 10, 0, 11] \<and>
    di_ip_address (dh_device_info (ln_hardware v2)) = [10, 10, 0, 12] \<and>
    ln_state t2 = PreOp \<and> ln_state v2 = PreOp \<and>
    setup_slaves example_master_env [(Some True, [None, Some rt, Some [1, 2, 3], Some rv])]
      [valve_mac, sensor_mac] (Some True, [Some bt]) (Some True, [None, Some bv]) example_master =
      Some (Inr (sensor_mac, valve_mac), [req, ft, fv], m')"
proof -
  obtain ht hv where hw: "configure_hardware sensor_env TEMPERATURE_SLAVE_IP NETMASK GATEWAY
      (ln_hardware sensor_listener) = (Inr (), ht)" "di_ip_address (dh_device_info ht) = [10, 10, 0, 11]"
    "configure_hardware valve_env VALVE_SLAVE_IP NETMASK GATEWAY (ln_hardware valve_listener) = (Inr (), hv)"
    "di_ip_address (dh_device_info hv) = [10, 10, 0, 12]" using example_configured by blast
  have bg: "background example_master_env [None]" "background example_master_env [Some [1, 2, 3]]"
    "background example_master_env []"
    by (auto simp: background_def example_master_env_def carries_def wire_pnet_def)
  have macs: "sensor_mac \<noteq> valve_mac" "set [valve_mac, sensor_mac] = {sensor_mac, valve_mac}"
    by (auto simp: sensor_mac_def valve_mac_def)
  have room: "next_number (dm_auth example_master) master_mac < - 1"
    "next_number (ln_auth sensor_listener) sensor_mac < - 1"
    "next_number (ln_auth valve_listener) valve_mac < - 1"
    by (simp_all add: word_less_nat_alt unat_minus_1)
  show ?thesis
    using slaves_set_up [OF sensor_linked example_linked macs(1) sensor_expects example_expects(1) _
        example_identities macs(2) room bg _ _ hw(1,3), of "[]" "[None]" "[]" "[]" "[]"] hw(2,4)
    by fastforce
qed

end
