(* ===== verification/Cyclic_Exchange.thy ===== *)
theory Cyclic_Exchange
  imports Slave_L2 Master_L2 Master_Hardware
begin

text \<open>
  The cyclic protocol from end to end: a tick of one side's sender, the frame on the wire, a
  turn of the other side's receiver, for both directions; and what padding on the wire does to
  it. The facts rest on the authenticated channel of the stream store and on the frame round
  trip, and connect the hardware models of both sides.
\<close>

section \<open>A frame from the master to a slave\<close>

text \<open>The two ends of a stream are in step: they hold the same secret, and the number the sender
  uses next is above the last one the receiver accepted.\<close>

definition in_step :: "stream_store \<Rightarrow> stream_store \<Rightarrow> u16 \<Rightarrow> bool" where
  "in_step sender receiver i \<longleftrightarrow> ss_shared_secret receiver = ss_shared_secret sender \<and>
     (\<exists>e e'. ss_streams sender i = Some e \<and> ss_streams receiver i = Some e' \<and>
        se_sequence_number e' < se_sequence_number e)"

lemma in_step_fresh:
  assumes "ss_shared_secret receiver = ss_shared_secret sender"
    and "ss_streams sender i = Some (fresh_entry out_cfg)" "sc_direction out_cfg = direction_num Output"
    and "ss_streams receiver i = Some (fresh_entry in_cfg)" "sc_direction in_cfg = direction_num Input"
  shows "in_step sender receiver i"
  using assms by (simp add: in_step_def fresh_entry_def)

text \<open>One frame: it is built, it is admissible at the receiver, and the ends stay in step.\<close>

lemma frame_transfer:
  assumes H: "keyed_hash_ok H" and step: "in_step store r i" and i: "i = ucast (sc_stream_id out)"
    and dst: "parse_destination_mac out = Some dst"
    and payload: "build_frame_payload access img out = Inr payload"
    and stream: "streams i = Some inp"
  obtains frame store' p where
    "cyclic_frame H access img mac micros out store = (Some (Inr frame), store')"
    "frame = build_l2_frame mac dst (ucast (sc_vlan_id_pcp out)) (sent_header out micros NoError) payload
       (sent_footer H store (sent_header out micros NoError) payload
          (se_sequence_number (the (ss_streams store i))))"
    "parse_l2_frame frame = Inr p" "pf_payload p = payload" "pf_header p = sent_header out micros NoError"
    "admissible H streams r p inp"
    "se_sequence_number (the (ss_streams store i)) < - 1 \<Longrightarrow>
     in_step store' (snd (validate_stream_tag H (pf_header p) (pf_payload p) (pf_sequence_number p)
       (pf_auth_tag p) r)) i"
    "\<exists>x. snd (validate_stream_tag H (pf_header p) (pf_payload p) (pf_sequence_number p)
       (pf_auth_tag p) r) = r\<lparr>ss_streams := (ss_streams r)(i \<mapsto> x)\<rparr>"
proof -
  from step obtain e e' where secret: "ss_shared_secret r = ss_shared_secret store"
    and e: "ss_streams store i = Some e" and e': "ss_streams r i = Some e'"
    and less: "se_sequence_number e' < se_sequence_number e"
    by (auto simp: in_step_def)
  let ?h = "sent_header out micros NoError"
  let ?n = "se_sequence_number e"
  let ?frame = "build_l2_frame mac dst (ucast (sc_vlan_id_pcp out)) ?h payload
      (sent_footer H store ?h payload ?n)"
  have built: "cyclic_frame H access img mac micros out store = (Some (Inr ?frame),
      store\<lparr>ss_streams := (ss_streams store)(i \<mapsto> e\<lparr>se_sequence_number := saturating_add ?n 1\<rparr>)\<rparr>)"
    using cyclic_frame_eq [OF dst _ payload] e by (simp add: i)
  have id: "l2_stream_id ?h = i" by (simp add: i)
  obtain p where p: "parse_l2_frame ?frame = Inr p" "pf_header p = ?h" "pf_payload p = payload"
    "validate_stream_tag H (pf_header p) (pf_payload p) (pf_sequence_number p) (pf_auth_tag p) r =
       (Inr True, r\<lparr>ss_streams := (ss_streams r)(i \<mapsto> e'\<lparr>se_sequence_number := ?n\<rparr>)\<rparr>)"
    by (rule sent_frame_received [where mac = mac and destination = dst and header = ?h
          and vlan = "ucast (sc_vlan_id_pcp out)" and payload = payload and n = ?n,
          OF H secret e' [folded id] less]) (simp add: i)
  have adm: "admissible H streams r p inp"
  proof -
    have "fst (validate_stream_tag H (pf_header p) (pf_payload p) (pf_sequence_number p)
        (pf_auth_tag p) r) = Inr True" by (simp only: p(4) fst_conv)
    then show ?thesis
      using stream [unfolded i] by (simp only: validate_true admissible_def Let_def p(2) id sent_header_simps simp_thms)
  qed
  have next_step: "in_step (store\<lparr>ss_streams := (ss_streams store)(i \<mapsto>
        e\<lparr>se_sequence_number := saturating_add ?n 1\<rparr>)\<rparr>)
      (snd (validate_stream_tag H (pf_header p) (pf_payload p) (pf_sequence_number p) (pf_auth_tag p) r)) i"
    if "?n < - 1"
    using saturating_add_1_less [of ?n] that by (simp add: p(4) in_step_def secret)
  have n: "se_sequence_number (the (ss_streams store i)) = ?n" by (simp add: e)
  show thesis
  proof (rule that)
    show "?frame = build_l2_frame mac dst (ucast (sc_vlan_id_pcp out)) ?h payload
        (sent_footer H store ?h payload (se_sequence_number (the (ss_streams store i))))"
      by (simp only: n)
    show "\<exists>x. snd (validate_stream_tag H (pf_header p) (pf_payload p) (pf_sequence_number p)
        (pf_auth_tag p) r) = r\<lparr>ss_streams := (ss_streams r)(i \<mapsto> x)\<rparr>"
      unfolding p(4) by auto
  qed (fact built p(1) p(3) p(2) adm | rule next_step, simp only: n)+
qed

text \<open>A master's stream tick and a slave's receive turn.\<close>

lemma master_to_slave:
  assumes H: "keyed_hash_ok H" and step: "in_step (ml_store m) (sl_store s) i"
    and i: "i = ucast (sc_stream_id out)" and dst: "parse_destination_mac out = Some dst"
    and payload: "build_frame_payload maccess (ml_image m) out = Inr payload"
    and due: "tx_due out (mi_clock inputs) tx" and op: "slave_state s = Op"
    and stream: "streams i = Some inp"
  obtains frame tx' m' rx' s' where
    "master_send_stream H maccess mac out inputs (tx, m) = Some (Some frame, tx', m')"
    "slave_receive_turn H saccess streams (Some frame) now wall (rx, s) = Continue (rx', s')"
    "sl_image s' = snd (handle_input_packet saccess (sl_image s) inp payload)"
    "ml_image m' = ml_image m"
    "se_sequence_number (the (ss_streams (ml_store m) i)) < - 1 \<Longrightarrow> in_step (ml_store m') (sl_store s') i"
proof -
  obtain frame store' p where f:
    "cyclic_frame H maccess (ml_image m) mac (mi_micros inputs) out (ml_store m) = (Some (Inr frame), store')"
    "parse_l2_frame frame = Inr p" "pf_payload p = payload" "admissible H streams (sl_store s) p inp"
    "se_sequence_number (the (ss_streams (ml_store m) i)) < - 1 \<Longrightarrow>
     in_step store' (snd (validate_stream_tag H (pf_header p) (pf_payload p) (pf_sequence_number p)
       (pf_auth_tag p) (sl_store s))) i"
    by (rule frame_transfer [where streams = streams, OF H step i dst payload stream]) blast
  let ?tx = "snd (tx_observe (mi_state inputs) out (mi_now inputs) tx)"
  let ?s = "s\<lparr>sl_store := snd (validate_stream_tag H (pf_header p) (pf_payload p)
      (pf_sequence_number p) (pf_auth_tag p) (sl_store s))\<rparr>"
  obtain rx' s' where c: "slave_consume saccess now wall p inp (rx_enter Op rx, ?s) = (rx', s')" by fastforce
  have "master_send_stream H maccess mac out inputs (tx, m) = Some (Some frame, ?tx, m\<lparr>ml_store := store'\<rparr>)"
    using due f(1) by (simp add: master_send_stream_def Let_def case_prod_beta)
  moreover have "slave_receive_turn H saccess streams (Some frame) now wall (rx, s) = Continue (rx', s')"
    using slave_receive_admissible [OF op f(2,4)] c by simp
  moreover have "sl_image s' = snd (handle_input_packet saccess (sl_image s) inp payload)"
    using slave_consume_image [of saccess now wall p inp "rx_enter Op rx" ?s] c f(3) by simp
  moreover have "sl_store s' = sl_store ?s"
    using slave_consume_store [of saccess now wall p inp "rx_enter Op rx" ?s] c by simp
  ultimately show thesis
    using that [of frame ?tx "m\<lparr>ml_store := store'\<rparr>" rx' s'] f(5) by simp
qed

text \<open>A slave's stream tick and a master's receive turn.\<close>

lemma slave_to_master:
  assumes H: "keyed_hash_ok H" and step: "in_step (sl_store s) (ml_store m) i"
    and i: "i = ucast (sc_stream_id out)" and dst: "parse_destination_mac out = Some dst"
    and payload: "build_frame_payload saccess (sl_image s) out = Inr payload"
    and due: "tx_due out (si_clock inputs) tx" and op: "mstate = Op \<or> mstate = SafeOp"
    and stream: "streams i = Some inp"
  obtains frame tx' s' mr' m' where
    "slave_send_stream H saccess mac sstate out inputs (tx, s) = Continue (Some frame, tx', s')"
    "master_receive_turn H maccess streams mstate (Some frame) now (mr, m) = Some (mr', m')"
    "ml_image m' = snd (handle_input_packet maccess (ml_image m) inp payload)"
    "sl_image s' = sl_image s"
    "\<exists>x. ml_store m' = (ml_store m)\<lparr>ss_streams := (ss_streams (ml_store m))(i \<mapsto> x)\<rparr>"
proof -
  obtain frame store' p where f:
    "cyclic_frame H saccess (sl_image s) mac (si_micros inputs) out (sl_store s) = (Some (Inr frame), store')"
    "parse_l2_frame frame = Inr p" "pf_payload p = payload" "admissible H streams (ml_store m) p inp"
    "\<exists>x. snd (validate_stream_tag H (pf_header p) (pf_payload p) (pf_sequence_number p)
       (pf_auth_tag p) (ml_store m)) = (ml_store m)\<lparr>ss_streams := (ss_streams (ml_store m))(i \<mapsto> x)\<rparr>"
    by (rule frame_transfer [where streams = streams, OF H step i dst payload stream]) blast
  obtain rec tx' where t: "tx_observe sstate out (si_now inputs) tx = (rec, tx')" by fastforce
  define s1 where "s1 = (if rec then slave_report update_send_cycle_metrics (tx_metrics tx')
      (si_wall inputs) s else s)"
  have s1: "sl_image s1 = sl_image s" "sl_store s1 = sl_store s" by (simp_all add: s1_def)
  let ?s' = "(if si_send_failed inputs then slave_code ErrSocketChannel (s1\<lparr>sl_store := store'\<rparr>)
      else s1\<lparr>sl_store := store'\<rparr>)"
  let ?m = "m\<lparr>ml_store := snd (validate_stream_tag H (pf_header p) (pf_payload p)
      (pf_sequence_number p) (pf_auth_tag p) (ml_store m))\<rparr>"
  let ?mr = "mr\<lparr>mr_rx := rx_enter mstate (mr_rx mr)\<rparr>"
  obtain mr' m' where c: "master_consume maccess mstate now p inp (?mr, ?m) = (mr', m')" by fastforce
  have "slave_send_stream H saccess mac sstate out inputs (tx, s) = Continue (Some frame, tx', ?s')"
    using due f(1) t s1
    by (simp add: slave_send_stream_def Let_def case_prod_beta s1_def)
  moreover have "master_receive_turn H maccess streams mstate (Some frame) now (mr, m) = Some (mr', m')"
    using master_receive_admissible [OF op f(2,4)] c by simp
  moreover have "ml_image m' = snd (handle_input_packet maccess (ml_image m) inp payload)"
    using master_consume_image [of maccess mstate now p inp ?mr ?m] c f(3) by simp
  moreover have "ml_store m' = ml_store ?m"
    using master_consume_store [of maccess mstate now p inp ?mr ?m] c by simp
  ultimately show thesis
    using that [of frame tx' ?s' mr' m'] s1 f(5) by simp
qed

section \<open>The demonstrator's two streams\<close>

definition temperature_position :: position where
  "temperature_position = \<lparr>pos_byte_offset = 0, pos_bit_offset = 0, pos_bit_len = 16\<rparr>"

lemma i16_bytes: "[ucast (signed_drop_bit 8 t), ucast (t AND 0xFF)] = (be16 t :: bytes)" for t :: u16
proof -
  have "(ucast (signed_drop_bit 8 t) :: u8) = ucast (drop_bit 8 t)"
    by (rule bit_word_eqI) (auto simp: bit_simps)
  moreover have "(ucast (t AND 0xFF) :: u8) = ucast t"
  proof (rule bit_word_eqI)
    fix n assume "n < LENGTH(8)"
    then have "n \<in> {0, 1, 2, 3, 4, 5, 6, 7}" by auto
    then show "bit (ucast (t AND 0xFF) :: u8) n = bit (ucast t :: u8) n"
      by (auto simp: bit_simps)
  qed
  ultimately show ?thesis by (simp add: numeral_eq_Suc)
qed

lemma sensor_image:
  assumes "simulate_sensor_change t h = Some h'" and "length (dh_output_image h) = 2"
  shows "dh_output_image h' = be16 t"
proof -
  obtain a b where "dh_output_image h = [a, b]"
    using assms(2) by (auto simp: numeral_eq_Suc length_Suc_conv)
  with assms(1) show ?thesis
    by (auto simp: simulate_sensor_change_def i16_bytes simp del: be_bytes.simps)
qed

lemma read_temperature_position:
  assumes "length (dh_output_image h) = 2"
  shows "dummy_read_outputs h temperature_position = Inr (dh_output_image h)"
proof -
  have "image_ok (dh_output_image h)" using assms by (simp add: image_ok_def)
  moreover have "bit_field (dh_output_image h) (8 * 0) 16 = take 2 (drop 0 (dh_output_image h))"
    using bit_field_aligned [of 0 16 "dh_output_image h"] assms by simp
  ultimately show ?thesis
    using assms by (simp add: dummy_read_outputs_def dummy_read_image_spec in_image_def
        field_start_def field_len_def temperature_position_def)
qed

lemma write_valve_position:
  assumes "length (dh_input_image h) = 1"
  shows "get_valve_status (snd (dummy_write_inputs h [x] valve_position)) = Some (bit x 0)"
proof -
  obtain y where y: "dh_input_image h = [y]" using assms by (auto simp: length_Suc_conv)
  have "image_ok [y]" by (simp add: image_ok_def)
  then have "dummy_write_inputs h [x] valve_position =
      (Inr (), h\<lparr>dh_input_image := [put_bit (bit x 0) 0 y]\<rparr>)"
    by (simp add: dummy_write_inputs_def dummy_write_image_spec y in_image_def field_start_def
        field_len_def valve_position_def put_field_def bit_at_def)
  moreover have "bit (put_bit (bit x 0) 0 y) 0 = bit x 0" by (simp add: bit_put_bit)
  ultimately show ?thesis
    using and_power_nonzero [of _ 0] by (simp add: get_valve_status_def)
qed

lemma valve_output:
  assumes "length (mp_output_image img) = 1"
  obtains x where "master_read_outputs (write_valve_state is_open img) valve_position = Inr [x]"
    "bit x 0 = is_open"
proof -
  obtain y where y: "mp_output_image img = [y]" using assms by (auto simp: length_Suc_conv)
  let ?x = "if is_open then y OR 1 else y AND NOT 1"
  have "master_read_outputs (write_valve_state is_open img) valve_position = Inr [?x]"
    by (simp add: master_read_outputs_def master_read_image_def write_valve_state_def y
        valve_position_def unat_div_ceil)
  moreover have "bit ?x 0 = is_open" by (simp add: bit_simps)
  ultimately show thesis by (rule that)
qed

lemma valve_transfer:
  assumes "keyed_hash_ok H" and "in_step (ml_store m) (sl_store s) (ucast (sc_stream_id out))"
    and "sendable out" and "sc_stream_content out = Some valve_position"
    and "ml_image m = write_valve_state is_open img" and "length (mp_output_image img) = 1"
    and "tx_due out (mi_clock inputs) tx" and "slave_state s = Op"
    and "streams (ucast (sc_stream_id out)) = Some inp"
    and "sc_stream_content inp = Some valve_position" and "length (dh_input_image (sl_image s)) = 1"
    and "se_sequence_number (the (ss_streams (ml_store m) (ucast (sc_stream_id out)))) < - 1"
  shows "\<exists>frame tx' m' rx' s'.
    master_send_stream H master_process_image_access mac out inputs (tx, m) = Some (Some frame, tx', m') \<and>
    slave_receive_turn H dummy_process_image streams (Some frame) now wall (rx, s) = Continue (rx', s') \<and>
    get_valve_status (sl_image s') = Some is_open \<and>
    in_step (ml_store m') (sl_store s') (ucast (sc_stream_id out))"
proof -
  obtain x where x: "master_read_outputs (ml_image m) valve_position = Inr [x]" "bit x 0 = is_open"
    unfolding assms(5) by (rule valve_output [OF assms(6)])
  then have payload: "build_frame_payload master_process_image_access (ml_image m) out = Inr [x]"
    by (simp add: build_frame_payload_def assms(4) master_process_image_access_def)
  obtain dst where dst: "parse_destination_mac out = Some dst"
    using assms(3) by (auto simp: parse_destination_mac_def sendable_def Let_def)
  have handled: "snd (handle_input_packet dummy_process_image (sl_image s) inp [x]) =
      snd (dummy_write_inputs (sl_image s) [x] valve_position)"
    by (simp add: handle_input_packet_def assms(10) unat_bit_len_to_byte_len dummy_process_image_def
        valve_position_def split: prod.splits sum.splits)
  obtain frame tx' m' rx' s' where
    "master_send_stream H master_process_image_access mac out inputs (tx, m) = Some (Some frame, tx', m')"
    "slave_receive_turn H dummy_process_image streams (Some frame) now wall (rx, s) = Continue (rx', s')"
    "sl_image s' = snd (handle_input_packet dummy_process_image (sl_image s) inp [x])"
    "in_step (ml_store m') (sl_store s') (ucast (sc_stream_id out))"
    by (rule master_to_slave [where streams = streams, OF assms(1,2) refl dst payload assms(7,8,9)])
       (use assms(12) in blast)
  then show ?thesis
    using handled write_valve_position [OF assms(11), of x] x(2) by auto
qed

lemma temperature_transfer:
  assumes "keyed_hash_ok H" and "in_step (sl_store s) (ml_store m) (ucast (sc_stream_id out))"
    and "sendable out" and "sc_stream_content out = Some temperature_position"
    and "simulate_sensor_change t h = Some (sl_image s)" and "length (dh_output_image h) = 2"
    and "tx_due out (si_clock inputs) tx" and "mstate = Op \<or> mstate = SafeOp"
    and "streams (ucast (sc_stream_id out)) = Some inp"
    and "sc_stream_content inp = Some temperature_position"
    and "length (mp_input_image (ml_image m)) = 2"
  shows "\<exists>frame tx' s' mr' m'.
    slave_send_stream H dummy_process_image mac sstate out inputs (tx, s) = Continue (Some frame, tx', s') \<and>
    master_receive_turn H master_process_image_access streams mstate (Some frame) now (mr, m) =
      Some (mr', m') \<and>
    read_temperature_u16 (ml_image m') = t \<and>
    mp_output_image (ml_image m') = mp_output_image (ml_image m) \<and> sl_image s' = sl_image s \<and>
    (\<exists>x. ml_store m' = (ml_store m)\<lparr>ss_streams :=
       (ss_streams (ml_store m))(ucast (sc_stream_id out) \<mapsto> x)\<rparr>)"
proof -
  have image: "dh_output_image (sl_image s) = be16 t" by (rule sensor_image [OF assms(5,6)])
  then have payload: "build_frame_payload dummy_process_image (sl_image s) out = Inr (be16 t)"
    using read_temperature_position [of "sl_image s"]
    by (simp add: build_frame_payload_def assms(4) dummy_process_image_def del: be_bytes.simps)
  obtain dst where dst: "parse_destination_mac out = Some dst"
    using assms(3) by (auto simp: parse_destination_mac_def sendable_def Let_def)
  have img: "snd (handle_input_packet master_process_image_access (ml_image m) inp (be16 t)) =
      ml_image m\<lparr>mp_input_image := be16 t\<rparr>"
    using read_temperature_written [of "be16 t" "ml_image m" temperature_position] assms(11)
    by (simp add: handle_input_packet_def assms(10) unat_bit_len_to_byte_len
        master_process_image_access_def temperature_position_def del: be_bytes.simps)
  have "read_temperature_u16 (ml_image m\<lparr>mp_input_image := be16 t\<rparr>) = t"
    using from_be_be_bytes [of 2 t] by (simp add: read_temperature_u16_def numeral_eq_Suc)
  with img have handled: "read_temperature_u16
      (snd (handle_input_packet master_process_image_access (ml_image m) inp (be16 t))) = t" by simp
  obtain frame tx' s' mr' m' where
    f: "slave_send_stream H dummy_process_image mac sstate out inputs (tx, s) = Continue (Some frame, tx', s')"
    "master_receive_turn H master_process_image_access streams mstate (Some frame) now (mr, m) =
      Some (mr', m')"
    "ml_image m' = snd (handle_input_packet master_process_image_access (ml_image m) inp (be16 t))"
    "sl_image s' = sl_image s"
    "\<exists>x. ml_store m' = (ml_store m)\<lparr>ss_streams :=
       (ss_streams (ml_store m))(ucast (sc_stream_id out) \<mapsto> x)\<rparr>"
    by (rule slave_to_master [where streams = streams, OF assms(1,2) refl dst payload assms(7,8,9)]) blast
  have "read_temperature_u16 (ml_image m') = t" unfolding f(3) by (rule handled)
  moreover have "mp_output_image (ml_image m') = mp_output_image (ml_image m)"
    unfolding f(3) img by simp
  ultimately show ?thesis using f by blast
qed

section \<open>Properties\<close>

text \<open>
  C1 The valve command from end to end: when the two ends of the valve's stream are in step and
  the slave is in \<open>Op\<close>, the frame the master's sender builds after \<open>write_valve_state\<close> makes the
  slave's receiver open or close the valve accordingly, and the ends are in step again.
\<close>

theorem valve_command_delivered:
  assumes "keyed_hash_ok H" and "in_step (ml_store m) (sl_store s) (ucast (sc_stream_id out))"
    and "sendable out" and "sc_stream_content out = Some valve_position"
    and "ml_image m = write_valve_state is_open img" and "length (mp_output_image img) = 1"
    and "tx_due out (mi_clock inputs) tx" and "slave_state s = Op"
    and "streams (ucast (sc_stream_id out)) = Some inp"
    and "sc_stream_content inp = Some valve_position" and "length (dh_input_image (sl_image s)) = 1"
    and "se_sequence_number (the (ss_streams (ml_store m) (ucast (sc_stream_id out)))) < - 1"
  shows "\<exists>frame tx' m' rx' s'.
    master_send_stream H master_process_image_access mac out inputs (tx, m) = Some (Some frame, tx', m') \<and>
    slave_receive_turn H dummy_process_image streams (Some frame) now wall (rx, s) = Continue (rx', s') \<and>
    get_valve_status (sl_image s') = Some is_open \<and>
    in_step (ml_store m') (sl_store s') (ucast (sc_stream_id out))"
  using assms by (rule valve_transfer)

theorem valve_command_delivered_witness:
  "\<exists>frame tx' m' rx' s'.
    master_send_stream checksum_hash master_process_image_access (MacAddr 2 0 0 0 0 1)
      (valve_stream Output) \<lparr>mi_state = Op, mi_clock = 5, mi_now = 6, mi_micros = 7\<rparr>
      (tx_new, \<lparr>ml_store = valve_store Output, ml_image = write_valve_state True master_image_new\<rparr>) =
      Some (Some frame, tx', m') \<and>
    slave_receive_turn checksum_hash dummy_process_image valve_streams (Some frame) 0 0
      (rx_new, valve_slave) = Continue (rx', s') \<and>
    get_valve_status (sl_image s') = Some True \<and>
    in_step (ml_store m') (sl_store s') (ucast (sc_stream_id (valve_stream Output)))"
proof (rule valve_command_delivered [where inp = "valve_stream Input" and img = master_image_new])
  show "in_step (ml_store \<lparr>ml_store = valve_store Output, ml_image = write_valve_state True master_image_new\<rparr>)
      (sl_store valve_slave) (ucast (sc_stream_id (valve_stream Output)))"
    by (rule in_step_fresh [of _ _ _ "valve_stream Output" "valve_stream Input"])
       (simp_all add: valve_slave_def valve_store_eq, simp_all add: valve_stream_def)
qed (simp_all add: checksum_hash_ok valve_slave_op, simp_all add: valve_stream_def sendable_def
      master_image_new_def tx_due_def tx_new_def valve_streams_def stream_map_def valve_slave_def
      new_valve_controller_def valve_store_eq fresh_entry_def word_less_nat_alt unat_minus_1)

text \<open>
  The sensor's temperature from end to end: a slave whose sensor reads \<open>t\<close> sends a frame from
  which the master, in \<open>Op\<close> or \<open>SafeOp\<close>, reads the temperature \<open>t\<close>.
\<close>

lemma temperature_delivered:
  assumes "keyed_hash_ok H" and "in_step (sl_store s) (ml_store m) (ucast (sc_stream_id out))"
    and "sendable out" and "sc_stream_content out = Some temperature_position"
    and "simulate_sensor_change t h = Some (sl_image s)" and "length (dh_output_image h) = 2"
    and "tx_due out (si_clock inputs) tx" and "mstate = Op \<or> mstate = SafeOp"
    and "streams (ucast (sc_stream_id out)) = Some inp"
    and "sc_stream_content inp = Some temperature_position"
    and "length (mp_input_image (ml_image m)) = 2"
  shows "\<exists>frame tx' s' mr' m'.
    slave_send_stream H dummy_process_image mac sstate out inputs (tx, s) = Continue (Some frame, tx', s') \<and>
    master_receive_turn H master_process_image_access streams mstate (Some frame) now (mr, m) =
      Some (mr', m') \<and>
    read_temperature_u16 (ml_image m') = t"
  using temperature_transfer [where streams = streams, OF assms] by blast

definition temperature_stream :: "direction \<Rightarrow> stream_config" where
  "temperature_stream d = \<lparr>sc_stream_id = 1, sc_destination_mac = [2, 0, 0, 0, 0, 1],
     sc_vlan_id_pcp = 100, sc_cycle_time_nano = 1000000, sc_direction = direction_num d,
     sc_stream_content = Some temperature_position\<rparr>"

definition temperature_store :: "direction \<Rightarrow> stream_store" where
  "temperature_store d = snd (add_stream_config (temperature_stream d) (stream_store_new (replicate 32 7)))"

lemma temperature_store_eq: "temperature_store d = \<lparr>ss_shared_secret = replicate 32 7,
    ss_streams = [1 \<mapsto> fresh_entry (temperature_stream d)]\<rparr>"
  by (simp add: temperature_store_def add_stream_config_def insert_stream_config_eq
      stream_store_new_def config_ok_def config_id_def temperature_stream_def)

definition hot_sensor :: dummy_hardware where
  "hot_sensor = the (simulate_sensor_change 300 (new_temperature_sensor ''eth0'' [2, 0, 0, 0, 0, 3]))"

lemma temperature_delivered_example:
  "\<exists>frame tx' s' mr' m'.
    slave_send_stream checksum_hash dummy_process_image (MacAddr 2 0 0 0 0 3) Op
      (temperature_stream Output)
      \<lparr>si_clock = 5, si_now = 6, si_micros = 7, si_wall = 0, si_send_failed = False\<rparr>
      (tx_new, \<lparr>sl_store = temperature_store Output, sl_status = status_store_new 0,
         sl_image = hot_sensor\<rparr>) = Continue (Some frame, tx', s') \<and>
    master_receive_turn checksum_hash master_process_image_access
      (stream_map [temperature_stream Input]) Op (Some frame) 0
      (master_rx_new, \<lparr>ml_store = temperature_store Input, ml_image = master_image_new\<rparr>) =
      Some (mr', m') \<and>
    read_temperature_u16 (ml_image m') = 300"
proof (rule temperature_delivered [where inp = "temperature_stream Input"
      and h = "new_temperature_sensor ''eth0'' [2, 0, 0, 0, 0, 3]"])
  show "in_step (sl_store \<lparr>sl_store = temperature_store Output, sl_status = status_store_new 0,
         sl_image = hot_sensor\<rparr>)
      (ml_store \<lparr>ml_store = temperature_store Input, ml_image = master_image_new\<rparr>)
      (ucast (sc_stream_id (temperature_stream Output)))"
    by (rule in_step_fresh [of _ _ _ "temperature_stream Output" "temperature_stream Input"])
       (simp_all add: temperature_store_eq, simp_all add: temperature_stream_def)
qed (simp_all add: checksum_hash_ok temperature_stream_def sendable_def hot_sensor_def
      simulate_sensor_change_def new_temperature_sensor_def master_image_new_def tx_due_def
      tx_new_def stream_map_def)

text \<open>
  C36 Padding: a frame that was padded on its way with 16 or more zero bytes, as the Ethernet
  minimum of 60 bytes demands for up to three bytes of process data, is never accepted. The slave in \<open>Op\<close> keeps
  its image and its store, and reports an authentication failure when it knows the stream.
\<close>

theorem padded_frames_refused:
  assumes "16 \<le> k" and "slave_state s = Op"
  shows "\<exists>rx' s'. slave_receive_turn H access streams
      (Some (build_l2_frame mac dst vlan h payload f @ replicate k 0)) now wall (rx, s) =
      Continue (rx', s') \<and>
    sl_image s' = sl_image s \<and> sl_store s' = sl_store s \<and>
    sl_status s' = update_status_code
      (if streams (l2_stream_id h) \<noteq> None \<and> ss_streams (sl_store s) (l2_stream_id h) \<noteq> None
       then ErrAuthFailed else ErrStreamIdUnknown) (sl_status s)"
proof -
  let ?frame = "build_l2_frame mac dst vlan h payload f @ replicate k 0"
  obtain p where p: "parse_l2_frame ?frame = Inr p" "pf_header p = h"
    "validate_stream_tag H (pf_header p) (pf_payload p) (pf_sequence_number p) (pf_auth_tag p)
       (sl_store s) = (case ss_streams (sl_store s) (l2_stream_id h) of
         None \<Rightarrow> (Inl ErrStreamIdUnknown, sl_store s) | Some e \<Rightarrow> (Inr False, sl_store s))"
    by (rule padded_frame_refused [OF assms(1)]) blast
  have "slave_admit H streams ?frame s = (None, slave_code
      (if streams (l2_stream_id h) \<noteq> None \<and> ss_streams (sl_store s) (l2_stream_id h) \<noteq> None
       then ErrAuthFailed else ErrStreamIdUnknown) s)"
    using p by (auto simp: slave_admit_def Let_def split: option.splits)
  with assms(2) show ?thesis
    by (simp add: slave_receive_turn_eq slave_code_def)
qed

theorem padded_frames_refused_witness:
  "\<exists>rx' s'. slave_receive_turn checksum_hash dummy_process_image valve_streams
      (Some (build_l2_frame (MacAddr 2 0 0 0 0 1) (MacAddr 2 0 0 0 0 2) 100 valve_header [1]
         (sent_footer checksum_hash (valve_store Output) valve_header [1] 1) @ replicate 18 0)) 0 0
      (rx_new, valve_slave) = Continue (rx', s') \<and>
    sl_image s' = sl_image valve_slave"
  using padded_frames_refused [of 18 valve_slave, OF _ valve_slave_op] by fastforce

end
