(* ===== verification/Demo_Master.thy ===== *)
theory Demo_Master
  imports Api_Client Demo_Slave Demo_Network Demo_Process Demo_Discovery Cyclic_Exchange
begin

text \<open>
  The master of the demonstration, \<open>run_master_thread\<close> of \<^verbatim>\<open>src/demo/src/main.rs\<close>, from the
  connection of its clients on: the streams it configures, the sequence of calls that brings both
  slaves and itself to \<open>Op\<close>, and the shutdown. What connecting, the lookup of its own interface and
  the start of its cyclic threads give are arguments; the two services run while the master does.
  The loop that waits for the first sample goes on in any case and is a function of what is read; the
  tasks that log the status updates are left out (their lines are in \<open>Status_Log\<close>).
\<close>

section \<open>Constants and streams\<close>

definition TEMPERATURE_SLAVE_MAC :: bytes where "TEMPERATURE_SLAVE_MAC = [0x02, 0x42, 0xAC, 0x10, 0x00, 0x11]"
definition VALVE_SLAVE_MAC :: bytes where "VALVE_SLAVE_MAC = [0x02, 0x42, 0xAC, 0x10, 0x00, 0x12]"
definition TEMPERATURE_STREAM_ID :: u32 where "TEMPERATURE_STREAM_ID = 1001"
definition VALVE_STREAM_ID :: u32 where "VALVE_STREAM_ID = 1002"
definition TEMPERATURE_STREAM_CYCLE_NS :: u32 where "TEMPERATURE_STREAM_CYCLE_NS = 1000000"
definition VALVE_STREAM_CYCLE_NS :: u32 where "VALVE_STREAM_CYCLE_NS = 1000000"

definition to_http_endpoint :: "bytes \<Rightarrow> u16 \<Rightarrow> string" where
  "to_http_endpoint ip port =
     ''http://'' @ join_text ''.'' (map (\<lambda>octet. dec_text (unat octet)) ip) @ '':'' @ dec_text (unat port)"

definition temperature_stream_master :: "mac_addr \<Rightarrow> stream_config" where
  "temperature_stream_master master =
     \<lparr>sc_stream_id = TEMPERATURE_STREAM_ID, sc_destination_mac = octets master,
      sc_vlan_id_pcp = ucast (build_vlan_tag 100 6), sc_cycle_time_nano = TEMPERATURE_STREAM_CYCLE_NS,
      sc_direction = direction_num Input,
      sc_stream_content = Some \<lparr>pos_byte_offset = 0, pos_bit_offset = 0, pos_bit_len = 16\<rparr>\<rparr>"

definition valve_stream_master :: "mac_addr \<Rightarrow> stream_config" where
  "valve_stream_master valve =
     \<lparr>sc_stream_id = VALVE_STREAM_ID, sc_destination_mac = octets valve,
      sc_vlan_id_pcp = ucast (build_vlan_tag 100 6), sc_cycle_time_nano = VALVE_STREAM_CYCLE_NS,
      sc_direction = direction_num Output,
      sc_stream_content = Some \<lparr>pos_byte_offset = 0, pos_bit_offset = 0, pos_bit_len = 1\<rparr>\<rparr>"

definition temperature_stream_slave :: "mac_addr \<Rightarrow> stream_config" where
  "temperature_stream_slave master = (temperature_stream_master master)
     \<lparr>sc_destination_mac := octets master, sc_direction := direction_num Output\<rparr>"

definition valve_stream_slave :: "mac_addr \<Rightarrow> stream_config" where
  "valve_stream_slave valve = (valve_stream_master valve)
     \<lparr>sc_destination_mac := octets valve, sc_direction := direction_num Input\<rparr>"

section \<open>Bringing the system up\<close>

datatype master_error =
    CallFailed call_error
  | TransitionFailed device_state status_code
  | StreamRefused status_code
  | ConnectFailed string
  | NoInterfaceMac
  | ExchangeFailed status_code
  | WaitTimeout device_state

record master_run =
  bu_state :: device_state
  bu_store :: stream_store
  bu_temperature :: "api_client \<times> dummy_hardware service"
  bu_valve :: "api_client \<times> dummy_hardware service"

text \<open>\<open>polls\<close> is how often the clock is found below the timeout.\<close>

fun wait_for_slave_state ::
    "'w connection \<Rightarrow> device_state \<Rightarrow> nat \<Rightarrow> api_client \<Rightarrow> 'w \<Rightarrow> (master_error + unit) \<times> api_client \<times> 'w" where
  "wait_for_slave_state con expected 0 c w = (Inl (WaitTimeout expected), c, w)"
| "wait_for_slave_state con expected (Suc polls) c w =
     (case client_get_status con c w of
        (Inl e, c', w') \<Rightarrow> (Inl (CallFailed e), c', w')
      | (Inr reply, c', w') \<Rightarrow>
          if (\<exists>status. reply = DeviceStatusReply status \<and> ds_state status = state_num expected)
          then (Inr (), c', w') else wait_for_slave_state con expected polls c' w')"

definition master_transition :: "device_state \<Rightarrow> (master_error, master_run) action" where
  "master_transition target b =
     (case set_target_state (bu_state b) target of
        (Inl code, state) \<Rightarrow> (Inl (TransitionFailed target code), b\<lparr>bu_state := state\<rparr>)
      | (Inr _, state) \<Rightarrow> (Inr (), b\<lparr>bu_state := state\<rparr>))"

definition call_result :: "reply call_result \<Rightarrow> master_error + unit" where
  "call_result r = (case r of Inl e \<Rightarrow> Inl (CallFailed e) | Inr _ \<Rightarrow> Inr ())"

text \<open>A call to one of the slaves; only its error is looked at, not the code of a response.\<close>

definition on_temperature ::
    "(api_client \<Rightarrow> dummy_hardware service \<Rightarrow> reply call_result \<times> api_client \<times> dummy_hardware service) \<Rightarrow>
       (master_error, master_run) action" where
  "on_temperature f b =
     (let (r, s) = f (fst (bu_temperature b)) (snd (bu_temperature b))
      in (call_result r, b\<lparr>bu_temperature := s\<rparr>))"

definition on_valve ::
    "(api_client \<Rightarrow> dummy_hardware service \<Rightarrow> reply call_result \<times> api_client \<times> dummy_hardware service) \<Rightarrow>
       (master_error, master_run) action" where
  "on_valve f b =
     (let (r, s) = f (fst (bu_valve b)) (snd (bu_valve b))
      in (call_result r, b\<lparr>bu_valve := s\<rparr>))"

definition wait_temperature ::
    "dummy_hardware service connection \<Rightarrow> device_state \<Rightarrow> nat \<Rightarrow> (master_error, master_run) action" where
  "wait_temperature con expected polls b =
     (let (r, s) = wait_for_slave_state con expected polls (fst (bu_temperature b)) (snd (bu_temperature b))
      in (r, b\<lparr>bu_temperature := s\<rparr>))"

definition wait_valve ::
    "dummy_hardware service connection \<Rightarrow> device_state \<Rightarrow> nat \<Rightarrow> (master_error, master_run) action" where
  "wait_valve con expected polls b =
     (let (r, s) = wait_for_slave_state con expected polls (fst (bu_valve b)) (snd (bu_valve b))
      in (r, b\<lparr>bu_valve := s\<rparr>))"

definition add_master_stream :: "stream_config \<Rightarrow> (master_error, master_run) action" where
  "add_master_stream stream b =
     (let (r, store) = add_stream_config stream (bu_store b)
      in (case r of Inl code \<Rightarrow> Inl (StreamRefused code) | Inr _ \<Rightarrow> Inr (), b\<lparr>bu_store := store\<rparr>))"

text \<open>What the master's surroundings give: the two connections, the address of its interface, the
  start of its cyclic threads, and how often each wait for a state may ask.\<close>

record master_inputs =
  mn_connected_temperature :: "string + unit"
  mn_connected_valve :: "string + unit"
  mn_interface_mac :: "mac_addr option"
  mn_started :: "status_code + unit"
  mn_polls :: nat

definition connect_slaves :: "bytes \<Rightarrow> master_inputs \<Rightarrow> (master_error, master_run) action" where
  "connect_slaves shared_secret inp =
     in_order
       [master_transition PreOp,
        \<lambda>b. case mn_connected_temperature inp of
              Inl e \<Rightarrow> (Inl (ConnectFailed e), b)
            | Inr _ \<Rightarrow> (Inr (), b\<lparr>bu_temperature := (api_client_connect shared_secret, snd (bu_temperature b))\<rparr>),
        \<lambda>b. case mn_connected_valve inp of
              Inl e \<Rightarrow> (Inl (ConnectFailed e), b)
            | Inr _ \<Rightarrow> (Inr (), b\<lparr>bu_valve := (api_client_connect shared_secret, snd (bu_valve b))\<rparr>)]"

definition query_slaves ::
    "dummy_hardware service connection \<Rightarrow> dummy_hardware service connection \<Rightarrow> (master_error, master_run) action" where
  "query_slaves con_t con_v =
     in_order
       [on_temperature (client_get_device_info con_t),
        on_valve (client_get_device_info con_v),
        on_temperature (client_subscribe_to_device_status con_t (Some 10)),
        on_valve (client_subscribe_to_device_status con_v (Some 10))]"

definition configure_slaves ::
    "dummy_hardware service connection \<Rightarrow> dummy_hardware service connection \<Rightarrow> mac_addr \<Rightarrow> mac_addr \<Rightarrow>
       (master_error, master_run) action" where
  "configure_slaves con_t con_v master valve =
     in_order
       [on_temperature (client_configure_streams con_t [temperature_stream_slave master]),
        on_valve (client_configure_streams con_v [valve_stream_slave valve])]"

definition start_exchange ::
    "bytes \<Rightarrow> status_code + unit \<Rightarrow> mac_addr \<Rightarrow> mac_addr \<Rightarrow> (master_error, master_run) action" where
  "start_exchange shared_secret started master valve =
     in_order
       [\<lambda>b. (Inr (), b\<lparr>bu_store := stream_store_new shared_secret\<rparr>),
        add_master_stream (temperature_stream_master master),
        add_master_stream (valve_stream_master valve),
        master_transition SafeOp,
        \<lambda>b. (map_sum ExchangeFailed id started, b)]"

text \<open>Both slaves into a state, and the wait for it.\<close>

definition move_slaves ::
    "dummy_hardware service connection \<Rightarrow> dummy_hardware service connection \<Rightarrow> device_state \<Rightarrow> nat \<Rightarrow>
       (master_error, master_run) action" where
  "move_slaves con_t con_v target polls =
     in_order
       [on_temperature (client_set_target_state con_t target),
        on_valve (client_set_target_state con_v target),
        wait_temperature con_t target polls,
        wait_valve con_v target polls]"

text \<open>In \<open>SafeOp\<close> the master waits up to five seconds for the first sample: the temperature it reads in each
  round, and the milliseconds since the wait began. The wait ends with the sample or without one, and
  changes nothing; it is no part of \<open>bring_up\<close>.\<close>

fun first_sample :: "(nat \<times> u16) list \<Rightarrow> u16 option" where
  "first_sample [] = None"
| "first_sample ((elapsed, current_temperature) # rounds) =
     (if elapsed \<ge> 5000 then None
      else if current_temperature > 0 then Some current_temperature
      else first_sample rounds)"

lemma first_sample_eq:
  "first_sample rounds =
     (case dropWhile (\<lambda>(elapsed, t). elapsed < 5000 \<and> t = 0) rounds of
        (elapsed, t) # _ \<Rightarrow> if elapsed < 5000 then Some t else None
      | [] \<Rightarrow> None)"
  by (induction rounds rule: first_sample.induct) (auto simp: word_neq_0_conv)

lemma first_sample_positive: "first_sample rounds = Some t \<Longrightarrow> 0 < t \<and> (\<exists>elapsed<5000. (elapsed, t) \<in> set rounds)"
  by (induction rounds rule: first_sample.induct) (auto simp: not_le split: if_splits)

text \<open>The last phase: both slaves, then the master.\<close>

definition enter_op ::
    "dummy_hardware service connection \<Rightarrow> dummy_hardware service connection \<Rightarrow> nat \<Rightarrow>
       (master_error, master_run) action" where
  "enter_op con_t con_v polls = in_order [move_slaves con_t con_v Op polls, master_transition Op]"

definition with_interface_mac ::
    "mac_addr option \<Rightarrow> (mac_addr \<Rightarrow> (master_error, master_run) action) \<Rightarrow> (master_error, master_run) action" where
  "with_interface_mac mac act b =
     (case mac of None \<Rightarrow> (Inl NoInterfaceMac, b) | Some master \<Rightarrow> act master b)"

definition bring_up ::
    "bytes \<Rightarrow> dummy_hardware service connection \<Rightarrow> dummy_hardware service connection \<Rightarrow> master_inputs \<Rightarrow>
       mac_addr \<Rightarrow> (master_error, master_run) action" where
  "bring_up shared_secret con_t con_v inp valve =
     in_order
       [connect_slaves shared_secret inp,
        query_slaves con_t con_v,
        with_interface_mac (mn_interface_mac inp) (\<lambda>master. in_order
          [configure_slaves con_t con_v master valve,
           start_exchange shared_secret (mn_started inp) master valve,
           move_slaves con_t con_v SafeOp (mn_polls inp),
           enter_op con_t con_v (mn_polls inp)])]"

text \<open>An action whose error is dropped.\<close>

definition ignored :: "('e, 'o) action \<Rightarrow> ('e, 'o) action" where
  "ignored act b = (Inr (), snd (act b))"

definition shut_down ::
    "dummy_hardware service connection \<Rightarrow> dummy_hardware service connection \<Rightarrow> nat \<Rightarrow>
       (master_error, master_run) action" where
  "shut_down con_t con_v polls =
     in_order
       [ignored (on_temperature (client_set_target_state con_t Shutdown)),
        ignored (on_valve (client_set_target_state con_v Shutdown)),
        ignored (wait_temperature con_t Shutdown polls),
        ignored (wait_valve con_v Shutdown polls),
        master_transition Shutdown]"

text \<open>The run; between its two parts the control loop turns, which only touches the process image.\<close>

definition run_master ::
    "bytes \<Rightarrow> dummy_hardware service connection \<Rightarrow> dummy_hardware service connection \<Rightarrow> master_inputs \<Rightarrow>
       mac_addr \<Rightarrow> (master_error, master_run) action" where
  "run_master shared_secret con_t con_v inp valve =
     in_order [bring_up shared_secret con_t con_v inp valve, shut_down con_t con_v (mn_polls inp)]"

section \<open>One call\<close>

lemma service_core_simps [simp]:
  "sa_state (service_core w) = sa_state (sv_api w)" "sa_status (service_core w) = sa_status (sv_api w)"
  "sa_streams (service_core w) = sa_streams (sv_api w)" "sa_hardware (service_core w) = sa_hardware (sv_api w)"
  by (simp_all add: service_core_def)

text \<open>What is known of a slave and the client that talks to it: its state, which is the published
  one, the streams it holds, the secret and the role of its hardware; the client has the key.\<close>

definition slave_at ::
    "(string \<Rightarrow> bool) \<Rightarrow> bytes \<Rightarrow> dummy_hardware_role \<Rightarrow> device_state \<Rightarrow> (u16 \<rightharpoonup> stream_entry) \<Rightarrow>
       api_client \<times> dummy_hardware service \<Rightarrow> bool" where
  "slave_at hdr secret role st str cw \<longleftrightarrow>
     (case cw of (c, w) \<Rightarrow>
        service_accepts (ac_shared_key c) w \<and> (\<forall>token. ac_token c = Some token \<longrightarrow> hdr token) \<and>
        sa_state (sv_api w) = st \<and> published (sv_api w) \<and>
        sa_streams (sv_api w) = \<lparr>ss_shared_secret = secret, ss_streams = str\<rparr> \<and>
        dh_role (sa_hardware (sv_api w)) = role)"

lemma slave_call:
  assumes "timely enc hdr inp" "slave_at hdr secret role st str (c, w)"
  obtains wall r c' w' where
    "authorized_call (service_connection env enc hdr inp) req c w = (Inr r, c', w')"
    "perform env wall req (service_core w) = (r, service_core w')"
    "service_accepts (ac_shared_key c') w'" "\<forall>token. ac_token c' = Some token \<longrightarrow> hdr token"
proof -
  have "service_accepts (ac_shared_key c) w" "\<forall>token. ac_token c = Some token \<longrightarrow> hdr token"
    using assms(2) by (simp_all add: slave_at_def)
  from service_call [OF assms(1) this, of env req] obtain wall r token w' where
    "authorized_call (service_connection env enc hdr inp) req c w = (Inr r, c\<lparr>ac_token := Some token\<rparr>, w')"
    "perform env wall req (service_core w) = (r, service_core w')" "hdr token"
    "service_accepts (ac_shared_key c) w'" by metis
  then show thesis by (intro that [of r "c\<lparr>ac_token := Some token\<rparr>" w' wall]) simp_all
qed

lemma published_core: "published (service_core w) \<longleftrightarrow> published (sv_api w)"
  by (simp add: published_def)

text \<open>A call whose procedure takes the service's core from one description to another.\<close>

lemma slave_call_at:
  assumes "timely enc hdr inp" "slave_at hdr secret role st str (c, w)"
    and "\<And>wall. sa_state (snd (perform env wall req (service_core w))) = st' \<and>
      sa_streams (snd (perform env wall req (service_core w))) =
        \<lparr>ss_shared_secret = secret, ss_streams = str'\<rparr> \<and>
      sa_hardware (snd (perform env wall req (service_core w))) = sa_hardware (sv_api w)"
  obtains wall r c' w' where
    "authorized_call (service_connection env enc hdr inp) req c w = (Inr r, c', w')"
    "slave_at hdr secret role st' str' (c', w')" "r = fst (perform env wall req (service_core w))"
proof -
  obtain wall r c' w' where call: "authorized_call (service_connection env enc hdr inp) req c w = (Inr r, c', w')"
    "perform env wall req (service_core w) = (r, service_core w')"
    "service_accepts (ac_shared_key c') w'" "\<forall>token. ac_token c' = Some token \<longrightarrow> hdr token"
    by (rule slave_call [OF assms(1,2)])
  have "published (service_core w)" using assms(2) by (simp add: slave_at_def published_core)
  then have "published (sv_api w')"
    using perform_published [of "service_core w" env wall req] call(2) by (simp add: published_core)
  with call assms(2) assms(3) [of wall] have "slave_at hdr secret role st' str' (c', w')"
    by (simp add: slave_at_def)
  with call show thesis by (intro that [of r c' w' wall]) simp_all
qed

lemma slave_query:
  assumes "timely enc hdr inp" "slave_at hdr secret role st str (c, w)"
    and "req \<in> {GetStatus, GetDeviceInfo, SubscribeToDeviceStatus n}"
  shows "\<exists>r c' w'. authorized_call (service_connection env enc hdr inp) req c w = (Inr r, c', w') \<and>
    slave_at hdr secret role st str (c', w') \<and>
    (req = GetStatus \<longrightarrow> r = DeviceStatusReply (st_current (sa_status (sv_api w))))"
proof (rule slave_call_at [OF assms(1,2), of env req st str])
  show "sa_state (snd (perform env wall req (service_core w))) = st \<and>
      sa_streams (snd (perform env wall req (service_core w))) =
        \<lparr>ss_shared_secret = secret, ss_streams = str\<rparr> \<and>
      sa_hardware (snd (perform env wall req (service_core w))) = sa_hardware (sv_api w)" for wall
    using assms(2,3) by (auto simp: slave_at_def case_prod_beta)
next
  fix wall r c' w'
  assume call: "authorized_call (service_connection env enc hdr inp) req c w = (Inr r, c', w')"
    "slave_at hdr secret role st str (c', w')" and r: "r = fst (perform env wall req (service_core w))"
  have "r = DeviceStatusReply (st_current (sa_status (sv_api w)))" if "req = GetStatus"
    unfolding r that by simp
  with call show ?thesis by blast
qed

lemma slave_target:
  assumes "timely enc hdr inp" "slave_at hdr secret role st str (c, w)"
    and "set_target_state st target = (Inr (), target)"
  obtains r c' w' where
    "authorized_call (service_connection env enc hdr inp) (SetTargetState target) c w = (Inr r, c', w')"
    "slave_at hdr secret role target str (c', w')"
proof (rule slave_call_at [OF assms(1,2), of env "SetTargetState target" target str])
  show "sa_state (snd (perform env wall (SetTargetState target) (service_core w))) = target \<and>
      sa_streams (snd (perform env wall (SetTargetState target) (service_core w))) =
        \<lparr>ss_shared_secret = secret, ss_streams = str\<rparr> \<and>
      sa_hardware (snd (perform env wall (SetTargetState target) (service_core w))) =
        sa_hardware (sv_api w)" for wall
    using assms(2,3)
    by (simp add: slave_at_def rpc_set_target_state_def rpc_set_manager_def rpc_set_status_def)
qed (rule that)

lemma slave_configure:
  assumes "timely enc hdr inp" "slave_at hdr secret role PreOp str (c, w)"
    and "env_image env = dummy_process_image"
    and "\<And>h. dh_role h = role \<Longrightarrow> dummy_get_layout h = Inr layout" and "stream_ok layout stream"
  obtains r c' w' where
    "authorized_call (service_connection env enc hdr inp) (ConfigureStreams [stream]) c w = (Inr r, c', w')"
    "slave_at hdr secret role PreOp (config_map [stream]) (c', w')"
proof (rule slave_call_at [OF assms(1,2), of env "ConfigureStreams [stream]" PreOp "config_map [stream]"])
  have "get_layout (env_image env) (sa_hardware (sv_api w)) = Inr layout"
    using assms(2,3) assms(4) [of "sa_hardware (sv_api w)"] by (simp add: slave_at_def dummy_process_image_def)
  then show "sa_state (snd (perform env wall (ConfigureStreams [stream]) (service_core w))) = PreOp \<and>
      sa_streams (snd (perform env wall (ConfigureStreams [stream]) (service_core w))) =
        \<lparr>ss_shared_secret = secret, ss_streams = config_map [stream]\<rparr> \<and>
      sa_hardware (snd (perform env wall (ConfigureStreams [stream]) (service_core w))) =
        sa_hardware (sv_api w)" for wall
    using assms(2,5) by (simp add: slave_at_def rpc_configure_streams_eq)
qed (rule that)

section \<open>The sequence\<close>

definition achieves :: "('b \<Rightarrow> bool) \<Rightarrow> ('e, 'b) action \<Rightarrow> ('b \<Rightarrow> bool) \<Rightarrow> bool" where
  "achieves P act Q \<longleftrightarrow> (\<forall>b. P b \<longrightarrow> (\<exists>b'. act b = (Inr (), b') \<and> Q b'))"

lemma achieves_Nil: "achieves P (in_order []) P"
  by (simp add: achieves_def)

lemma achieves_Cons:
  "achieves P act Q \<Longrightarrow> achieves Q (in_order acts) R \<Longrightarrow> achieves P (in_order (act # acts)) R"
  by (fastforce simp: achieves_def and_then_def)

definition run_at ::
    "(string \<Rightarrow> bool) \<Rightarrow> (string \<Rightarrow> bool) \<Rightarrow> bytes \<Rightarrow> device_state \<Rightarrow> stream_store \<Rightarrow> device_state \<Rightarrow>
       (u16 \<rightharpoonup> stream_entry) \<Rightarrow> device_state \<Rightarrow> (u16 \<rightharpoonup> stream_entry) \<Rightarrow> master_run \<Rightarrow> bool" where
  "run_at hdr_t hdr_v secret ms store ts tstr vs vstr b \<longleftrightarrow>
     bu_state b = ms \<and> bu_store b = store \<and>
     slave_at hdr_t secret TemperatureSensor ts tstr (bu_temperature b) \<and>
     slave_at hdr_v secret ValveController vs vstr (bu_valve b)"

lemma achieves_transition:
  "set_target_state ms target = (Inr (), target) \<Longrightarrow>
   achieves (run_at ht hv k ms store ts tstr vs vstr) (master_transition target)
     (run_at ht hv k target store ts tstr vs vstr)"
  by (simp add: achieves_def run_at_def master_transition_def)

lemma achieves_add_stream:
  "add_stream_config stream store = (Inr (), store') \<Longrightarrow>
   achieves (run_at ht hv k ms store ts tstr vs vstr) (add_master_stream stream)
     (run_at ht hv k ms store' ts tstr vs vstr)"
  by (auto simp: achieves_def run_at_def add_master_stream_def)

text \<open>A call on either side, from its effect on that side.\<close>

lemma achieves_temperature:
  assumes "\<And>c w. slave_at ht k TemperatureSensor ts tstr (c, w) \<Longrightarrow>
    \<exists>r c' w'. f c w = (Inr r, c', w') \<and> slave_at ht k TemperatureSensor ts' tstr' (c', w')"
  shows "achieves (run_at ht hv k ms store ts tstr vs vstr) (on_temperature f)
    (run_at ht hv k ms store ts' tstr' vs vstr)"
  unfolding achieves_def
proof (intro allI impI)
  fix b
  assume b: "run_at ht hv k ms store ts tstr vs vstr b"
  then obtain r c' w' where "f (fst (bu_temperature b)) (snd (bu_temperature b)) = (Inr r, c', w')"
    "slave_at ht k TemperatureSensor ts' tstr' (c', w')"
    using assms [of "fst (bu_temperature b)" "snd (bu_temperature b)"] by (auto simp: run_at_def)
  with b show "\<exists>b'. on_temperature f b = (Inr (), b') \<and> run_at ht hv k ms store ts' tstr' vs vstr b'"
    by (simp add: on_temperature_def call_result_def run_at_def)
qed

lemma achieves_valve:
  assumes "\<And>c w. slave_at hv k ValveController vs vstr (c, w) \<Longrightarrow>
    \<exists>r c' w'. f c w = (Inr r, c', w') \<and> slave_at hv k ValveController vs' vstr' (c', w')"
  shows "achieves (run_at ht hv k ms store ts tstr vs vstr) (on_valve f)
    (run_at ht hv k ms store ts tstr vs' vstr')"
  unfolding achieves_def
proof (intro allI impI)
  fix b
  assume b: "run_at ht hv k ms store ts tstr vs vstr b"
  then obtain r c' w' where "f (fst (bu_valve b)) (snd (bu_valve b)) = (Inr r, c', w')"
    "slave_at hv k ValveController vs' vstr' (c', w')"
    using assms [of "fst (bu_valve b)" "snd (bu_valve b)"] by (auto simp: run_at_def)
  with b show "\<exists>b'. on_valve f b = (Inr (), b') \<and> run_at ht hv k ms store ts tstr vs' vstr' b'"
    by (simp add: on_valve_def call_result_def run_at_def)
qed

lemma wait_at_once:
  assumes "timely enc hdr inp" "slave_at hdr secret role st str (c, w)" "0 < polls"
  shows "\<exists>c' w'. wait_for_slave_state (service_connection env enc hdr inp) st polls c w = (Inr (), c', w') \<and>
    slave_at hdr secret role st str (c', w')"
proof -
  obtain r c' w' where call:
    "authorized_call (service_connection env enc hdr inp) GetStatus c w = (Inr r, c', w')"
    "slave_at hdr secret role st str (c', w')"
    "r = DeviceStatusReply (st_current (sa_status (sv_api w)))"
    using slave_query [OF assms(1,2), of GetStatus None env] by auto
  have "ds_state (st_current (sa_status (sv_api w))) = state_num st"
    using assms(2) by (simp add: slave_at_def published_def)
  with call assms(3) show ?thesis by (cases polls) (simp_all add: client_get_status_def)
qed

lemma achieves_wait_temperature:
  assumes "timely enc ht inp" "0 < polls"
  shows "achieves (run_at ht hv k ms store ts tstr vs vstr)
    (wait_temperature (service_connection env enc ht inp) ts polls) (run_at ht hv k ms store ts tstr vs vstr)"
  unfolding achieves_def
proof (intro allI impI)
  fix b
  assume b: "run_at ht hv k ms store ts tstr vs vstr b"
  then have "slave_at ht k TemperatureSensor ts tstr (fst (bu_temperature b), snd (bu_temperature b))"
    by (simp add: run_at_def)
  from wait_at_once [OF assms(1) this assms(2), of env] b
  show "\<exists>b'. wait_temperature (service_connection env enc ht inp) ts polls b = (Inr (), b') \<and>
      run_at ht hv k ms store ts tstr vs vstr b'"
    by (auto simp: wait_temperature_def run_at_def)
qed

lemma achieves_wait_valve:
  assumes "timely enc hv inp" "0 < polls"
  shows "achieves (run_at ht hv k ms store ts tstr vs vstr)
    (wait_valve (service_connection env enc hv inp) vs polls) (run_at ht hv k ms store ts tstr vs vstr)"
  unfolding achieves_def
proof (intro allI impI)
  fix b
  assume b: "run_at ht hv k ms store ts tstr vs vstr b"
  then have "slave_at hv k ValveController vs vstr (fst (bu_valve b), snd (bu_valve b))"
    by (simp add: run_at_def)
  from wait_at_once [OF assms(1) this assms(2), of env] b
  show "\<exists>b'. wait_valve (service_connection env enc hv inp) vs polls b = (Inr (), b') \<and>
      run_at ht hv k ms store ts tstr vs vstr b'"
    by (auto simp: wait_valve_def run_at_def)
qed

text \<open>What the two layouts allow, and what the master's store holds after both streams.\<close>

lemma demo_streams_ok:
  "stream_ok [process_var ''Temperature'' DtUint16 Output 0 0 16] (temperature_stream_slave master)"
  "stream_ok [process_var ''ValveOpen'' DtBool Input 0 0 1] (valve_stream_slave valve)"
  by (auto simp: stream_ok_def temperature_stream_slave_def temperature_stream_master_def
      valve_stream_slave_def valve_stream_master_def process_var_def direction_try_from_def
      TEMPERATURE_STREAM_ID_def VALVE_STREAM_ID_def TEMPERATURE_STREAM_CYCLE_NS_def
      VALVE_STREAM_CYCLE_NS_def)

definition master_store :: "bytes \<Rightarrow> mac_addr \<Rightarrow> mac_addr \<Rightarrow> stream_store" where
  "master_store secret master valve =
     \<lparr>ss_shared_secret = secret,
      ss_streams = [1001 \<mapsto> fresh_entry (temperature_stream_master master),
                    1002 \<mapsto> fresh_entry (valve_stream_master valve)]\<rparr>"

lemma demo_config_ids:
  "config_id (temperature_stream_master master) = 1001" "config_id (valve_stream_master valve) = 1002"
  "config_id (temperature_stream_slave master) = 1001" "config_id (valve_stream_slave valve) = 1002"
  by (simp_all add: config_id_def temperature_stream_master_def valve_stream_master_def
      temperature_stream_slave_def valve_stream_slave_def TEMPERATURE_STREAM_ID_def VALVE_STREAM_ID_def)

lemma demo_master_streams:
  "\<exists>store1. add_stream_config (temperature_stream_master master) (stream_store_new secret) = (Inr (), store1) \<and>
     add_stream_config (valve_stream_master valve) store1 = (Inr (), master_store secret master valve)"
proof -
  have "config_ok (temperature_stream_master master)" "config_ok (valve_stream_master valve)"
    by (simp_all add: config_ok_def temperature_stream_master_def valve_stream_master_def
        TEMPERATURE_STREAM_ID_def VALVE_STREAM_ID_def direction_try_from_def)
  then show ?thesis
    by (simp add: add_stream_config_def insert_stream_config_eq demo_config_ids stream_store_new_def
        master_store_def)
qed

text \<open>The calls of the sequence, on either side.\<close>

lemma achieves_query_t:
  assumes "timely enc ht inp"
  shows "achieves (run_at ht hv k ms store ts tstr vs vstr)
      (on_temperature (client_get_device_info (service_connection env enc ht inp)))
      (run_at ht hv k ms store ts tstr vs vstr)"
    and "achieves (run_at ht hv k ms store ts tstr vs vstr)
      (on_temperature (client_subscribe_to_device_status (service_connection env enc ht inp) n))
      (run_at ht hv k ms store ts tstr vs vstr)"
  unfolding client_get_device_info_def client_subscribe_to_device_status_def
  using slave_query [OF assms, of _ _ _ _ _ _ GetDeviceInfo n env]
    slave_query [OF assms, of _ _ _ _ _ _ "SubscribeToDeviceStatus n" n env]
  by (intro achieves_temperature, fastforce)+

lemma achieves_query_v:
  assumes "timely enc hv inp"
  shows "achieves (run_at ht hv k ms store ts tstr vs vstr)
      (on_valve (client_get_device_info (service_connection env enc hv inp)))
      (run_at ht hv k ms store ts tstr vs vstr)"
    and "achieves (run_at ht hv k ms store ts tstr vs vstr)
      (on_valve (client_subscribe_to_device_status (service_connection env enc hv inp) n))
      (run_at ht hv k ms store ts tstr vs vstr)"
  unfolding client_get_device_info_def client_subscribe_to_device_status_def
  using slave_query [OF assms, of _ _ _ _ _ _ GetDeviceInfo n env]
    slave_query [OF assms, of _ _ _ _ _ _ "SubscribeToDeviceStatus n" n env]
  by (intro achieves_valve, fastforce)+

lemma achieves_target_t:
  assumes "timely enc ht inp" "set_target_state ts target = (Inr (), target)"
  shows "achieves (run_at ht hv k ms store ts tstr vs vstr)
    (on_temperature (client_set_target_state (service_connection env enc ht inp) target))
    (run_at ht hv k ms store target tstr vs vstr)"
  unfolding client_set_target_state_def
  by (rule achieves_temperature, erule slave_target [OF assms(1) _ assms(2)]) blast

lemma achieves_target_v:
  assumes "timely enc hv inp" "set_target_state vs target = (Inr (), target)"
  shows "achieves (run_at ht hv k ms store ts tstr vs vstr)
    (on_valve (client_set_target_state (service_connection env enc hv inp) target))
    (run_at ht hv k ms store ts tstr target vstr)"
  unfolding client_set_target_state_def
  by (rule achieves_valve, erule slave_target [OF assms(1) _ assms(2)]) blast

lemma achieves_configure_t:
  assumes "timely enc ht inp" "env_image env = dummy_process_image"
  shows "achieves (run_at ht hv k ms store PreOp tstr vs vstr)
    (on_temperature (client_configure_streams (service_connection env enc ht inp) [temperature_stream_slave m]))
    (run_at ht hv k ms store PreOp (config_map [temperature_stream_slave m]) vs vstr)"
  unfolding client_configure_streams_def
  by (rule achieves_temperature, erule slave_configure [OF assms(1) _ assms(2) _ demo_streams_ok(1)])
    (simp add: dummy_get_layout_def, blast)

lemma achieves_configure_v:
  assumes "timely enc hv inp" "env_image env = dummy_process_image"
  shows "achieves (run_at ht hv k ms store ts tstr PreOp vstr)
    (on_valve (client_configure_streams (service_connection env enc hv inp) [valve_stream_slave m]))
    (run_at ht hv k ms store ts tstr PreOp (config_map [valve_stream_slave m]))"
  unfolding client_configure_streams_def
  by (rule achieves_valve, erule slave_configure [OF assms(1) _ assms(2) _ demo_streams_ok(2)])
    (simp add: dummy_get_layout_def, blast)

lemma in_order_Cons_ok: "act b = (Inr (), b') \<Longrightarrow> in_order (act # acts) b = in_order acts b'"
  by (simp add: and_then_def)

lemma with_interface_mac_Some: "with_interface_mac (Some master) act = act master"
  by (rule ext) (simp add: with_interface_mac_def)

text \<open>The phases of the run, from what is known of the three stations before and after each.\<close>

lemma connect_achieves:
  assumes "mn_connected_temperature inp = Inr ()" "mn_connected_valve inp = Inr ()"
    and "set_target_state (bu_state b) PreOp = (Inr (), PreOp)"
    and "slave_at ht k TemperatureSensor ts tstr (api_client_connect secret, snd (bu_temperature b))"
    and "slave_at hv k ValveController vs vstr (api_client_connect secret, snd (bu_valve b))"
  shows "\<exists>b'. connect_slaves secret inp b = (Inr (), b') \<and>
    run_at ht hv k PreOp (bu_store b) ts tstr vs vstr b'"
  using assms by (simp add: connect_slaves_def and_then_def master_transition_def run_at_def)

lemma query_achieves:
  assumes "timely enc_t ht inp_t" "timely enc_v hv inp_v"
  shows "achieves (run_at ht hv k ms store ts tstr vs vstr)
    (query_slaves (service_connection env_t enc_t ht inp_t) (service_connection env_v enc_v hv inp_v))
    (run_at ht hv k ms store ts tstr vs vstr)"
  unfolding query_slaves_def
  by (rule achieves_Cons, rule achieves_query_t [OF assms(1)] achieves_query_v [OF assms(2)])+
    (rule achieves_Nil)

lemma configure_achieves:
  assumes "timely enc_t ht inp_t" "timely enc_v hv inp_v"
    and "env_image env_t = dummy_process_image" "env_image env_v = dummy_process_image"
  shows "achieves (run_at ht hv k ms store PreOp tstr PreOp vstr)
    (configure_slaves (service_connection env_t enc_t ht inp_t) (service_connection env_v enc_v hv inp_v)
       master valve)
    (run_at ht hv k ms store PreOp (config_map [temperature_stream_slave master])
       PreOp (config_map [valve_stream_slave valve]))"
  unfolding configure_slaves_def
  by (rule achieves_Cons, rule achieves_configure_t [OF assms(1,3)] achieves_configure_v [OF assms(2,4)])+
    (rule achieves_Nil)

lemma exchange_achieves:
  "achieves (run_at ht hv k PreOp store ts tstr vs vstr) (start_exchange secret (Inr ()) master valve)
    (run_at ht hv k SafeOp (master_store secret master valve) ts tstr vs vstr)"
proof -
  obtain store1 where adds:
    "add_stream_config (temperature_stream_master master) (stream_store_new secret) = (Inr (), store1)"
    "add_stream_config (valve_stream_master valve) store1 = (Inr (), master_store secret master valve)"
    using demo_master_streams by blast
  have move: "set_target_state PreOp SafeOp = (Inr (), SafeOp)" by simp
  have fresh: "achieves (run_at ht hv k PreOp store ts tstr vs vstr)
      (\<lambda>b. (Inr (), b\<lparr>bu_store := stream_store_new secret\<rparr>))
      (run_at ht hv k PreOp (stream_store_new secret) ts tstr vs vstr)"
    and started: "achieves (run_at ht hv k SafeOp st ts tstr vs vstr) (\<lambda>b. (map_sum ExchangeFailed id (Inr ()), b))
      (run_at ht hv k SafeOp st ts tstr vs vstr)" for st
    by (auto simp: achieves_def run_at_def)
  note rules = fresh adds(1) [THEN achieves_add_stream] adds(2) [THEN achieves_add_stream]
    move [THEN achieves_transition] started
  show ?thesis unfolding start_exchange_def by (rule achieves_Cons, rule rules)+ (rule achieves_Nil)
qed

lemma move_achieves:
  assumes "timely enc_t ht inp_t" "timely enc_v hv inp_v" and "0 < polls"
    and "set_target_state st target = (Inr (), target)"
  shows "achieves (run_at ht hv k ms store st tstr st vstr)
    (move_slaves (service_connection env_t enc_t ht inp_t) (service_connection env_v enc_v hv inp_v)
       target polls)
    (run_at ht hv k ms store target tstr target vstr)"
proof -
  note rules = achieves_target_t [OF assms(1,4)] achieves_target_v [OF assms(2,4)]
    achieves_wait_temperature [OF assms(1,3)] achieves_wait_valve [OF assms(2,3)]
  show ?thesis unfolding move_slaves_def by (rule achieves_Cons, rule rules)+ (rule achieves_Nil)
qed

lemma enter_op_achieves:
  assumes "timely enc_t ht inp_t" "timely enc_v hv inp_v" and "0 < polls"
  shows "achieves (run_at ht hv k SafeOp store SafeOp tstr SafeOp vstr)
    (enter_op (service_connection env_t enc_t ht inp_t) (service_connection env_v enc_v hv inp_v) polls)
    (run_at ht hv k Op store Op tstr Op vstr)"
proof -
  have move: "set_target_state SafeOp Op = (Inr (), Op)" by simp
  note rules = move_achieves [OF assms move] move [THEN achieves_transition]
  show ?thesis unfolding enter_op_def by (rule achieves_Cons, rule rules)+ (rule achieves_Nil)
qed

lemma achieves_ignored: "achieves P act Q \<Longrightarrow> achieves P (ignored act) Q"
  by (fastforce simp: achieves_def ignored_def)

lemma shut_down_achieves:
  assumes "timely enc_t ht inp_t" "timely enc_v hv inp_v" and "0 < polls"
  shows "achieves (run_at ht hv k Op store Op tstr Op vstr)
    (shut_down (service_connection env_t enc_t ht inp_t) (service_connection env_v enc_v hv inp_v) polls)
    (run_at ht hv k Shutdown store Shutdown tstr Shutdown vstr)"
proof -
  have move: "set_target_state Op Shutdown = (Inr (), Shutdown)" by simp
  note rules = achieves_target_t [OF assms(1) move, THEN achieves_ignored]
    achieves_target_v [OF assms(2) move, THEN achieves_ignored]
    achieves_wait_temperature [OF assms(1,3), THEN achieves_ignored]
    achieves_wait_valve [OF assms(2,3), THEN achieves_ignored] move [THEN achieves_transition]
  show ?thesis unfolding shut_down_def by (rule achieves_Cons, rule rules)+ (rule achieves_Nil)
qed

text \<open>What the master's run starts from, and the stations once they are up.\<close>

definition ready_slaves ::
    "(string \<Rightarrow> bool) \<Rightarrow> (string \<Rightarrow> bool) \<Rightarrow> bytes \<Rightarrow> (u16 \<rightharpoonup> stream_entry) \<Rightarrow> (u16 \<rightharpoonup> stream_entry) \<Rightarrow>
       master_run \<Rightarrow> bool" where
  "ready_slaves ht hv secret ts vs b \<longleftrightarrow>
     slave_at ht secret TemperatureSensor PreOp ts (api_client_connect secret, snd (bu_temperature b)) \<and>
     slave_at hv secret ValveController PreOp vs (api_client_connect secret, snd (bu_valve b))"

definition all_granted :: "mac_addr \<Rightarrow> master_inputs \<Rightarrow> bool" where
  "all_granted master inp \<longleftrightarrow>
     mn_connected_temperature inp = Inr () \<and> mn_connected_valve inp = Inr () \<and>
     mn_interface_mac inp = Some master \<and> mn_started inp = Inr () \<and> 0 < mn_polls inp"

abbreviation stations_up where
  "stations_up ht hv secret master valve \<equiv> run_at ht hv secret Op (master_store secret master valve)
     Op (config_map [temperature_stream_slave master]) Op (config_map [valve_stream_slave valve])"

lemma bring_up_achieves:
  assumes "timely enc_t ht inp_t" "timely enc_v hv inp_v" and "all_granted master inp"
    and "env_image env_t = dummy_process_image" "env_image env_v = dummy_process_image"
    and "bu_state b = DiscoverySync" "ready_slaves ht hv secret ts vs b"
  shows "\<exists>b'. bring_up secret (service_connection env_t enc_t ht inp_t)
      (service_connection env_v enc_v hv inp_v) inp valve b = (Inr (), b') \<and>
    stations_up ht hv secret master valve b'"
proof -
  let ?ct = "service_connection env_t enc_t ht inp_t" and ?cv = "service_connection env_v enc_v hv inp_v"
  have granted: "mn_connected_temperature inp = Inr ()" "mn_connected_valve inp = Inr ()"
    "mn_interface_mac inp = Some master" "mn_started inp = Inr ()" "0 < mn_polls inp"
    using assms(3) by (simp_all add: all_granted_def)
  have "set_target_state (bu_state b) PreOp = (Inr (), PreOp)" using assms(6) by simp
  with connect_achieves [OF granted(1,2)] assms(7) obtain b1 where
    b1: "connect_slaves secret inp b = (Inr (), b1)"
      "run_at ht hv secret PreOp (bu_store b) PreOp ts PreOp vs b1"
    unfolding ready_slaves_def by blast
  have move: "set_target_state PreOp SafeOp = (Inr (), SafeOp)" by simp
  note rules = configure_achieves [OF assms(1,2,4,5)] exchange_achieves
    move_achieves [OF assms(1,2) granted(5) move] enter_op_achieves [OF assms(1,2) granted(5)]
  have "achieves (run_at ht hv secret PreOp (bu_store b) PreOp ts PreOp vs)
      (with_interface_mac (mn_interface_mac inp) (\<lambda>master. in_order
        [configure_slaves ?ct ?cv master valve, start_exchange secret (mn_started inp) master valve,
         move_slaves ?ct ?cv SafeOp (mn_polls inp), enter_op ?ct ?cv (mn_polls inp)]))
      (stations_up ht hv secret master valve)"
    unfolding granted(3,4) with_interface_mac_Some
    by (rule achieves_Cons, rule rules)+ (rule achieves_Nil)
  from achieves_Cons [OF query_achieves [OF assms(1,2)] achieves_Cons [OF this achieves_Nil]] b1
  show ?thesis unfolding bring_up_def achieves_def in_order_Cons_ok [of "connect_slaves secret inp" b b1, OF b1(1)]
    by blast
qed

lemma config_map_single: "config_map [c] = [config_id c \<mapsto> fresh_entry c]"
  by (simp add: config_map_def)

lemma demo_directions:
  "sc_direction (temperature_stream_slave m) = direction_num Output"
  "sc_direction (temperature_stream_master m) = direction_num Input"
  "sc_direction (valve_stream_master m) = direction_num Output"
  "sc_direction (valve_stream_slave m) = direction_num Input"
  by (simp_all add: temperature_stream_slave_def temperature_stream_master_def valve_stream_master_def
      valve_stream_slave_def)

text \<open>Fresh stores of the two ends are in step.\<close>

lemma demo_in_step:
  "in_step \<lparr>ss_shared_secret = secret, ss_streams = config_map [temperature_stream_slave master]\<rparr>
     (master_store secret master valve) 1001"
  "in_step (master_store secret master valve)
     \<lparr>ss_shared_secret = secret, ss_streams = config_map [valve_stream_slave valve]\<rparr> 1002"
  using in_step_fresh [of "master_store secret master valve"
      "\<lparr>ss_shared_secret = secret, ss_streams = config_map [temperature_stream_slave master]\<rparr>" 1001
      "temperature_stream_slave master" "temperature_stream_master master"]
    in_step_fresh [of "\<lparr>ss_shared_secret = secret, ss_streams = config_map [valve_stream_slave valve]\<rparr>"
      "master_store secret master valve" 1002 "valve_stream_master valve" "valve_stream_slave valve"]
  by (simp_all add: master_store_def config_map_single demo_config_ids demo_directions)

section \<open>The loop through both slaves\<close>

lemma demo_positions:
  "sc_stream_content (temperature_stream_slave m) = Some temperature_position"
  "sc_stream_content (temperature_stream_master m) = Some temperature_position"
  "sc_stream_content (valve_stream_master m) = Some valve_position"
  "sc_stream_content (valve_stream_slave m) = Some valve_position"
  by (simp_all add: temperature_stream_slave_def temperature_stream_master_def valve_stream_master_def
      valve_stream_slave_def temperature_position_def valve_position_def)

lemma demo_sendable:
  "sendable (temperature_stream_slave m)" "sendable (valve_stream_master m)"
  by (simp_all add: sendable_def temperature_stream_slave_def temperature_stream_master_def
      valve_stream_master_def)

lemma demo_stream_ids:
  "ucast (sc_stream_id (temperature_stream_slave m)) = (1001 :: u16)"
  "ucast (sc_stream_id (temperature_stream_master m)) = (1001 :: u16)"
  "ucast (sc_stream_id (valve_stream_master m)) = (1002 :: u16)"
  "ucast (sc_stream_id (valve_stream_slave m)) = (1002 :: u16)"
  by (simp_all add: temperature_stream_slave_def temperature_stream_master_def valve_stream_master_def
      valve_stream_slave_def TEMPERATURE_STREAM_ID_def VALVE_STREAM_ID_def)

lemma in_step_other:
  "in_step a b i \<Longrightarrow> i \<noteq> j \<Longrightarrow> in_step (a\<lparr>ss_streams := (ss_streams a)(j \<mapsto> x)\<rparr>) b i"
  by (simp add: in_step_def)

lemma control_turn_image:
  "control_turn (lp, img) =
     (fst (control_turn (lp, img)), fst (snd (control_turn (lp, img))),
      write_valve_state (100 < read_temperature_u16 img) img)"
  by (simp add: control_turn_def Let_def)

section \<open>Properties\<close>

text \<open>
  C5 The system comes up: when both slaves are in \<open>PreOp\<close> with their published state in step and take
  the master's key, its connections, interface and threads are granted, then the sequence of calls
  succeeds whatever tokens expire on the way. Afterwards the master and both slaves are in \<open>Op\<close>,
  each slave holds exactly the stream it was given, and both ends of both streams are in step, so
  that cyclic frames are accepted.
\<close>

theorem bring_up_reaches_op:
  assumes "timely enc_t hdr_t inp_t" "timely enc_v hdr_v inp_v" and "all_granted master inp"
    and "env_image env_t = dummy_process_image" "env_image env_v = dummy_process_image"
    and "bu_state b = DiscoverySync" and "ready_slaves hdr_t hdr_v secret ts vs b"
  shows "\<exists>b'. bring_up secret (service_connection env_t enc_t hdr_t inp_t)
      (service_connection env_v enc_v hdr_v inp_v) inp valve b = (Inr (), b') \<and>
    bu_state b' = Op \<and> sa_state (sv_api (snd (bu_temperature b'))) = Op \<and>
    sa_state (sv_api (snd (bu_valve b'))) = Op \<and>
    ss_streams (sa_streams (sv_api (snd (bu_temperature b')))) = config_map [temperature_stream_slave master] \<and>
    ss_streams (sa_streams (sv_api (snd (bu_valve b')))) = config_map [valve_stream_slave valve] \<and>
    in_step (sa_streams (sv_api (snd (bu_temperature b')))) (bu_store b') 1001 \<and>
    in_step (bu_store b') (sa_streams (sv_api (snd (bu_valve b')))) 1002"
proof -
  obtain b' where "bring_up secret (service_connection env_t enc_t hdr_t inp_t)
      (service_connection env_v enc_v hdr_v inp_v) inp valve b = (Inr (), b')"
    "stations_up hdr_t hdr_v secret master valve b'"
    using bring_up_achieves [OF assms, of valve] by blast
  then show ?thesis
    using demo_in_step(1) [of secret master valve] demo_in_step(2) [of secret master valve]
    by (cases "bu_temperature b'"; cases "bu_valve b'") (simp add: run_at_def slave_at_def)
qed

definition example_service :: "dummy_hardware \<Rightarrow> dummy_hardware service" where
  "example_service h =
     \<lparr>sv_api = \<lparr>sa_state = PreOp, sa_status = update_state PreOp 0 (status_store_new 0),
        sa_tokens = token_store_new (replicate 32 7), sa_streams = stream_store_new (replicate 32 7),
        sa_hardware = h\<rparr>, sv_calls = 0\<rparr>"

definition example_run :: master_run where
  "example_run =
     \<lparr>bu_state = DiscoverySync, bu_store = stream_store_new [],
      bu_temperature = (api_client_connect [], example_service (new_temperature_sensor ''eth0'' TEMPERATURE_SLAVE_MAC)),
      bu_valve = (api_client_connect [], example_service (new_valve_controller ''eth1'' VALVE_SLAVE_MAC))\<rparr>"

definition example_inputs :: master_inputs where
  "example_inputs =
     \<lparr>mn_connected_temperature = Inr (), mn_connected_valve = Inr (), mn_interface_mac = Some master_mac,
      mn_started = Inr (), mn_polls = 100\<rparr>"

lemma example_ready:
  "all_granted master_mac example_inputs" "bu_state example_run = DiscoverySync"
  "ready_slaves (\<lambda>_. True) (\<lambda>_. True) (replicate 32 7) Map.empty Map.empty example_run"
proof -
  have "service_accepts (replicate 32 7) (example_service h)" "published (sv_api (example_service h))" for h
    by (simp_all add: example_service_def service_accepts_def is_shared_key_valid_iff token_store_new_def
        published_def)
  then show "ready_slaves (\<lambda>_. True) (\<lambda>_. True) (replicate 32 7) Map.empty Map.empty example_run"
    by (simp add: ready_slaves_def slave_at_def example_run_def api_client_connect_def)
      (simp add: example_service_def stream_store_new_def new_temperature_sensor_def new_valve_controller_def)
qed (simp_all add: all_granted_def example_inputs_def example_run_def)

theorem bring_up_reaches_op_witness:
  "\<exists>b'. bring_up (replicate 32 7) (service_connection valve_api_env (\<lambda>_. []) (\<lambda>_. True) example_rounds)
      (service_connection valve_api_env (\<lambda>_. []) (\<lambda>_. True) example_rounds) example_inputs valve_mac
      example_run = (Inr (), b') \<and> bu_state b' = Op \<and> sa_state (sv_api (snd (bu_valve b'))) = Op"
proof -
  have image: "env_image valve_api_env = dummy_process_image" by (simp add: valve_api_env_def)
  from bring_up_reaches_op [OF example_timely example_timely example_ready(1) image image example_ready(2,3)]
  show ?thesis by blast
qed

text \<open>
  The whole run of the master: from the same beginning, with the control loop in between, it
  succeeds, and the shutdown takes both slaves and the master from \<open>Op\<close> to \<open>Shutdown\<close>, although the
  errors of its calls to the slaves are dropped.
\<close>

lemma master_run_completes:
  assumes "timely enc_t hdr_t inp_t" "timely enc_v hdr_v inp_v" and "all_granted master inp"
    and "env_image env_t = dummy_process_image" "env_image env_v = dummy_process_image"
    and "bu_state b = DiscoverySync" and "ready_slaves hdr_t hdr_v secret ts vs b"
  shows "\<exists>b'. run_master secret (service_connection env_t enc_t hdr_t inp_t)
      (service_connection env_v enc_v hdr_v inp_v) inp valve b = (Inr (), b') \<and>
    bu_state b' = Shutdown \<and>
    published (sv_api (snd (bu_temperature b'))) \<and> sa_state (sv_api (snd (bu_temperature b'))) = Shutdown \<and>
    published (sv_api (snd (bu_valve b'))) \<and> sa_state (sv_api (snd (bu_valve b'))) = Shutdown"
proof -
  obtain b1 where b1: "bring_up secret (service_connection env_t enc_t hdr_t inp_t)
      (service_connection env_v enc_v hdr_v inp_v) inp valve b = (Inr (), b1)"
    "stations_up hdr_t hdr_v secret master valve b1"
    using bring_up_achieves [OF assms, of valve] by blast
  have "0 < mn_polls inp" using assms(3) by (simp add: all_granted_def)
  from achieves_Cons [OF shut_down_achieves [OF assms(1,2) this] achieves_Nil] b1(2) obtain b' where
    "in_order [shut_down (service_connection env_t enc_t hdr_t inp_t)
       (service_connection env_v enc_v hdr_v inp_v) (mn_polls inp)] b1 = (Inr (), b')"
    "run_at hdr_t hdr_v secret Shutdown (master_store secret master valve)
       Shutdown (config_map [temperature_stream_slave master]) Shutdown (config_map [valve_stream_slave valve]) b'"
    unfolding achieves_def by blast
  then show ?thesis
    unfolding run_master_def in_order_Cons_ok [of "bring_up secret (service_connection env_t enc_t hdr_t inp_t)
      (service_connection env_v enc_v hdr_v inp_v) inp valve" b b1, OF b1(1)]
    by (cases "bu_temperature b'"; cases "bu_valve b'") (simp add: run_at_def slave_at_def)
qed

lemma master_run_completes_example:
  "\<exists>b'. run_master (replicate 32 7) (service_connection valve_api_env (\<lambda>_. []) (\<lambda>_. True) example_rounds)
      (service_connection valve_api_env (\<lambda>_. []) (\<lambda>_. True) example_rounds) example_inputs valve_mac
      example_run = (Inr (), b') \<and> bu_state b' = Shutdown \<and> sa_state (sv_api (snd (bu_valve b'))) = Shutdown"
proof -
  have image: "env_image valve_api_env = dummy_process_image" by (simp add: valve_api_env_def)
  from master_run_completes [OF example_timely example_timely example_ready(1) image image example_ready(2,3)]
  show ?thesis by blast
qed

text \<open>
  C2 The control loop through both slaves: with the streams in step, one cycle of the system carries
  a sensor value \<open>t\<close> to the valve. The temperature slave's frame reaches the master, one turn of the
  control loop decides, the master's frame reaches the valve slave, and its valve is open exactly
  when \<open>t\<close> is above 100.
\<close>

theorem closed_loop:
  assumes "keyed_hash_ok H" and "in_step (sl_store ts) (ml_store m) 1001" "in_step (ml_store m) (sl_store vs) 1002"
    and "simulate_sensor_change t h = Some (sl_image ts)" "length (dh_output_image h) = 2"
    and "length (mp_input_image (ml_image m)) = 2" "length (mp_output_image (ml_image m)) = 1"
    and "length (dh_input_image (sl_image vs)) = 1" and "slave_state vs = Op"
    and "tx_due (temperature_stream_slave master) (si_clock i) tx1"
    and "tx_due (valve_stream_master valve) (mi_clock j) tx2"
    and "se_sequence_number (the (ss_streams (ml_store m) 1002)) < - 1"
  shows "\<exists>frame1 tx1' ts' mr' m' message loop' img frame2 tx2' m'' rx' vs'.
    slave_send_stream H dummy_process_image smac Op (temperature_stream_slave master) i (tx1, ts) =
      Continue (Some frame1, tx1', ts') \<and>
    master_receive_turn H master_process_image_access (stream_map [temperature_stream_master master]) Op
      (Some frame1) mnow (mr, m) = Some (mr', m') \<and>
    control_turn (loop, ml_image m') = (message, loop', img) \<and>
    master_send_stream H master_process_image_access mmac (valve_stream_master valve) j
      (tx2, m'\<lparr>ml_image := img\<rparr>) = Some (Some frame2, tx2', m'') \<and>
    slave_receive_turn H dummy_process_image (stream_map [valve_stream_slave valve]) (Some frame2) vnow wall
      (rx, vs) = Continue (rx', vs') \<and>
    get_valve_status (sl_image vs') = Some (100 < t)"
proof -
  let ?out = "temperature_stream_slave master" and ?inp = "temperature_stream_master master"
  obtain frame1 tx1' ts' mr' m' x where first:
    "slave_send_stream H dummy_process_image smac Op ?out i (tx1, ts) = Continue (Some frame1, tx1', ts')"
    "master_receive_turn H master_process_image_access (stream_map [?inp]) Op (Some frame1) mnow (mr, m) =
      Some (mr', m')"
    "read_temperature_u16 (ml_image m') = t" "mp_output_image (ml_image m') = mp_output_image (ml_image m)"
    "ml_store m' = (ml_store m)\<lparr>ss_streams := (ss_streams (ml_store m))(1001 \<mapsto> x)\<rparr>"
    using temperature_transfer [where streams = "stream_map [?inp]" and out = ?out and inp = ?inp and mstate = Op
        and sstate = Op and mac = smac and now = mnow and mr = mr, OF assms(1) _ _ _ assms(4,5,10) _ _ _ assms(6)]
      assms(2) demo_sendable(1) demo_positions(1,2) demo_stream_ids(1,2)
    by (auto simp: stream_map_def)
  let ?img = "write_valve_state (100 < t) (ml_image m')" and ?m = "m'\<lparr>ml_image := write_valve_state (100 < t) (ml_image m')\<rparr>"
  have step: "in_step (ml_store ?m) (sl_store vs) 1002"
    using in_step_other [OF assms(3), of 1001 x] first(5) by simp
  have number: "se_sequence_number (the (ss_streams (ml_store ?m) 1002)) < - 1"
    using assms(12) first(5) by simp
  have length: "length (mp_output_image (ml_image m')) = 1" using assms(7) first(4) by simp
  obtain frame2 tx2' m'' rx' vs' where second:
    "master_send_stream H master_process_image_access mmac (valve_stream_master valve) j (tx2, ?m) =
      Some (Some frame2, tx2', m'')"
    "slave_receive_turn H dummy_process_image (stream_map [valve_stream_slave valve]) (Some frame2) vnow wall
      (rx, vs) = Continue (rx', vs')"
    "get_valve_status (sl_image vs') = Some (100 < t)"
    using valve_transfer [where streams = "stream_map [valve_stream_slave valve]" and out = "valve_stream_master valve"
        and inp = "valve_stream_slave valve" and m = ?m and img = "ml_image m'" and is_open = "100 < t"
        and mac = mmac and now = vnow and wall = wall and rx = rx,
        OF assms(1) _ _ _ _ length assms(11,9) _ _ assms(8)]
      step number demo_sendable(2) demo_positions(3,4) demo_stream_ids(3,4)
    by (auto simp: stream_map_def)
  have "control_turn (loop, ml_image m') =
      (fst (control_turn (loop, ml_image m')), fst (snd (control_turn (loop, ml_image m'))), ?img)"
    using control_turn_image [of loop "ml_image m'"] first(3) by simp
  with first(1,2) second show ?thesis by blast
qed

definition loop_secret :: bytes where "loop_secret = replicate 32 7"

definition loop_sensor :: "dummy_hardware slave_l2" where
  "loop_sensor = \<lparr>sl_store = \<lparr>ss_shared_secret = loop_secret,
      ss_streams = config_map [temperature_stream_slave master_mac]\<rparr>,
     sl_status = status_store_new 0, sl_image = hot_sensor\<rparr>"

definition loop_master :: "master_process_image master_l2" where
  "loop_master = \<lparr>ml_store = master_store loop_secret master_mac valve_mac, ml_image = master_image_new\<rparr>"

definition loop_valve :: "dummy_hardware slave_l2" where
  "loop_valve = valve_slave\<lparr>sl_store := \<lparr>ss_shared_secret = loop_secret,
     ss_streams = config_map [valve_stream_slave valve_mac]\<rparr>\<rparr>"

theorem closed_loop_witness:
  "\<exists>frame1 tx1' ts' mr' m' message loop' img frame2 tx2' m'' rx' vs'.
    slave_send_stream checksum_hash dummy_process_image valve_mac Op (temperature_stream_slave master_mac)
      \<lparr>si_clock = 5, si_now = 6, si_micros = 7, si_wall = 0, si_send_failed = False\<rparr> (tx_new, loop_sensor) =
      Continue (Some frame1, tx1', ts') \<and>
    master_receive_turn checksum_hash master_process_image_access
      (stream_map [temperature_stream_master master_mac]) Op (Some frame1) 0 (master_rx_new, loop_master) =
      Some (mr', m') \<and>
    control_turn (control_loop_start, ml_image m') = (message, loop', img) \<and>
    master_send_stream checksum_hash master_process_image_access master_mac (valve_stream_master valve_mac)
      \<lparr>mi_state = Op, mi_clock = 5, mi_now = 6, mi_micros = 7\<rparr> (tx_new, m'\<lparr>ml_image := img\<rparr>) =
      Some (Some frame2, tx2', m'') \<and>
    slave_receive_turn checksum_hash dummy_process_image (stream_map [valve_stream_slave valve_mac])
      (Some frame2) 0 0 (rx_new, loop_valve) = Continue (rx', vs') \<and>
    get_valve_status (sl_image vs') = Some True"
proof -
  have steps: "in_step (sl_store loop_sensor) (ml_store loop_master) 1001"
    "in_step (ml_store loop_master) (sl_store loop_valve) 1002"
    using demo_in_step [where secret = loop_secret and master = master_mac and valve = valve_mac]
    by (simp_all add: loop_sensor_def loop_master_def loop_valve_def)
  have sensor: "simulate_sensor_change 300 (new_temperature_sensor ''eth0'' [2, 0, 0, 0, 0, 3]) =
      Some (sl_image loop_sensor)"
    by (simp add: loop_sensor_def hot_sensor_def simulate_sensor_change_def new_temperature_sensor_def)
  have lengths: "length (dh_output_image (new_temperature_sensor ''eth0'' [2, 0, 0, 0, 0, 3])) = 2"
    "length (mp_input_image (ml_image loop_master)) = 2" "length (mp_output_image (ml_image loop_master)) = 1"
    "length (dh_input_image (sl_image loop_valve)) = 1"
    by (simp_all add: new_temperature_sensor_def loop_master_def master_image_new_def loop_valve_def
        valve_slave_def new_valve_controller_def)
  have op: "slave_state loop_valve = Op"
    using valve_slave_op by (simp add: loop_valve_def slave_state_def)
  have number: "se_sequence_number (the (ss_streams (ml_store loop_master) 1002)) < - 1"
    by (simp add: loop_master_def master_store_def fresh_entry_def demo_directions word_less_nat_alt unat_minus_1)
  have due: "tx_due c k tx_new" for c k by (simp add: tx_due_def tx_new_def)
  have "(100 :: u16) < 300" by (simp add: word_less_nat_alt)
  then show ?thesis
    using closed_loop [OF checksum_hash_ok steps sensor lengths op due due number,
        where loop = control_loop_start and j = "\<lparr>mi_state = Op, mi_clock = 5, mi_now = 6, mi_micros = 7\<rparr>"
          and i = "\<lparr>si_clock = 5, si_now = 6, si_micros = 7, si_wall = 0, si_send_failed = False\<rparr>"
          and master = master_mac and valve = valve_mac and smac = valve_mac and mmac = master_mac
          and mnow = 0 and vnow = 0 and mr = master_rx_new and rx = rx_new and wall = 0]
    by simp
qed

end
