(* ===== verification/Client_Trace.thy ===== *)
theory Client_Trace
  imports Demo_Master
begin

text \<open>
  What the master's run is on the side of a slave: a sequence of events of its management service.
  A trace relates the worlds of a connection before and after its remote operations; whatever the
  client and the master's sequence of calls do with the connection then stays on the trace. The
  connection to a model of the service is interpreted with the runs of the service.
\<close>

section \<open>Traces of a connection\<close>

locale connection_trace =
  fixes con :: "'w connection" and follows :: "'w \<Rightarrow> 'w \<Rightarrow> bool"
  assumes follows_refl: "follows w w"
    and follows_trans: "follows w w' \<Longrightarrow> follows w' w'' \<Longrightarrow> follows w w''"
    and get_token_follows: "follows w (snd (remote_get_token con key w))"
    and call_follows: "follows w (snd (remote_call con token req w))"
begin

lemma client_get_token_follows: "follows w (snd (snd (client_get_token con c w)))"
  using get_token_follows [of w "ac_shared_key c"]
  by (cases "remote_get_token con (ac_shared_key c) w") (auto simp: client_get_token_def split: sum.split)

lemma refresh_token_follows: "follows w (snd (snd (refresh_token con c w)))"
  using client_get_token_follows [of w c]
  by (cases "client_get_token con c w") (auto simp: refresh_token_def split: sum.split)

lemma ensure_token_follows: "follows w (snd (snd (ensure_token con c w)))"
  by (simp add: ensure_token_def follows_refl refresh_token_follows)

lemma attach_token_follows: "follows w (snd (snd (attach_token con c w)))"
  using ensure_token_follows [of w c]
  by (cases "ensure_token con c w") (auto simp: attach_token_def split: sum.split option.split)

lemma attempt_follows: "follows w (snd (snd (attempt con req c w)))"
proof (cases "attach_token con c w")
  case (fields r c' w')
  then have "follows w w'" using attach_token_follows [of w c] by simp
  with fields follows_trans [OF _ call_follows] show ?thesis
    by (cases r) (auto simp: attempt_def case_prod_beta)
qed

lemma authorized_call_follows: "follows w (snd (snd (authorized_call con req c w)))"
proof (cases "attempt con req c w")
  case (fields r c' w')
  then have first: "follows w w'" using attempt_follows [of w req c] by simp
  have again: "follows w (snd (snd (attempt con req (invalidate_token c') w')))"
    by (rule follows_trans [OF first attempt_follows])
  have kept: "snd (snd (case x of (Inl e, c'', w'') \<Rightarrow> (Inl e, c'', w'') | (Inr r, c'', w'') \<Rightarrow> (r, c'', w''))) =
      snd (snd x)" for x :: "(call_error + reply call_result) \<times> api_client \<times> 'w"
    by (auto split: prod.split sum.split)
  show ?thesis using first again by (auto simp: authorized_call_def fields kept split: sum.split)
qed

lemma client_call_follows:
  "follows w (snd (snd (client_set_target_state con target c w)))"
  "follows w (snd (snd (client_get_status con c w)))"
  "follows w (snd (snd (client_get_device_info con c w)))"
  "follows w (snd (snd (client_subscribe_to_device_status con n c w)))"
  "follows w (snd (snd (client_configure_streams con streams c w)))"
  by (simp_all add: client_set_target_state_def client_get_status_def client_get_device_info_def
      client_subscribe_to_device_status_def client_configure_streams_def authorized_call_follows)

lemma wait_follows: "follows w (snd (snd (wait_for_slave_state con expected polls c w)))"
proof (induction polls arbitrary: c w)
  case (Suc polls)
  obtain r c' w' where call: "client_get_status con c w = (r, c', w')" by (metis prod_cases3)
  then have "follows w w'" using client_call_follows(2) [of w c] by simp
  with Suc follows_trans call show ?case by (auto split: sum.split)
qed (simp add: follows_refl)

end

section \<open>The service\<close>

definition service_follows ::
    "'p api_env \<Rightarrow> (bytes \<Rightarrow> string) \<Rightarrow> 'p service \<Rightarrow> 'p service \<Rightarrow> bool" where
  "service_follows env enc w w' \<longleftrightarrow> (\<exists>es. sv_api w' = snd (api_run env enc es (sv_api w)))"

lemma api_run_append:
  "snd (api_run env enc (es @ es') s) = snd (api_run env enc es' (snd (api_run env enc es s)))"
  by (induction es arbitrary: s) (simp_all add: case_prod_beta)

lemma service_follows_event:
  "sv_api w' = snd (api_step env enc e (sv_api w)) \<Longrightarrow> service_follows env enc w w'"
  unfolding service_follows_def by (rule exI [of _ "[e]"]) (simp add: case_prod_beta)

interpretation service: connection_trace "service_connection env enc hdr inp" "service_follows env enc"
  for env :: "'p api_env" and enc hdr inp
proof
  fix w w' w'' :: "'p service" and key token req
  show "service_follows env enc w w" unfolding service_follows_def by (rule exI [of _ "[]"]) simp
  show "service_follows env enc w w''" if "service_follows env enc w w'" "service_follows env enc w' w''"
    using that unfolding service_follows_def by (metis api_run_append)
  show "service_follows env enc w (snd (remote_get_token (service_connection env enc hdr inp) key w))"
    by (rule service_follows_event [where e = "TokenRequest key (ri_token (inp (sv_calls w)))"])
      (simp add: service_connection_def case_prod_beta)
  show "service_follows env enc w (snd (remote_call (service_connection env enc hdr inp) token req w))"
    by (rule service_follows_event [where e = "Request (ri_now (inp (sv_calls w))) (ri_wall (inp (sv_calls w)))
          (Some token) req"])
      (simp add: service_connection_def case_prod_beta Let_def split: sum.split rpc_status.split)
qed

section \<open>The master's run\<close>

text \<open>An action that stays on the traces of both slaves.\<close>

definition on_traces ::
    "(dummy_hardware service \<Rightarrow> dummy_hardware service \<Rightarrow> bool) \<Rightarrow>
     (dummy_hardware service \<Rightarrow> dummy_hardware service \<Rightarrow> bool) \<Rightarrow> ('e, master_run) action \<Rightarrow> bool" where
  "on_traces ft fv act \<longleftrightarrow>
     (\<forall>b. ft (snd (bu_temperature b)) (snd (bu_temperature (snd (act b)))) \<and>
          fv (snd (bu_valve b)) (snd (bu_valve (snd (act b)))))"

locale two_traces =
  temperature: connection_trace con_t ft + valve: connection_trace con_v fv
  for con_t :: "dummy_hardware service connection" and ft
    and con_v :: "dummy_hardware service connection" and fv
begin

lemmas refls [intro, simp] = temperature.follows_refl valve.follows_refl

lemma on_traces_keep:
  "(\<And>b. snd (bu_temperature (snd (act b))) = snd (bu_temperature b)) \<Longrightarrow>
   (\<And>b. snd (bu_valve (snd (act b))) = snd (bu_valve b)) \<Longrightarrow> on_traces ft fv act"
  by (simp add: on_traces_def)

lemma and_then_traces:
  assumes "on_traces ft fv p" and "on_traces ft fv q"
  shows "on_traces ft fv (and_then p q)"
  unfolding on_traces_def
proof
  fix b
  obtain r b' where p: "p b = (r, b')" by fastforce
  with assms(1) have first: "ft (snd (bu_temperature b)) (snd (bu_temperature b'))"
    "fv (snd (bu_valve b)) (snd (bu_valve b'))"
    unfolding on_traces_def by (metis snd_conv)+
  from assms(2) have "ft (snd (bu_temperature b')) (snd (bu_temperature (snd (q b'))))"
    "fv (snd (bu_valve b')) (snd (bu_valve (snd (q b'))))"
    unfolding on_traces_def by blast+
  with first have "ft (snd (bu_temperature b)) (snd (bu_temperature (snd (q b'))))"
    "fv (snd (bu_valve b)) (snd (bu_valve (snd (q b'))))"
    by (blast intro: temperature.follows_trans valve.follows_trans)+
  with first show "ft (snd (bu_temperature b)) (snd (bu_temperature (snd (and_then p q b)))) \<and>
      fv (snd (bu_valve b)) (snd (bu_valve (snd (and_then p q b))))"
    by (simp add: and_then_def p split: sum.split)
qed

lemma in_order_traces:
  "on_traces ft fv (in_order [])"
  "on_traces ft fv p \<Longrightarrow> on_traces ft fv (in_order ps) \<Longrightarrow> on_traces ft fv (in_order (p # ps))"
  by (simp_all add: on_traces_keep and_then_traces)

lemma ignored_traces: "on_traces ft fv act \<Longrightarrow> on_traces ft fv (ignored act)"
  by (simp add: on_traces_def ignored_def)

lemma own_traces:
  "on_traces ft fv (master_transition target)" "on_traces ft fv (add_master_stream stream)"
  by (rule on_traces_keep;
      simp add: master_transition_def add_master_stream_def case_prod_beta split: prod.split sum.split)+

lemma slave_traces:
  "(\<And>c w. ft w (snd (snd (f c w)))) \<Longrightarrow> on_traces ft fv (on_temperature f)"
  "(\<And>c w. fv w (snd (snd (g c w)))) \<Longrightarrow> on_traces ft fv (on_valve g)"
  by (simp_all add: on_traces_def on_temperature_def on_valve_def case_prod_beta)

lemma wait_traces:
  "on_traces ft fv (wait_temperature con_t expected polls)" "on_traces ft fv (wait_valve con_v expected polls)"
  by (simp_all add: on_traces_def wait_temperature_def wait_valve_def case_prod_beta
      temperature.wait_follows valve.wait_follows)

lemmas call_traces = slave_traces(1) [OF temperature.client_call_follows(1)]
  slave_traces(1) [OF temperature.client_call_follows(3)]
  slave_traces(1) [OF temperature.client_call_follows(4)]
  slave_traces(1) [OF temperature.client_call_follows(5)]
  slave_traces(2) [OF valve.client_call_follows(1)]
  slave_traces(2) [OF valve.client_call_follows(3)]
  slave_traces(2) [OF valve.client_call_follows(4)]
  slave_traces(2) [OF valve.client_call_follows(5)]

lemma connect_traces: "on_traces ft fv (connect_slaves secret inp)"
  unfolding connect_slaves_def
  by (intro in_order_traces own_traces) (rule on_traces_keep; simp split: sum.split)+

lemma start_traces: "on_traces ft fv (start_exchange secret started master valve)"
  unfolding start_exchange_def
  by (intro in_order_traces own_traces) (rule on_traces_keep; simp)+

lemma with_mac_traces: "(\<And>master. on_traces ft fv (act master)) \<Longrightarrow> on_traces ft fv (with_interface_mac mac act)"
  by (simp add: on_traces_def with_interface_mac_def split: option.split)

lemma run_master_traces: "on_traces ft fv (run_master secret con_t con_v inp valve)"
  unfolding run_master_def bring_up_def query_slaves_def configure_slaves_def move_slaves_def enter_op_def shut_down_def
  by (intro in_order_traces with_mac_traces ignored_traces connect_traces start_traces own_traces
      call_traces wait_traces)

end

interpretation services: two_traces "service_connection env_t enc_t hdr_t inp_t" "service_follows env_t enc_t"
    "service_connection env_v enc_v hdr_v inp_v" "service_follows env_v enc_v"
  for env_t env_v :: "dummy_hardware api_env" and enc_t hdr_t inp_t enc_v hdr_v inp_v ..

end
