(* ===== verification/Thread_Start.thy ===== *)
theory Thread_Start
  imports Slave_L2 Master_L2 Slave_Discovery Master_Discovery
begin

text \<open>
  Opening the interface and starting the threads: \<open>start_l2_handler\<close> of
  \<^verbatim>\<open>src/slave/src/l2_handler.rs\<close> and \<^verbatim>\<open>src/master/src/l2_handler.rs\<close>, \<open>find_interface\<close> of
  \<^verbatim>\<open>src/common/src/l2_utils.rs\<close>, \<open>start_discovery_listener\<close> and \<open>DiscoveryMaster::new\<close>. The list of
  interfaces and what opening a channel on one gives are parameters; a started thread is the values
  it captures.
\<close>

section \<open>Interfaces and channels\<close>

record network_interface =
  ni_name :: string
  ni_mac :: "mac_addr option"

datatype channel = EthernetChannel | OtherChannel

type_synonym opener = "network_interface \<Rightarrow> string + channel"

text \<open>\<open>None\<close> is the panic of \<open>expect\<close>.\<close>

definition find_interface :: "network_interface list \<Rightarrow> string \<Rightarrow> network_interface option" where
  "find_interface interfaces interface_name =
     find (\<lambda>interface. ni_name interface = interface_name) interfaces"

definition open_channel :: "opener \<Rightarrow> network_interface \<Rightarrow> status_code + unit" where
  "open_channel opener interface =
     (case opener interface of
        Inr EthernetChannel \<Rightarrow> Inr ()
      | Inr OtherChannel \<Rightarrow> Inl ErrSocketChannel
      | Inl e \<Rightarrow> Inl ErrSocketChannel)"

text \<open>The address of an interface, as \<^verbatim>\<open>src/demo/src/main.rs\<close> looks it up.\<close>

definition resolve_interface_mac :: "network_interface list \<Rightarrow> string \<Rightarrow> string + mac_addr" where
  "resolve_interface_mac interfaces interface_name =
     (case Option.bind (find (\<lambda>interface. ni_name interface = interface_name) interfaces) ni_mac of
        None \<Rightarrow> Inl (''No MAC found for interface '' @ interface_name)
      | Some mac \<Rightarrow> Inr mac)"

section \<open>The cyclic threads\<close>

datatype l2_thread =
    ReceiverThread string "u16 \<rightharpoonup> stream_config"
  | SenderThread string mac_addr u32 "stream_config list"

text \<open>The names of the threads of a group.\<close>

definition receiver_name :: "string \<Rightarrow> string" where
  "receiver_name thread_group = thread_group @ ''-l2-receiving''"

definition sender_name :: "string \<Rightarrow> string" where
  "sender_name thread_group = thread_group @ ''-l2-transmitting''"

definition zero_mac :: mac_addr where "zero_mac = MacAddr 0 0 0 0 0 0"

definition slave_sender_thread :: "network_interface \<Rightarrow> stream_config list \<Rightarrow> string \<Rightarrow> l2_thread" where
  "slave_sender_thread interface streams thread_group =
     (let source_mac = (case ni_mac interface of Some mac \<Rightarrow> mac | None \<Rightarrow> zero_mac)
      in SenderThread (sender_name thread_group) source_mac (base_cycle streams) streams)"

text \<open>The master's sender needs an address of its own.\<close>

definition master_sender_thread ::
    "network_interface \<Rightarrow> stream_config list \<Rightarrow> string \<Rightarrow> status_code + l2_thread" where
  "master_sender_thread interface streams thread_group =
     (case master_source_mac (ni_mac interface) of
        Inl code \<Rightarrow> Inl code
      | Inr source_mac \<Rightarrow> Inr (SenderThread (sender_name thread_group) source_mac (base_cycle streams) streams))"

text \<open>The result, with the threads that run afterwards; \<open>None\<close> is a panic. \<open>ins\<close> and \<open>outs\<close> are the
  orders in which the store is walked.\<close>

definition slave_start_l2_handler ::
    "network_interface list \<Rightarrow> opener \<Rightarrow> string \<Rightarrow> u16 list \<Rightarrow> u16 list \<Rightarrow> stream_store \<Rightarrow>
       ((status_code + unit) \<times> l2_thread list) option" where
  "slave_start_l2_handler interfaces opener interface_name ins outs store =
     (case find_interface interfaces interface_name of
        None \<Rightarrow> None
      | Some interface \<Rightarrow>
          Some (case open_channel opener interface of
             Inl code \<Rightarrow> (Inl code, [])
           | Inr _ \<Rightarrow>
               (let input_streams = get_streams_by_direction ins Input store;
                    output_streams = get_streams_by_direction outs Output store;
                    thread_group = ''slave-'' @ interface_name
                in (Inr (), [ReceiverThread (receiver_name thread_group) (stream_map input_streams),
                             slave_sender_thread interface output_streams thread_group]))))"

definition master_start_l2_handler ::
    "network_interface list \<Rightarrow> opener \<Rightarrow> string \<Rightarrow> u16 list \<Rightarrow> u16 list \<Rightarrow> stream_store \<Rightarrow>
       ((status_code + unit) \<times> l2_thread list) option" where
  "master_start_l2_handler interfaces opener interface_name ins outs store =
     (case find_interface interfaces interface_name of
        None \<Rightarrow> None
      | Some interface \<Rightarrow>
          Some (case open_channel opener interface of
             Inl code \<Rightarrow> (Inl code, [])
           | Inr _ \<Rightarrow>
               (let input_streams = get_streams_by_direction ins Input store;
                    output_streams = get_streams_by_direction outs Output store;
                    thread_group = ''master-'' @ interface_name;
                    receiver = ReceiverThread (receiver_name thread_group) (stream_map input_streams)
                in case master_sender_thread interface output_streams thread_group of
                     Inl code \<Rightarrow> (Inl code, [receiver])
                   | Inr sender \<Rightarrow> (Inr (), [receiver, sender]))))"

section \<open>Discovery\<close>

text \<open>The listener thread captures the interface; its state is that of the parts it is given.\<close>

definition start_discovery_listener ::
    "network_interface list \<Rightarrow> opener \<Rightarrow> string \<Rightarrow> status_code + network_interface" where
  "start_discovery_listener interfaces opener interface_name =
     (case find (\<lambda>interface. ni_name interface = interface_name) interfaces of
        None \<Rightarrow> Inl ErrSocketChannel
      | Some interface \<Rightarrow>
          (case open_channel opener interface of Inl code \<Rightarrow> Inl code | Inr _ \<Rightarrow> Inr interface))"

definition discovery_master_open ::
    "network_interface list \<Rightarrow> opener \<Rightarrow> string \<Rightarrow> device_state \<Rightarrow> bytes \<Rightarrow>
       status_code + network_interface \<times> discovery_master" where
  "discovery_master_open interfaces opener interface_name state shared_secret =
     (case find (\<lambda>interface. ni_name interface = interface_name) interfaces of
        None \<Rightarrow> Inl ErrSocketChannel
      | Some interface \<Rightarrow>
          (case open_channel opener interface of
             Inl code \<Rightarrow> Inl code
           | Inr _ \<Rightarrow> Inr (interface, discovery_master_new state shared_secret)))"

section \<open>What a start leaves behind\<close>

lemma open_channel_cases: "open_channel opener interface \<in> {Inr (), Inl ErrSocketChannel}"
  by (simp add: open_channel_def split: sum.split channel.split)

text \<open>A start either runs both threads, on the streams of their directions, or reports
  \<open>ErrSocketChannel\<close>; the slave then has no thread.\<close>

lemma slave_start_outcome:
  assumes "slave_start_l2_handler interfaces opener name ins outs store = Some (r, threads)"
  shows "r = Inr () \<and> length threads = 2 \<or> r = Inl ErrSocketChannel \<and> threads = []"
proof -
  obtain interface where "find_interface interfaces name = Some interface"
    using assms by (auto simp: slave_start_l2_handler_def split: option.splits)
  then show ?thesis
    using assms open_channel_cases [of opener interface] by (auto simp: slave_start_l2_handler_def Let_def)
qed

text \<open>The master's does not undo its first step: an interface without an address fails the start
  after the receiver was started, and nobody holds the handle of that thread.\<close>

lemma master_start_keeps_receiver:
  assumes "find_interface interfaces name = Some interface" "opener interface = Inr EthernetChannel"
    and "ni_mac interface = None"
  shows "master_start_l2_handler interfaces opener name ins outs store =
    Some (Inl ErrSocketChannel, [ReceiverThread (''master-'' @ name @ ''-l2-receiving'')
      (stream_map (get_streams_by_direction ins Input store))])"
  using assms by (simp add: master_start_l2_handler_def open_channel_def master_sender_thread_def
      master_source_mac_def receiver_name_def Let_def)

text \<open>A missing interface is an error of the discovery listener and a panic of the cyclic handler.\<close>

lemma missing_interface:
  assumes "\<forall>interface \<in> set interfaces. ni_name interface \<noteq> name"
  shows "start_discovery_listener interfaces opener name = Inl ErrSocketChannel"
    and "slave_start_l2_handler interfaces opener name ins outs store = None"
    and "master_start_l2_handler interfaces opener name ins outs store = None"
proof -
  have "find (\<lambda>interface. ni_name interface = name) interfaces = None"
    using assms by (simp add: find_None_iff)
  then show "start_discovery_listener interfaces opener name = Inl ErrSocketChannel"
    "slave_start_l2_handler interfaces opener name ins outs store = None"
    "master_start_l2_handler interfaces opener name ins outs store = None"
    by (simp_all add: start_discovery_listener_def slave_start_l2_handler_def
        master_start_l2_handler_def find_interface_def)
qed

end
