(* ===== verification/Demo_Log.thy ===== *)
theory Demo_Log
  imports Post_Run Demo_Network Thread_Start
begin

text \<open>
  The logger of the demonstration, \<^verbatim>\<open>src/demo/src/logging.rs\<close>: which file the line of a thread goes
  to. The files are kept as their contents; writing to an open file does not fail.
\<close>

section \<open>The logger\<close>

definition MASTER_LOG_COMPONENT :: string where "MASTER_LOG_COMPONENT = ''master''"
definition TEMPERATURE_SLAVE_LOG_COMPONENT :: string where "TEMPERATURE_SLAVE_LOG_COMPONENT = ''slave-temperature''"
definition VALVE_SLAVE_LOG_COMPONENT :: string where "VALVE_SLAVE_LOG_COMPONENT = ''slave-valve''"
definition DEMO_LOG_COMPONENT :: string where "DEMO_LOG_COMPONENT = ''demo''"

lemmas component_defs = MASTER_LOG_COMPONENT_def TEMPERATURE_SLAVE_LOG_COMPONENT_def
  VALVE_SLAVE_LOG_COMPONENT_def DEMO_LOG_COMPONENT_def

datatype log_level = LevelError | LevelWarn | LevelInfo | LevelDebug | LevelTrace

fun level_num :: "log_level \<Rightarrow> nat" where
  "level_num LevelError = 1"
| "level_num LevelWarn = 2"
| "level_num LevelInfo = 3"
| "level_num LevelDebug = 4"
| "level_num LevelTrace = 5"

fun level_text :: "log_level \<Rightarrow> string" where
  "level_text LevelError = ''ERROR''"
| "level_text LevelWarn = ''WARN''"
| "level_text LevelInfo = ''INFO''"
| "level_text LevelDebug = ''DEBUG''"
| "level_text LevelTrace = ''TRACE''"

instantiation log_level :: linorder
begin

definition less_eq_log_level :: "log_level \<Rightarrow> log_level \<Rightarrow> bool" where
  "less_eq_log_level a b \<longleftrightarrow> level_num a \<le> level_num b"

definition less_log_level :: "log_level \<Rightarrow> log_level \<Rightarrow> bool" where
  "less_log_level a b \<longleftrightarrow> level_num a < level_num b"

instance
proof
  fix a b :: log_level
  assume "a \<le> b" "b \<le> a"
  then show "a = b" by (cases a; cases b) (simp_all add: less_eq_log_level_def)
qed (auto simp: less_eq_log_level_def less_log_level_def)

end

text \<open>A call of the logger: the time, the name of the thread and its \<open>LOG_COMPONENT\<close>, and the record.\<close>

record log_call =
  lc_timestamp :: nat
  lc_thread_name :: "string option"
  lc_component :: string
  lc_level :: log_level
  lc_target :: string
  lc_args :: string

record component_file_logger =
  cl_level :: log_level
  cl_files :: "string \<rightharpoonup> string"

definition log_component :: "log_call \<Rightarrow> string" where
  "log_component call =
     (let component = lc_component call
      in if component = DEMO_LOG_COMPONENT then
           (case lc_thread_name call of
              None \<Rightarrow> component
            | Some name \<Rightarrow>
                if contains name ''master'' then MASTER_LOG_COMPONENT
                else if contains name ''temp'' then TEMPERATURE_SLAVE_LOG_COMPONENT
                else if contains name ''valve'' then VALVE_SLAVE_LOG_COMPONENT
                else component)
         else component)"

definition call_line :: "log_call \<Rightarrow> string" where
  "call_line call = log_line (lc_timestamp call) (level_text (lc_level call)) (lc_target call) (lc_args call)"

definition write_all :: "string \<Rightarrow> string \<Rightarrow> component_file_logger \<Rightarrow> component_file_logger" where
  "write_all component bytes l =
     l\<lparr>cl_files := (cl_files l)(component := map_option (\<lambda>content. content @ bytes) (cl_files l component))\<rparr>"

definition log_record :: "log_call \<Rightarrow> component_file_logger \<Rightarrow> component_file_logger" where
  "log_record call l =
     (if \<not> lc_level call \<le> cl_level l then l
      else
        let component = log_component call;
            line = call_line call @ [newline]
        in if cl_files l component \<noteq> None then write_all component line l
           else if cl_files l DEMO_LOG_COMPONENT \<noteq> None then write_all DEMO_LOG_COMPONENT line l
           else l)"

definition init_component_logger :: component_file_logger where
  "init_component_logger =
     \<lparr>cl_level = LevelDebug,
      cl_files = [MASTER_LOG_COMPONENT \<mapsto> [], TEMPERATURE_SLAVE_LOG_COMPONENT \<mapsto> [],
                  VALVE_SLAVE_LOG_COMPONENT \<mapsto> [], DEMO_LOG_COMPONENT \<mapsto> []]\<rparr>"

section \<open>What the files hold\<close>

definition components :: "string set" where
  "components = {MASTER_LOG_COMPONENT, TEMPERATURE_SLAVE_LOG_COMPONENT, VALVE_SLAVE_LOG_COMPONENT,
     DEMO_LOG_COMPONENT}"

text \<open>The file a line goes to, and the calls whose line goes to one.\<close>

definition destination :: "log_call \<Rightarrow> string" where
  "destination call =
     (if log_component call \<in> components then log_component call else DEMO_LOG_COMPONENT)"

definition routed :: "string \<Rightarrow> log_call \<Rightarrow> bool" where
  "routed component call \<longleftrightarrow> lc_level call \<le> LevelDebug \<and> destination call = component"

lemma destination_component: "destination call \<in> components"
  by (simp add: destination_def components_def)

lemma log_record_eq:
  assumes "dom (cl_files l) = components" "cl_level l = LevelDebug"
  shows "log_record call l =
    (if lc_level call \<le> LevelDebug then write_all (destination call) (call_line call @ [newline]) l else l)"
proof -
  have "cl_files l c = None \<longleftrightarrow> c \<notin> components" for c using assms(1) by auto
  moreover have "DEMO_LOG_COMPONENT \<in> components" by (simp add: components_def)
  ultimately show ?thesis using assms(2) by (simp add: log_record_def destination_def Let_def)
qed

lemma log_record_files:
  assumes "dom (cl_files l) = components" "cl_level l = LevelDebug" "cl_files l component = Some content"
  shows "cl_files (log_record call l) component =
      Some (content @ (if routed component call then call_line call @ [newline] else []))"
    and "dom (cl_files (log_record call l)) = components"
    and "cl_level (log_record call l) = LevelDebug"
  using assms destination_component [of call]
  by (auto simp: log_record_eq [OF assms(1,2)] write_all_def routed_def split: if_splits)

lemma log_records_files:
  assumes "dom (cl_files l) = components" "cl_level l = LevelDebug" "cl_files l component = Some content"
  shows "cl_files (fold log_record calls l) component =
    Some (content @ unlines (map call_line (filter (routed component) calls)))"
  using assms
proof (induction calls arbitrary: l content)
  case (Cons call calls)
  from Cons.IH [OF log_record_files(2) [OF Cons.prems] log_record_files(3) [OF Cons.prems]
      log_record_files(1) [OF Cons.prems, of call]]
  show ?case by (simp add: unlines_def)
qed (simp add: unlines_def)

lemma logged:
  assumes "component \<in> components"
  shows "cl_files (fold log_record calls init_component_logger) component =
    Some (unlines (map call_line (filter (routed component) calls)))"
proof -
  have "dom (cl_files init_component_logger) = components"
    by (auto simp: init_component_logger_def components_def component_defs)
  moreover have "cl_files init_component_logger component = Some []"
    using assms by (auto simp: init_component_logger_def components_def component_defs)
  moreover have "cl_level init_component_logger = LevelDebug" by (simp add: init_component_logger_def)
  ultimately show ?thesis using log_records_files [of init_component_logger component "[]" calls] by simp
qed

section \<open>The threads of the demonstration\<close>

datatype station = MasterStation | TemperatureStation | ValveStation

fun station_kind :: "station \<Rightarrow> string" where
  "station_kind MasterStation = ''master''"
| "station_kind TemperatureStation = ''slave''"
| "station_kind ValveStation = ''slave''"

fun station_interface :: "station \<Rightarrow> string" where
  "station_interface MasterStation = DEMO_MASTER_INTERFACE"
| "station_interface TemperatureStation = DEMO_TEMPERATURE_INTERFACE"
| "station_interface ValveStation = DEMO_VALVE_INTERFACE"

fun station_component :: "station \<Rightarrow> string" where
  "station_component MasterStation = MASTER_LOG_COMPONENT"
| "station_component TemperatureStation = TEMPERATURE_SLAVE_LOG_COMPONENT"
| "station_component ValveStation = VALVE_SLAVE_LOG_COMPONENT"

text \<open>
  The calls at the end of a cyclic thread, after its loop; \<open>name_of\<close> is the name of the thread in the
  group of the station. A new thread starts with the component of the demonstration; \<open>clock\<close> gives the times
  of the calls. Only the master's receiver counts missed cycles.
\<close>

definition final_call :: "nat \<Rightarrow> station \<Rightarrow> (string \<Rightarrow> string) \<Rightarrow> string \<Rightarrow> log_call" where
  "final_call timestamp st name_of args =
     \<lparr>lc_timestamp = timestamp,
      lc_thread_name = Some (name_of (station_kind st @ ''-'' @ station_interface st)),
      lc_component = DEMO_LOG_COMPONENT, lc_level = LevelInfo,
      lc_target = station_kind st @ ''::l2_handler'', lc_args = args\<rparr>"

definition receiver_final ::
    "(nat \<Rightarrow> nat) \<Rightarrow> station \<Rightarrow> cycle_metrics \<Rightarrow> cycle_metrics \<Rightarrow> u64 \<Rightarrow> log_call list" where
  "receiver_final clock st receive_metrics receive_jitter_metrics missed_cycles_total =
     [final_call (clock 0) st receiver_name (metrics_message ''cycle'' (station_kind st) ''receive'' receive_metrics),
      final_call (clock 1) st receiver_name
        (metrics_message ''jitter'' (station_kind st) ''receive'' receive_jitter_metrics)] @
     (case st of
        MasterStation \<Rightarrow>
          [final_call (clock 2) st receiver_name (missed_message ''master'' missed_cycles_total),
           final_call (clock 3) st receiver_name ''L2 receiver thread terminated'']
      | _ \<Rightarrow> [final_call (clock 2) st receiver_name ''Slave L2 receiver thread terminated''])"

definition sender_final :: "(nat \<Rightarrow> nat) \<Rightarrow> station \<Rightarrow> cycle_metrics \<Rightarrow> cycle_metrics \<Rightarrow> log_call list" where
  "sender_final clock st send_metrics send_jitter_metrics =
     [final_call (clock 0) st sender_name (metrics_message ''cycle'' (station_kind st) ''send'' send_metrics),
      final_call (clock 1) st sender_name (metrics_message ''jitter'' (station_kind st) ''send'' send_jitter_metrics),
      final_call (clock 2) st sender_name
        (case st of
           MasterStation \<Rightarrow> ''L2 sender thread terminated''
         | _ \<Rightarrow> ''Slave L2 sender thread terminated'')]"

lemma station_component_known: "station_component st \<in> components"
  by (cases st) (simp_all add: components_def)

lemma final_component:
  assumes "name_of \<in> {receiver_name, sender_name}"
  shows "log_component (final_call ts st name_of args) = station_component st"
  using assms
  by (cases st) (auto simp: log_component_def final_call_def receiver_name_def sender_name_def component_defs
      DEMO_MASTER_INTERFACE_def DEMO_TEMPERATURE_INTERFACE_def DEMO_VALVE_INTERFACE_def
      contains_def sublist_Cons_right)

lemma final_routed:
  assumes "name_of \<in> {receiver_name, sender_name}"
  shows "routed (station_component st) (final_call ts st name_of args)"
proof -
  have "LevelInfo \<le> LevelDebug" by (simp add: less_eq_log_level_def)
  then show ?thesis
    using final_component [OF assms, of ts st args] station_component_known [of st]
    by (simp add: routed_def destination_def) (simp add: final_call_def)
qed

lemma final_line:
  "call_line (final_call ts st name_of args) = log_line ts ''INFO'' (station_kind st @ ''::l2_handler'') args"
  by (simp add: call_line_def final_call_def)

section \<open>Which line the analysis takes\<close>

definition missed_marker :: string where
  "missed_marker = ''L2 missed cycles component=master''"

lemma station_words:
  "dull ''INFO''" "dull (station_kind st @ ''::l2_handler'')" "station_kind st \<in> component_words"
  by (cases st; simp add: dull_def plain_def is_whitespace_def component_words_def)+

lemma report_absent:
  fixes metrics :: cycle_stats
  assumes "metrics_values m = Some (cs_min_ns metrics, cs_max_ns metrics, cs_avg_ns metrics)"
    and "dir \<in> direction_words" "contains marker part"
    and "(kind, part) \<in> {(''cycle'', ''jitter''), (''jitter'', ''cycle''), (''cycle'', ''missed''), (''jitter'', ''missed'')}"
  shows "\<not> contains (log_line ts ''INFO'' (station_kind st @ ''::l2_handler'')
    (metrics_message kind (station_kind st) dir m)) marker"
proof -
  have kind: "kind \<in> {''cycle'', ''jitter''}" and "plain part" using assms(4) by (auto simp: plain_def is_whitespace_def)
  moreover have "\<forall>w \<in> set (log_words ts ''INFO'' (station_kind st @ ''::l2_handler'') @
      report_words kind (station_kind st) dir metrics (cm_samples m)). \<not> set part \<subseteq> set w"
    using assms(2,4) by (cases st) (auto simp: direction_words_def log_words_def report_words_def not_in_digits digits_def)
  ultimately show ?thesis
    using report_words_plain [OF station_words(1,2) kind station_words(3) assms(2)]
    unfolding report_line_words [OF assms(1)] by (intro absent_words [OF _ _ assms(3)]) blast+
qed

section \<open>Properties\<close>

text \<open>The lines that are no report: the one about the missed cycles, and the last ones of the threads.\<close>

definition closing_words :: "string list set" where
  "closing_words =
     {[''L2'', ''receiver'', ''thread'', ''terminated''], [''Slave'', ''L2'', ''receiver'', ''thread'', ''terminated''],
      [''L2'', ''sender'', ''thread'', ''terminated''], [''Slave'', ''L2'', ''sender'', ''thread'', ''terminated'']}"

definition missed_words :: "u64 \<Rightarrow> string list" where
  "missed_words n = [''L2'', ''missed'', ''cycles'', ''component=master'', ''total='' @ dec_text (unat n)]"

lemma missed_message_words: "missed_message ''master'' n = unwords (missed_words n)"
  by (simp add: missed_message_def missed_words_def)

lemma log_line_words: "ws \<noteq> [] \<Longrightarrow> log_line ts level target (unwords ws) = unwords (log_words ts level target @ ws)"
  by (cases ws) (simp_all add: log_line_def log_words_def)

lemma final_words_plain:
  assumes "ws \<in> closing_words \<union> range missed_words"
  shows "\<forall>w \<in> set (log_words ts ''INFO'' (station_kind st @ ''::l2_handler'') @ ws). plain w"
proof -
  have "plain (''total='' @ dec_text k)" for k
    using plain_field [of "''total=''"] by (simp add: plain_def is_whitespace_def)
  then have "\<forall>w \<in> set ws. plain w"
    using assms by (auto simp: closing_words_def missed_words_def) (simp_all add: plain_def is_whitespace_def)
  moreover have "plain (''['' @ ''INFO'' @ '']'')" "plain (''['' @ (station_kind st @ ''::l2_handler'') @ '']'')"
    using station_words(1) station_words(2) [of st] plain_bracket unfolding dull_def by blast+
  ultimately show ?thesis by (auto simp: log_words_def)
qed

lemma final_absent:
  assumes "ws \<in> closing_words \<union> range missed_words" "contains marker part"
    and "part = ''metrics'' \<or> part = ''missed'' \<and> ws \<in> closing_words"
  shows "\<not> contains (log_line ts ''INFO'' (station_kind st @ ''::l2_handler'') (unwords ws)) marker"
proof -
  have ws: "ws \<noteq> []" and "plain part"
    using assms(1,3) by (auto simp: plain_def is_whitespace_def closing_words_def missed_words_def)
  moreover have "\<forall>w \<in> set (log_words ts ''INFO'' (station_kind st @ ''::l2_handler'') @ ws). \<not> set part \<subseteq> set w"
    using assms(1,3) by (cases st)
      (auto simp: closing_words_def missed_words_def log_words_def not_in_digits digits_def)
  ultimately show ?thesis
    using final_words_plain [OF assms(1), of ts st] 
    unfolding log_line_words [OF ws] by (intro absent_words [OF _ _ assms(2)]) blast+
qed

lemma missed_line:
  "contains (log_line ts ''INFO'' (station_kind st @ ''::l2_handler'') (missed_message ''master'' n)) missed_marker"
  "parse_numeric_field_u64 (log_line ts ''INFO'' (station_kind st @ ''::l2_handler'') (missed_message ''master'' n)) ''total'' =
     Some n"
proof -
  let ?us = "log_words ts ''INFO'' (station_kind st @ ''::l2_handler'') @ [''L2'', ''missed'', ''cycles'']"
  have "missed_message ''master'' n = missed_marker @ '' total='' @ dec_text (unat n)"
    by (simp add: missed_message_def missed_marker_def)
  then show "contains (log_line ts ''INFO'' (station_kind st @ ''::l2_handler'') (missed_message ''master'' n)) missed_marker"
    by (simp only: contains_start)
  have dull: "\<forall>w \<in> set ?us. CHR ''='' \<notin> set w"
    using station_words(1) station_words(2) [of st] not_in_digits [of "CHR ''=''"] by (auto simp: dull_def digits_def log_words_def)
  have absent: "field_token (''total'' @ ''='') ''component=master'' = None"
    by (intro field_token_absent [of "CHR ''l''"]) simp_all
  have number: "field_token (''total'' @ ''='') (''total='' @ dec_text (unat n)) = Some (dec_text (unat n))"
    using field_token_number [of "''total=''"] by simp
  have words: "log_line ts ''INFO'' (station_kind st @ ''::l2_handler'') (missed_message ''master'' n) =
      unwords (?us @ [''component=master'', ''total='' @ dec_text (unat n)])"
    unfolding missed_message_words
    by (subst log_line_words) (simp_all only: missed_words_def append_assoc append.simps list.distinct not_False_eq_True)
  have plain: "\<forall>w \<in> set (?us @ [''component=master'', ''total='' @ dec_text (unat n)]). plain w"
    using final_words_plain [of "missed_words n" ts st] by (simp add: missed_words_def)
  show "parse_numeric_field_u64
      (log_line ts ''INFO'' (station_kind st @ ''::l2_handler'') (missed_message ''master'' n)) ''total'' = Some n"
    unfolding words parse_field_words(1) [OF plain] find_map_dull [OF dull]
    using absent number by (simp del: append.simps)
qed

text \<open>The lines of a kind among the final ones.\<close>

lemma final_not_report:
  assumes "ws \<in> closing_words \<union> range missed_words"
  shows "\<not> contains (call_line (final_call ts st name_of (unwords ws))) (report_marker kind)"
proof -
  have "report_marker kind = (''L2 '' @ kind @ '' '') @ ''metrics'' @ []" by simp
  then have "contains (report_marker kind) ''metrics''" unfolding contains_def by (metis sublist_appendI)
  then show ?thesis unfolding final_line by (rule final_absent [OF assms _ disjI1 [OF refl]])
qed

lemma report_final:
  assumes "xs \<noteq> []" "length xs < 2 ^ 64" "dir \<in> direction_words" "kind \<in> {''cycle'', ''jitter''}"
    and call_def: "call = final_call ts st name_of (metrics_message kind (station_kind st) dir
    (foldl metrics_record cycle_metrics_default xs))"
  shows "k \<in> {''cycle'', ''jitter''} \<Longrightarrow> contains (call_line call) (report_marker k) \<longleftrightarrow> k = kind"
    and "\<not> contains (call_line call) missed_marker"
    and "newline \<notin> set (call_line call) \<and> carriage_return \<notin> set (call_line call)"
proof -
  note vals = metrics_values_recorded [OF assms(1,2)]
  have part: "contains (report_marker ''cycle'') ''cycle''" "contains (report_marker ''jitter'') ''jitter''"
    "contains missed_marker ''missed''"
    by (simp_all add: contains_def sublist_Cons_right missed_marker_def)
  note absent = report_absent [OF vals assms(3)]
  show "contains (call_line call) (report_marker k) \<longleftrightarrow> k = kind" if "k \<in> {''cycle'', ''jitter''}"
  proof (cases "k = kind")
    case True
    then show ?thesis using report_contains [OF vals] unfolding call_def final_line by blast
  next
    case False
    then have "kind = ''cycle'' \<and> k = ''jitter'' \<or> kind = ''jitter'' \<and> k = ''cycle''" using that assms(4) by auto
    then show ?thesis
      using False absent [OF part(1), of "''jitter''"] absent [OF part(2), of "''cycle''"]
      unfolding call_def final_line by blast
  qed
  show "\<not> contains (call_line call) missed_marker"
    using assms(4) absent [OF part(3)] unfolding call_def final_line by blast
  show "newline \<notin> set (call_line call) \<and> carriage_return \<notin> set (call_line call)"
    using report_one_line [OF station_words(1,2) assms(4) station_words(3) assms(3) vals]
    unfolding call_def final_line by blast
qed

text \<open>What a thread measured, and the lines of the others.\<close>

abbreviation measured :: "u64 list \<Rightarrow> cycle_metrics" where
  "measured xs \<equiv> foldl metrics_record cycle_metrics_default xs"

definition measurements :: "u64 list \<Rightarrow> bool" where
  "measurements xs \<longleftrightarrow> xs \<noteq> [] \<and> length xs < 2 ^ 64"

definition other_line :: "string \<Rightarrow> bool" where
  "other_line line \<longleftrightarrow> (\<forall>marker \<in> {report_marker ''cycle'', report_marker ''jitter'', missed_marker}.
     \<not> contains line marker) \<and> newline \<notin> set line \<and> carriage_return \<notin> set line"

lemma final_other:
  assumes "ws \<in> closing_words"
  shows "other_line (call_line (final_call ts st name_of (unwords ws)))"
proof -
  have part: "contains missed_marker ''missed''"
    by (simp add: contains_def sublist_Cons_right missed_marker_def)
  have "ws \<noteq> []" using assms by (auto simp: closing_words_def)
  then have "newline \<notin> set (call_line (final_call ts st name_of (unwords ws))) \<and>
      carriage_return \<notin> set (call_line (final_call ts st name_of (unwords ws)))"
    using unwords_one_line [OF final_words_plain [of ws ts st]] assms by (simp add: final_line log_line_words)
  then show ?thesis
    using final_not_report [of ws] final_absent [OF _ part, of ws] assms
    unfolding other_line_def final_line by blast
qed

lemma missed_final:
  assumes line_def: "line = call_line (final_call ts st name_of (missed_message ''master'' n))"
  shows "\<not> contains line (report_marker kind)" "contains line missed_marker"
    "parse_numeric_field_u64 line ''total'' = Some n"
    "newline \<notin> set line \<and> carriage_return \<notin> set line"
proof -
  have "missed_words n \<noteq> []" by (simp add: missed_words_def)
  then show "newline \<notin> set line \<and> carriage_return \<notin> set line"
    using unwords_one_line [OF final_words_plain [of "missed_words n" ts st]]
    by (simp add: line_def final_line log_line_words missed_message_words)
  show "\<not> contains line (report_marker kind)"
    unfolding line_def missed_message_words by (rule final_not_report) simp
qed (simp_all add: line_def final_line missed_line)

lemma closing_messages:
  "\<exists>ws \<in> closing_words. unwords ws = ''L2 receiver thread terminated''"
  "\<exists>ws \<in> closing_words. unwords ws = ''Slave L2 receiver thread terminated''"
  "\<exists>ws \<in> closing_words. unwords ws = ''L2 sender thread terminated''"
  "\<exists>ws \<in> closing_words. unwords ws = ''Slave L2 sender thread terminated''"
  by (simp_all add: closing_words_def)

lemma final_calls:
  assumes "measurements xs" "measurements xj" "measurements ys" "measurements yj" "kind \<in> {''cycle'', ''jitter''}"
    and receiver_def: "receiver = receiver_final t1 st (measured xs) (measured xj) n"
    and sender_def: "sender = sender_final t2 st (measured ys) (measured yj)"
  shows "filter (\<lambda>call. contains (call_line call) (report_marker kind)) receiver =
      [if kind = ''cycle'' then hd receiver else receiver ! 1]"
    and "filter (\<lambda>call. contains (call_line call) (report_marker kind)) sender =
      [if kind = ''cycle'' then hd sender else sender ! 1]"
    and "filter (\<lambda>call. contains (call_line call) missed_marker) (receiver @ sender) =
      (if st = MasterStation then [receiver ! 2] else [])"
    and "\<forall>call \<in> set (receiver @ sender). routed (station_component st) call \<and>
      newline \<notin> set (call_line call) \<and> carriage_return \<notin> set (call_line call)"
proof -
  have others: "other_line (call_line (final_call ts st name_of msg))"
    if "msg \<in> {''L2 receiver thread terminated'', ''Slave L2 receiver thread terminated'',
      ''L2 sender thread terminated'', ''Slave L2 sender thread terminated''}" for ts st name_of msg
    using that final_other closing_messages by (metis insert_iff empty_iff)
  define mark where "mark = report_marker kind"
  have other: "\<not> contains (call_line (final_call ts st name_of msg)) mark"
    "\<not> contains (call_line (final_call ts st name_of msg)) missed_marker"
    "newline \<notin> set (call_line (final_call ts st name_of msg))"
    "carriage_return \<notin> set (call_line (final_call ts st name_of msg))"
    if "msg \<in> {''L2 receiver thread terminated'', ''Slave L2 receiver thread terminated'',
      ''L2 sender thread terminated'', ''Slave L2 sender thread terminated''}" for ts st name_of msg
    using others [OF that, of ts st name_of] assms(5) unfolding other_line_def mark_def by blast+
  note missed = missed_final(1) [OF refl, where kind = kind, folded mark_def] missed_final(2-4) [OF refl]
  have kinds: "''cycle'' \<in> {''cycle'', ''jitter''}" "''jitter'' \<in> {''cycle'', ''jitter''}" by simp_all
  have report: "contains (call_line (final_call ts st name_of (metrics_message k (station_kind st) dir (measured zs)))) mark
      \<longleftrightarrow> k = kind"
    "\<not> contains (call_line (final_call ts st name_of (metrics_message k (station_kind st) dir (measured zs)))) missed_marker"
    "newline \<notin> set (call_line (final_call ts st name_of (metrics_message k (station_kind st) dir (measured zs))))"
    "carriage_return \<notin> set (call_line (final_call ts st name_of (metrics_message k (station_kind st) dir (measured zs))))"
    if "zs \<in> {xs, xj, ys, yj}" "dir \<in> {''receive'', ''send''}" "k \<in> {''cycle'', ''jitter''}" for ts st name_of k dir zs
  proof -
    have "zs \<noteq> []" "length zs < 2 ^ 64" "dir \<in> direction_words"
      using that(1,2) assms(1-4) by (auto simp: measurements_def direction_words_def)
    from report_final [OF this that(3) refl, where ts = ts and st = st and name_of = name_of] assms(5)
    show "contains (call_line (final_call ts st name_of (metrics_message k (station_kind st) dir (measured zs)))) mark
      \<longleftrightarrow> k = kind"
      "\<not> contains (call_line (final_call ts st name_of (metrics_message k (station_kind st) dir (measured zs)))) missed_marker"
      "newline \<notin> set (call_line (final_call ts st name_of (metrics_message k (station_kind st) dir (measured zs))))"
      "carriage_return \<notin> set (call_line (final_call ts st name_of (metrics_message k (station_kind st) dir (measured zs))))"
      unfolding mark_def by blast+
  qed
  show "filter (\<lambda>call. contains (call_line call) (report_marker kind)) receiver =
      [if kind = ''cycle'' then hd receiver else receiver ! 1]"
    using assms(5) unfolding mark_def [symmetric] receiver_def receiver_final_def
    by (cases st) (auto simp: report other missed simp del: station_kind.simps)
  show "filter (\<lambda>call. contains (call_line call) (report_marker kind)) sender =
      [if kind = ''cycle'' then hd sender else sender ! 1]"
    using assms(5) unfolding mark_def [symmetric] sender_def sender_final_def
    by (cases st) (auto simp: report other simp del: station_kind.simps)
  show "filter (\<lambda>call. contains (call_line call) missed_marker) (receiver @ sender) =
      (if st = MasterStation then [receiver ! 2] else [])"
    unfolding receiver_def sender_def receiver_final_def sender_final_def
    by (cases st) (simp_all add: report other missed del: station_kind.simps)
  show "\<forall>call \<in> set (receiver @ sender). routed (station_component st) call \<and>
      newline \<notin> set (call_line call) \<and> carriage_return \<notin> set (call_line call)"
    unfolding receiver_def sender_def receiver_final_def sender_final_def
    by (cases st) (simp_all add: report other missed final_routed del: station_kind.simps station_component.simps)
qed

lemma filter_shuffled:
  assumes "zs \<in> shuffles xs ys"
  shows "filter P zs \<in> shuffles (filter P xs) (filter P ys)"
  using assms filter_shuffles [of P xs ys] by blast

lemma append_in_shuffles: "xs @ ys \<in> shuffles xs ys"
  by (induction xs) (simp_all add: Cons_in_shuffles_leftI)

text \<open>The lines with a marker, in whichever order the calls of the two threads and of the others come.\<close>

lemma marked_lines:
  assumes "own \<in> shuffles receiver sender" "calls \<in> shuffles own others"
    and "\<forall>call \<in> set (receiver @ sender). Q call"
    and "\<forall>call \<in> set others. Q call \<longrightarrow> \<not> contains (call_line call) marker"
    and "\<And>call. P call \<longleftrightarrow> contains (call_line call) marker"
  shows "filter (\<lambda>line. contains line marker) (map call_line (filter Q calls)) \<in>
    map call_line ` shuffles (filter P receiver) (filter P sender)"
proof -
  have "filter (\<lambda>call. Q call \<and> P call) receiver = filter P receiver"
    "filter (\<lambda>call. Q call \<and> P call) sender = filter P sender"
    using assms(3) by (auto intro: filter_cong)
  then have own: "filter (\<lambda>call. Q call \<and> P call) own \<in> shuffles (filter P receiver) (filter P sender)"
    using filter_shuffled [OF assms(1), of "\<lambda>call. Q call \<and> P call"] by simp
  have "filter (\<lambda>call. Q call \<and> P call) others = []"
    using assms(4,5) by (auto simp: filter_empty_conv)
  then have "filter (\<lambda>call. Q call \<and> P call) calls = filter (\<lambda>call. Q call \<and> P call) own"
    using filter_shuffled [OF assms(2), of "\<lambda>call. Q call \<and> P call"] by simp
  moreover have "filter (\<lambda>line. contains line marker) (map call_line (filter Q calls)) =
      map call_line (filter (\<lambda>call. Q call \<and> P call) calls)"
    by (simp add: filter_map o_def assms(5) conj_commute)
  ultimately show ?thesis using own by simp
qed

lemma fold_marked:
  "fold (\<lambda>line total. if contains line marker then f line total else total) ls c =
   fold f (filter (\<lambda>line. contains line marker) ls) c"
  by (induction ls arbitrary: c) simp_all

section \<open>Properties\<close>

text \<open>
  C27 The analysis finds the cyclic threads' reports: in whichever order the last lines of a station's
  receiver and sender and those of all other threads are logged, they end in the file of that station,
  although the threads are only told apart by their names, and the analysis of that file reads back, per
  direction, the smallest, largest and average of all recorded cycles and of all recorded jitter values,
  and on the master the number of missed cycles.
\<close>

theorem cyclic_reports_found:
  assumes "measurements xs" "measurements xj" "measurements ys" "measurements yj"
    and "own \<in> shuffles (receiver_final t1 st (measured xs) (measured xj) n)
      (sender_final t2 st (measured ys) (measured yj))"
    and "calls \<in> shuffles own others"
    and "\<forall>call \<in> set others. routed (station_component st) call \<longrightarrow> other_line (call_line call)"
  shows "\<exists>content. cl_files (fold log_record calls init_component_logger) (station_component st) = Some content \<and>
    parse_device_cycles content = \<lparr>dc_send = Some (recorded ys), dc_receive = Some (recorded xs)\<rparr> \<and>
    parse_device_jitter content = \<lparr>dc_send = Some (recorded yj), dc_receive = Some (recorded xj)\<rparr> \<and>
    parse_master_missed_cycles content = (if st = MasterStation then n else 0)"
proof -
  let ?r = "receiver_final t1 st (measured xs) (measured xj) n"
    and ?s = "sender_final t2 st (measured ys) (measured yj)"
  let ?ls = "map call_line (filter (routed (station_component st)) calls)"
  note fin = final_calls [OF assms(1-4) _ refl refl]
  have routed: "\<forall>call \<in> set (?r @ ?s). routed (station_component st) call"
    using fin(4) [of "''cycle''" t1 st n t2] by blast
  note marked = marked_lines [OF assms(5,6) routed _ refl]
  have lines: "\<forall>line \<in> set ?ls. newline \<notin> set line \<and> carriage_return \<notin> set line"
    using set_shuffles [OF assms(6)] set_shuffles [OF assms(5)] fin(4) [of "''cycle''" t1 st n t2] assms(7)
    by (auto simp: other_line_def)
  have vals: "xs \<noteq> []" "length xs < 2 ^ 64" "ys \<noteq> []" "length ys < 2 ^ 64"
    "xj \<noteq> []" "length xj < 2 ^ 64" "yj \<noteq> []" "length yj < 2 ^ 64"
    using assms(1-4) by (simp_all add: measurements_def)
  have cycles: "filter (\<lambda>line. contains line (report_marker ''cycle'')) ?ls \<in>
      {[call_line (hd ?r), call_line (hd ?s)], [call_line (hd ?s), call_line (hd ?r)]}"
    using marked [of "report_marker ''cycle''"] assms(7) fin(1) [of "''cycle''" t1 st n] fin(2) [of "''cycle''" t2 st]
    by (auto simp: other_line_def)
  have jitter: "filter (\<lambda>line. contains line (report_marker ''jitter'')) ?ls \<in>
      {[call_line (?r ! 1), call_line (?s ! 1)], [call_line (?s ! 1), call_line (?r ! 1)]}"
    using marked [of "report_marker ''jitter''"] assms(7) fin(1) [of "''jitter''" t1 st n] fin(2) [of "''jitter''" t2 st]
    by (auto simp: other_line_def)
  have missed: "filter (\<lambda>line. contains line missed_marker) ?ls =
      (if st = MasterStation then [call_line (?r ! 2)] else [])"
  proof -
    let ?f = "filter (\<lambda>call. contains (call_line call) missed_marker)"
    have "?f ?r @ ?f ?s = (if st = MasterStation then [?r ! 2] else [])"
      using fin(3) [of "''cycle''" t1 st n t2] by simp
    then have "shuffles (?f ?r) (?f ?s) = {if st = MasterStation then [?r ! 2] else []}"
      by (auto simp: append_eq_Cons_conv split: if_splits)
    moreover have "\<forall>call \<in> set others. routed (station_component st) call \<longrightarrow> \<not> contains (call_line call) missed_marker"
      using assms(7) by (simp add: other_line_def)
    ultimately show ?thesis using marked [of missed_marker] by simp
  qed
  have total: "parse_numeric_field_u64 (call_line (?r ! 2)) ''total'' = Some n" if "st = MasterStation"
    using missed_line(2) [of "t1 2" st n] by (simp add: receiver_final_def final_line that)
  have content: "cl_files (fold log_record calls init_component_logger) (station_component st) = Some (unlines ?ls)"
    by (rule logged [OF station_component_known])
  moreover have "parse_device_cycles (unlines ?ls) = \<lparr>dc_send = Some (recorded ys), dc_receive = Some (recorded xs)\<rparr>"
    using reports_read_back [OF vals(1-4) station_words(1) station_words(2) [of st] _ station_words(3) [of st]
        _ _ cycles lines, where ta = "t1 0" and tb = "t2 0"]
    by (simp add: parse_device_cycles_def receiver_final_def sender_final_def final_line)
  moreover have "parse_device_jitter (unlines ?ls) = \<lparr>dc_send = Some (recorded yj), dc_receive = Some (recorded xj)\<rparr>"
    using reports_read_back [OF vals(5-8) station_words(1) station_words(2) [of st] _ station_words(3) [of st]
        _ _ jitter lines, where ta = "t1 1" and tb = "t2 1"]
    by (simp add: parse_device_jitter_def receiver_final_def sender_final_def final_line)
  moreover have "parse_master_missed_cycles (unlines ?ls) = (if st = MasterStation then n else 0)"
    using missed total lines_unlines [of ?ls] lines
    unfolding parse_master_missed_cycles_def missed_marker_def [symmetric] fold_marked
    by (simp add: unwrap_or_def)
  ultimately show ?thesis by blast
qed

definition example_calls :: "log_call list" where
  "example_calls =
     [\<lparr>lc_timestamp = 1, lc_thread_name = Some ''slave-temp'', lc_component = TEMPERATURE_SLAVE_LOG_COMPONENT,
       lc_level = LevelInfo, lc_target = ''demo'', lc_args = ''L2 cycle metrics elsewhere''\<rparr>,
      \<lparr>lc_timestamp = 1, lc_thread_name = Some ''slave-valve'', lc_component = VALVE_SLAVE_LOG_COMPONENT,
       lc_level = LevelWarn, lc_target = ''demo'', lc_args = ''Slave entering Shutdown state''\<rparr>]"


theorem cyclic_reports_found_witness:
  "\<exists>content. cl_files (fold log_record (hd example_calls #
      (sender_final Suc ValveStation (measured [5]) (measured [0, 4]) @
       receiver_final Suc ValveStation (measured [3, 1, 8]) (measured [2]) 0) @ tl example_calls)
      init_component_logger) (station_component ValveStation) = Some content \<and>
    parse_device_cycles content = \<lparr>dc_send = Some (recorded [5]), dc_receive = Some (recorded [3, 1, 8])\<rparr> \<and>
    parse_device_jitter content = \<lparr>dc_send = Some (recorded [0, 4]), dc_receive = Some (recorded [2])\<rparr> \<and>
    recorded [3, 1, 8] = \<lparr>cs_min_ns = 1, cs_max_ns = 8, cs_avg_ns = 4\<rparr>"
proof -
  let ?own = "sender_final Suc ValveStation (measured [5]) (measured [0, 4]) @
    receiver_final Suc ValveStation (measured [3, 1, 8]) (measured [2]) 0"
  have own: "?own \<in> shuffles (receiver_final Suc ValveStation (measured [3, 1, 8]) (measured [2]) 0)
      (sender_final Suc ValveStation (measured [5]) (measured [0, 4]))"
    using append_in_shuffles shuffles_commutes by metis
  have "hd example_calls # ?own @ tl example_calls \<in> shuffles ?own (hd example_calls # tl example_calls)"
    by (intro Cons_in_shuffles_rightI append_in_shuffles)
  then have calls: "hd example_calls # ?own @ tl example_calls \<in> shuffles ?own example_calls"
    by (simp add: example_calls_def)
  have "dec_text (Suc 0) = ''1''" by (subst dec_text.simps) (simp add: digit_char_def)
  then have others: "\<forall>call \<in> set example_calls. routed (station_component ValveStation) call \<longrightarrow>
      other_line (call_line call)"
    by (simp add: example_calls_def routed_def destination_def log_component_def component_defs components_def
        other_line_def missed_marker_def call_line_def log_line_def contains_def sublist_Cons_right newline_def
        carriage_return_def less_eq_log_level_def)
  have "measurements [3, 1, 8]" "measurements [2]" "measurements [5]" "measurements [0, 4]"
    by (simp_all add: measurements_def)
  note cyclic_reports_found [OF this own calls others]
  moreover have "recorded [3, 1, 8] = \<lparr>cs_min_ns = 1, cs_max_ns = 8, cs_avg_ns = 4\<rparr>"
    by (simp add: recorded_def)
  ultimately show ?thesis by blast
qed

end
