(* ===== verification/Demo_Main.thy ===== *)
theory Demo_Main
  imports Client_Trace Demo_Log
begin

text \<open>
  The threads of the demonstration as a whole: \<open>run_slave_thread\<close>, \<open>run_master_thread\<close> and \<open>main\<close>
  of \<^verbatim>\<open>src/demo/src/main.rs\<close>. The parts they are composed of are in the theories this one imports;
  here are their beginnings, their errors, what ends them, and the run of all three together.
\<close>

section \<open>A slave's thread\<close>

datatype slave_thread_error =
    SlaveSecret string
  | SlaveRuntime string
  | SlaveRefused status_code
  | ListenerNotStarted status_code
  | L2NotStarted status_code

text \<open>Up to the main loop. \<open>secret\<close> is what reading the shared secret gives, \<open>runtime\<close> what building the
  runtime does; a refused scheduling priority is only logged.\<close>

definition slave_thread_start ::
    "string + bytes \<Rightarrow> string + unit \<Rightarrow> network_interface list \<Rightarrow> opener \<Rightarrow> u64 \<Rightarrow> demo_slave_config \<Rightarrow>
       slave_thread_error + demo_slave" where
  "slave_thread_start secret runtime interfaces opener wall config =
     (case (secret, runtime) of
        (Inl e, _) \<Rightarrow> Inl (SlaveSecret e)
      | (_, Inl e) \<Rightarrow> Inl (SlaveRuntime e)
      | (Inr shared_secret, Inr _) \<Rightarrow>
          (case demo_slave_start shared_secret wall config of
             Inl code \<Rightarrow> Inl (SlaveRefused code)
           | Inr d \<Rightarrow>
               (case start_discovery_listener interfaces opener (dc_interface_name config) of
                  Inl code \<Rightarrow> Inl (ListenerNotStarted code)
                | Inr _ \<Rightarrow> Inr d)))"

text \<open>The main loop over a list of turns: what the other threads of the device do before a turn, the
  clock, and what starting the cyclic threads gives. \<open>None\<close> is a thread that still runs.\<close>

record loop_inputs =
  li_others :: "demo_slave \<Rightarrow> demo_slave"
  li_wall :: u64
  li_started :: "status_code + unit"
  li_inputs :: "u16 list"
  li_outputs :: "u16 list"

fun slave_thread_loop :: "loop_inputs list \<Rightarrow> demo_slave \<Rightarrow> (slave_thread_error + unit) option \<times> demo_slave" where
  "slave_thread_loop [] d = (None, d)"
| "slave_thread_loop (i # turns) d =
     (case demo_loop_turn (li_wall i) (li_started i) (li_inputs i) (li_outputs i) (li_others i d) of
        Fail code \<Rightarrow> (Some (Inl (L2NotStarted code)), li_others i d)
      | Leave d' \<Rightarrow> (Some (Inr ()), d'\<lparr>dv_running := False, dv_server := False\<rparr>)
      | Next d' \<Rightarrow> slave_thread_loop turns d')"

text \<open>The loop is left in \<open>Shutdown\<close> only.\<close>

lemma demo_loop_turn_Leave:
  "demo_loop_turn wall started ins outs d = Leave d' \<Longrightarrow> sa_state (dv_api d) = Shutdown"
  by (auto simp: demo_loop_turn_def Let_def split: if_splits sum.splits)

section \<open>The master's thread\<close>

datatype master_thread_error =
    MasterSecret string
  | MasterRefused status_code
  | MasterDiscovery status_code
  | MasterSetup setup_error
  | MasterRun master_error

record master_thread_inputs =
  mt_secret :: "string + bytes"
  mt_interfaces :: "network_interface list"
  mt_opener :: opener
  mt_rounds :: "exchange list"
  mt_order :: "mac_addr list"
  mt_temperature :: exchange
  mt_valve :: exchange
  mt_run :: master_inputs

text \<open>\<open>b\<close> has the services of the two slaves; the frames sent for discovery come along, and \<open>None\<close> is
  a panic of the discovery.\<close>

definition run_master_thread ::
    "sdcp_env \<Rightarrow> dummy_hardware service connection \<Rightarrow> dummy_hardware service connection \<Rightarrow>
       master_thread_inputs \<Rightarrow> master_run \<Rightarrow>
       ((master_thread_error + unit) \<times> bytes list \<times> master_run) option" where
  "run_master_thread env con_t con_v x b =
     (case mt_secret x of
        Inl e \<Rightarrow> Some (Inl (MasterSecret e), [], b)
      | Inr shared_secret \<Rightarrow>
          (case set_target_state state_manager_new DiscoverySync of
             (Inl code, state) \<Rightarrow> Some (Inl (MasterRefused code), [], b\<lparr>bu_state := state\<rparr>)
           | (Inr _, state) \<Rightarrow>
               (case discovery_master_open (mt_interfaces x) (mt_opener x) DEMO_MASTER_INTERFACE state
                       shared_secret of
                  Inl code \<Rightarrow> Some (Inl (MasterDiscovery code), [], b\<lparr>bu_state := state\<rparr>)
                | Inr (interface, m) \<Rightarrow>
                    (case setup_slaves (env\<lparr>sv_mac := ni_mac interface\<rparr>) (mt_rounds x) (mt_order x)
                            (mt_temperature x) (mt_valve x) m of
                       None \<Rightarrow> None
                     | Some (Inl e, frames, m') \<Rightarrow>
                         Some (Inl (MasterSetup e), frames, b\<lparr>bu_state := dm_state m'\<rparr>)
                     | Some (Inr (temperature, valve), frames, m') \<Rightarrow>
                         (let (r, b') = run_master shared_secret con_t con_v (mt_run x) valve
                                          (b\<lparr>bu_state := dm_state m'\<rparr>)
                          in Some (map_sum MasterRun id r, frames, b'))))))"

section \<open>The program\<close>

datatype main_end = Exited int | Panicked | Waiting | Completed
datatype thread_end = ExitedCleanly | FailedWith string | ThreadPanicked

text \<open>What the surroundings give \<open>main\<close>; the interfaces depend on the state of the operating system.\<close>

record 'o main_inputs =
  mx_root :: bool
  mx_logger :: "string + unit"
  mx_interfaces :: "'o \<Rightarrow> network_interface list"
  mx_spawned :: bool
  mx_analysis :: "string + unit"

text \<open>What the threads do, given the address the slaves trust: the result of the master, and the ends
  of the two slaves; \<open>None\<close> for one that never ends.\<close>

type_synonym 'o demo_threads =
  "mac_addr \<Rightarrow> 'o \<Rightarrow> (string + unit) option \<times> thread_end option \<times> thread_end option \<times> 'o"

type_synonym log_messages = "(log_level \<times> string) list"

definition failure :: "log_level \<Rightarrow> string \<Rightarrow> string + unit \<Rightarrow> log_messages" where
  "failure level message r = (case r of Inl error \<Rightarrow> [(level, message @ error)] | Inr _ \<Rightarrow> [])"

definition thread_message :: "string \<Rightarrow> thread_end \<Rightarrow> log_messages" where
  "thread_message name e =
     [case e of
        ExitedCleanly \<Rightarrow> (LevelInfo, name @ '' thread exited cleanly'')
      | FailedWith error \<Rightarrow> (LevelError, name @ '' failed: '' @ error)
      | ThreadPanicked \<Rightarrow> (LevelError, name @ '' thread panicked'')]"

definition join_threads ::
    "(string + unit) option \<Rightarrow> thread_end option \<Rightarrow> thread_end option \<Rightarrow> log_messages \<times> bool" where
  "join_threads master temperature valve =
     (case master of
        None \<Rightarrow> ([], False)
      | Some r \<Rightarrow>
          (let first = failure LevelError ''Master demo execution failed: '' r
           in case temperature of
                None \<Rightarrow> (first, False)
              | Some t \<Rightarrow>
                  (let second = first @ thread_message ''Temperature slave'' t
                   in case valve of
                        None \<Rightarrow> (second, False)
                      | Some v \<Rightarrow> (second @ thread_message ''Valve slave'' v, True))))"

definition demo_main ::
    "'o ip_runner \<Rightarrow> 'o main_inputs \<Rightarrow> 'o demo_threads \<Rightarrow> 'o \<Rightarrow> main_end \<times> log_messages \<times> 'o" where
  "demo_main ip inp threads os =
     (if \<not> mx_root inp then (Exited 1, [], os)
      else case mx_logger inp of
        Inl _ \<Rightarrow> (Exited 1, [], os)
      | Inr _ \<Rightarrow>
          (let start = [(LevelInfo, ''Initializing TSN fieldbus demo runtime'')]
           in case setup_demo_network ip os of
             (Inl error, os1) \<Rightarrow>
               (Exited 1, start @ [(LevelError, ''Failed to setup demo network: '' @ error)], os1)
           | (Inr _, os1) \<Rightarrow>
               (case resolve_interface_mac (mx_interfaces inp os1) DEMO_MASTER_INTERFACE of
                  Inl _ \<Rightarrow> (Panicked, start, os1)
                | Inr trusted_mac \<Rightarrow>
                    if \<not> mx_spawned inp then (Panicked, start, os1)
                    else
                      (let (master, temperature, valve, os2) = threads trusted_mac os1;
                           (messages, ended) = join_threads master temperature valve
                       in if \<not> ended then (Waiting, start @ messages, os2)
                          else
                            (let (torn_down, os3) = teardown_demo_network ip os2
                             in (Completed,
                                 start @ messages @
                                 failure LevelWarn ''Demo network teardown reported an issue: '' torn_down @
                                 failure LevelWarn ''Post-run log analyzer failed: '' (mx_analysis inp) @
                                 [(LevelInfo, ''Demo completed'')], os3))))))"

section \<open>What the program leaves behind\<close>

text \<open>What the \<^verbatim>\<open>ip\<close> command, run by root, does to the names of the interfaces: a command adds at most
  the names it creates, and the names it deletes do not exist afterwards, also if they did not before.\<close>

definition ip_tool :: "('o \<Rightarrow> string set) \<Rightarrow> 'o ip_runner \<Rightarrow> bool" where
  "ip_tool names ip \<longleftrightarrow> (\<forall>c os. names (snd (ip c os)) \<subseteq> (names os \<union> created c) - deleted c)"

lemma run_ip_state: "snd (run_ip ip c os) = snd (ip c os)"
  by (auto simp: run_ip_def split: prod.split sum.split)

lemma in_order_names:
  assumes "ip_tool names ip"
  shows "names (snd (in_order (map (run_ip ip) cmds) os)) \<subseteq> names os \<union> \<Union>(created ` set cmds)"
proof (induction cmds arbitrary: os)
  case (Cons c cmds)
  obtain r os1 where run: "run_ip ip c os = (r, os1)" by fastforce
  have "names os1 \<subseteq> names os \<union> created c"
    using assms run_ip_state [of ip c os] by (auto simp: ip_tool_def run)
  with Cons.IH [of os1] show ?case by (auto simp: and_then_def run split: sum.split)
qed simp

lemma teardown_names:
  assumes "ip_tool names ip"
  shows "(\<forall>c \<in> set cmds. created c = {}) \<Longrightarrow>
    names (fold (run_ip_allow_fail ip) cmds os) \<subseteq> names os - \<Union>(deleted ` set cmds)"
proof (induction cmds arbitrary: os)
  case (Cons c cmds)
  have "names (run_ip_allow_fail ip c os) \<subseteq> names os - deleted c"
    using assms Cons.prems by (auto simp: ip_tool_def run_ip_allow_fail_def)
  with Cons.IH [of "run_ip_allow_fail ip c os"] Cons.prems show ?case by auto
qed simp

lemma teardown_creates_nothing: "\<forall>c \<in> set teardown_commands. created c = {}"
  by (simp add: teardown_commands_def)

lemma teardown_result:
  "ip_tool names ip \<Longrightarrow> names (snd (teardown_demo_network ip os)) \<subseteq> names os - \<Union>(deleted ` set teardown_commands)"
  by (simp add: teardown_demo_network_eq teardown_names teardown_creates_nothing)

lemma setup_result:
  assumes "ip_tool names ip"
  shows "names (snd (setup_demo_network ip os)) \<subseteq>
    (names os - \<Union>(deleted ` set teardown_commands)) \<union> \<Union>(created ` set setup_commands)"
  using in_order_names [OF assms, of setup_commands "snd (teardown_demo_network ip os)"] teardown_result [OF assms, of os]
  unfolding setup_demo_network_eq by blast

lemma removed_again: "C \<subseteq> D \<Longrightarrow> Y \<subseteq> (N - D) \<union> C \<Longrightarrow> X \<subseteq> Y - D \<Longrightarrow> X \<subseteq> N - C"
  by blast

text \<open>When a slave's thread does not end, the program waits for it, and takes nothing down, although it
  has logged the failure of the master.\<close>

lemma main_waits:
  assumes "mx_root inp" "mx_logger inp = Inr ()" "setup_demo_network ip os = (Inr (), os1)"
    and "resolve_interface_mac (mx_interfaces inp os1) DEMO_MASTER_INTERFACE = Inr mac" "mx_spawned inp"
    and "threads mac os1 = (Some (Inl error), None, v, os2)"
  shows "demo_main ip inp threads os = (Waiting,
    [(LevelInfo, ''Initializing TSN fieldbus demo runtime''),
     (LevelError, ''Master demo execution failed: '' @ error)], os2)"
  using assms by (simp add: demo_main_def join_threads_def failure_def)

section \<open>Properties\<close>


text \<open>A tool that keeps the set of names; \<open>fails\<close> says which commands fail.\<close>

definition link_table :: "(string list \<Rightarrow> bool) \<Rightarrow> string set ip_runner" where
  "link_table fails c os = (if fails c then (Inr (False, ''failed''), os)
     else (Inr (True, []), (os \<union> created c) - deleted c))"

definition example_main :: "string set main_inputs" where
  "example_main =
     \<lparr>mx_root = True, mx_logger = Inr (),
      mx_interfaces = (\<lambda>os. [\<lparr>ni_name = DEMO_MASTER_INTERFACE, ni_mac = Some master_mac\<rparr>]),
      mx_spawned = True, mx_analysis = Inl ''no logs''\<rparr>"

lemma link_table_ok: "ip_tool id (link_table (\<lambda>_. False))"
  by (simp add: ip_tool_def link_table_def)

lemma link_table_in_order: "\<exists>os'. in_order (map (run_ip (link_table (\<lambda>_. False))) cmds) os = (Inr (), os')"
  by (induction cmds arbitrary: os) (simp_all add: and_then_def run_ip_def link_table_def)

lemma example_main_mac: "resolve_interface_mac (mx_interfaces example_main os) DEMO_MASTER_INTERFACE = Inr master_mac"
  by (simp add: example_main_def resolve_interface_mac_def)


text \<open>A command of the set-up that fails makes the program exit before the teardown: the bridge and the
  pairs it has created stay.\<close>

lemma failed_setup_leaves_bridge:
  "\<exists>messages os'. demo_main (link_table (\<lambda>c. c = [''addr'', ''flush'', ''dev'', DEMO_MASTER_INTERFACE])) example_main
      threads {} = (Exited 1, messages, os') \<and> DEFAULT_DEMO_BRIDGE \<in> os'"
proof -
  let ?ip = "link_table (\<lambda>c. c = [''addr'', ''flush'', ''dev'', DEMO_MASTER_INTERFACE])"
  have run: "run_ip ?ip c os = (if c = [''addr'', ''flush'', ''dev'', DEMO_MASTER_INTERFACE]
      then (Inl (''ip command failed: ip '' @ join_text '' '' c @ '': '' @ trim ''failed''), os)
      else (Inr (), (os \<union> created c) - deleted c))" for c os
    by (simp add: run_ip_def link_table_def)
  have "\<exists>e os'. in_order (map (run_ip ?ip) setup_commands) os = (Inl e, os') \<and> DEFAULT_DEMO_BRIDGE \<in> os'" for os
    by (simp add: setup_commands_def veth_commands_def attach_commands_def and_then_def run)
  then obtain e os' where "setup_demo_network ?ip {} = (Inl e, os')" "DEFAULT_DEMO_BRIDGE \<in> os'"
    unfolding setup_demo_network_eq by blast
  then show ?thesis by (simp add: demo_main_def example_main_def)
qed

end
