(* ===== verification/Demo_Run.thy ===== *)
theory Demo_Run
  imports Demo_Main
begin

text \<open>
  The demonstration as a whole: what ends a slave's thread, and the run of the master's thread with
  its two slaves from their start to their end.
\<close>

section \<open>What ends a slave\<close>

text \<open>A run that changes a property has a step that does.\<close>

lemma rtranclp_change:
  "r\<^sup>*\<^sup>* a b \<Longrightarrow> \<not> P a \<Longrightarrow> P b \<Longrightarrow> \<exists>x y. r\<^sup>*\<^sup>* a x \<and> r x y \<and> \<not> P x \<and> P y \<and> r\<^sup>*\<^sup>* y b"
proof (induction rule: rtranclp_induct)
  case (step y z)
  then show ?case by (cases "P y") (blast intro: rtranclp.rtrancl_into_rtrancl)+
qed simp

text \<open>The service of a device serves a client.\<close>

definition served ::
    "dummy_hardware api_env \<Rightarrow> (bytes \<Rightarrow> string) \<Rightarrow> api_event \<Rightarrow> demo_slave \<Rightarrow> demo_slave \<Rightarrow> bool" where
  "served env enc e d d' \<longleftrightarrow> dv_server d \<and> d' = d\<lparr>dv_api := snd (api_step env enc e (dv_api d))\<rparr>"

lemma demo_loop_turn_kept:
  assumes "demo_loop_turn wall started ins outs d = Next d' \<or> demo_loop_turn wall started ins outs d = Leave d'"
  shows "sa_state (dv_api d') = sa_state (dv_api d) \<and> sa_tokens (dv_api d') = sa_tokens (dv_api d) \<and>
    dv_running d' = dv_running d"
  using assms by (auto simp: demo_loop_turn_def demo_publish_def Let_def split: if_splits sum.splits)

lemma listener_state:
  assumes "listener_turn env received s = Continue (r, s')"
  shows "ln_state s = DiscoverySync \<and> ln_state s' \<in> {DiscoverySync, PreOp}"
proof (cases rule: listener_turn_cases [of s env received])
  case (message f d m h tlvs n t)
  then have "dispatch env h tlvs m (s\<lparr>ln_auth := after_receive m n (ln_auth s)\<rparr>) = Some (r, s')"
    using assms by simp
  with message(2) show ?thesis
    by (auto simp: dispatch_def handle_discovery_request_def handle_get_ip_request_def
        handle_set_ip_request_def Let_def split: sdcp_op_code.splits if_splits sum.splits option.splits
        prod.splits dest!: responses)
qed (use assms in auto)

lemma perform_state:
  "sa_state (snd (perform env wall req s)) = sa_state s \<or>
     (\<exists>target. req = SetTargetState target \<and> set_target_state (sa_state s) target = (Inr (), target) \<and>
        sa_state (snd (perform env wall req s)) = target)"
proof (cases req)
  case (SetTargetState target)
  then show ?thesis
    using set_target_state_outcome [of "sa_state s" target]
    by (auto simp: rpc_set_target_state_def rpc_set_manager_def rpc_set_status_def)
qed (auto simp: case_prod_beta rpc_configure_streams_eq split: sum.split)

text \<open>A request changes the state only with a token of the store, and to the state it names.\<close>

lemma api_step_state:
  assumes "sa_state (snd (api_step env enc e s)) \<noteq> sa_state s"
  shows "\<exists>now wall token. e = Request now wall (Some token) (SetTargetState (sa_state (snd (api_step env enc e s)))) \<and>
    fst (set_target_state (sa_state s) (sa_state (snd (api_step env enc e s)))) = Inr () \<and>
    ts_tokens (sa_tokens s) \<noteq> Map.empty"
proof (cases e)
  case (TokenRequest key i)
  with assms show ?thesis
    by (auto simp: rpc_get_token_def issue_token_eq case_prod_beta Let_def split: if_splits)
next
  case (Request now wall token req)
  let ?s = "s\<lparr>sa_tokens := (sa_tokens s)\<lparr>ts_tokens := prune_expired_locked now (ts_tokens (sa_tokens s))\<rparr>\<rparr>"
  from assms Request obtain t where t: "token = Some t" "ts_tokens (sa_tokens s) (env_hash env t) \<noteq> None"
    "snd (api_step env enc e s) = snd (perform env wall req ?s)"
    by (auto simp: serve_def api_validate_eq case_prod_beta split: option.splits if_splits)
  with perform_state [of env wall req ?s] assms Request show ?thesis by fastforce
qed

lemma api_step_tokens:
  assumes "ts_tokens (sa_tokens s) = Map.empty" "ts_tokens (sa_tokens (snd (api_step env enc e s))) \<noteq> Map.empty"
  shows "\<exists>i. e = TokenRequest (ts_expected_shared_key (sa_tokens s)) i"
  using assms api_step_no_token [OF assms(1), of e env enc] by (cases e) (auto simp: wrong_key_def)

lemma api_step_key:
  "ts_expected_shared_key (sa_tokens (snd (api_step env enc e s))) = ts_expected_shared_key (sa_tokens s)"
proof (cases e)
  case (Request now wall token req)
  have "sa_tokens (snd (perform env wall req s')) = sa_tokens s'" for s'
    by (cases req) (auto simp: case_prod_beta rpc_set_target_state_def rpc_set_manager_def rpc_set_status_def
        rpc_configure_streams_eq split: sum.split)
  with Request show ?thesis by (simp add: serve_def api_validate_eq case_prod_beta split: option.split)
qed (simp add: rpc_get_token_def issue_token_eq case_prod_beta Let_def)

text \<open>Everything but the service leaves the tokens, the listener never takes the device to
  \<open>Shutdown\<close>, and only the main loop ends itself.\<close>

lemma demo_step_cases:
  assumes "demo_step lenv env enc H d d'"
  obtains (service) e where "served env enc e d d'"
  | (other) "sa_tokens (dv_api d') = sa_tokens (dv_api d)"
      "sa_state (dv_api d') = Shutdown \<Longrightarrow> sa_state (dv_api d) = Shutdown"
      "dv_running d \<Longrightarrow> \<not> dv_running d' \<Longrightarrow> sa_state (dv_api d) = Shutdown"
  using assms
proof (cases rule: demo_step.cases)
  case (listen received sent l)
  then show thesis
    using listener_state [OF listen(3)] other by (auto simp: with_listener_def listener_of_def)
next
  case (loop wall started ins outs)
  then show thesis
    using demo_loop_turn_kept [of wall started ins outs d d'] other by simp
next
  case (leave wall started ins outs d1)
  then show thesis
    using demo_loop_turn_kept [of wall started ins outs d d1] demo_loop_turn_Leave [OF leave(3)] other by simp
next
  case (api e r s)
  then show thesis using service [of e] by (simp add: served_def)
qed (use other in \<open>simp_all add: with_l2_def l2_of_def\<close>)

lemma demo_reaches_key:
  "demo_reaches lenv env enc H d d' \<Longrightarrow>
   ts_expected_shared_key (sa_tokens (dv_api d')) = ts_expected_shared_key (sa_tokens (dv_api d))"
proof (induction rule: rtranclp_induct)
  case (step y z)
  from step(2) show ?case
    by (cases rule: demo_step_cases) (use step(3) in \<open>simp_all add: served_def api_step_key\<close>)
qed simp

section \<open>Fresh stations\<close>

text \<open>A master and a slave on one segment, with the same frame format and hash.\<close>

definition same_segment ::
    "sdcp_env \<Rightarrow> dummy_hardware listener_env \<Rightarrow> mac_addr \<Rightarrow> mac_addr \<Rightarrow> bool" where
  "same_segment menv senv mm sm \<longleftrightarrow>
     env_ok menv \<and> env_ok senv \<and> sv_pnet senv = sv_pnet menv \<and> sv_hash senv = sv_hash menv \<and>
     sv_mac menv = Some mm \<and> sv_mac senv = Some sm \<and> mm \<noteq> sm"

text \<open>A slave's listener works on the mock hardware, whose interface takes any address.\<close>

definition mock_listener :: "dummy_hardware listener_env \<Rightarrow> bool" where
  "mock_listener env \<longleftrightarrow> lv_info env = dummy_device_access \<and> lv_network env = dummy_network_access (\<lambda>_ _ _. Inr ())"

lemma demo_slave_start_fields:
  assumes "demo_slave_start secret wall config = Inr d"
  shows "listener_of d = \<lparr>ln_state = DiscoverySync, ln_hardware = demo_hardware config,
      ln_auth = add_new_device (dc_trusted_master_mac config) (discovery_auth_new secret)\<rparr>"
    and "sa_tokens (dv_api d) = token_store_new secret" and "sa_streams (dv_api d) = stream_store_new secret"
    and "dv_running d" "dv_listening d" "\<not> dv_server d" "dv_l2 d = None"
  using assms by (auto simp: demo_slave_start_def state_manager_new_def listener_of_def)

lemma fresh_numbers:
  "next_number (discovery_auth_new secret) e = 1" "rx_number (discovery_auth_new secret) e = None"
  "da_shared_secret (add_new_device a (discovery_auth_new secret)) = secret"
  by (simp_all add: discovery_auth_new_def next_number_def tx_number_def rx_number_def add_new_device_def
      device_security_context_default_def)

lemma fresh_linked:
  assumes "same_segment menv senv mm sm" "demo_slave_start secret wall config = Inr d"
    and "dc_trusted_master_mac config = mm" "sm \<noteq> BROADCAST_MAC"
  shows "linked menv senv mm sm (discovery_master_new DiscoverySync secret) (listener_of d)"
    and "expects (discovery_master_new DiscoverySync secret) sm (listener_of d)"
    and "next_number (ln_auth (listener_of d)) sm = 1"
  using assms(1,3,4)
  by (simp_all add: demo_slave_start_fields(1) [OF assms(2)] linked_def expects_def same_segment_def
      discovery_master_new_def fresh_numbers)

lemma fresh_identity:
  assumes "mock_listener senv" "demo_slave_start secret wall config = Inr d"
  shows "sdi_device_id (identity senv (listener_of d)) = (case dc_role config of Temperature \<Rightarrow> 1 | Valve \<Rightarrow> 2)"
  using assms(1)
  by (simp add: demo_slave_start_fields(1) [OF assms(2)] identity_def mock_listener_def dummy_device_access_def
      dummy_read_device_info_def demo_hardware_def new_temperature_sensor_def new_valve_controller_def
      dummy_device_info_def split: demo_slave_role.split)

definition hardware_role :: "demo_slave_role \<Rightarrow> dummy_hardware_role" where
  "hardware_role role = (case role of Temperature \<Rightarrow> TemperatureSensor | Valve \<Rightarrow> ValveController)"

lemma mock_configured:
  assumes "mock_listener senv"
  shows "configure_hardware senv ip nm gw h = (Inr (), h\<lparr>dh_device_info := (dh_device_info h)
    \<lparr>di_ip_address := ip, di_netmask := nm, di_gateway := gw\<rparr>\<rparr>)"
proof -
  have "lv_info senv = dummy_device_access" "lv_network senv = dummy_network_access (\<lambda>_ _ _. Inr ())"
    using assms by (simp_all add: mock_listener_def)
  then show ?thesis
    by (simp add: configure_hardware_def dummy_device_access_def dummy_network_access_def
        dummy_read_device_info_def dummy_write_device_info_def dummy_apply_ip_config_def split: option.split)
qed

lemma demo_hardware_role: "dh_role (demo_hardware config) = hardware_role (dc_role config)"
  by (simp add: demo_hardware_def hardware_role_def new_temperature_sensor_def new_valve_controller_def
      split: demo_slave_role.split)

text \<open>A device whose listener answered two messages, the second of which set its address, and whose
  main loop then turned.\<close>

lemma device_addressed:
  assumes "demo_slave_start secret wall config = Inr d0"
    and "listener_turn lenv (Some f1) (listener_of d0) = Continue (Some r1, l1)"
    and "listener_turn lenv (Some f2) l1 = Continue (Some r2, l2)" and "ln_state l2 = PreOp"
  obtains d where "demo_reaches lenv env enc H d0 d"
    and "dv_running d" "dv_server d" "sa_state (dv_api d) = PreOp" "published (dv_api d)"
    and "sa_tokens (dv_api d) = token_store_new secret" "sa_streams (dv_api d) = stream_store_new secret"
    and "sa_hardware (dv_api d) = ln_hardware l2"
proof -
  note start = demo_slave_start_fields [OF assms(1)]
  let ?d1 = "with_listener l1 d0"
  let ?d2 = "with_listener l2 ?d1"
  let ?d = "(demo_publish PreOp wall (?d2\<lparr>dv_previous_state := Some PreOp\<rparr>))\<lparr>dv_server := True\<rparr>"
  have l1: "listener_of ?d1 = l1" "dv_listening ?d1"
    using listener_state [OF assms(3)] by (simp_all add: listener_of_def with_listener_def)
  have "demo_step lenv env enc H d0 ?d1" by (rule demo_step.listen [OF start(5) assms(2)])
  moreover have "demo_step lenv env enc H ?d1 ?d2"
    by (rule demo_step.listen [OF l1(2), unfolded l1(1), OF assms(3)])
  moreover have "demo_loop_turn wall (Inr ()) [] [] ?d2 = Next ?d"
    using start(6) assms(4) by (simp add: demo_loop_turn_def with_listener_def Let_def)
  then have "demo_step lenv env enc H ?d2 ?d"
    by (rule demo_step.loop [rotated]) (simp add: with_listener_def start(4))
  ultimately have "demo_reaches lenv env enc H d0 ?d"
    by (meson converse_rtranclp_into_rtranclp r_into_rtranclp)
  then show thesis
    by (rule that) (simp_all add: with_listener_def demo_publish_def published_def start(2-4) assms(4))
qed

section \<open>The master as the slaves' client\<close>

text \<open>The service of a device as the master finds it, and the device after the master's calls.\<close>

definition service_of :: "demo_slave \<Rightarrow> dummy_hardware service" where
  "service_of d = \<lparr>sv_api = dv_api d, sv_calls = 0\<rparr>"

definition after_calls :: "dummy_hardware service \<Rightarrow> demo_slave \<Rightarrow> demo_slave" where
  "after_calls w d = d\<lparr>dv_api := sv_api w\<rparr>"

definition run_with :: "demo_slave \<Rightarrow> demo_slave \<Rightarrow> master_run" where
  "run_with dt dv =
     \<lparr>bu_state = Init, bu_store = stream_store_new [],
      bu_temperature = (api_client_connect [], service_of dt), bu_valve = (api_client_connect [], service_of dv)\<rparr>"

lemma bu_simps:
  "snd (bu_temperature ((run_with dt dv)\<lparr>bu_state := st\<rparr>)) = service_of dt"
  "snd (bu_valve ((run_with dt dv)\<lparr>bu_state := st\<rparr>)) = service_of dv"
  by (simp_all add: run_with_def)

lemma api_run_reaches:
  "dv_server d \<Longrightarrow> demo_reaches lenv env enc H d (d\<lparr>dv_api := snd (api_run env enc es (dv_api d))\<rparr>)"
proof (induction es arbitrary: d)
  case (Cons e es)
  let ?d = "d\<lparr>dv_api := snd (api_step env enc e (dv_api d))\<rparr>"
  have "demo_step lenv env enc H d ?d"
    using demo_step.api [OF Cons.prems, of env enc e "fst (api_step env enc e (dv_api d))"] by simp
  moreover have "demo_reaches lenv env enc H ?d (?d\<lparr>dv_api := snd (api_run env enc es (dv_api ?d))\<rparr>)"
    by (rule Cons.IH) (simp add: Cons.prems)
  ultimately show ?case by (simp add: case_prod_beta converse_rtranclp_into_rtranclp)
qed simp

lemma calls_reach:
  "dv_server d \<Longrightarrow> service_follows env enc (service_of d) w \<Longrightarrow> demo_reaches lenv env enc H d (after_calls w d)"
  using api_run_reaches by (auto simp: service_follows_def service_of_def after_calls_def)

text \<open>A device in \<open>Shutdown\<close> whose main loop runs leaves it.\<close>

lemma shutdown_reaches_end:
  assumes "sa_state (dv_api d) = Shutdown" and "dv_running d"
  shows "\<exists>d'. demo_reaches lenv env enc H d d' \<and> \<not> dv_running d'"
proof -
  let ?d = "demo_publish Shutdown 0 (d\<lparr>dv_previous_state := Some Shutdown\<rparr>)"
  have "demo_loop_turn 0 (Inr ()) [] [] d = Leave ?d"
    using assms(1) by (simp add: demo_loop_turn_def Let_def)
  from demo_step.leave [OF assms(2) this]
  have "demo_reaches lenv env enc H d (?d\<lparr>dv_running := False, dv_server := False\<rparr>)" by (rule r_into_rtranclp)
  then show ?thesis by (rule exI [of _ "?d\<lparr>dv_running := False, dv_server := False\<rparr>", OF conjI]) simp
qed

text \<open>A slave of the demonstration, just started, on the segment of a master it trusts.\<close>

definition deployed ::
    "sdcp_env \<Rightarrow> mac_addr \<Rightarrow> bytes \<Rightarrow> demo_slave_role \<Rightarrow> dummy_hardware listener_env \<Rightarrow> mac_addr \<Rightarrow>
       demo_slave \<Rightarrow> bool" where
  "deployed menv mm secret role senv sm d \<longleftrightarrow>
     (\<exists>wall config. demo_slave_start secret wall config = Inr d \<and> dc_role config = role \<and>
        dc_trusted_master_mac config = mm) \<and>
     same_segment (menv\<lparr>sv_mac := Some mm\<rparr>) senv mm sm \<and> mock_listener senv \<and> sm \<noteq> BROADCAST_MAC"

lemma deployed_fresh:
  assumes "deployed menv mm secret role senv sm d"
  shows "linked (menv\<lparr>sv_mac := Some mm\<rparr>) senv mm sm (discovery_master_new DiscoverySync secret) (listener_of d)"
    and "expects (discovery_master_new DiscoverySync secret) sm (listener_of d)"
    and "next_number (ln_auth (listener_of d)) sm = 1"
    and "sdi_device_id (identity senv (listener_of d)) = (case role of Temperature \<Rightarrow> 1 | Valve \<Rightarrow> 2)"
    and "dh_role (ln_hardware (listener_of d)) = hardware_role role"
proof -
  from assms obtain wall config where start: "demo_slave_start secret wall config = Inr d" "dc_role config = role"
    "dc_trusted_master_mac config = mm" and segment: "same_segment (menv\<lparr>sv_mac := Some mm\<rparr>) senv mm sm"
    "mock_listener senv" "sm \<noteq> BROADCAST_MAC" by (auto simp: deployed_def)
  from fresh_linked [OF segment(1) start(1,3) segment(3)]
  show "linked (menv\<lparr>sv_mac := Some mm\<rparr>) senv mm sm (discovery_master_new DiscoverySync secret) (listener_of d)"
    "expects (discovery_master_new DiscoverySync secret) sm (listener_of d)"
    "next_number (ln_auth (listener_of d)) sm = 1" by simp_all
  show "sdi_device_id (identity senv (listener_of d)) = (case role of Temperature \<Rightarrow> 1 | Valve \<Rightarrow> 2)"
    using fresh_identity [OF segment(2) start(1)] start(2) by simp
  show "dh_role (ln_hardware (listener_of d)) = hardware_role role"
    using demo_hardware_role [of config] demo_slave_start_fields(1) [OF start(1)] start(2) by simp
qed

text \<open>After the two exchanges of the setup a deployed slave is one the master can run with.\<close>

lemma deployed_ready:
  assumes "deployed menv mm secret role senv sm d0" and "length secret = 32"
    and "listener_turn senv (Some f1) (listener_of d0) = Continue (Some r1, l1)"
    and "listener_turn senv (Some f2) l1 = Continue (Some r2, l2)" and "ln_state l2 = PreOp"
    and "dh_role (ln_hardware l2) = hardware_role role"
  obtains d where "demo_reaches senv env enc H d0 d" "dv_running d" "dv_server d"
    "slave_at hdr secret (hardware_role role) PreOp Map.empty (api_client_connect secret, service_of d)"
proof -
  from assms(1) obtain wall config where "demo_slave_start secret wall config = Inr d0"
    by (auto simp: deployed_def)
  from device_addressed [OF this assms(3-5), of env enc H] obtain d where
    d: "demo_reaches senv env enc H d0 d" "dv_running d" "dv_server d" "sa_state (dv_api d) = PreOp"
      "published (dv_api d)" "sa_tokens (dv_api d) = token_store_new secret"
      "sa_streams (dv_api d) = stream_store_new secret" "sa_hardware (dv_api d) = ln_hardware l2" by metis
  then have "slave_at hdr secret (hardware_role role) PreOp Map.empty (api_client_connect secret, service_of d)"
    using assms(2,6) by (simp add: slave_at_def service_of_def service_accepts_def is_shared_key_valid_iff
        token_store_new_def api_client_connect_def stream_store_new_def)
  with d(1-3) show thesis by (rule that)
qed

text \<open>The inputs of the master's thread when everything around it works: its interface is there, what is
  sent is sent, and the frames of the slaves are among the received ones.\<close>

definition demo_inputs ::
    "bytes \<Rightarrow> network_interface list \<Rightarrow> opener \<Rightarrow> bytes option list \<Rightarrow> exchange list \<Rightarrow> mac_addr list \<Rightarrow>
       bytes option list \<Rightarrow> bytes option list \<Rightarrow> master_inputs \<Rightarrow> master_thread_inputs" where
  "demo_inputs secret interfaces opener heard rounds order heard_t heard_v inp =
     \<lparr>mt_secret = Inr secret, mt_interfaces = interfaces, mt_opener = opener,
      mt_rounds = (Some True, heard) # rounds, mt_order = order, mt_temperature = (Some True, heard_t),
      mt_valve = (Some True, heard_v), mt_run = inp\<rparr>"

lemma run_master_thread_ok:
  assumes "find (\<lambda>i. ni_name i = DEMO_MASTER_INTERFACE) interfaces = Some interface"
    and "opener interface = Inr EthernetChannel"
    and "setup_slaves (menv\<lparr>sv_mac := ni_mac interface\<rparr>) ((Some True, heard) # rounds) order
      (Some True, heard_t) (Some True, heard_v) (discovery_master_new DiscoverySync secret) =
      Some (Inr (tm, vm), frames, m)"
    and "run_master secret con_t con_v inp vm (b\<lparr>bu_state := dm_state m\<rparr>) = (Inr (), b')"
  shows "run_master_thread menv con_t con_v (demo_inputs secret interfaces opener heard rounds order
      heard_t heard_v inp) b = Some (Inr (), frames, b')"
  using assms by (simp add: run_master_thread_def demo_inputs_def state_manager_new_def discovery_master_open_def
      open_channel_def)

text \<open>The second half: the master's calls, from two slaves it can run with to their ends.\<close>

lemma calls_end_slaves:
  assumes "timely enc_t hdr_t inp_t" "timely enc_v hdr_v inp_v" and "all_granted mm inp"
    and "env_image env_t = dummy_process_image" "env_image env_v = dummy_process_image"
    and "slave_at hdr_t secret TemperatureSensor PreOp Map.empty (api_client_connect secret, service_of dt)"
    and "slave_at hdr_v secret ValveController PreOp Map.empty (api_client_connect secret, service_of dv)"
    and "dv_running dt" "dv_server dt" "dv_running dv" "dv_server dv"
  obtains b' te ve where "run_master secret (service_connection env_t enc_t hdr_t inp_t)
      (service_connection env_v enc_v hdr_v inp_v) inp valve ((run_with dt dv)\<lparr>bu_state := DiscoverySync\<rparr>) =
      (Inr (), b')" "bu_state b' = Shutdown"
    "demo_reaches tenv env_t enc_t H dt (after_calls (snd (bu_temperature b')) dt)"
    "demo_reaches tenv env_t enc_t H (after_calls (snd (bu_temperature b')) dt) te" "\<not> dv_running te"
    "demo_reaches venv env_v enc_v H dv (after_calls (snd (bu_valve b')) dv)"
    "demo_reaches venv env_v enc_v H (after_calls (snd (bu_valve b')) dv) ve" "\<not> dv_running ve"
proof -
  let ?b = "(run_with dt dv)\<lparr>bu_state := DiscoverySync\<rparr>"
  have "bu_state ?b = DiscoverySync" by simp
  moreover have "ready_slaves hdr_t hdr_v secret Map.empty Map.empty ?b"
    using assms(6,7) by (simp add: ready_slaves_def run_with_def)
  ultimately obtain b' where b': "run_master secret (service_connection env_t enc_t hdr_t inp_t)
      (service_connection env_v enc_v hdr_v inp_v) inp valve ?b = (Inr (), b')" "bu_state b' = Shutdown"
    "sa_state (sv_api (snd (bu_temperature b'))) = Shutdown" "sa_state (sv_api (snd (bu_valve b'))) = Shutdown"
    using master_run_completes [OF assms(1-5), of ?b secret Map.empty Map.empty valve] by blast
  have "service_follows env_t enc_t (service_of dt) (snd (bu_temperature b'))"
    "service_follows env_v enc_v (service_of dv) (snd (bu_valve b'))"
    using services.run_master_traces [of env_t enc_t env_v enc_v secret hdr_t inp_t hdr_v inp_v inp valve] b'(1)
    unfolding on_traces_def by (metis bu_simps snd_conv)+
  from calls_reach [OF assms(9) this(1), of tenv H] calls_reach [OF assms(11) this(2), of venv H]
  have reach: "demo_reaches tenv env_t enc_t H dt (after_calls (snd (bu_temperature b')) dt)"
    "demo_reaches venv env_v enc_v H dv (after_calls (snd (bu_valve b')) dv)" .
  obtain te where te: "demo_reaches tenv env_t enc_t H (after_calls (snd (bu_temperature b')) dt) te"
    "\<not> dv_running te"
    using shutdown_reaches_end [of "after_calls (snd (bu_temperature b')) dt" tenv env_t enc_t H] b'(3) assms(8)
    by (auto simp: after_calls_def)
  obtain ve where ve: "demo_reaches venv env_v enc_v H (after_calls (snd (bu_valve b')) dv) ve"
    "\<not> dv_running ve"
    using shutdown_reaches_end [of "after_calls (snd (bu_valve b')) dv" venv env_v enc_v H] b'(4) assms(10)
    by (auto simp: after_calls_def)
  show thesis by (rule that [OF b'(1,2) reach(1) te reach(2) ve])
qed

section \<open>From start to end\<close>

lemma stations_run:
  assumes "length secret = 32" and "deployed menv mm secret Temperature tenv tm t0"
    and "deployed menv mm secret Valve venv vm v0" and "tm \<noteq> vm" "set order = {tm, vm}"
    and "find (\<lambda>i. ni_name i = DEMO_MASTER_INTERFACE) interfaces = Some interface"
    and "ni_mac interface = Some mm" "opener interface = Inr EthernetChannel"
    and "background menv n1" "background menv n2" "background menv n3"
    and "from_others menv tm pre_t" "from_others menv vm pre_v"
    and "timely enc_t hdr_t inp_t" "timely enc_v hdr_v inp_v" and "all_granted mm inp"
    and "env_image env_t = dummy_process_image" "env_image env_v = dummy_process_image"
  shows "\<exists>req rt rv t1 v1 ft bt t2 fv bv v2 dt dv b' te ve.
    listener_turn tenv (Some req) (listener_of t0) = Continue (Some rt, t1) \<and>
    listener_turn venv (Some req) (listener_of v0) = Continue (Some rv, v1) \<and>
    listener_turn tenv (Some ft) t1 = Continue (Some bt, t2) \<and>
    listener_turn venv (Some fv) v1 = Continue (Some bv, v2) \<and>
    demo_reaches tenv env_t enc_t H t0 dt \<and> demo_reaches venv env_v enc_v H v0 dv \<and>
    run_master_thread menv (service_connection env_t enc_t hdr_t inp_t) (service_connection env_v enc_v hdr_v inp_v)
      (demo_inputs secret interfaces opener (n1 @ Some rt # n2 @ Some rv # n3) rounds order
        (pre_t @ Some bt # post_t) (pre_v @ Some bv # post_v) inp) (run_with dt dv) =
      Some (Inr (), [req, ft, fv], b') \<and> bu_state b' = Shutdown \<and>
    demo_reaches tenv env_t enc_t H dt (after_calls (snd (bu_temperature b')) dt) \<and>
    demo_reaches tenv env_t enc_t H (after_calls (snd (bu_temperature b')) dt) te \<and> \<not> dv_running te \<and>
    demo_reaches venv env_v enc_v H dv (after_calls (snd (bu_valve b')) dv) \<and>
    demo_reaches venv env_v enc_v H (after_calls (snd (bu_valve b')) dv) ve \<and> \<not> dv_running ve"
proof -
  let ?env = "menv\<lparr>sv_mac := Some mm\<rparr>" and ?m = "discovery_master_new DiscoverySync secret"
  note t = deployed_fresh [OF assms(2)] and v = deployed_fresh [OF assms(3)]
  have none: "dm_devices ?m = Map.empty" and number: "next_number (dm_auth ?m) mm = 1"
    by (simp_all add: discovery_master_new_def fresh_numbers)
  have room: "(1 :: u64) < - 1" by (simp add: word_less_nat_alt unat_minus_1)
  have traffic: "background ?env n1" "background ?env n2" "background ?env n3"
    "from_others ?env tm pre_t" "from_others ?env vm pre_v"
    using assms(9-13) by (simp_all add: background_def from_others_def)
  have mocks: "mock_listener tenv" "mock_listener venv" using assms(2,3) by (simp_all add: deployed_def)
  note mock = mocks [THEN mock_configured]
  have ids: "sdi_device_id (identity tenv (listener_of t0)) = 1" "sdi_device_id (identity venv (listener_of v0)) = 2"
    using t(4) v(4) by simp_all
  from both_set_up [OF t(1) v(1) assms(4) t(2) v(2) none ids assms(5) _ _ _ traffic mock] number t(3) v(3) room
  obtain req rt rv t1 v1 ft bt t2 fv bv v2 m where
    turns: "listener_turn tenv (Some req) (listener_of t0) = Continue (Some rt, t1)"
      "listener_turn venv (Some req) (listener_of v0) = Continue (Some rv, v1)"
      "listener_turn tenv (Some ft) t1 = Continue (Some bt, t2)"
      "listener_turn venv (Some fv) v1 = Continue (Some bv, v2)"
    and roles: "dh_role (ln_hardware t2) = hardware_role Temperature" "dh_role (ln_hardware v2) = hardware_role Valve"
    and pre: "ln_state t2 = PreOp" "ln_state v2 = PreOp"
    and found: "setup_slaves ?env ((Some True, n1 @ Some rt # n2 @ Some rv # n3) # rounds) order
      (Some True, pre_t @ Some bt # post_t) (Some True, pre_v @ Some bv # post_v) ?m =
      Some (Inr (tm, vm), [req, ft, fv], m)" "dm_state m = DiscoverySync"
    using t(5) v(5) by fastforce
  from deployed_ready [OF assms(2,1) turns(1,3) pre(1) roles(1), of env_t enc_t H hdr_t] obtain dt where
    dt: "demo_reaches tenv env_t enc_t H t0 dt" "dv_running dt" "dv_server dt"
      "slave_at hdr_t secret TemperatureSensor PreOp Map.empty (api_client_connect secret, service_of dt)"
    by (auto simp: hardware_role_def)
  from deployed_ready [OF assms(3,1) turns(2,4) pre(2) roles(2), of env_v enc_v H hdr_v] obtain dv where
    dv: "demo_reaches venv env_v enc_v H v0 dv" "dv_running dv" "dv_server dv"
      "slave_at hdr_v secret ValveController PreOp Map.empty (api_client_connect secret, service_of dv)"
    by (auto simp: hardware_role_def)
  from calls_end_slaves [OF assms(14-18) dt(4) dv(4) dt(2,3) dv(2,3), of vm tenv H venv] obtain b' te ve where
    run: "run_master secret (service_connection env_t enc_t hdr_t inp_t) (service_connection env_v enc_v hdr_v inp_v)
      inp vm ((run_with dt dv)\<lparr>bu_state := dm_state m\<rparr>) = (Inr (), b')"
    and ends: "bu_state b' = Shutdown" "demo_reaches tenv env_t enc_t H dt (after_calls (snd (bu_temperature b')) dt)"
      "demo_reaches tenv env_t enc_t H (after_calls (snd (bu_temperature b')) dt) te" "\<not> dv_running te"
      "demo_reaches venv env_v enc_v H dv (after_calls (snd (bu_valve b')) dv)"
      "demo_reaches venv env_v enc_v H (after_calls (snd (bu_valve b')) dv) ve" "\<not> dv_running ve"
    unfolding found(2) by metis
  from run_master_thread_ok [where menv = menv and b = "run_with dt dv" and opener = opener,
      OF assms(6,8) found(1) [folded assms(7)] run] turns dt(1) dv(1) ends
  show ?thesis by blast
qed

section \<open>Example stations\<close>

definition sensor_config :: demo_slave_config where
  "sensor_config = valve_config\<lparr>dc_role := Temperature, dc_interface_name := ''tsn-s-temp0''\<rparr>"

definition start_device :: "demo_slave_config \<Rightarrow> demo_slave" where
  "start_device config =
     (case demo_slave_start (replicate 32 7) 0 config of Inr d \<Rightarrow> d | Inl _ \<Rightarrow> returned_device)"

definition fresh_sensor :: demo_slave where "fresh_sensor = start_device sensor_config"
definition fresh_valve :: demo_slave where "fresh_valve = start_device valve_config"

definition master_interface :: network_interface where
  "master_interface = \<lparr>ni_name = DEMO_MASTER_INTERFACE, ni_mac = Some master_mac\<rparr>"

lemma device_starts: "demo_slave_start (replicate 32 7) 0 config = Inr (start_device config)"
  by (simp add: start_device_def demo_slave_start_def state_manager_new_def)

lemma fresh_deployed:
  "deployed example_master_env master_mac (replicate 32 7) Temperature sensor_env sensor_mac fresh_sensor"
  "deployed example_master_env master_mac (replicate 32 7) Valve valve_env valve_mac fresh_valve"
proof -
  have segment: "same_segment (example_master_env\<lparr>sv_mac := Some master_mac\<rparr>) sensor_env master_mac sensor_mac"
    "same_segment (example_master_env\<lparr>sv_mac := Some master_mac\<rparr>) valve_env master_mac valve_mac"
    using valve_env_simps by (simp_all add: same_segment_def example_master_env_def env_ok_def)
      (simp_all add: master_mac_def sensor_mac_def valve_mac_def)
  have rest: "mock_listener sensor_env" "mock_listener valve_env"
    "sensor_mac \<noteq> BROADCAST_MAC" "valve_mac \<noteq> BROADCAST_MAC"
    by (simp_all add: mock_listener_def sensor_env_def valve_env_def sensor_mac_def valve_mac_def BROADCAST_MAC_def)
  have configs: "dc_role sensor_config = Temperature" "dc_trusted_master_mac sensor_config = master_mac"
    "dc_role valve_config = Valve" "dc_trusted_master_mac valve_config = master_mac"
    by (simp_all add: sensor_config_def valve_config_def)
  have "\<exists>wall config. demo_slave_start (replicate 32 7) wall config = Inr (start_device c) \<and>
      dc_role config = dc_role c \<and> dc_trusted_master_mac config = dc_trusted_master_mac c" for c
    using device_starts by blast
  from this [of sensor_config] this [of valve_config]
  show "deployed example_master_env master_mac (replicate 32 7) Temperature sensor_env sensor_mac fresh_sensor"
    "deployed example_master_env master_mac (replicate 32 7) Valve valve_env valve_mac fresh_valve"
    by (simp_all add: deployed_def fresh_sensor_def fresh_valve_def segment rest configs)
qed

lemma example_macs: "sensor_mac \<noteq> valve_mac" "set [sensor_mac, valve_mac] = {sensor_mac, valve_mac}"
  by (simp_all add: sensor_mac_def valve_mac_def)

lemma example_interface:
  "find (\<lambda>i. ni_name i = DEMO_MASTER_INTERFACE) [master_interface] = Some master_interface"
  "ni_mac master_interface = Some master_mac" "(\<lambda>_. Inr EthernetChannel) master_interface = Inr EthernetChannel"
  by (simp_all add: master_interface_def)

lemma example_traffic:
  "background example_master_env []" "background example_master_env [None]" "background example_master_env []"
  "from_others example_master_env sensor_mac [None]" "from_others example_master_env valve_mac []"
  by (simp_all add: background_def)

lemma example_image: "env_image valve_api_env = dummy_process_image"
  by (simp add: valve_api_env_def)

text \<open>The example valve's thread comes to its end.\<close>

lemma example_valve_ends:
  "\<exists>d. demo_reaches valve_env valve_api_env (\<lambda>_. []) checksum_hash fresh_valve d \<and> \<not> dv_running d"
  using stations_run [where opener = "\<lambda>_. Inr EthernetChannel", OF length_replicate fresh_deployed example_macs
      example_interface example_traffic example_timely example_timely example_ready(1) example_image example_image,
      where H = checksum_hash and rounds = "[]" and post_t = "[]" and post_v = "[]"]
  by (meson rtranclp_trans)

section \<open>Properties\<close>



text \<open>
  C4 The demonstration runs from its start to its end: two slaves just started with the secret, on the
  segment of a master they trust, are found among other traffic, get their addresses, and reach a state
  in which their services run; the master's thread, started with the same secret, then succeeds with
  three discovery frames and ends in \<open>Shutdown\<close>. Its calls take each slave along a run of its own
  transition system, and the main loops of both slaves can then end.
\<close>

theorem demonstration_runs:
  assumes "length secret = 32" and "deployed menv mm secret Temperature tenv tm t0"
    and "deployed menv mm secret Valve venv vm v0" and "tm \<noteq> vm" "set order = {tm, vm}"
    and "find (\<lambda>i. ni_name i = DEMO_MASTER_INTERFACE) interfaces = Some interface"
    and "ni_mac interface = Some mm" "opener interface = Inr EthernetChannel"
    and "background menv n1" "background menv n2" "background menv n3"
    and "from_others menv tm pre_t" "from_others menv vm pre_v"
    and "timely enc_t hdr_t inp_t" "timely enc_v hdr_v inp_v" and "all_granted mm inp"
    and "env_image env_t = dummy_process_image" "env_image env_v = dummy_process_image"
  shows "\<exists>req rt rv t1 v1 ft bt t2 fv bv v2 dt dv b' te ve.
    listener_turn tenv (Some req) (listener_of t0) = Continue (Some rt, t1) \<and>
    listener_turn venv (Some req) (listener_of v0) = Continue (Some rv, v1) \<and>
    listener_turn tenv (Some ft) t1 = Continue (Some bt, t2) \<and>
    listener_turn venv (Some fv) v1 = Continue (Some bv, v2) \<and>
    demo_reaches tenv env_t enc_t H t0 dt \<and> demo_reaches venv env_v enc_v H v0 dv \<and>
    run_master_thread menv (service_connection env_t enc_t hdr_t inp_t) (service_connection env_v enc_v hdr_v inp_v)
      (demo_inputs secret interfaces opener (n1 @ Some rt # n2 @ Some rv # n3) rounds order
        (pre_t @ Some bt # post_t) (pre_v @ Some bv # post_v) inp) (run_with dt dv) =
      Some (Inr (), [req, ft, fv], b') \<and> bu_state b' = Shutdown \<and>
    demo_reaches tenv env_t enc_t H dt (after_calls (snd (bu_temperature b')) dt) \<and>
    demo_reaches tenv env_t enc_t H (after_calls (snd (bu_temperature b')) dt) te \<and> \<not> dv_running te \<and>
    demo_reaches venv env_v enc_v H dv (after_calls (snd (bu_valve b')) dv) \<and>
    demo_reaches venv env_v enc_v H (after_calls (snd (bu_valve b')) dv) ve \<and> \<not> dv_running ve"
  by (rule stations_run [where opener = opener, OF assms])

theorem demonstration_runs_witness:
  "\<exists>req rt rv t1 v1 ft bt t2 fv bv v2 dt dv b' te ve.
    listener_turn sensor_env (Some req) (listener_of fresh_sensor) = Continue (Some rt, t1) \<and>
    listener_turn valve_env (Some req) (listener_of fresh_valve) = Continue (Some rv, v1) \<and>
    listener_turn sensor_env (Some ft) t1 = Continue (Some bt, t2) \<and>
    listener_turn valve_env (Some fv) v1 = Continue (Some bv, v2) \<and>
    demo_reaches sensor_env valve_api_env (\<lambda>_. []) checksum_hash fresh_sensor dt \<and>
    demo_reaches valve_env valve_api_env (\<lambda>_. []) checksum_hash fresh_valve dv \<and>
    run_master_thread example_master_env
      (service_connection valve_api_env (\<lambda>_. []) (\<lambda>_. True) example_rounds)
      (service_connection valve_api_env (\<lambda>_. []) (\<lambda>_. True) example_rounds)
      (demo_inputs (replicate 32 7) [master_interface] (\<lambda>_. Inr EthernetChannel) ([] @ Some rt # [None] @ Some rv # [])
        [] [sensor_mac, valve_mac] ([None] @ Some bt # []) ([] @ Some bv # []) example_inputs) (run_with dt dv) =
      Some (Inr (), [req, ft, fv], b') \<and> bu_state b' = Shutdown \<and>
    demo_reaches sensor_env valve_api_env (\<lambda>_. []) checksum_hash dt (after_calls (snd (bu_temperature b')) dt) \<and>
    demo_reaches sensor_env valve_api_env (\<lambda>_. []) checksum_hash (after_calls (snd (bu_temperature b')) dt) te \<and>
    \<not> dv_running te \<and>
    demo_reaches valve_env valve_api_env (\<lambda>_. []) checksum_hash dv (after_calls (snd (bu_valve b')) dv) \<and>
    demo_reaches valve_env valve_api_env (\<lambda>_. []) checksum_hash (after_calls (snd (bu_valve b')) dv) ve \<and>
    \<not> dv_running ve"
  by (rule demonstration_runs [where opener = "\<lambda>_. Inr EthernetChannel", OF length_replicate fresh_deployed
        example_macs example_interface example_traffic example_timely example_timely example_ready(1)
        example_image example_image])

end
