(* ===== verification/Device_Types.thy ===== *)
theory Device_Types
  imports Demo_Slave
begin

text \<open>
  A slave of the demonstration is well typed: its images have the sizes of its role, every stream in
  its store is filed under its number and fits the layout of the role, and the cyclic threads run on
  such streams in the direction of each thread. Every step keeps the types, and no access of a typed
  device to its process image fails.
\<close>

section \<open>The types\<close>

definition input_size :: "dummy_hardware_role \<Rightarrow> nat" where
  "input_size role = (case role of TemperatureSensor \<Rightarrow> 0 | _ \<Rightarrow> 1)"

definition output_size :: "dummy_hardware_role \<Rightarrow> nat" where
  "output_size role = (case role of ValveController \<Rightarrow> 0 | _ \<Rightarrow> 2)"

definition hardware_typed :: "dummy_hardware_role \<Rightarrow> dummy_hardware \<Rightarrow> bool" where
  "hardware_typed role h \<longleftrightarrow> dh_role h = role \<and> length (dh_input_image h) = input_size role \<and>
     length (dh_output_image h) = output_size role"

definition stream_typed :: "dummy_hardware_role \<Rightarrow> stream_config \<Rightarrow> bool" where
  "stream_typed role c \<longleftrightarrow>
     (\<exists>h layout. dh_role h = role \<and> dummy_get_layout h = Inr layout \<and> stream_ok layout c)"

definition store_typed :: "dummy_hardware_role \<Rightarrow> stream_store \<Rightarrow> bool" where
  "store_typed role s \<longleftrightarrow>
     (\<forall>i e. ss_streams s i = Some e \<longrightarrow> config_id (se_stream_config e) = i \<and> stream_typed role (se_stream_config e))"

definition thread_typed :: "dummy_hardware_role \<Rightarrow> direction \<Rightarrow> stream_config list \<Rightarrow> bool" where
  "thread_typed role dir streams \<longleftrightarrow>
     (\<forall>c \<in> set streams. stream_typed role c \<and> direction_try_from (sc_direction c) = Some dir)"

definition device_typed :: "dummy_hardware_role \<Rightarrow> demo_slave \<Rightarrow> bool" where
  "device_typed role d \<longleftrightarrow> hardware_typed role (sa_hardware (dv_api d)) \<and> store_typed role (sa_streams (dv_api d)) \<and>
     (\<forall>ins outs. dv_l2 d = Some (ins, outs) \<longrightarrow> thread_typed role Input ins \<and> thread_typed role Output outs)"

lemma device_typed_flags [simp]:
  "device_typed role (d\<lparr>dv_rx := rx\<rparr>) = device_typed role d" "device_typed role (d\<lparr>dv_tx := tx\<rparr>) = device_typed role d"
  "device_typed role (d\<lparr>dv_waiting := b\<rparr>) = device_typed role d"
  "device_typed role (d\<lparr>dv_running := b\<rparr>) = device_typed role d"
  "device_typed role (d\<lparr>dv_server := b\<rparr>) = device_typed role d"
  by (simp_all add: device_typed_def)

section \<open>Operations keep them\<close>

lemma simulate_typed:
  "simulate_sensor_change v h = Some h' \<Longrightarrow> hardware_typed role h \<Longrightarrow> hardware_typed role h'"
  by (auto simp: simulate_sensor_change_def hardware_typed_def split: if_splits)

lemma configure_typed:
  assumes "lv_info env = dummy_device_access" "lv_network env = dummy_network_access f"
  shows "hardware_typed role (snd (configure_hardware env ip nm gw h)) \<longleftrightarrow> hardware_typed role h"
  by (auto simp: configure_hardware_def assms dummy_device_access_def dummy_network_access_def
      dummy_read_device_info_def dummy_write_device_info_def hardware_typed_def split: sum.split)

lemma dummy_write_typed: "hardware_typed role h \<Longrightarrow> hardware_typed role (snd (dummy_write_inputs h data p))"
proof -
  assume h: "hardware_typed role h"
  then have "image_ok (dh_input_image h)"
    by (auto simp: hardware_typed_def image_ok_def input_size_def split: dummy_hardware_role.splits)
  then have "length (snd (dummy_write_image (dh_input_image h) data p)) = length (dh_input_image h)"
    by (simp add: dummy_write_image_spec)
  with h show ?thesis by (simp add: dummy_write_inputs_def hardware_typed_def case_prod_beta)
qed

lemma input_packet_typed:
  "hardware_typed role h \<Longrightarrow> hardware_typed role (snd (handle_input_packet dummy_process_image h stream payload))"
  by (auto simp: handle_input_packet_def dummy_process_image_def Let_def case_prod_beta dummy_write_typed
      split: option.split sum.split)

lemma validate_stream_tag_typed: "store_typed role s \<Longrightarrow> store_typed role (snd (validate_stream_tag H h p n t s))"
  by (auto simp: validate_stream_tag_def store_typed_def Let_def split: option.splits if_splits)

lemma cyclic_frame_typed:
  "store_typed role s \<Longrightarrow> store_typed role (snd (cyclic_frame H access img mac micros stream s))"
  by (auto simp: cyclic_frame_def generate_stream_tag_def store_typed_def Let_def
      split: option.splits sum.splits if_splits prod.splits)

definition l2_types_kept :: "dummy_hardware_role \<Rightarrow> dummy_hardware slave_l2 \<Rightarrow> dummy_hardware slave_l2 \<Rightarrow> bool" where
  "l2_types_kept role s s' \<longleftrightarrow>
     (hardware_typed role (sl_image s) \<and> store_typed role (sl_store s) \<longrightarrow>
      hardware_typed role (sl_image s') \<and> store_typed role (sl_store s'))"

lemma l2_types_kept_order:
  "l2_types_kept role s s" "l2_types_kept role s s' \<Longrightarrow> l2_types_kept role s' s'' \<Longrightarrow> l2_types_kept role s s''"
  by (simp_all add: l2_types_kept_def)

lemma slave_code_fields [simp]:
  "sl_image (slave_code code s) = sl_image s" "sl_store (slave_code code s) = sl_store s"
  by (simp_all add: slave_code_def)

lemma slave_report_fields [simp]:
  "sl_image (slave_report f m wall s) = sl_image s" "sl_store (slave_report f m wall s) = sl_store s"
  by (simp_all add: slave_report_def split: option.split)

lemma slave_admit_typed: "l2_types_kept role s (snd (slave_admit H streams frame s))"
  by (simp add: l2_types_kept_def slave_admit_def Let_def case_prod_beta validate_stream_tag_typed
      split: sum.split option.split bool.split status_code.split)

lemma slave_consume_typed:
  "l2_types_kept role s (snd (slave_consume dummy_process_image now wall parsed stream (rx, s)))"
  by (simp add: l2_types_kept_def slave_consume_def Let_def case_prod_beta input_packet_typed
      split: sum.split option.split)

lemma slave_send_stream_typed:
  assumes "slave_send_stream H access mac st stream i (tx, s) = Continue (fo, tx', s')"
  shows "l2_types_kept role s s'"
  using assms cyclic_frame_typed
  by (auto simp: slave_send_stream_def l2_types_kept_def Let_def case_prod_beta
      split: if_splits option.splits sum.splits)

lemma receive_typed:
  "slave_frame H dummy_process_image streams received now wall (rx, s) = (rx', s') \<Longrightarrow>
   l2_types_kept role s s'"
  by (rule slave_receive_follows [where R = "l2_types_kept role", OF l2_types_kept_order slave_admit_typed
        slave_consume_typed])

lemma send_typed:
  "slave_send_tick H dummy_process_image mac xs (tx, s) = Continue (frames, tx', s') \<Longrightarrow> l2_types_kept role s s'"
  by (rule slave_send_follows [where R = "l2_types_kept role", OF l2_types_kept_order slave_send_stream_typed])

lemma with_l2_typed: "l2_types_kept role (l2_of d) s \<Longrightarrow> device_typed role d \<Longrightarrow> device_typed role (with_l2 s d)"
  by (simp add: l2_types_kept_def l2_of_def with_l2_def device_typed_def)

text \<open>The service files what it validated against the layout of its hardware.\<close>

lemma configure_streams_typed:
  assumes "hardware_typed role (sa_hardware s)" and "store_typed role (sa_streams s)"
  shows "store_typed role (sa_streams (snd (rpc_configure_streams dummy_process_image streams s)))"
proof -
  have "store_typed role ((sa_streams s)\<lparr>ss_streams := config_map streams\<rparr>)"
    if "dummy_get_layout (sa_hardware s) = Inr layout" "\<forall>c \<in> set streams. stream_ok layout c" for layout
  proof -
    have "stream_typed role c" if "c \<in> set streams" for c
      using that \<open>dummy_get_layout (sa_hardware s) = Inr layout\<close> \<open>\<forall>c \<in> set streams. stream_ok layout c\<close> assms(1)
      unfolding stream_typed_def hardware_typed_def by blast
    moreover have "config_id (se_stream_config e) = i" if "config_map streams i = Some e" for i e
      using map_of_SomeD [OF that [unfolded config_map_def]] by (auto simp: fresh_entry_def)
    ultimately show ?thesis by (auto simp: store_typed_def dest: config_map_configs)
  qed
  then show ?thesis
    using assms(2) by (auto simp: rpc_configure_streams_eq dummy_process_image_def split: sum.split)
qed

lemma perform_typed:
  assumes "env_image env = dummy_process_image"
    and "hardware_typed role (sa_hardware s)" "store_typed role (sa_streams s)"
  shows "hardware_typed role (sa_hardware (snd (perform env wall req s))) \<and>
    store_typed role (sa_streams (snd (perform env wall req s)))"
proof (cases req)
  case (ConfigureStreams streams)
  then show ?thesis
    using configure_streams_typed [OF assms(2,3), of streams] assms
    by (auto simp: case_prod_beta rpc_configure_streams_eq split: sum.splits)
qed (use assms in \<open>auto simp: case_prod_beta rpc_set_target_state_def rpc_set_manager_def rpc_set_status_def
    split: sum.split\<close>)

lemma api_step_typed:
  assumes "env_image env = dummy_process_image" "api_step env enc e s = (r, s')"
    and "hardware_typed role (sa_hardware s)" "store_typed role (sa_streams s)"
  shows "hardware_typed role (sa_hardware s') \<and> store_typed role (sa_streams s')"
proof (cases e)
  case (TokenRequest key i)
  with assms(2-) show ?thesis
    by (auto simp: rpc_get_token_def issue_token_eq Let_def case_prod_beta split: if_splits)
next
  case (Request now wall token req)
  have "hardware_typed role (sa_hardware (snd (serve env now wall token req s))) \<and>
      store_typed role (sa_streams (snd (serve env now wall token req s)))"
    using perform_typed [OF assms(1)] assms(3,4)
    by (auto simp: serve_def api_validate_eq case_prod_beta split: option.split)
  with assms(2) Request show ?thesis by (auto simp: case_prod_beta)
qed

section \<open>Every step keeps them\<close>

lemma start_typed:
  assumes "demo_slave_start secret wall config = Inr d"
  shows "device_typed (case dc_role config of Temperature \<Rightarrow> TemperatureSensor | Valve \<Rightarrow> ValveController) d"
  using assms
  by (auto simp: demo_slave_start_def state_manager_new_def device_typed_def hardware_typed_def store_typed_def
      stream_store_new_def demo_hardware_def new_temperature_sensor_def new_valve_controller_def
      input_size_def output_size_def split: demo_slave_role.split)

lemma get_streams_typed:
  assumes "store_typed role s" shows "thread_typed role dir (get_streams_by_direction order dir s)"
  unfolding thread_typed_def
proof
  fix c assume "c \<in> set (get_streams_by_direction order dir s)"
  then obtain i e where e: "ss_streams s i = Some e" "c = se_stream_config e"
      "direction_try_from (sc_direction c) = Some dir"
    by (auto simp: get_streams_by_direction_def map_values_def List.map_filter_def split: option.splits)
  then show "stream_typed role c \<and> direction_try_from (sc_direction c) = Some dir"
    using assms by (auto simp: store_typed_def)
qed

lemma loop_typed:
  "demo_loop_turn wall started ins outs d = t \<Longrightarrow> device_typed role d \<Longrightarrow> t = Next d' \<or> t = Leave d' \<Longrightarrow>
   device_typed role d'"
  by (auto simp: demo_loop_turn_def demo_publish_def device_typed_def Let_def get_streams_typed
      split: if_splits sum.splits)

lemma set_ip_typed:
  assumes "lv_info env = dummy_device_access" "lv_network env = dummy_network_access f"
    and "handle_set_ip_request env h tlvs m s = Some (r, s')" "hardware_typed role (ln_hardware s)"
  shows "hardware_typed role (ln_hardware s')"
proof -
  have "hardware_typed role (h\<lparr>dh_device_info := info\<rparr>)" if "hardware_typed role h" for h info
    using that by (simp add: hardware_typed_def)
  with assms(3,4) show ?thesis
    by (auto simp: handle_set_ip_request_def assms(1,2) dummy_device_access_def dummy_network_access_def
        dummy_read_device_info_def dummy_write_device_info_def Let_def
        split: if_splits sum.splits option.splits prod.splits dest!: responses)
qed

lemma listener_typed:
  assumes "lv_info env = dummy_device_access" "lv_network env = dummy_network_access f"
    and "listener_turn env received s = Continue (r, s')" "hardware_typed role (ln_hardware s)"
  shows "hardware_typed role (ln_hardware s')"
proof (cases rule: listener_turn_cases [of s env received])
  case (message f' d m h tlvs n t)
  let ?s = "s\<lparr>ln_auth := after_receive m n (ln_auth s)\<rparr>"
  have disp: "dispatch env h tlvs m ?s = Some (r, s')" using message assms(3) by simp
  show ?thesis
  proof (cases "sh_op_code h = SetIpReq")
    case True
    then have "handle_set_ip_request env h tlvs m ?s = Some (r, s')" using disp by (simp add: dispatch_def)
    from set_ip_typed [OF assms(1,2) this] assms(4) show ?thesis by simp
  qed (use dispatch_kept [OF disp] assms(4) in simp)
qed (use assms in auto)

lemma step_typed:
  assumes "lv_info lenv = dummy_device_access" "lv_network lenv = dummy_network_access f"
    and "env_image env = dummy_process_image"
  shows "demo_step lenv env enc H d d' \<Longrightarrow> device_typed role d \<Longrightarrow> device_typed role d'"
proof (induction rule: demo_step.induct)
  case (listen d received sent l)
  then show ?case
    using listener_typed [OF assms(1,2) listen(2), of role]
    by (simp add: device_typed_def with_listener_def listener_of_def)
next
  case (loop d wall started ins outs d')
  then show ?case by (blast intro: loop_typed)
next
  case (leave d wall started ins outs d')
  then have "device_typed role d'" by (blast intro: loop_typed)
  then show ?case by simp
next
  case (api d e r s)
  from api(3) have "hardware_typed role (sa_hardware (dv_api d))" "store_typed role (sa_streams (dv_api d))"
    by (simp_all add: device_typed_def)
  from api_step_typed [OF assms(3) api(2) this] api(3) show ?case by (simp add: device_typed_def)
next
  case (receive d rx inputs outputs received now wall rx' s)
  from with_l2_typed [OF receive_typed [OF receive(3)] receive(5)] show ?case
    by (simp only: device_typed_flags)
next
  case (send d tx inputs outputs "is" mac frames tx' s)
  from with_l2_typed [OF send_typed [OF send(4)] send(5)] show ?case
    by (simp only: device_typed_flags)
next
  case (wave d v h)
  then show ?case using simulate_typed [OF wave(3), of role] by (simp add: device_typed_def)
qed simp_all

lemma reaches_typed:
  assumes "lv_info lenv = dummy_device_access" "lv_network lenv = dummy_network_access f"
    and "env_image env = dummy_process_image"
  shows "demo_reaches lenv env enc H d d' \<Longrightarrow> device_typed role d \<Longrightarrow> device_typed role d'"
  by (induction rule: rtranclp_induct) (auto intro: step_typed [OF assms])

section \<open>No access of a typed device fails\<close>

lemma stream_typed_content:
  assumes "stream_typed role c" "direction_try_from (sc_direction c) = Some dir" "role \<noteq> Tests"
  shows "(role, dir) \<in> {(TemperatureSensor, Output), (ValveController, Input)} \<and>
    sc_stream_content c = Some \<lparr>pos_byte_offset = 0, pos_bit_offset = 0,
      pos_bit_len = (if role = TemperatureSensor then 16 else 1)\<rparr>"
proof -
  obtain h layout where h: "dh_role h = role" "dummy_get_layout h = Inr layout" "stream_ok layout c"
    using assms(1) by (auto simp: stream_typed_def)
  then obtain content v where content: "sc_stream_content c = Some content" and v: "v \<in> set layout"
      "pv_direction v = direction_num dir" "pv_byte_offset v = pos_byte_offset content"
      "pv_bit_offset v = pos_bit_offset content" "pv_bit_len v = pos_bit_len content"
    using assms(2) unfolding stream_ok_def by auto
  have whole: "content = \<lparr>pos_byte_offset = pv_byte_offset v, pos_bit_offset = pv_bit_offset v,
      pos_bit_len = pv_bit_len v\<rparr>" by (simp add: v(3-5))
  have num: "direction_num a = direction_num b \<Longrightarrow> a = b" for a b by (cases a; cases b) simp_all
  show ?thesis
  proof (cases role)
    case TemperatureSensor
    then have "v = process_var ''Temperature'' DtUint16 Output 0 0 16"
      using h(1,2) v(1) by (auto simp: dummy_get_layout_def)
    with v(2) num [of Output dir] TemperatureSensor content whole show ?thesis by (auto simp: process_var_def)
  next
    case ValveController
    then have "v = process_var ''ValveOpen'' DtBool Input 0 0 1"
      using h(1,2) v(1) by (auto simp: dummy_get_layout_def)
    with v(2) num [of Input dir] ValveController content whole show ?thesis by (auto simp: process_var_def)
  qed (use assms(3) in simp)
qed

lemma output_read:
  assumes "hardware_typed role h" "stream_typed role c" "direction_try_from (sc_direction c) = Some Output"
    and "role \<noteq> Tests"
  shows "\<exists>payload. build_frame_payload dummy_process_image h c = Inr payload"
proof -
  note content = stream_typed_content [OF assms(2-4)]
  have "length (dh_output_image h) = 2" using assms(1) content by (auto simp: hardware_typed_def output_size_def)
  then have "image_ok (dh_output_image h)"
    "in_image (dh_output_image h) \<lparr>pos_byte_offset = 0, pos_bit_offset = 0, pos_bit_len = 16\<rparr>"
    by (simp_all add: image_ok_def in_image_def field_start_def field_len_def)
  with content show ?thesis
    by (auto simp: build_frame_payload_def dummy_process_image_def dummy_read_outputs_def dummy_read_image_spec)
qed

lemma input_written:
  assumes "hardware_typed role h" "stream_typed role c" "direction_try_from (sc_direction c) = Some Input"
    and "role \<noteq> Tests" and "payload \<noteq> []"
  shows "fst (handle_input_packet dummy_process_image h c payload) = Inr ()"
proof -
  note content = stream_typed_content [OF assms(2-4)]
  have "length (dh_input_image h) = 1" using assms(1) content by (auto simp: hardware_typed_def input_size_def)
  then have "image_ok (dh_input_image h)"
    "in_image (dh_input_image h) \<lparr>pos_byte_offset = 0, pos_bit_offset = 0, pos_bit_len = 1\<rparr>"
    by (simp_all add: image_ok_def in_image_def field_start_def field_len_def)
  with content assms(5) show ?thesis
    by (cases payload) (auto simp: handle_input_packet_def dummy_process_image_def dummy_write_inputs_def
        dummy_write_image_spec unat_bit_len_to_byte_len field_len_def case_prod_beta Let_def)
qed

section \<open>Properties\<close>

text \<open>
  C20 Well-typed devices do not fail: from a well-typed device of a slave's role, as every device is at its
  start, whatever listener, main loop, clients, threads and the simulation do, the device stays well
  typed; the simulation of the sensor and the watch of the valve do not panic, each stream of a running
  sender can be read from the process image, and each stream of a running receiver takes every payload
  that is not empty.
\<close>

theorem typed_access:
  assumes "device_typed role d0" "role \<noteq> Tests" and "demo_reaches lenv env enc H d0 d"
    and "lv_info lenv = dummy_device_access" "lv_network lenv = dummy_network_access f"
    and "env_image env = dummy_process_image"
  shows "device_typed role d \<and>
    (role = TemperatureSensor \<longrightarrow> simulate_sensor_change v (sa_hardware (dv_api d)) \<noteq> None) \<and>
    (role = ValveController \<longrightarrow> get_valve_status (sa_hardware (dv_api d)) \<noteq> None) \<and>
    (\<forall>ins outs. dv_l2 d = Some (ins, outs) \<longrightarrow>
       (\<forall>c \<in> set outs. \<exists>payload. build_frame_payload dummy_process_image (sa_hardware (dv_api d)) c = Inr payload) \<and>
       (\<forall>c \<in> set ins. \<forall>payload. payload \<noteq> [] \<longrightarrow>
          fst (handle_input_packet dummy_process_image (sa_hardware (dv_api d)) c payload) = Inr ()))"
proof -
  have typed: "device_typed role d" by (rule reaches_typed [OF assms(4-6) assms(3,1)])
  then have hw: "hardware_typed role (sa_hardware (dv_api d))" by (simp add: device_typed_def)
  have sizes: "role = TemperatureSensor \<Longrightarrow> length (dh_output_image (sa_hardware (dv_api d))) = 2"
    "role = ValveController \<Longrightarrow> length (dh_input_image (sa_hardware (dv_api d))) = 1"
    using hw by (simp_all add: hardware_typed_def input_size_def output_size_def)
  have threads: "\<forall>ins outs. dv_l2 d = Some (ins, outs) \<longrightarrow>
      thread_typed role Input ins \<and> thread_typed role Output outs"
    using typed unfolding device_typed_def by blast
  show ?thesis
  proof (intro conjI allI impI ballI)
    fix ins outs c assume "dv_l2 d = Some (ins, outs)" "c \<in> set outs"
    with threads show "\<exists>payload. build_frame_payload dummy_process_image (sa_hardware (dv_api d)) c = Inr payload"
      unfolding thread_typed_def using output_read [OF hw _ _ assms(2)] by blast
  next
    fix ins outs c and payload :: bytes assume "dv_l2 d = Some (ins, outs)" "c \<in> set ins" "payload \<noteq> []"
    with threads show "fst (handle_input_packet dummy_process_image (sa_hardware (dv_api d)) c payload) = Inr ()"
      unfolding thread_typed_def using input_written [OF hw _ _ assms(2)] by blast
  qed (use typed sizes in \<open>auto simp: simulate_sensor_change_def get_valve_status_def\<close>)
qed

lemma sensor_device_typed: "device_typed TemperatureSensor sensor_device"
  by (simp add: device_typed_def sensor_device_def returned_device_def hardware_typed_def store_typed_def
      stream_store_new_def new_temperature_sensor_def input_size_def output_size_def)

theorem typed_access_witness:
  "\<exists>d inputs. demo_reaches valve_env (valve_api_env\<lparr>env_hash := \<lambda>_. [7]\<rparr>) (\<lambda>_. []) checksum_hash sensor_device d \<and>
     dv_l2 d = Some (inputs, [sensor_stream]) \<and> device_typed TemperatureSensor d \<and>
     simulate_sensor_change 300 (sa_hardware (dv_api d)) \<noteq> None \<and>
     (\<exists>payload. build_frame_payload dummy_process_image (sa_hardware (dv_api d)) sensor_stream = Inr payload)"
proof -
  obtain d inputs where d: "demo_reaches valve_env (valve_api_env\<lparr>env_hash := \<lambda>_. [7]\<rparr>) (\<lambda>_. []) checksum_hash
      sensor_device d" "dv_l2 d = Some (inputs, [sensor_stream])"
    using sensor_started by blast
  have role: "TemperatureSensor \<noteq> Tests" by simp
  have env: "lv_info valve_env = dummy_device_access" "lv_network valve_env = dummy_network_access (\<lambda>_ _ _. Inr ())"
    "env_image (valve_api_env\<lparr>env_hash := \<lambda>_. [7]\<rparr>) = dummy_process_image"
    by (simp_all add: valve_env_def valve_api_env_def)
  from typed_access [OF sensor_device_typed role d(1) env, of 300] d show ?thesis by auto
qed

end
