(* ===== verification/Late_Frames.thy ===== *)
theory Late_Frames
  imports Device_Types
begin

text \<open>
  Frames that arrive after a device has left \<open>Op\<close>. The receiver of \<^verbatim>\<open>src/slave/src/l2_handler.rs\<close> tests
  the published state and then waits for a frame without a bound, so the state may have moved on when
  the frame comes.
\<close>

section \<open>What the other threads keep\<close>

text \<open>The process images of a device, and its role.\<close>

definition images :: "dummy_hardware \<Rightarrow> bytes \<times> bytes \<times> dummy_hardware_role" where
  "images h = (dh_input_image h, dh_output_image h, dh_role h)"

definition device_images :: "demo_slave \<Rightarrow> bytes \<times> bytes \<times> dummy_hardware_role" where
  "device_images d = images (sa_hardware (dv_api d))"

lemma device_images_simps [simp]:
  "device_images (d\<lparr>dv_rx := rx\<rparr>) = device_images d" "device_images (d\<lparr>dv_tx := tx\<rparr>) = device_images d"
  "device_images (d\<lparr>dv_waiting := b\<rparr>) = device_images d" "device_images (d\<lparr>dv_running := b\<rparr>) = device_images d"
  "device_images (d\<lparr>dv_server := b\<rparr>) = device_images d"
  "device_images (with_l2 s d) = images (sl_image s)" "device_images (with_listener l d) = images (ln_hardware l)"
  "dv_waiting (with_l2 s d) = dv_waiting d" "dv_waiting (with_listener l d) = dv_waiting d"
  "images (sl_image (l2_of d)) = device_images d" "images (ln_hardware (listener_of d)) = device_images d"
  by (simp_all add: device_images_def with_l2_def with_listener_def l2_of_def listener_of_def)

lemma set_ip_images:
  assumes "lv_info env = dummy_device_access" "lv_network env = dummy_network_access f"
    and "handle_set_ip_request env h tlvs m s = Some (r, s')"
  shows "images (ln_hardware s') = images (ln_hardware s)"
proof -
  have "images (h\<lparr>dh_device_info := info\<rparr>) = images h" for h info by (simp add: images_def)
  with assms(3) show ?thesis
    by (auto simp: handle_set_ip_request_def assms(1,2) dummy_device_access_def dummy_network_access_def
        dummy_read_device_info_def dummy_write_device_info_def Let_def
        split: if_splits sum.splits option.splits prod.splits dest!: responses)
qed

lemma listener_images:
  assumes "lv_info env = dummy_device_access" "lv_network env = dummy_network_access f"
    and "listener_turn env received s = Continue (r, s')"
  shows "images (ln_hardware s') = images (ln_hardware s)"
proof (cases rule: listener_turn_cases [of s env received])
  case (message f' d m h tlvs n t)
  let ?s = "s\<lparr>ln_auth := after_receive m n (ln_auth s)\<rparr>"
  have disp: "dispatch env h tlvs m ?s = Some (r, s')" using message assms(3) by simp
  show ?thesis
  proof (cases "sh_op_code h = SetIpReq")
    case True
    then have "handle_set_ip_request env h tlvs m ?s = Some (r, s')" using disp by (simp add: dispatch_def)
    from set_ip_images [OF assms(1,2) this] show ?thesis by simp
  qed (use dispatch_kept [OF disp] in simp)
qed (use assms in auto)

lemma perform_hardware: "sa_hardware (snd (perform env wall req s)) = sa_hardware s"
  by (cases req) (auto simp: case_prod_beta rpc_configure_streams_eq rpc_set_target_state_def rpc_set_manager_def
      rpc_set_status_def split: sum.split)

lemma api_step_hardware: "sa_hardware (snd (api_step env enc e s)) = sa_hardware s"
proof (cases e)
  case (TokenRequest key i)
  then show ?thesis
    by (auto simp: rpc_get_token_def issue_token_eq Let_def case_prod_beta)
next
  case (Request now wall token req)
  then show ?thesis
    by (auto simp: serve_def api_validate_eq case_prod_beta perform_hardware split: option.split)
qed

lemma send_image:
  "slave_send_tick H access mac xs (tx, s) = Continue (frames, tx', s') \<Longrightarrow> sl_image s' = sl_image s"
  by (rule slave_send_follows [where R = "\<lambda>s s'. sl_image s' = sl_image s"])
    (auto simp: slave_send_stream_def Let_def case_prod_beta split: if_splits option.splits sum.splits)

lemma loop_images:
  "demo_loop_turn wall started ins outs d = Next d' \<or> demo_loop_turn wall started ins outs d = Leave d' \<Longrightarrow>
   device_images d' = device_images d \<and> dv_waiting d' = dv_waiting d"
  by (auto simp: demo_loop_turn_def demo_publish_def device_images_def Let_def split: if_splits sum.splits)

section \<open>Out of operation\<close>

text \<open>A step of a device whose published state is not \<open>Op\<close>.\<close>

definition off_step ::
    "dummy_hardware listener_env \<Rightarrow> dummy_hardware api_env \<Rightarrow> (bytes \<Rightarrow> string) \<Rightarrow> keyed_hash \<Rightarrow>
       demo_slave \<Rightarrow> demo_slave \<Rightarrow> bool" where
  "off_step lenv env enc H d d' \<longleftrightarrow> slave_state (l2_of d) \<noteq> Op \<and> demo_step lenv env enc H d d'"

text \<open>What a waiting receiver may still do to the images: hand over one admissible frame.\<close>

definition late_frame :: "keyed_hash \<Rightarrow> demo_slave \<Rightarrow> demo_slave \<Rightarrow> bool" where
  "late_frame H d d' \<longleftrightarrow> dv_waiting d \<and>
     (\<exists>ins outs frame p stream. dv_l2 d = Some (ins, outs) \<and> parse_l2_frame frame = Inr p \<and>
        admissible H (stream_map ins) (sa_streams (dv_api d)) p stream \<and>
        sa_hardware (dv_api d') = snd (handle_input_packet dummy_process_image (sa_hardware (dv_api d)) stream (pf_payload p)))"

lemma off_step_images:
  assumes "lv_info lenv = dummy_device_access" "lv_network lenv = dummy_network_access f"
    and "off_step lenv env enc H d d'" "dh_role (sa_hardware (dv_api d)) \<noteq> TemperatureSensor"
  shows "device_images d' = device_images d \<and> (dv_waiting d' \<longrightarrow> dv_waiting d) \<or>
    late_frame H d d' \<and> \<not> dv_waiting d'"
proof -
  from assms(3) have step: "demo_step lenv env enc H d d'" and off: "slave_state (l2_of d) \<noteq> Op"
    by (simp_all add: off_step_def)
  from step show ?thesis
  proof (cases rule: demo_step.cases)
    case (listen received sent l)
    with listener_images [OF assms(1,2) listen(3)] show ?thesis by simp
  next
    case (loop wall started ins outs)
    then show ?thesis using loop_images by blast
  next
    case (leave wall started ins outs d1)
    with loop_images [of wall started ins outs d d1] show ?thesis by simp
  next
    case (api e r s)
    with api_step_hardware [of env enc e "dv_api d"] show ?thesis by (simp add: device_images_def)
  next
    case (check rx waits rx')
    then show ?thesis using off by (auto simp: slave_receive_check_def Let_def split: if_splits)
  next
    case (receive rx inputs outputs received now wall rx' s)
    show ?thesis
    proof (cases "sl_image s = sl_image (l2_of d)")
      case True
      with receive show ?thesis by simp
    next
      case False
      from slave_frame_image [OF receive(4) this] receive show ?thesis
        by (auto simp: late_frame_def l2_of_def with_l2_def)
    qed
  next
    case (send tx inputs outputs "is" mac frames tx' s)
    with send_image [OF send(5)] show ?thesis by simp
  qed (use assms(4) in simp_all)
qed

lemma write_inputs_role: "dh_role (snd (dummy_write_inputs h pos payload)) = dh_role h"
  by (simp add: dummy_write_inputs_def case_prod_beta Let_def)

lemma handled_role: "dh_role (snd (handle_input_packet dummy_process_image h stream payload)) = dh_role h"
  using write_inputs_role
  by (auto simp: handle_input_packet_def dummy_process_image_def Let_def case_prod_beta split: option.split sum.split)

lemma late_frame_role: "late_frame H d d' \<Longrightarrow> dh_role (sa_hardware (dv_api d')) = dh_role (sa_hardware (dv_api d))"
  by (auto simp: late_frame_def handled_role)

section \<open>Properties\<close>

text \<open>
  C11 At most one late frame: as long as the published state is not \<open>Op\<close>, nothing that listener, main
  loop, clients and cyclic threads do changes the process images of a device without a simulated sensor,
  but for one frame at most: the first that the receiver, which already waited for it, gets from the
  wire, and only if it parses, belongs to a configured input stream and carries a valid number and tag.
\<close>

theorem one_late_frame:
  assumes "lv_info lenv = dummy_device_access" "lv_network lenv = dummy_network_access f"
    and "dh_role (sa_hardware (dv_api d0)) \<noteq> TemperatureSensor"
    and "(off_step lenv env enc H)\<^sup>*\<^sup>* d0 d" and "device_images d \<noteq> device_images d0"
  shows "dv_waiting d0 \<and> \<not> dv_waiting d \<and>
    (\<exists>x y. (off_step lenv env enc H)\<^sup>*\<^sup>* d0 x \<and> device_images x = device_images d0 \<and>
       off_step lenv env enc H x y \<and> late_frame H x y \<and>
       (off_step lenv env enc H)\<^sup>*\<^sup>* y d \<and> device_images d = device_images y)"
proof -
  let ?R = "off_step lenv env enc H"
  have role: "dh_role (sa_hardware (dv_api x)) = snd (snd (device_images x))" for x
    by (simp add: device_images_def images_def)
  have "dh_role (sa_hardware (dv_api d)) \<noteq> TemperatureSensor \<and>
      (device_images d = device_images d0 \<and> (dv_waiting d \<longrightarrow> dv_waiting d0) \<or>
       dv_waiting d0 \<and> \<not> dv_waiting d \<and>
       (\<exists>x y. ?R\<^sup>*\<^sup>* d0 x \<and> device_images x = device_images d0 \<and> ?R x y \<and> late_frame H x y \<and>
          ?R\<^sup>*\<^sup>* y d \<and> device_images d = device_images y))" (is "_ \<and> ?inv d")
    using assms(4)
  proof (induction rule: rtranclp_induct)
    case (step b c)
    then have b: "dh_role (sa_hardware (dv_api b)) \<noteq> TemperatureSensor" "?inv b" by blast+
    from off_step_images [OF assms(1,2) step(2) b(1)]
    consider (kept) "device_images c = device_images b" "dv_waiting c \<longrightarrow> dv_waiting b"
      | (late) "late_frame H b c" "\<not> dv_waiting c" by blast
    then show ?case
    proof cases
      case kept
      with b(2) step(2) have "?inv c" by (metis rtranclp.rtrancl_into_rtrancl)
      then show ?thesis using b(1) kept(1) role by metis
    next
      case late
      then have "dv_waiting b" by (simp add: late_frame_def)
      with b(2) have "device_images b = device_images d0" "dv_waiting d0" by blast+
      with late step(1,2) have "?inv c" by blast
      then show ?thesis using b(1) late_frame_role [OF late(1)] by simp
    qed
  qed (use assms(3) in simp)
  with assms(5) show ?thesis by blast
qed

text \<open>A valve in \<open>Op\<close> with its stream and its receiver started.\<close>

definition op_valve :: demo_slave where
  "op_valve = returned_device
     \<lparr>dv_api := (dv_api returned_device)
        \<lparr>sa_state := Op, sa_status := sl_status valve_slave, sa_streams := sl_store valve_slave,
          sa_hardware := sl_image valve_slave\<rparr>,
      dv_l2 := Some ([valve_stream Input], []), dv_rx := Some rx_new\<rparr>"

lemma valve_of_images:
  "device_images d = device_images d' \<Longrightarrow>
   get_valve_status (sa_hardware (dv_api d)) = get_valve_status (sa_hardware (dv_api d'))"
  by (simp add: device_images_def images_def get_valve_status_def)

lemma op_valve_l2: "l2_of op_valve = valve_slave"
  by (simp add: op_valve_def l2_of_def)

theorem one_late_frame_witness:
  "\<exists>d2 d3. demo_reaches valve_env (valve_api_env\<lparr>env_hash := \<lambda>_. [7]\<rparr>) (\<lambda>_. []) checksum_hash op_valve d2 \<and>
     sa_state (dv_api d2) = Shutdown \<and> get_valve_status (sa_hardware (dv_api d2)) = Some False \<and>
     (off_step valve_env (valve_api_env\<lparr>env_hash := \<lambda>_. [7]\<rparr>) (\<lambda>_. []) checksum_hash)\<^sup>*\<^sup>* d2 d3 \<and>
     sa_state (dv_api d3) = Shutdown \<and> get_valve_status (sa_hardware (dv_api d3)) = Some True \<and>
     (\<exists>x y. late_frame checksum_hash x y \<and> device_images d3 = device_images y)"
proof -
  let ?env = "valve_api_env\<lparr>env_hash := \<lambda>_. [7]\<rparr>"
  let ?q = "Request 5 0 (Some ''t'') (SetTargetState Shutdown)"
  let ?d1 = "op_valve\<lparr>dv_rx := Some (rx_enter Op rx_new), dv_waiting := True\<rparr>"
  obtain r s where s: "api_step ?env (\<lambda>_. []) ?q (dv_api op_valve) = (r, s)" "sa_state s = Shutdown"
    "ds_state (st_current (sa_status s)) = state_num Shutdown" "sa_streams s = sl_store valve_slave"
    "sa_hardware s = sl_image valve_slave"
    by (simp add: op_valve_def returned_device_def serve_def api_validate_eq rpc_set_target_state_def
        rpc_set_manager_def rpc_set_status_def prune_expired_locked_def update_state_def publish_def append_log_def Let_def)
  let ?d2 = "?d1\<lparr>dv_api := s\<rparr>"
  let ?f = "slave_frame checksum_hash dummy_process_image (stream_map [valve_stream Input]) (Some valve_frame) 0 0
      (rx_enter Op rx_new, l2_of ?d2)"
  let ?d3 = "(with_l2 (snd ?f) ?d2)\<lparr>dv_rx := Some (fst ?f), dv_waiting := False\<rparr>"
  have rx: "dv_rx op_valve = Some rx_new" "\<not> dv_waiting op_valve" "dv_server op_valve"
    "dv_l2 op_valve = Some ([valve_stream Input], [])"
    by (simp_all add: op_valve_def returned_device_def)
  have "slave_receive_check (slave_state (l2_of op_valve)) rx_new = Continue (True, rx_enter Op rx_new)"
    by (simp add: op_valve_l2 valve_slave_op slave_receive_check_def)
  then have one: "demo_step valve_env ?env (\<lambda>_. []) checksum_hash op_valve ?d1"
    by (rule demo_step.check [OF rx(1,2)])
  have two: "demo_step valve_env ?env (\<lambda>_. []) checksum_hash ?d1 ?d2"
    using demo_step.api [of ?d1 ?env "\<lambda>_. []" ?q r s] s(1) rx(3) by simp
  have reach: "demo_reaches valve_env ?env (\<lambda>_. []) checksum_hash op_valve ?d2"
    using one two by (meson converse_rtranclp_into_rtranclp r_into_rtranclp)
  have "demo_step valve_env ?env (\<lambda>_. []) checksum_hash ?d2 ?d3"
    by (rule demo_step.receive [where inputs = "[valve_stream Input]" and outputs = "[]"]) (simp_all add: rx(4))
  moreover have "slave_state (l2_of ?d2) = Shutdown"
    using s(3) by (simp add: slave_state_def l2_of_def state_try_from_def)
  ultimately have off: "(off_step valve_env ?env (\<lambda>_. []) checksum_hash)\<^sup>*\<^sup>* ?d2 ?d3"
    by (auto simp: off_step_def)
  have closed: "get_valve_status (sa_hardware (dv_api ?d2)) = Some False"
    using s(5) by (simp add: valve_slave_def new_valve_controller_def get_valve_status_def)
  have opened: "get_valve_status (sa_hardware (dv_api ?d3)) = Some True"
    using valve_frame_handled [of "l2_of ?d2" 0 0 "rx_enter Op rx_new"] s(4,5)
    by (simp add: with_l2_def valve_streams_def) (simp add: l2_of_def)
  have changed: "device_images ?d3 \<noteq> device_images ?d2"
    using closed opened valve_of_images [of ?d3 ?d2] by force
  have env: "lv_info valve_env = dummy_device_access" "lv_network valve_env = dummy_network_access (\<lambda>_ _ _. Inr ())"
    "dh_role (sa_hardware (dv_api ?d2)) \<noteq> TemperatureSensor"
    using s(5) by (simp_all add: valve_env_def valve_slave_def new_valve_controller_def)
  have "sa_state (dv_api ?d3) = Shutdown" using s(2) by (simp add: with_l2_def)
  moreover from one_late_frame [OF env off changed]
  have "\<exists>x y. late_frame checksum_hash x y \<and> device_images ?d3 = device_images y" by blast
  ultimately show ?thesis using reach off closed opened s(2) by (intro exI [of _ ?d2] exI [of _ ?d3]) auto
qed

end
