(* ===== verification/Stream_Channel.thy ===== *)
theory Stream_Channel
  imports Slave_L2 Slave_Api
begin

text \<open>
  The receiver of \<^verbatim>\<open>src/slave/src/l2_handler.rs\<close> over everything that may arrive on a wire that
  loses, repeats, reorders and makes up frames: what reaches the process image of a stream is a
  subsequence of what its sender tagged, within one configuration of the stream. Configuring the
  streams anew starts the numbers again, and the frames of the time before are valid once more.
\<close>

section \<open>Runs of the receiver\<close>

text \<open>What the receiver gets, with both clocks.\<close>

type_synonym arrival = "bytes option \<times> nat \<times> u64"

fun slave_frames ::
    "keyed_hash \<Rightarrow> 'p process_image_access \<Rightarrow> (u16 \<rightharpoonup> stream_config) \<Rightarrow> arrival list \<Rightarrow>
       rx_state \<times> 'p slave_l2 \<Rightarrow> rx_state \<times> 'p slave_l2" where
  "slave_frames H access streams [] rs = rs"
| "slave_frames H access streams ((received, now, wall) # as) rs =
     slave_frames H access streams as (slave_frame H access streams received now wall rs)"

text \<open>The frames that are handed over to the process image, with the streams they belong to.\<close>

fun handed_over ::
    "keyed_hash \<Rightarrow> 'p process_image_access \<Rightarrow> (u16 \<rightharpoonup> stream_config) \<Rightarrow> arrival list \<Rightarrow>
       rx_state \<times> 'p slave_l2 \<Rightarrow> (parsed_l2_frame \<times> stream_config) list" where
  "handed_over H access streams [] rs = []"
| "handed_over H access streams ((received, now, wall) # as) rs =
     (case Option.bind received (\<lambda>frame. fst (slave_admit H streams frame (snd rs))) of
        None \<Rightarrow> [] | Some x \<Rightarrow> [x]) @
     handed_over H access streams as (slave_frame H access streams received now wall rs)"

definition hand_over ::
    "'p process_image_access \<Rightarrow> parsed_l2_frame \<times> stream_config \<Rightarrow> 'p \<Rightarrow> 'p" where
  "hand_over access x img = snd (handle_input_packet access img (snd x) (pf_payload (fst x)))"

text \<open>What the stream store is asked about: the frames that parse and belong to a known stream.\<close>

definition frame_message ::
    "(u16 \<rightharpoonup> stream_config) \<Rightarrow> bytes \<Rightarrow> ((l2_header \<times> bytes) \<times> u64 \<times> bytes) option" where
  "frame_message streams frame =
     (case parse_l2_frame frame of
        Inl _ \<Rightarrow> None
      | Inr p \<Rightarrow>
          if streams (l2_stream_id (pf_header p)) = None then None
          else Some ((pf_header p, pf_payload p), pf_sequence_number p, pf_auth_tag p))"

definition messages :: "(u16 \<rightharpoonup> stream_config) \<Rightarrow> arrival list \<Rightarrow> ((l2_header \<times> bytes) \<times> u64 \<times> bytes) list" where
  "messages streams as = List.map_filter (\<lambda>(received, now, wall). Option.bind received (frame_message streams)) as"

lemma messages_simps [simp]:
  "messages streams [] = []"
  "messages streams ((received, now, wall) # as) =
     (case Option.bind received (frame_message streams) of None \<Rightarrow> [] | Some m \<Rightarrow> [m]) @ messages streams as"
  by (simp_all add: messages_def List.map_filter_simps split: option.split)

section \<open>One frame\<close>

lemma slave_frame_store:
  "sl_store (snd (slave_frame H access streams received now wall rs)) =
     (case Option.bind received (frame_message streams) of
        None \<Rightarrow> sl_store (snd rs)
      | Some (m, n, t) \<Rightarrow> snd (stream_check H m n t (sl_store (snd rs))))"
proof (cases rs)
  case (Pair rx s)
  show ?thesis
  proof (cases received)
    case (Some frame)
    obtain adm s1 where adm: "slave_admit H streams frame s = (adm, s1)" by fastforce
    have "sl_store (snd (slave_frame H access streams received now wall rs)) = sl_store s1"
      using slave_consume_store by (auto simp: slave_frame_def Pair Some adm split: option.split)
    moreover have "sl_store s1 = (case frame_message streams frame of
        None \<Rightarrow> sl_store s | Some (m, n, t) \<Rightarrow> snd (stream_check H m n t (sl_store s)))"
    proof (cases "parse_l2_frame frame")
      case (Inl code)
      then show ?thesis using adm by (cases code) (auto simp: slave_admit_def frame_message_def)
    next
      case (Inr p)
      then show ?thesis using adm
        by (auto simp: slave_admit_def frame_message_def stream_check_def Let_def case_prod_beta
            split: option.splits sum.splits bool.splits if_splits)
    qed
    ultimately show ?thesis by (simp only: Pair Some bind.bind_lunit snd_conv)
  qed (simp add: slave_frame_def Pair)
qed

lemma slave_frame_handed:
  "sl_image (snd (slave_frame H access streams received now wall rs)) =
     (case Option.bind received (\<lambda>frame. fst (slave_admit H streams frame (snd rs))) of
        None \<Rightarrow> sl_image (snd rs) | Some x \<Rightarrow> hand_over access x (sl_image (snd rs)))"
proof (cases rs)
  case (Pair rx s)
  show ?thesis
  proof (cases received)
    case (Some frame)
    obtain adm s1 where adm: "slave_admit H streams frame s = (adm, s1)" by fastforce
    have "sl_image s1 = sl_image s" using slave_admit_image [of H streams frame s] adm by simp
    then show ?thesis
      using slave_consume_image [of access now wall _ _ rx s1]
      by (auto simp: slave_frame_def Pair Some adm hand_over_def split: option.split)
  qed (simp add: slave_frame_def Pair)
qed

text \<open>A frame is handed over exactly when its message passes the store and reports no error.\<close>

lemma slave_admit_message:
  "map_option (\<lambda>(p, c). ((pf_header p, pf_payload p), pf_sequence_number p)) (fst (slave_admit H streams frame s)) =
     (case frame_message streams frame of
        None \<Rightarrow> None
      | Some (m, n, t) \<Rightarrow>
          if fst (stream_check H m n t (sl_store s)) \<and> l2_status (fst m) = status_u8 NoError then Some (m, n) else None)"
proof (cases "parse_l2_frame frame")
  case (Inl code)
  then show ?thesis by (cases code) (simp_all add: slave_admit_def frame_message_def)
next
  case (Inr p)
  then show ?thesis
    by (auto simp: slave_admit_def frame_message_def stream_check_def Let_def case_prod_beta
        split: option.splits sum.splits bool.splits)
qed

section \<open>A run\<close>

lemma slave_frames_image:
  "sl_image (snd (slave_frames H access streams as rs)) =
     fold (hand_over access) (handed_over H access streams as rs) (sl_image (snd rs))"
proof (induction H access streams as rs rule: slave_frames.induct)
  case (2 H access streams received now wall as rs)
  then show ?case by (simp add: slave_frame_handed split: option.split)
qed simp

lemma handed_over_taken:
  "map (\<lambda>(p, c). ((pf_header p, pf_payload p), pf_sequence_number p)) (handed_over H access streams as rs) =
   filter (\<lambda>(m, n). l2_status (fst m) = status_u8 NoError)
     (stream.dst.taken H (messages streams as) (sl_store (snd rs)))"
proof (induction H access streams as rs rule: handed_over.induct)
  case (2 H access streams received now wall as rs)
  show ?case
  proof (cases received)
    case None
    with 2 show ?thesis by (simp add: slave_frame_store)
  next
    case (Some frame)
    from slave_admit_message [of H streams frame "snd rs"] 2
    show ?thesis
      by (cases "frame_message streams frame"; cases "fst (slave_admit H streams frame (snd rs))")
        (auto simp: Some slave_frame_store case_prod_beta split: if_splits)
  qed
qed simp

section \<open>Properties\<close>

text \<open>
  C9 A stream is a first-in first-out channel that may lose: whatever arrives at a slave's receiver,
  lost, repeated, reordered or made up, as long as nobody but the sender makes tags that pass under the
  secret, the payloads that reach the process image for a stream are a subsequence of those the sender
  tagged for it, in their order and none twice, and the image is what writing them one after the other
  gives.
\<close>

theorem stream_refines_channel:
  assumes "stream_number sender i = Some n"
    and "unat n + length (filter (\<lambda>(h, _). l2_stream_id h = i) sent) \<le> 2 ^ 64"
    and honest: "\<forall>frame p. Some frame \<in> fst ` set as \<and> parse_l2_frame frame = Inr p \<and> l2_stream_id (pf_header p) = i \<and>
       verify_hmac H (ss_shared_secret (sl_store s))
         [serialize_l2_header (pf_header p), pf_payload p, be64 (pf_sequence_number p)] (pf_auth_tag p) \<longrightarrow>
       (\<exists>t. ((pf_header p, pf_payload p), pf_sequence_number p, t) \<in> set (tag_all H sent sender))"
  shows "sl_image (snd (slave_frames H access streams as (rx, s))) =
      fold (hand_over access) (handed_over H access streams as (rx, s)) (sl_image s) \<and>
    subseq (map (\<lambda>(p, c). (pf_header p, pf_payload p))
        (filter (\<lambda>(p, c). l2_stream_id (pf_header p) = i) (handed_over H access streams as (rx, s))))
      (filter (\<lambda>(h, _). l2_stream_id h = i) sent)"
proof -
  let ?k = "\<lambda>m. stream_key m = i" and ?taken = "stream.dst.taken H (messages streams as) (sl_store s)"
  have key: "(\<lambda>(h, _). l2_stream_id h = i) = ?k" by (auto simp: stream_key_def)
  have passed: "\<forall>(m, q, t) \<in> set (messages streams as). ?k m \<and> stream_authentic H (sl_store s) m q t \<longrightarrow>
      (\<exists>u. (m, q, u) \<in> set (stream.src.sent H sent sender))"
  proof (intro ballI, clarify)
    fix h p q t
    assume "((h, p), q, t) \<in> set (messages streams as)" and i: "i = stream_key (h, p)"
      and auth: "stream_authentic H (sl_store s) (h, p) q t"
    then obtain frame now wall where "(Some frame, now, wall) \<in> set as"
      and m: "frame_message streams frame = Some ((h, p), q, t)"
      by (auto simp: messages_def List.map_filter_def bind_eq_Some_conv)
    moreover from m obtain f where "parse_l2_frame frame = Inr f" "pf_header f = h" "pf_payload f = p"
      "pf_sequence_number f = q" "pf_auth_tag f = t"
      by (auto simp: frame_message_def split: sum.splits if_splits)
    ultimately show "\<exists>u. ((h, p), q, u) \<in> set (stream.src.sent H sent sender)"
      using honest auth i by (force simp: stream_authentic_def tag_all_sent image_iff)
  qed
  from stream.taken_subseq_sent [OF assms(1), where ms = sent and xs = "messages streams as" and r = "sl_store s" and H = H]
      assms(2) passed
  have "subseq (filter (\<lambda>(m, _). ?k m) ?taken)
      (map (\<lambda>(m, q, _). (m, q)) (filter (\<lambda>(m, _, _). ?k m) (stream.src.sent H sent sender)))"
    by (simp add: key)
  then have "subseq (map fst (filter (\<lambda>(m, _). ?k m) ?taken))
      (map fst (map (\<lambda>(m, q, _). (m, q)) (filter (\<lambda>(m, _, _). ?k m) (stream.src.sent H sent sender))))"
    by (rule subseq_map)
  also have "map fst (map (\<lambda>(m, q, _). (m, q)) (filter (\<lambda>(m, _, _). ?k m) (stream.src.sent H sent sender))) =
      filter ?k (map fst (stream.src.sent H sent sender))"
    by (simp add: filter_map o_def split_def)
  also have "subseq \<dots> (filter ?k sent)" by (rule subseq_filter [OF stream.sent_subseq])
  finally have sub: "subseq (map fst (filter (\<lambda>(m, _). ?k m) ?taken)) (filter ?k sent)" .
  have "map (\<lambda>(p, c). (pf_header p, pf_payload p))
      (filter (\<lambda>(p, c). l2_stream_id (pf_header p) = i) (handed_over H access streams as (rx, s))) =
    map fst (filter (\<lambda>(m, _). ?k m) (map (\<lambda>(p, c). ((pf_header p, pf_payload p), pf_sequence_number p))
      (handed_over H access streams as (rx, s))))"
    by (simp add: filter_map o_def split_def)
  also have "subseq \<dots> (map fst (filter (\<lambda>(m, _). ?k m) ?taken))"
    unfolding handed_over_taken snd_conv by (intro subseq_map subseq_filter subseq_filter_left)
  finally show ?thesis using sub key by (simp add: slave_frames_image)
qed

text \<open>The frame of the valve's master, received twice.\<close>

definition example_arrivals :: "arrival list" where
  "example_arrivals = [(Some valve_frame, 0, 0), (None, 1, 1), (Some valve_frame, 2, 2)]"

lemma valve_frame_parsed:
  "parse_l2_frame valve_frame = Inr \<lparr>pf_destination = MacAddr 2 0 0 0 0 2, pf_source = MacAddr 2 0 0 0 0 1,
     pf_vlan_id_pcp = 100, pf_header = valve_header, pf_payload = [1], pf_sequence_number = 1,
     pf_auth_tag = sf_auth_tag (sent_footer checksum_hash (valve_store Output) valve_header [1] 1)\<rparr>"
  unfolding valve_frame_def
  by (subst parse_build_l2_frame [OF sent_footer_ok [OF checksum_hash_ok]]) (simp add: sent_footer_def)

lemma subseq_single: "subseq xs [x] \<Longrightarrow> xs \<noteq> [] \<Longrightarrow> xs = [x]"
  by (cases xs) (auto split: if_splits)

lemma valve_tagged:
  "\<exists>t. tag_all checksum_hash [(valve_header, [1])] (valve_store Output) = [((valve_header, [1]), 1, t)]"
  by (simp add: generate_stream_tag_def valve_store_eq valve_header_def valve_stream_def fresh_entry_def Let_def)

theorem stream_refines_channel_witness:
  "let handed = handed_over checksum_hash dummy_process_image valve_streams example_arrivals (rx_new, valve_slave)
   in map (\<lambda>(p, c). (pf_header p, pf_payload p)) (filter (\<lambda>(p, c). l2_stream_id (pf_header p) = 2) handed) =
        [(valve_header, [1])] \<and>
      sl_image (snd (slave_frames checksum_hash dummy_process_image valve_streams example_arrivals (rx_new, valve_slave))) =
        fold (hand_over dummy_process_image) handed (sl_image valve_slave)"
proof -
  let ?handed = "handed_over checksum_hash dummy_process_image valve_streams example_arrivals (rx_new, valve_slave)"
  let ?got = "map (\<lambda>(p, c). (pf_header p, pf_payload p)) (filter (\<lambda>(p, c). l2_stream_id (pf_header p) = 2) ?handed)"
  have id: "l2_stream_id valve_header = 2" by (simp add: valve_header_def valve_stream_def)
  have n: "stream_number (valve_store Output) 2 = Some 1"
    by (simp add: stream_number_def valve_store_eq fresh_entry_def valve_stream_def)
  obtain t where "tag_all checksum_hash [(valve_header, [1])] (valve_store Output) = [((valve_header, [1]), 1, t)]"
    using valve_tagged by blast
  then have honest: "\<forall>frame p. Some frame \<in> fst ` set example_arrivals \<and> parse_l2_frame frame = Inr p \<and>
       l2_stream_id (pf_header p) = 2 \<and> verify_hmac checksum_hash (ss_shared_secret (sl_store valve_slave))
         [serialize_l2_header (pf_header p), pf_payload p, be64 (pf_sequence_number p)] (pf_auth_tag p) \<longrightarrow>
       (\<exists>t. ((pf_header p, pf_payload p), pf_sequence_number p, t) \<in>
          set (tag_all checksum_hash [(valve_header, [1])] (valve_store Output)))"
    using valve_frame_parsed by (auto simp: example_arrivals_def)
  from stream_refines_channel [OF n _ honest, of dummy_process_image valve_streams rx_new]
  have run: "subseq ?got [(valve_header, [1])]"
    "sl_image (snd (slave_frames checksum_hash dummy_process_image valve_streams example_arrivals (rx_new, valve_slave))) =
      fold (hand_over dummy_process_image) ?handed (sl_image valve_slave)"
    by (simp_all add: id)
  obtain p where p: "parse_l2_frame valve_frame = Inr p"
    "admissible checksum_hash valve_streams (sl_store valve_slave) p (valve_stream Input)"
    by (rule valve_frame_admissible) blast
  have "(p, valve_stream Input) \<in> set ?handed"
    by (simp add: example_arrivals_def slave_admit_admissible [OF p])
  moreover have "l2_stream_id (pf_header p) = 2" using p(1) valve_frame_parsed id by auto
  ultimately have "?got \<noteq> []" by (force simp: filter_empty_conv)
  with run(1) have "?got = [(valve_header, [1])]" by (rule subseq_single)
  with run(2) show ?thesis by (simp add: Let_def)
qed

text \<open>
  C35 A new configuration revives the frames of the old one: the service gives every stream the numbers it
  started with, under the same secret, so any frame that a device with that secret once took for an input
  stream is taken again, whatever was taken since; and the one with the largest number makes the receiver
  refuse everything the sender of the new configuration numbers up to there.
\<close>

theorem configuration_revives_frames:
  assumes "rpc_configure_streams access configs s = (status_num NoError, s')"
    and "get_layout access (sa_hardware s) = Inr layout"
    and "c \<in> set configs" "sc_direction c = direction_num Input"
    and "admissible H before old p stream" "ss_shared_secret old = ss_shared_secret (sa_streams s)"
    and "l2_stream_id (pf_header p) = config_id c" and "streams (config_id c) = Some c"
  shows "admissible H streams (sa_streams s') p c \<and>
    (\<forall>q d. l2_stream_id (pf_header q) = config_id c \<and> pf_sequence_number q \<le> pf_sequence_number p \<longrightarrow>
       \<not> admissible H streams (snd (validate_stream_tag H (pf_header p) (pf_payload p) (pf_sequence_number p)
          (pf_auth_tag p) (sa_streams s'))) q d)"
proof -
  have s': "sa_streams s' = (sa_streams s)\<lparr>ss_streams := config_map configs\<rparr>"
    and ok: "distinct (map sc_stream_id configs)" "\<forall>stream \<in> set configs. stream_ok layout stream"
    using assms(1,2) by (auto simp: rpc_configure_streams_eq split: if_splits)
  have "distinct (map config_id configs)"
    using ok distinct_config_id [of configs] stream_ok_config by blast
  then have fresh: "config_map configs (config_id c) = Some (fresh_entry c)"
    unfolding config_map_def using assms(3) by (intro map_of_is_SomeI) (auto simp: o_def)
  have pos: "0 < pf_sequence_number p"
    using assms(5) by (auto simp: admissible_def Let_def word_less_nat_alt)
  have adm: "admissible H streams (sa_streams s') p c"
    using assms(4-8) fresh pos by (auto simp: admissible_def Let_def s' fresh_entry_def)
  then have "fst (validate_stream_tag H (pf_header p) (pf_payload p) (pf_sequence_number p) (pf_auth_tag p)
      (sa_streams s')) = Inr True"
    by (auto simp: validate_true admissible_def Let_def)
  then have "\<exists>e. ss_streams (snd (validate_stream_tag H (pf_header p) (pf_payload p) (pf_sequence_number p)
      (pf_auth_tag p) (sa_streams s'))) (config_id c) = Some e \<and> se_sequence_number e = pf_sequence_number p"
    using assms(7) by (auto simp: validate_stream_tag_def Let_def split: option.splits if_splits)
  with adm show ?thesis by (auto simp: admissible_def Let_def)
qed

text \<open>The valve's service after its receiver took the first frame, back in \<open>PreOp\<close>.\<close>

definition revived_store :: "parsed_l2_frame \<Rightarrow> stream_store" where
  "revived_store p = snd (validate_stream_tag checksum_hash (pf_header p) (pf_payload p) (pf_sequence_number p)
     (pf_auth_tag p) (valve_store Input))"

definition revived_api :: "parsed_l2_frame \<Rightarrow> dummy_hardware slave_api" where
  "revived_api p = \<lparr>sa_state = PreOp, sa_status = status_store_new 0, sa_tokens = token_store_new [],
     sa_streams = revived_store p, sa_hardware = new_valve_controller ''eth0'' [2, 0, 0, 0, 0, 2]\<rparr>"

theorem configuration_revives_frames_witness:
  "\<exists>p s'. parse_l2_frame valve_frame = Inr p \<and>
     rpc_configure_streams dummy_process_image [valve_stream Input] (revived_api p) = (status_num NoError, s') \<and>
     admissible checksum_hash valve_streams (sa_streams s') p (valve_stream Input)"
proof -
  obtain p where p: "parse_l2_frame valve_frame = Inr p"
    "admissible checksum_hash valve_streams (sl_store valve_slave) p (valve_stream Input)"
    by (rule valve_frame_admissible) blast
  let ?layout = "[process_var ''ValveOpen'' DtBool Input 0 0 1]"
  have layout: "get_layout dummy_process_image (sa_hardware (revived_api p)) = Inr ?layout"
    by (simp add: revived_api_def dummy_process_image_def dummy_get_layout_def new_valve_controller_def)
  have ok: "stream_ok ?layout (valve_stream Input)"
    by (auto simp: stream_ok_def valve_stream_def valve_position_def process_var_def direction_try_from_def)
  obtain s' where s': "rpc_configure_streams dummy_process_image [valve_stream Input] (revived_api p) =
      (status_num NoError, s')"
    using layout ok by (simp add: rpc_configure_streams_eq) (simp add: revived_api_def)
  have id: "l2_stream_id (pf_header p) = 2"
    using p(1) valve_frame_parsed by (auto simp: valve_header_def valve_stream_def)
  then have "admissible checksum_hash valve_streams (sa_streams s') p (valve_stream Input)"
    using configuration_revives_frames [OF s' layout, of "valve_stream Input" checksum_hash valve_streams
        "sl_store valve_slave" p "valve_stream Input" valve_streams] p(2)
    by (simp add: revived_api_def revived_store_def valve_slave_def valve_stream_def config_id_def
        valve_streams_def stream_map_def)
  with p(1) s' show ?thesis by blast
qed

end
