(* ===== verification/Demo_Statistics.thy ===== *)
theory Demo_Statistics
  imports Demo_Slave
begin

text \<open>
  The cycle statistics a slave publishes in its device status against those its cyclic threads keep
  for themselves and report when they end, over the whole life of the device of \<open>Demo_Slave\<close>.
\<close>

section \<open>Statistics\<close>

definition receive_stats :: "status_store \<Rightarrow> u64 \<times> u64 \<times> u64" where
  "receive_stats s = (ds_receive_cycle_min_ns (st_current s), ds_receive_cycle_max_ns (st_current s),
     ds_receive_cycle_avg_ns (st_current s))"

definition send_stats :: "status_store \<Rightarrow> u64 \<times> u64 \<times> u64" where
  "send_stats s = (ds_send_cycle_min_ns (st_current s), ds_send_cycle_max_ns (st_current s),
     ds_send_cycle_avg_ns (st_current s))"

lemmas stats_defs = receive_stats_def send_stats_def

text \<open>Smallest, largest and average of what was recorded, zeros before the first record.\<close>

definition stats_of :: "cycle_metrics \<Rightarrow> u64 \<times> u64 \<times> u64" where
  "stats_of m = (case metrics_values m of None \<Rightarrow> (0, 0, 0) | Some v \<Rightarrow> v)"

lemma stats_of_default [simp]: "stats_of cycle_metrics_default = (0, 0, 0)"
  by (simp add: stats_of_def metrics_values_def cycle_metrics_default_def)

lemma metrics_values_record: "metrics_values (metrics_record m x) \<noteq> None"
proof -
  have "unat (saturating_add (cm_samples m) 1) \<noteq> 0" by (simp add: unat_saturating_add)
  then have "saturating_add (cm_samples m) 1 \<noteq> 0" by (metis unat_0)
  then show ?thesis by (simp add: metrics_values_def metrics_record_def average_ns_def)
qed

text \<open>Every other update leaves both statistics alone.\<close>

lemma updates_keep_stats [simp]:
  "receive_stats (update_status_code code s) = receive_stats s" "send_stats (update_status_code code s) = send_stats s"
  "receive_stats (update_state st w s) = receive_stats s" "send_stats (update_state st w s) = send_stats s"
  "receive_stats (increment_missed_cycles_by n w s) = receive_stats s"
  "send_stats (increment_missed_cycles_by n w s) = send_stats s"
  "send_stats (update_receive_cycle_metrics a b c w s) = send_stats s"
  "receive_stats (update_send_cycle_metrics a b c w s) = receive_stats s"
  "receive_stats (update_receive_cycle_metrics a b c w s) = (a, b, c)"
  "send_stats (update_send_cycle_metrics a b c w s) = (a, b, c)"
  by (simp_all add: stats_defs update_status_code_def update_state_def increment_missed_cycles_by_def
      update_receive_cycle_metrics_def update_send_cycle_metrics_def publish_def append_log_def Let_def)

lemma slave_code_stats [simp]:
  "receive_stats (sl_status (slave_code c s)) = receive_stats (sl_status s)"
  "send_stats (sl_status (slave_code c s)) = send_stats (sl_status s)"
  by (simp_all add: slave_code_def)

lemma slave_report_stats:
  assumes "metrics_values m \<noteq> None"
  shows "receive_stats (sl_status (slave_report update_receive_cycle_metrics m w s)) = stats_of m"
    and "send_stats (sl_status (slave_report update_receive_cycle_metrics m w s)) = send_stats (sl_status s)"
    and "send_stats (sl_status (slave_report update_send_cycle_metrics m w s)) = stats_of m"
    and "receive_stats (sl_status (slave_report update_send_cycle_metrics m w s)) = receive_stats (sl_status s)"
  using assms by (auto simp: slave_report_def stats_of_def split: option.split prod.split)

section \<open>The receiver\<close>

text \<open>Status and metrics are in agreement.\<close>

definition receives :: "rx_state \<Rightarrow> 'p slave_l2 \<Rightarrow> bool" where
  "receives rx s \<longleftrightarrow> receive_stats (sl_status s) = stats_of (rx_metrics rx)"

definition sends :: "tx_state \<Rightarrow> 'p slave_l2 \<Rightarrow> bool" where
  "sends tx s \<longleftrightarrow> send_stats (sl_status s) = stats_of (tx_metrics tx)"

lemma slave_admit_stats [simp]:
  "receive_stats (sl_status (snd (slave_admit H streams frame s))) = receive_stats (sl_status s)"
  "send_stats (sl_status (snd (slave_admit H streams frame s))) = send_stats (sl_status s)"
  by (auto simp: slave_admit_def Let_def case_prod_beta
      split: sum.split option.split bool.split status_code.split)

lemma rx_enter_metrics [simp]: "rx_metrics (rx_enter st rx) = rx_metrics rx"
  by (simp add: rx_enter_def)

lemma rx_counter_metrics [simp]: "rx_metrics (rx_counter i c rx) = rx_metrics rx"
  by (simp add: rx_counter_def)

lemma rx_observe_cases:
  obtains (quiet) rx' where "rx_observe stream i now rx = (False, rx')" "rx_metrics rx' = rx_metrics rx"
  | (recorded) rx' where "rx_observe stream i now rx = (True, rx')" "metrics_values (rx_metrics rx') \<noteq> None"
  using metrics_values_record by (cases "rx_last_receive_instant rx i") (simp_all add: rx_observe_def Let_def)

lemma slave_consume_stats:
  assumes "slave_consume access now wall parsed stream (rx, s) = (rx', s')"
  shows "send_stats (sl_status s') = send_stats (sl_status s) \<and> (receives rx s \<longrightarrow> receives rx' s')"
proof (cases rule: rx_observe_cases [of stream "l2_stream_id (pf_header parsed)" now
      "rx_counter (l2_stream_id (pf_header parsed)) (l2_cycle_counter (pf_header parsed)) rx"])
  case (quiet rx1)
  then show ?thesis using assms
    by (auto simp: slave_consume_def Let_def case_prod_beta receives_def split: sum.splits option.splits)
next
  case (recorded rx1)
  show ?thesis using assms recorded
    by (auto simp: slave_report_stats slave_consume_def Let_def case_prod_beta receives_def split: sum.splits option.splits)
qed

lemma slave_receive_stats:
  assumes "slave_frame H access streams received now wall (rx, s) = (rx', s')"
  shows "send_stats (sl_status s') = send_stats (sl_status s) \<and> (receives rx s \<longrightarrow> receives rx' s')"
proof -
  from assms consider "s' = s" "rx_metrics rx' = rx_metrics rx"
    | f where "s' = snd (slave_admit H streams f s)" "rx_metrics rx' = rx_metrics rx"
    | f parsed stream where
        "slave_consume access now wall parsed stream (rx, snd (slave_admit H streams f s)) = (rx', s')"
    by (cases received) (auto simp: slave_frame_def case_prod_beta split: option.splits)
  then show ?thesis
  proof cases
    case (3 f parsed stream)
    from slave_consume_stats [OF this] show ?thesis by (simp add: receives_def)
  qed (simp_all add: receives_def)
qed

section \<open>The sender\<close>

lemma tx_enter_metrics [simp]: "tx_metrics (tx_enter st tx) = tx_metrics tx"
  by (simp add: tx_enter_def)

lemma tx_observe_cases:
  obtains (quiet) tx' where "tx_observe state stream now tx = (False, tx')" "tx_metrics tx' = tx_metrics tx"
  | (recorded) tx' where "tx_observe state stream now tx = (True, tx')" "metrics_values (tx_metrics tx') \<noteq> None"
  using metrics_values_record
  by (cases "state = Op"; cases "tx_last_sent tx (ucast (sc_stream_id stream))")
    (simp_all add: tx_observe_def Let_def)

lemma slave_send_stream_stats:
  assumes "slave_send_stream H access mac st stream i (tx, s) = Continue (fo, tx', s')"
  shows "receive_stats (sl_status s') = receive_stats (sl_status s) \<and> (sends tx s \<longrightarrow> sends tx' s')"
proof (cases rule: tx_observe_cases [of st stream "si_now i" tx])
  case (quiet tx1)
  then show ?thesis using assms
    by (auto simp: slave_send_stream_def Let_def case_prod_beta sends_def
        split: if_splits option.splits sum.splits)
next
  case (recorded tx1)
  show ?thesis using assms recorded
    by (auto simp: slave_report_stats slave_send_stream_def Let_def case_prod_beta sends_def
        split: if_splits option.splits sum.splits)
qed

lemma slave_send_streams_stats:
  "slave_send_streams H access mac st xs (tx, s) = Continue (frames, tx', s') \<Longrightarrow>
   receive_stats (sl_status s') = receive_stats (sl_status s) \<and> (sends tx s \<longrightarrow> sends tx' s')"
proof (induction xs arbitrary: tx s frames)
  case (Cons x xs)
  obtain stream i where x: "x = (stream, i)" by fastforce
  from Cons.prems obtain fo tx1 s1 frames1 where
    "slave_send_stream H access mac st stream i (tx, s) = Continue (fo, tx1, s1)"
    "slave_send_streams H access mac st xs (tx1, s1) = Continue (frames1, tx', s')"
    by (auto simp: x split: turn.splits)
  with Cons.IH show ?case using slave_send_stream_stats by metis
qed simp

lemma slave_send_stats:
  assumes "slave_send_tick H access mac xs (tx, s) = Continue (frames, tx', s')"
  shows "receive_stats (sl_status s') = receive_stats (sl_status s) \<and> (sends tx s \<longrightarrow> sends tx' s')"
proof -
  from assms have "slave_send_streams H access mac (slave_state s) xs (tx_enter (slave_state s) tx, s) =
      Continue (frames, tx', s')"
    by (simp add: slave_send_tick_def Let_def split: if_splits)
  from slave_send_streams_stats [OF this] show ?thesis by (simp add: sends_def)
qed

section \<open>The device\<close>

lemma perform_stats:
  "receive_stats (sa_status (snd (perform env wall req s))) = receive_stats (sa_status s) \<and>
   send_stats (sa_status (snd (perform env wall req s))) = send_stats (sa_status s)"
  by (cases req) (auto simp: case_prod_beta rpc_configure_streams_eq rpc_set_target_state_def
      rpc_set_manager_def rpc_set_status_def split: sum.split prod.split)

lemma api_step_stats:
  assumes "api_step env enc e s = (r, s')"
  shows "receive_stats (sa_status s') = receive_stats (sa_status s) \<and>
    send_stats (sa_status s') = send_stats (sa_status s)"
proof (cases e)
  case (TokenRequest key i)
  with assms show ?thesis
    by (auto simp: rpc_get_token_def issue_token_eq Let_def case_prod_beta split: if_splits)
next
  case (Request now wall token req)
  have "receive_stats (sa_status (snd (serve env now wall token req s))) = receive_stats (sa_status s) \<and>
    send_stats (sa_status (snd (serve env now wall token req s))) = send_stats (sa_status s)"
    by (auto simp: serve_def api_validate_eq case_prod_beta perform_stats split: option.split)
  with assms Request show ?thesis by (auto simp: case_prod_beta)
qed

text \<open>Before the threads are started the statistics are zero; from then on each running thread and
  the status agree.\<close>

definition stats_inv :: "demo_slave \<Rightarrow> bool" where
  "stats_inv d \<longleftrightarrow>
     (dv_l2 d = None \<longrightarrow> dv_rx d = None \<and> dv_tx d = None \<and>
        receive_stats (sa_status (dv_api d)) = (0, 0, 0) \<and> send_stats (sa_status (dv_api d)) = (0, 0, 0)) \<and>
     (\<forall>rx. dv_rx d = Some rx \<longrightarrow> receives rx (l2_of d)) \<and> (\<forall>tx. dv_tx d = Some tx \<longrightarrow> sends tx (l2_of d))"

lemma l2_of_status [simp]: "sl_status (l2_of d) = sa_status (dv_api d)"
  by (simp add: l2_of_def)

lemma rx_new_metrics [simp]: "rx_metrics rx_new = cycle_metrics_default" "tx_metrics tx_new = cycle_metrics_default"
  by (simp_all add: rx_new_def tx_new_def)

lemma demo_start_stats: "demo_slave_start secret wall config = Inr d \<Longrightarrow> stats_inv d"
  by (auto simp: demo_slave_start_def state_manager_new_def stats_inv_def)
    (simp_all add: stats_defs status_store_new_def initial_status_def)

lemma demo_loop_stats:
  assumes "demo_loop_turn wall started ins outs d = t" and "t = Next d' \<or> t = Leave d'" and "stats_inv d"
  shows "stats_inv d'"
proof -
  have inv: "stats_inv (demo_publish st w (d\<lparr>dv_previous_state := p\<rparr>))" "stats_inv (d\<lparr>dv_previous_state := p\<rparr>)" for st w p
    using assms(3) by (auto simp: stats_inv_def demo_publish_def receives_def sends_def)
  have "stats_inv (x\<lparr>dv_server := b\<rparr>)" if "stats_inv x" for x b
    using that by (simp add: stats_inv_def receives_def sends_def)
  moreover have "stats_inv (x\<lparr>dv_l2 := Some l, dv_rx := Some rx_new, dv_tx := Some tx_new\<rparr>)"
    if "stats_inv x" "dv_l2 x = None" for x l
    using that by (simp add: stats_inv_def receives_def sends_def)
  ultimately show ?thesis
    using assms(1,2) inv
    by (auto simp: demo_loop_turn_def Let_def split: if_splits sum.splits)
qed

lemma demo_step_stats: "demo_step lenv env enc H d d' \<Longrightarrow> stats_inv d \<Longrightarrow> stats_inv d'"
proof (induction rule: demo_step.induct)
  case (listen d received sent l)
  then show ?case by (simp add: stats_inv_def with_listener_def receives_def sends_def)
next
  case (loop d wall started ins outs d')
  then show ?case by (blast intro: demo_loop_stats)
next
  case (leave d wall started ins outs d')
  then have "stats_inv d'" by (blast intro: demo_loop_stats)
  then show ?case by (simp add: stats_inv_def receives_def sends_def)
next
  case (api d e r s)
  with api_step_stats [OF api(2)] show ?case by (simp add: stats_inv_def receives_def sends_def)
next
  case (check d rx waits rx')
  then have "rx_metrics rx' = rx_metrics rx"
    by (auto simp: slave_receive_check_def Let_def split: if_splits)
  with check show ?case by (simp add: stats_inv_def receives_def sends_def)
next
  case (receive d rx inputs outputs received now wall rx' s)
  with slave_receive_stats [OF receive(3)] show ?case
    by (simp add: stats_inv_def receives_def sends_def with_l2_def)
next
  case (send d tx inputs outputs "is" mac frames tx' s)
  with slave_send_stats [OF send(4)] show ?case
    by (simp add: stats_inv_def receives_def sends_def with_l2_def)
qed (auto simp: stats_inv_def receives_def sends_def)

lemma demo_reaches_stats: "demo_reaches lenv env enc H d d' \<Longrightarrow> stats_inv d \<Longrightarrow> stats_inv d'"
  by (induction rule: rtranclp_induct) (auto intro: demo_step_stats)

section \<open>Properties\<close>



end
