(* ===== verification/Status_Log.thy ===== *)
theory Status_Log
  imports Post_Run Slave_Api_Types
begin

text \<open>
  The tasks of \<^verbatim>\<open>src/demo/src/main.rs\<close> that log the status updates of both slaves, and what the
  analysis of the logs makes of them.
\<close>

section \<open>The tasks\<close>

text \<open>Display of an \<open>i32\<close>.\<close>

definition int_text :: "int \<Rightarrow> string" where
  "int_text z = (if z < 0 then CHR ''-'' # dec_text (nat (- z)) else dec_text (nat z))"

definition status_message :: "string \<Rightarrow> device_status \<Rightarrow> string" where
  "status_message slave status =
     slave @ '' status update: state='' @ int_text (ds_state status) @
     '' status_code='' @ int_text (ds_status_code status) @
     '' missed_cycles='' @ dec_text (unat (ds_missed_cycles status)) @
     '' receive_cycle_min_ns='' @ dec_text (unat (ds_receive_cycle_min_ns status)) @
     '' receive_cycle_max_ns='' @ dec_text (unat (ds_receive_cycle_max_ns status)) @
     '' receive_cycle_avg_ns='' @ dec_text (unat (ds_receive_cycle_avg_ns status)) @
     '' send_cycle_min_ns='' @ dec_text (unat (ds_send_cycle_min_ns status)) @
     '' send_cycle_max_ns='' @ dec_text (unat (ds_send_cycle_max_ns status)) @
     '' send_cycle_avg_ns='' @ dec_text (unat (ds_send_cycle_avg_ns status))"

text \<open>What the stream yields: an update, its end, or an error, after which the task ends; the
  messages come with their level.\<close>

fun status_task :: "string \<Rightarrow> (string + device_status option) list \<Rightarrow> (string \<times> string) list" where
  "status_task slave [] = []"
| "status_task slave (Inr (Some status) # received) =
     (''INFO'', status_message slave status) # status_task slave received"
| "status_task slave (Inr None # received) = []"
| "status_task slave (Inl error # received) = [(''WARN'', slave @ '' status stream failed: '' @ error)]"

section \<open>Reading an update back\<close>

lemma set_int_text: "set (int_text z) \<subseteq> insert CHR ''-'' digits"
  using set_dec_text by (auto simp: int_text_def)

lemma plain_int_text [simp]: "plain (int_text z)"
proof -
  have "int_text z \<noteq> []" by (simp add: int_text_def)
  then show ?thesis using set_int_text [of z] digits_not_whitespace by (auto simp: plain_def is_whitespace_def)
qed

lemma plain_Cons: "plain (c # w) \<longleftrightarrow> \<not> is_whitespace c \<and> (w = [] \<or> plain w)"
  by (auto simp: plain_def)

definition status_words :: "string \<Rightarrow> device_status \<Rightarrow> string list" where
  "status_words slave status =
     [slave, ''status'', ''update:'', ''state='' @ int_text (ds_state status),
      ''status_code='' @ int_text (ds_status_code status),
      ''missed_cycles='' @ dec_text (unat (ds_missed_cycles status)),
      ''receive_cycle_min_ns='' @ dec_text (unat (ds_receive_cycle_min_ns status)),
      ''receive_cycle_max_ns='' @ dec_text (unat (ds_receive_cycle_max_ns status)),
      ''receive_cycle_avg_ns='' @ dec_text (unat (ds_receive_cycle_avg_ns status)),
      ''send_cycle_min_ns='' @ dec_text (unat (ds_send_cycle_min_ns status)),
      ''send_cycle_max_ns='' @ dec_text (unat (ds_send_cycle_max_ns status)),
      ''send_cycle_avg_ns='' @ dec_text (unat (ds_send_cycle_avg_ns status))]"

definition slave_names :: "string set" where
  "slave_names = {''Temperature'', ''Valve''}"

definition status_line :: "nat \<Rightarrow> string \<Rightarrow> device_status \<Rightarrow> string" where
  "status_line timestamp slave status = log_line timestamp ''INFO'' ''demo'' (status_message slave status)"

lemma status_line_words:
  "status_line ts slave status = unwords (log_words ts ''INFO'' ''demo'' @ status_words slave status)"
  by (simp add: status_line_def status_message_def log_line_def log_words_def status_words_def)

lemma status_words_plain:
  assumes "slave \<in> slave_names"
  shows "\<forall>w \<in> set (log_words ts ''INFO'' ''demo'' @ status_words slave status). plain w"
  using assms
  by (auto simp: log_words_def status_words_def slave_names_def plain_Cons is_whitespace_def)

text \<open>The only field of the name comes back, and a line only names its own slave.\<close>

lemma status_line_missed:
  assumes "slave \<in> slave_names"
  shows "parse_numeric_field_u64 (status_line ts slave status) ''missed_cycles'' =
    Some (ucast (ds_missed_cycles status))"
proof -
  let ?us = "log_words ts ''INFO'' ''demo'' @ [slave, ''status'', ''update:'']"
  obtain rest where words: "log_words ts ''INFO'' ''demo'' @ status_words slave status =
      ?us @ (''state='' @ int_text (ds_state status)) # (''status_code='' @ int_text (ds_status_code status)) #
        (''missed_cycles='' @ dec_text (unat (ds_missed_cycles status))) # rest"
    by (simp add: status_words_def)
  have dull: "\<forall>w \<in> set ?us. CHR ''='' \<notin> set w"
    using assms not_in_digits [of "CHR ''=''"] by (auto simp: slave_names_def digits_def log_words_def)
  have "CHR ''m'' \<notin> set (int_text z)" for z using set_int_text [of z] by (auto simp: digits_def)
  then have none: "field_token (''missed_cycles'' @ ''='') (''state='' @ int_text z) = None"
    "field_token (''missed_cycles'' @ ''='') (''status_code='' @ int_text z) = None" for z
    by (auto intro!: field_token_absent [of "CHR ''m''"])
  have "field_token (''missed_cycles'' @ ''='') (''missed_cycles='' @ dec_text (unat (ds_missed_cycles status))) =
      Some (dec_text (unat (ds_missed_cycles status)))"
    using field_token_number [of "''missed_cycles=''"] by simp
  moreover have "parse_u64 (dec_text (unat (ds_missed_cycles status))) = Some (ucast (ds_missed_cycles status))"
    using parse_u64_dec_text_word [of "ucast (ds_missed_cycles status) :: u64"] by simp
  ultimately show ?thesis
    unfolding status_line_words words parse_field_words(1) [OF status_words_plain [OF assms, of ts status,
      unfolded words]] find_map_dull [OF dull]
    using none by (simp del: append.simps)
qed

lemma contains_part: "contains t (u @ part @ v) \<Longrightarrow> contains t part"
  unfolding contains_def sublist_def by (metis append.assoc)

lemma upper_numbers [simp]:
  "CHR ''T'' \<notin> set (int_text z)" "CHR ''V'' \<notin> set (int_text z)"
  "CHR ''T'' \<notin> set (dec_text n)" "CHR ''V'' \<notin> set (dec_text n)"
  using set_int_text [of z] set_dec_text [of n] by (auto simp: digits_def)

lemma status_words_letters:
  "\<forall>w \<in> set (log_words ts ''INFO'' ''demo'' @ status_words ''Valve'' status). CHR ''T'' \<notin> set w"
  "\<forall>w \<in> set (log_words ts ''INFO'' ''demo'' @ status_words ''Temperature'' status). CHR ''V'' \<notin> set w"
  by (simp_all add: log_words_def status_words_def)

lemma status_line_names:
  assumes "slave \<in> slave_names" "name \<in> slave_names"
  shows "contains (status_line ts slave status) (name @ '' status update:'') \<longleftrightarrow> name = slave"
proof -
  let ?ws = "log_words ts ''INFO'' ''demo'' @ status_words slave status"
  have own: "contains (status_line ts slave status) (slave @ '' status update:'')"
    unfolding status_line_def by (rule contains_args) (simp add: status_message_def contains_def)
  have "\<not> contains w name" if "name \<noteq> slave" "w \<in> set ?ws" for w
  proof -
    have "name = ''Temperature'' \<and> slave = ''Valve'' \<or> name = ''Valve'' \<and> slave = ''Temperature''"
      using that(1) assms by (auto simp: slave_names_def)
    then have "\<not> set name \<subseteq> set w"
      using status_words_letters [of ts status] that(2) by auto
    then show ?thesis by (auto dest: contains_set)
  qed
  moreover have "plain name" using assms(2) by (auto simp: slave_names_def plain_def is_whitespace_def)
  ultimately have "\<not> contains (status_line ts slave status) name" if "name \<noteq> slave"
    using that contains_unwords [of name ?ws] by (auto simp: status_line_words)
  then show ?thesis using own contains_part [of _ "[]" name "'' status update:''"] by auto
qed

section \<open>The logs of both tasks\<close>

datatype update_entry =
    UpdateEntry nat string device_status
  | ForeignEntry string

fun update_text :: "update_entry \<Rightarrow> string" where
  "update_text (UpdateEntry timestamp slave status) = status_line timestamp slave status"
| "update_text (ForeignEntry line) = line"

fun update_ok :: "update_entry \<Rightarrow> bool" where
  "update_ok (UpdateEntry timestamp slave status) \<longleftrightarrow> slave \<in> slave_names"
| "update_ok (ForeignEntry line) \<longleftrightarrow>
     \<not> contains line ''status update:'' \<and> newline \<notin> set line \<and> carriage_return \<notin> set line"

text \<open>The missed cycles of the last update of a slave, 0 before the first one.\<close>

fun last_missed :: "string \<Rightarrow> update_entry list \<Rightarrow> u64 \<Rightarrow> u64" where
  "last_missed name [] n = n"
| "last_missed name (UpdateEntry timestamp slave status # es) n =
     last_missed name es (if slave = name then ucast (ds_missed_cycles status) else n)"
| "last_missed name (ForeignEntry line # es) n = last_missed name es n"

lemma update_one_line:
  "update_ok e \<Longrightarrow> newline \<notin> set (update_text e) \<and> carriage_return \<notin> set (update_text e)"
  using unwords_one_line [OF status_words_plain] by (cases e) (simp_all add: status_line_words)

lemma foreign_lines:
  assumes "\<not> contains line ''status update:''"
  shows "\<not> contains line ''Temperature status update:''" "\<not> contains line ''Valve status update:''"
  using assms contains_part [of line "''Temperature ''" "''status update:''" "[]"]
    contains_part [of line "''Valve ''" "''status update:''" "[]"] by auto

lemma fold_updates:
  "\<forall>e \<in> set es. update_ok e \<Longrightarrow>
   fold (\<lambda>line (temperature_missed_cycles, valve_missed_cycles).
        if contains line ''Temperature status update:''
        then (unwrap_or (parse_numeric_field_u64 line ''missed_cycles'') temperature_missed_cycles,
              valve_missed_cycles)
        else if contains line ''Valve status update:''
        then (temperature_missed_cycles,
              unwrap_or (parse_numeric_field_u64 line ''missed_cycles'') valve_missed_cycles)
        else (temperature_missed_cycles, valve_missed_cycles)) (map update_text es) (a, b) =
   (last_missed ''Temperature'' es a, last_missed ''Valve'' es b)"
proof (induction es arbitrary: a b)
  case (Cons e es)
  show ?case
  proof (cases e)
    case (UpdateEntry ts slave status)
    then have slave: "slave \<in> slave_names" using Cons.prems by simp
    then have "contains (status_line ts slave status) ''Temperature status update:'' \<longleftrightarrow> slave = ''Temperature''"
      "contains (status_line ts slave status) ''Valve status update:'' \<longleftrightarrow> slave = ''Valve''"
      using status_line_names [OF slave, of "''Temperature''" ts status]
        status_line_names [OF slave, of "''Valve''" ts status] by (auto simp: slave_names_def)
    with slave Cons show ?thesis
      by (auto simp: UpdateEntry status_line_missed slave_names_def unwrap_or_def)
  next
    case (ForeignEntry line)
    with Cons foreign_lines [of line] show ?thesis by simp
  qed
qed simp

section \<open>Properties\<close>

text \<open>
  The missed cycles in the summary are those the slaves reported last: from a master's log in which
  the lines of the status updates stand among any others, the analysis takes, for either slave, the
  missed cycles of its last update, whatever the other fields of the updates hold.
\<close>

lemma slave_missed_read_back:
  assumes "\<forall>e \<in> set es. update_ok e"
  shows "parse_slave_missed_cycles (unlines (map update_text es)) =
    (last_missed ''Temperature'' es 0, last_missed ''Valve'' es 0)"
proof -
  have "lines (unlines (map update_text es)) = map update_text es"
    using assms update_one_line by (intro lines_unlines) auto
  then show ?thesis
    unfolding parse_slave_missed_cycles_def by (simp only: fold_updates [OF assms])
qed

definition example_status :: "u32 \<Rightarrow> device_status" where
  "example_status n =
     \<lparr>ds_status_code = 0, ds_state = 4, ds_sync_status = 0, ds_missed_cycles = n, ds_min_cycle_time = 0,
      ds_max_cycle_time = 0, ds_temperature = - 5, ds_timestamp = 0, ds_receive_cycle_min_ns = 3,
      ds_receive_cycle_max_ns = 4, ds_receive_cycle_avg_ns = 3, ds_send_cycle_min_ns = 0,
      ds_send_cycle_max_ns = 0, ds_send_cycle_avg_ns = 0\<rparr>"

lemma slave_missed_read_back_example:
  "parse_slave_missed_cycles (unlines (map update_text
     [UpdateEntry 5 ''Temperature'' (example_status 1), ForeignEntry ''6 [INFO] [demo] missed_cycles=9'',
      UpdateEntry 7 ''Valve'' (example_status 4), UpdateEntry 8 ''Temperature'' (example_status 2)])) = (2, 4)"
proof -
  have "\<forall>e \<in> set [UpdateEntry 5 ''Temperature'' (example_status 1), ForeignEntry ''6 [INFO] [demo] missed_cycles=9'',
      UpdateEntry 7 ''Valve'' (example_status 4), UpdateEntry 8 ''Temperature'' (example_status 2)]. update_ok e"
    by (simp add: slave_names_def contains_def sublist_Cons_right newline_def carriage_return_def)
  from slave_missed_read_back [OF this] show ?thesis by (simp add: example_status_def)
qed

end
