(* ===== verification/Test_Support.thy ===== *)
theory Test_Support
  imports Ethernet Device_Access Thread_Start
begin

text \<open>
  The test support of the repository: the mock implementations of
  \<^verbatim>\<open>src/common/src/test_mocks.rs\<close>, the mock network of \<^verbatim>\<open>src/tests/src/mock_network.rs\<close>, and the
  assertions the tests are written with. A test is a value of \<open>unit option\<close>: \<open>None\<close> is a panic, by a
  failed assertion or by \<open>unwrap\<close>. A queue shared by the two ends of a connection is a list in the
  state, its lock the atomicity of an operation.
\<close>

section \<open>Assertions\<close>

text \<open>\<open>assert!\<close>, \<open>assert_eq!\<close>.\<close>

definition expect :: "bool \<Rightarrow> unit option" where
  "expect b = (if b then Some () else None)"

text \<open>\<open>unwrap\<close> and \<open>expect\<close> of a result, and of the result of an operation on a state.\<close>

definition unwrap :: "'e + 'a \<Rightarrow> 'a option" where
  "unwrap r = (case r of Inl _ \<Rightarrow> None | Inr x \<Rightarrow> Some x)"

definition unwrap_err :: "'e + 'a \<Rightarrow> 'e option" where
  "unwrap_err r = (case r of Inl e \<Rightarrow> Some e | Inr _ \<Rightarrow> None)"

definition unwrapped :: "('e + 'a) \<times> 's \<Rightarrow> ('a \<times> 's) option" where
  "unwrapped r = (case r of (Inl _, _) \<Rightarrow> None | (Inr x, s) \<Rightarrow> Some (x, s))"

abbreviation is_ok :: "'e + 'a \<Rightarrow> bool" where "is_ok r \<equiv> \<not> isl r"
abbreviation is_err :: "'e + 'a \<Rightarrow> bool" where "is_err r \<equiv> isl r"

lemma assertion_simps [simp]:
  "expect b = Some () \<longleftrightarrow> b" "expect True = Some ()"
  "unwrap (Inr x) = Some x" "unwrap (Inl e) = None"
  "unwrap_err (Inl e) = Some e" "unwrap_err (Inr x) = None"
  "unwrapped (Inr x, s) = Some (x, s)" "unwrapped (Inl e, s) = None"
  by (simp_all add: expect_def unwrap_def unwrap_err_def unwrapped_def)

lemma expect_bind [simp]: "expect b \<bind> f = Some u \<longleftrightarrow> b \<and> f () = Some u"
  by (simp add: expect_def)

section \<open>The mock network\<close>

record mock_network =
  master_to_slave :: "bytes list"
  slave_to_master :: "bytes list"

definition mock_network_new :: mock_network where
  "mock_network_new = \<lparr>master_to_slave = [], slave_to_master = []\<rparr>"

text \<open>\<open>MockSender\<close>, \<open>MockReceiver\<close> on the queue they share; \<open>next\<close> is \<open>None\<close> for \<open>WouldBlock\<close>. The
  result of \<open>send_to\<close> is that of the transmitter in \<open>Master_Discovery.send_frame\<close>.\<close>

definition mock_send_to :: "bytes \<Rightarrow> bytes list \<Rightarrow> bool option \<times> bytes list" where
  "mock_send_to packet outbox = (Some True, outbox @ [packet])"

definition mock_build_and_send :: "bytes list \<Rightarrow> bool option \<times> bytes list" where
  "mock_build_and_send outbox = (Some True, outbox)"

definition has_frames :: "bytes list \<Rightarrow> bool" where "has_frames inbox = (inbox \<noteq> [])"
definition pending_count :: "bytes list \<Rightarrow> nat" where "pending_count inbox = length inbox"

record mock_receiver =
  mr_inbox :: "bytes list"
  mr_current_frame :: bytes

definition mock_receiver_new :: "bytes list \<Rightarrow> mock_receiver" where
  "mock_receiver_new inbox = \<lparr>mr_inbox = inbox, mr_current_frame = []\<rparr>"

definition mock_next :: "mock_receiver \<Rightarrow> bytes option \<times> mock_receiver" where
  "mock_next r =
     (case mr_inbox r of
        [] \<Rightarrow> (None, r)
      | frame # frames \<Rightarrow> (Some frame, r\<lparr>mr_inbox := frames, mr_current_frame := frame\<rparr>))"

text \<open>What the four ends do to the network.\<close>

datatype network_op = MasterSends bytes | SlaveSends bytes | MasterReceives | SlaveReceives

definition receive_from :: "bytes list \<Rightarrow> bytes list \<times> bytes list" where
  "receive_from queue = (let (frame, r) = mock_next (mock_receiver_new queue)
     in (case frame of None \<Rightarrow> [] | Some f \<Rightarrow> [f], mr_inbox r))"

text \<open>A step gives the frames the master and the slave receive.\<close>

fun network_step :: "network_op \<Rightarrow> mock_network \<Rightarrow> bytes list \<times> bytes list \<times> mock_network" where
  "network_step (MasterSends f) n = ([], [], n\<lparr>master_to_slave := snd (mock_send_to f (master_to_slave n))\<rparr>)"
| "network_step (SlaveSends f) n = ([], [], n\<lparr>slave_to_master := snd (mock_send_to f (slave_to_master n))\<rparr>)"
| "network_step MasterReceives n =
     (let (got, q) = receive_from (slave_to_master n) in (got, [], n\<lparr>slave_to_master := q\<rparr>))"
| "network_step SlaveReceives n =
     (let (got, q) = receive_from (master_to_slave n) in ([], got, n\<lparr>master_to_slave := q\<rparr>))"

fun network_run :: "network_op list \<Rightarrow> mock_network \<Rightarrow> bytes list \<times> bytes list \<times> mock_network" where
  "network_run [] n = ([], [], n)"
| "network_run (op # ops) n =
     (let (m, s, n) = network_step op n; (ms, ss, n) = network_run ops n in (m @ ms, s @ ss, n))"

lemma receive_from_conserves: "fst (receive_from q) @ snd (receive_from q) = q"
  by (cases q) (simp_all add: receive_from_def mock_next_def mock_receiver_new_def)

text \<open>Each direction is a queue: what was received, followed by what waits, is what was there,
  followed by what was sent.\<close>

primrec by_master :: "network_op \<Rightarrow> bytes list" where
  "by_master (MasterSends f) = [f]" | "by_master (SlaveSends f) = []"
| "by_master MasterReceives = []" | "by_master SlaveReceives = []"

primrec by_slave :: "network_op \<Rightarrow> bytes list" where
  "by_slave (MasterSends f) = []" | "by_slave (SlaveSends f) = [f]"
| "by_slave MasterReceives = []" | "by_slave SlaveReceives = []"

lemma network_step_fifo:
  assumes "network_step p n = (m, s, n')"
  shows "m @ slave_to_master n' = slave_to_master n @ by_slave p"
    and "s @ master_to_slave n' = master_to_slave n @ by_master p"
  using assms receive_from_conserves [of "slave_to_master n"] receive_from_conserves [of "master_to_slave n"]
  by (cases p; auto simp: mock_send_to_def case_prod_beta)+

lemma mock_network_fifo:
  "network_run ops n = (ms, ss, n') \<Longrightarrow>
     ms @ slave_to_master n' = slave_to_master n @ concat (map by_slave ops) \<and>
     ss @ master_to_slave n' = master_to_slave n @ concat (map by_master ops)"
proof (induction ops arbitrary: n ms ss)
  case (Cons p ops)
  obtain m s n1 ms1 ss1 where run: "network_step p n = (m, s, n1)" "network_run ops n1 = (ms1, ss1, n')"
    "ms = m @ ms1" "ss = s @ ss1"
    using Cons.prems by (auto simp: Let_def split: prod.splits)
  have "ms @ slave_to_master n' = (m @ slave_to_master n1) @ concat (map by_slave ops)"
    "ss @ master_to_slave n' = (s @ master_to_slave n1) @ concat (map by_master ops)"
    using Cons.IH [OF run(2)] run(3,4) by simp_all
  then show ?case unfolding network_step_fifo [OF run(1)] by simp
qed simp

section \<open>Mock devices\<close>

text \<open>\<open>MockDeviceInfo\<close>: the information is all the state.\<close>

definition mock_device_info_new :: "mac_addr \<Rightarrow> device_info" where
  "mock_device_info_new mac =
     \<lparr>di_mac_address = octets mac, di_ip_address = [192, 168, 1, 100],
      di_ip_source = ip_source_num Manuell, di_netmask = [255, 255, 255, 0],
      di_gateway = [192, 168, 1, 1], di_vendor_id = 0x1234, di_device_id = 0x5678,
      di_serial_number = 0xDEADBEEF, di_firmware_version = 1, di_capabilities = 0\<rparr>"

definition mock_device_info_with_ip :: "mac_addr \<Rightarrow> bytes \<Rightarrow> bytes \<Rightarrow> bytes \<Rightarrow> device_info" where
  "mock_device_info_with_ip mac ip netmask gateway =
     (mock_device_info_new mac)\<lparr>di_ip_address := ip, di_netmask := netmask, di_gateway := gateway\<rparr>"

record mock_interface =
  mi_applied_configs :: "(bytes \<times> bytes \<times> bytes) list"
  mi_should_fail :: bool

definition mock_interface_new :: mock_interface where
  "mock_interface_new = \<lparr>mi_applied_configs = [], mi_should_fail = False\<rparr>"

definition mock_interface_failing :: mock_interface where
  "mock_interface_failing = \<lparr>mi_applied_configs = [], mi_should_fail = True\<rparr>"

definition was_called :: "mock_interface \<Rightarrow> bool" where
  "was_called i = (mi_applied_configs i \<noteq> [])"

definition mock_apply_ip_config ::
    "mock_interface \<Rightarrow> bytes \<Rightarrow> bytes \<Rightarrow> bytes \<Rightarrow> (status_code + unit) \<times> mock_interface" where
  "mock_apply_ip_config i ip netmask gateway =
     (if mi_should_fail i then (Inl ErrOsFailure, i)
      else (Inr (), i\<lparr>mi_applied_configs := mi_applied_configs i @ [(ip, netmask, gateway)]\<rparr>))"

text \<open>A device of the tests is the two of them.\<close>

type_synonym mock_device = "device_info \<times> mock_interface"

definition mock_info_access :: "mock_device device_info_access" where
  "mock_info_access =
     \<lparr>read_device_info = \<lambda>(info, i). Inr info, write_device_info = \<lambda>(_, i) info. (Inr (), (info, i))\<rparr>"

definition mock_network_access :: "mock_device network_interface_access" where
  "mock_network_access =
     \<lparr>apply_ip_config = \<lambda>(info, i) ip netmask gateway.
        (let (r, i) = mock_apply_ip_config i ip netmask gateway in (r, (info, i)))\<rparr>"

definition create_mock_interface :: "string \<Rightarrow> mac_addr \<Rightarrow> network_interface" where
  "create_mock_interface name mac = \<lparr>ni_name = name, ni_mac = Some mac\<rparr>"

text \<open>\<open>MockDataLinkSender\<close>: the packets it was given; \<open>MockDataLinkReceiver\<close>: the frames it has been
  given to return.\<close>

definition data_link_send_to :: "bytes \<Rightarrow> bytes list \<Rightarrow> bool option \<times> bytes list" where
  "data_link_send_to packet sent_packets = (Some True, sent_packets @ [packet])"

definition data_link_build_and_send :: "nat \<Rightarrow> nat \<Rightarrow> bytes list \<Rightarrow> bool option \<times> bytes list" where
  "data_link_build_and_send num_packets packet_size sent_packets = (Some True, sent_packets)"

record data_link_receiver =
  dl_frames :: "bytes list"
  dl_current_frame :: bytes

definition data_link_receiver_new :: data_link_receiver where
  "data_link_receiver_new = \<lparr>dl_frames = [], dl_current_frame = []\<rparr>"

definition add_response_frame :: "bytes \<Rightarrow> data_link_receiver \<Rightarrow> data_link_receiver" where
  "add_response_frame frame r = r\<lparr>dl_frames := dl_frames r @ [frame]\<rparr>"

definition data_link_next :: "data_link_receiver \<Rightarrow> bytes option \<times> data_link_receiver" where
  "data_link_next r =
     (case dl_frames r of
        [] \<Rightarrow> (None, r)
      | frame # frames \<Rightarrow> (Some frame, r\<lparr>dl_frames := frames, dl_current_frame := frame\<rparr>))"

text \<open>What a loop of the master sees that polls the receiver \<open>n\<close> times before its timeout.\<close>

primrec polled :: "nat \<Rightarrow> data_link_receiver \<Rightarrow> bytes option list" where
  "polled 0 r = []"
| "polled (Suc n) r = (let (frame, r) = data_link_next r in frame # polled n r)"

definition TEST_MAC :: mac_addr where "TEST_MAC = MacAddr 0xAA 0xBB 0xCC 0xDD 0xEE 0xFF"

text \<open>\<open>start_l2_handler_with_mocks\<close> of \<^verbatim>\<open>src/slave/src/l2_handler.rs\<close> and \<^verbatim>\<open>src/master/src/l2_handler.rs\<close>:
  the threads on a transmitter and a receiver that are given, without looking for an interface.\<close>

definition slave_start_l2_handler_with_mocks ::
    "network_interface \<Rightarrow> u16 list \<Rightarrow> u16 list \<Rightarrow> stream_store \<Rightarrow> l2_thread list" where
  "slave_start_l2_handler_with_mocks interface ins outs store =
     (let input_streams = get_streams_by_direction ins Input store;
          output_streams = get_streams_by_direction outs Output store
      in [ReceiverThread (receiver_name ''slave-mock'') (stream_map input_streams),
          slave_sender_thread interface output_streams ''slave-mock''])"

definition master_start_l2_handler_with_mocks ::
    "network_interface \<Rightarrow> u16 list \<Rightarrow> u16 list \<Rightarrow> stream_store \<Rightarrow> (status_code + unit) \<times> l2_thread list" where
  "master_start_l2_handler_with_mocks interface ins outs store =
     (let input_streams = get_streams_by_direction ins Input store;
          output_streams = get_streams_by_direction outs Output store;
          receiver = ReceiverThread (receiver_name ''master-mock'') (stream_map input_streams)
      in case master_sender_thread interface output_streams ''master-mock'' of
           Inl code \<Rightarrow> (Inl code, [receiver])
         | Inr sender \<Rightarrow> (Inr (), [receiver, sender]))"

lemmas mock_defs = mock_device_info_new_def mock_device_info_with_ip_def mock_interface_new_def
  mock_interface_failing_def was_called_def mock_apply_ip_config_def mock_info_access_def
  mock_network_access_def create_mock_interface_def

lemmas queue_defs = mock_network_new_def mock_send_to_def mock_build_and_send_def has_frames_def
  pending_count_def mock_receiver_new_def mock_next_def

end
