(* ===== verification/Tests_Formats.thy ===== *)
theory Tests_Formats
  imports Test_Support L2_Utils Demo_Network
begin

text \<open>
  The unit tests of the frame formats, the footer, the keyed tags and the utilities, run on the model:
  every test is translated from the test of its name in \<^verbatim>\<open>src/common/src\<close>, and passes. A test that
  computes tags runs with any keyed hash of 32 bytes; where it asserts that two tags differ, with the
  example of \<open>Security\<close>.
\<close>

section \<open>\<^verbatim>\<open>l2_types.rs\<close>\<close>

definition test_write_and_read :: "unit option" where
  "test_write_and_read = do {
     let hdr = l2_header_new 0x1234 0xABCD 0xEF;
     let buf = l2_header_write_to hdr [];
     expect (buf = [L2_PROTOCOL_VERSION, 0x12, 0x34, 0xAB, 0xCD, 0xEF, L2_PROTOCOL_FLAGS]);
     parsed \<leftarrow> unwrap (l2_header_read_from buf);
     expect (parsed = hdr) }"

definition test_read_from_with_extra_bytes :: "unit option" where
  "test_read_from_with_extra_bytes = do {
     let hdr = l2_header_new 0x0102 0x0304 0x05;
     let buf = l2_header_write_to hdr [];
     parsed \<leftarrow> unwrap (l2_header_read_from (buf @ [0xAA, 0xBB, 0xCC]));
     expect (parsed = hdr) }"

definition test_read_from_short_buffer_errors :: "unit option" where
  "test_read_from_short_buffer_errors = expect (is_err (l2_header_read_from (replicate 5 0)))"

definition test_parse_l2_frame_rejects_short_frame :: "unit option" where
  "test_parse_l2_frame_rejects_short_frame = expect (is_err (parse_l2_frame (replicate 10 0)))"

definition test_parse_l2_frame_rejects_non_vlan_ethertype :: "unit option" where
  "test_parse_l2_frame_rejects_non_vlan_ethertype = do {
     let frame = (replicate (18 + L2_HEADER_SIZE) 0)[12 := 0x12, 13 := 0x34];
     expect (parse_l2_frame frame = Inl ErrInvalidEthertype) }"

definition test_parse_l2_frame_rejects_non_l2_ethertype :: "unit option" where
  "test_parse_l2_frame_rejects_non_l2_ethertype = do {
     let frame = (replicate (18 + L2_HEADER_SIZE) 0)[12 := 0x81, 13 := 0x00, 16 := 0x12, 17 := 0x34];
     expect (parse_l2_frame frame = Inl ErrInvalidEthertype) }"

definition test_build_and_parse_roundtrip :: "unit option" where
  "test_build_and_parse_roundtrip = do {
     let header = l2_header_new 0x1001 0x2002 (status_u8 NoError);
     let payload = [0xAA, 0xBB, 0xCC];
     let source = MacAddr 0x00 0x11 0x22 0x33 0x44 0x55;
     let destination = MacAddr 0x66 0x77 0x88 0x99 0xAA 0xBB;
     let vlan_id_pcp = 0x1234;
     let footer = \<lparr>sf_sequence_number = 1, sf_auth_tag = replicate AUTH_TAG_SIZE 0xAA\<rparr>;
     let frame = build_l2_frame source destination vlan_id_pcp header payload footer;
     parsed \<leftarrow> unwrap (parse_l2_frame frame);
     expect (pf_destination parsed = destination);
     expect (pf_source parsed = source);
     expect (pf_vlan_id_pcp parsed = vlan_id_pcp);
     expect (pf_header parsed = header);
     expect (pf_payload parsed = payload);
     expect (pf_sequence_number parsed = sf_sequence_number footer);
     expect (pf_auth_tag parsed = sf_auth_tag footer) }"

definition test_parse_l2_frame_accepts_untagged_l2_ethertype :: "unit option" where
  "test_parse_l2_frame_accepts_untagged_l2_ethertype = do {
     let header = l2_header_new 0x1001 0x2002 (status_u8 NoError);
     let payload = [0xAA, 0xBB];
     let source = MacAddr 0x00 0x11 0x22 0x33 0x44 0x55;
     let destination = MacAddr 0x66 0x77 0x88 0x99 0xAA 0xBB;
     let frame = (octets destination @ octets source) @ be16 ETHERTYPE_L2_PROTOCOL;
     let frame = l2_header_write_to header frame @ payload;
     let frame = footer_write_to \<lparr>sf_sequence_number = 9, sf_auth_tag = replicate AUTH_TAG_SIZE 0x55\<rparr> frame;
     parsed \<leftarrow> unwrap (parse_l2_frame frame);
     expect (pf_destination parsed = destination);
     expect (pf_source parsed = source);
     expect (pf_vlan_id_pcp parsed = 0);
     expect (pf_header parsed = header);
     expect (pf_payload parsed = payload);
     expect (pf_sequence_number parsed = 9);
     expect (pf_auth_tag parsed = replicate AUTH_TAG_SIZE 0x55) }"

lemma l2_header_tests_pass:
  "test_write_and_read = Some ()" "test_read_from_with_extra_bytes = Some ()"
  "test_read_from_short_buffer_errors = Some ()" "test_parse_l2_frame_rejects_short_frame = Some ()"
  by code_simp+

lemma l2_foreign_tests_pass:
  "test_parse_l2_frame_rejects_non_vlan_ethertype = Some ()"
  "test_parse_l2_frame_rejects_non_l2_ethertype = Some ()"
  by code_simp+

lemma l2_roundtrip_tests_pass:
  "test_build_and_parse_roundtrip = Some ()"
  "test_parse_l2_frame_accepts_untagged_l2_ethertype = Some ()"
  by code_simp+

section \<open>\<^verbatim>\<open>discovery_types.rs\<close>\<close>

definition TEST_VENDOR_ID :: u16 where "TEST_VENDOR_ID = 0x1234"
definition TEST_DEVICE_ID :: u16 where "TEST_DEVICE_ID = 0x5678"
definition TEST_SERIAL :: u32 where "TEST_SERIAL = 0xDEADBEEF"
definition TEST_IP :: bytes where "TEST_IP = [192, 168, 1, 100]"
definition TEST_NETMASK :: bytes where "TEST_NETMASK = [255, 255, 255, 0]"
definition TEST_GATEWAY :: bytes where "TEST_GATEWAY = [192, 168, 1, 1]"

definition test_discovered_device_creation :: "unit option" where
  "test_discovered_device_creation = do {
     let mac = MacAddr 0xAA 0xBB 0xCC 0xDD 0xEE 0xFF;
     let device_info = \<lparr>sdi_vendor_id = TEST_VENDOR_ID, sdi_device_id = TEST_DEVICE_ID,
       sdi_serial_number = TEST_SERIAL\<rparr>;
     let device = discovered_device_new mac device_info;
     expect (dd_mac_address device = mac);
     expect (dd_vendor_id device = TEST_VENDOR_ID);
     expect (dd_device_id device = TEST_DEVICE_ID);
     expect (dd_serial_number device = TEST_SERIAL) }"

definition test_sdcp_op_code_from_u8 :: "unit option" where
  "test_sdcp_op_code_from_u8 = do {
     expect (op_from_u8 0x01 = DiscoverReq);
     expect (op_from_u8 0x02 = DiscoverRes);
     expect (op_from_u8 0x03 = SetIpReq);
     expect (op_from_u8 0x04 = SetIpRes);
     expect (op_from_u8 0x05 = GetIpReq);
     expect (op_from_u8 0x06 = GetIpRes);
     expect (op_from_u8 0x07 = ActivateDhcpReq);
     expect (op_from_u8 0x08 = ActivateDhcpRes);
     expect (op_from_u8 0x00 = UnknownOperation);
     expect (op_from_u8 0xFF = UnknownOperation) }"

definition test_sdcp_header_new :: "unit option" where
  "test_sdcp_header_new = do {
     let header = sdcp_header_new DiscoverReq 0x1234;
     expect (sh_version header = SDCP_VERSION);
     expect (sh_op_code header = DiscoverReq);
     expect (sh_transaction_id header = 0x1234);
     expect (sh_flags header = SDCP_FLAGS) }"

definition test_sdcp_header_write_read_roundtrip :: "unit option" where
  "test_sdcp_header_write_read_roundtrip = do {
     let original = sdcp_header_new SetIpReq 0x5678;
     let buf = sdcp_header_write_to original [];
     got \<leftarrow> unwrap (sdcp_header_read_from buf);
     expect (sh_version got = sh_version original);
     expect (sh_op_code got = sh_op_code original);
     expect (sh_transaction_id got = sh_transaction_id original) }"

definition test_tlv_device_info :: "unit option" where
  "test_tlv_device_info = do {
     let tlv = tlv_device_info TEST_VENDOR_ID TEST_DEVICE_ID TEST_SERIAL;
     expect (tlv_type tlv = TLV_TYPE_DEVICE_INFO);
     parsed \<leftarrow> tlv_parse_device_info tlv;
     expect (sdi_vendor_id parsed = TEST_VENDOR_ID);
     expect (sdi_device_id parsed = TEST_DEVICE_ID);
     expect (sdi_serial_number parsed = TEST_SERIAL) }"

definition test_tlv_ip_config :: "unit option" where
  "test_tlv_ip_config = do {
     let tlv = tlv_ip_config TEST_IP TEST_NETMASK TEST_GATEWAY;
     parsed \<leftarrow> tlv_parse_ip_config tlv;
     expect (ic_ip parsed = TEST_IP);
     expect (ic_netmask parsed = TEST_NETMASK);
     expect (ic_gateway parsed = TEST_GATEWAY) }"

definition test_tlv_ip_report :: "unit option" where
  "test_tlv_ip_report = do {
     let tlv = tlv_ip_report TEST_IP TEST_NETMASK TEST_GATEWAY Dhcp;
     parsed \<leftarrow> tlv_parse_ip_report tlv;
     expect (ir_ip parsed = TEST_IP);
     expect (ir_netmask parsed = TEST_NETMASK);
     expect (ir_gateway parsed = TEST_GATEWAY);
     expect (ir_ip_source parsed = Dhcp) }"

definition test_tlv_status_report :: "unit option" where
  "test_tlv_status_report = do {
     let tlv = tlv_status_report ErrIpConflict;
     expect (tlv_type tlv = TLV_TYPE_STATUS_REPORT);
     expect (tlv_parse_status_report tlv = Some ErrIpConflict) }"

definition test_tlv_write_read_roundtrip :: "unit option" where
  "test_tlv_write_read_roundtrip = do {
     let original = tlv_device_info TEST_VENDOR_ID TEST_DEVICE_ID TEST_SERIAL;
     let buf = tlv_write_to original [];
     got \<leftarrow> unwrap (tlv_read_from buf);
     expect (tlv_type got = tlv_type original);
     expect (tlv_value got = tlv_value original) }"

definition test_tlv_parse_wrong_type_returns_none :: "unit option" where
  "test_tlv_parse_wrong_type_returns_none = do {
     let ip_config_tlv = tlv_ip_config TEST_IP TEST_NETMASK TEST_GATEWAY;
     expect (tlv_parse_device_info ip_config_tlv = None);
     expect (tlv_parse_status_report ip_config_tlv = None);
     expect (tlv_parse_ip_report ip_config_tlv = None) }"

definition test_tlv_parse_wrong_length_returns_none :: "unit option" where
  "test_tlv_parse_wrong_length_returns_none = do {
     expect (tlv_parse_device_info (tlv_new TLV_TYPE_DEVICE_INFO (replicate 4 0)) = None);
     expect (tlv_parse_ip_config (tlv_new TLV_TYPE_IP_CONFIG (replicate 8 0)) = None);
     expect (tlv_parse_ip_report (tlv_new TLV_TYPE_IP_REPORT (replicate 12 0)) = None);
     expect (tlv_parse_status_report (tlv_new TLV_TYPE_STATUS_REPORT (replicate 2 0)) = None) }"

definition test_parse_sdcp_payload_extracts_footer :: "unit option" where
  "test_parse_sdcp_payload_extracts_footer = do {
     let payload = sdcp_header_write_to (sdcp_header_new DiscoverReq 0x1234) [];
     let payload = tlv_write_to (tlv_device_info TEST_VENDOR_ID TEST_DEVICE_ID TEST_SERIAL) payload;
     let footer = \<lparr>sf_sequence_number = 11, sf_auth_tag = replicate AUTH_TAG_SIZE 0xAA\<rparr>;
     let payload = append_sdcp_footer payload footer;
     parsed \<leftarrow> unwrap (parse_sdcp_payload payload);
     expect (sh_op_code (sp_header parsed) = DiscoverReq);
     parsed_tlv \<leftarrow> unwrap (tlv_read_from (sp_tlv_payload parsed));
     info \<leftarrow> tlv_parse_device_info parsed_tlv;
     expect (sdi_vendor_id info = TEST_VENDOR_ID);
     expect (sp_sequence_number parsed = 11);
     expect (sp_auth_tag parsed = replicate AUTH_TAG_SIZE 0xAA) }"

definition test_parse_sdcp_payload_rejects_short_input :: "unit option" where
  "test_parse_sdcp_payload_rejects_short_input =
     expect (parse_sdcp_payload (replicate (SDCP_HEADER_SIZE + 10) 0) = Inl ErrInvalidLen)"

lemma discovery_types_tests_pass:
  "test_discovered_device_creation = Some ()" "test_sdcp_op_code_from_u8 = Some ()"
  "test_sdcp_header_new = Some ()" "test_sdcp_header_write_read_roundtrip = Some ()"
  "test_tlv_device_info = Some ()" "test_tlv_ip_config = Some ()" "test_tlv_ip_report = Some ()"
  "test_tlv_status_report = Some ()" "test_tlv_write_read_roundtrip = Some ()"
  "test_tlv_parse_wrong_type_returns_none = Some ()"
  "test_tlv_parse_wrong_length_returns_none = Some ()"
  "test_parse_sdcp_payload_extracts_footer = Some ()"
  "test_parse_sdcp_payload_rejects_short_input = Some ()"
  by code_simp+

section \<open>\<^verbatim>\<open>security/auth_footer.rs\<close>\<close>

definition write_and_read_footer_roundtrip :: "unit option" where
  "write_and_read_footer_roundtrip = do {
     let footer = \<lparr>sf_sequence_number = 11, sf_auth_tag = replicate AUTH_TAG_SIZE 0xAB\<rparr>;
     let bytes = footer_write_to footer [];
     parsed \<leftarrow> unwrap (footer_read_from bytes);
     expect (parsed = footer) }"

definition split_payload_and_footer_returns_parts :: "unit option" where
  "split_payload_and_footer_returns_parts = do {
     let footer = \<lparr>sf_sequence_number = 7, sf_auth_tag = replicate AUTH_TAG_SIZE 0xCD\<rparr>;
     let bytes = footer_write_to footer [0x01, 0x02, 0x03];
     (payload, parsed_footer) \<leftarrow> unwrap (split_payload_and_footer bytes);
     expect (payload = [0x01, 0x02, 0x03]);
     expect (parsed_footer = footer) }"

definition split_payload_and_footer_rejects_short_input :: "unit option" where
  "split_payload_and_footer_rejects_short_input =
     expect (split_payload_and_footer (replicate (SECURITY_FOOTER_SIZE - 1) 0) = Inl ErrInvalidLen)"

lemma auth_footer_tests_pass:
  "write_and_read_footer_roundtrip = Some ()" "split_payload_and_footer_returns_parts = Some ()"
  "split_payload_and_footer_rejects_short_input = Some ()"
  by code_simp+

section \<open>\<^verbatim>\<open>security/crypto.rs\<close>\<close>

definition calculate_hmac_is_stable_for_same_input :: "keyed_hash \<Rightarrow> unit option" where
  "calculate_hmac_is_stable_for_same_input H = do {
     let secret = replicate 32 0x11;
     let header = [0x01, 0x02, 0x03];
     let payload = [0xAA, 0xBB, 0xCC];
     let sequence = be64 42;
     let first = calculate_hmac H secret [header, payload, sequence];
     let second = calculate_hmac H secret [header, payload, sequence];
     expect (first = second) }"

definition calculate_hmac_changes_when_part_changes :: "keyed_hash \<Rightarrow> unit option" where
  "calculate_hmac_changes_when_part_changes H = do {
     let secret = replicate 32 0x22;
     let header = [0x10, 0x20];
     let payload_a = [0x01, 0x02];
     let payload_b = [0x01, 0x03];
     let sequence = be64 7;
     let tag_a = calculate_hmac H secret [header, payload_a, sequence];
     let tag_b = calculate_hmac H secret [header, payload_b, sequence];
     expect (tag_a \<noteq> tag_b) }"

definition verify_hmac_accepts_valid_tag :: "keyed_hash \<Rightarrow> unit option" where
  "verify_hmac_accepts_valid_tag H = do {
     let secret = replicate 32 0x33;
     let header = [0x01, 0x00];
     let payload = [0xAB, 0xCD];
     let sequence = be64 123;
     let tag = calculate_hmac H secret [header, payload, sequence];
     expect (verify_hmac H secret [header, payload, sequence] tag) }"

definition verify_hmac_rejects_invalid_tag :: "keyed_hash \<Rightarrow> unit option" where
  "verify_hmac_rejects_invalid_tag H = do {
     let secret = replicate 32 0x44;
     let header = [0x01, 0xFF];
     let payload = [0x10, 0x20];
     let sequence = be64 99;
     let tag = calculate_hmac H secret [header, payload, sequence];
     let invalid_tag = tag[0 := tag ! 0 XOR 0x01];
     expect (\<not> verify_hmac H secret [header, payload, sequence] invalid_tag) }"

lemma crypto_tests_pass:
  "calculate_hmac_is_stable_for_same_input H = Some ()" "verify_hmac_accepts_valid_tag H = Some ()"
  by (simp_all add: calculate_hmac_is_stable_for_same_input_def verify_hmac_accepts_valid_tag_def verify_hmac_own)

lemma changed_first_byte: "t[0 := t ! 0 XOR 1] \<noteq> t" if "t \<noteq> []" for t :: bytes
proof (cases t)
  case (Cons x xs)
  have "bit (x XOR 1) 0 \<noteq> bit x 0" by (simp add: bit_simps)
  then have "x XOR 1 \<noteq> x" by metis
  with Cons show ?thesis by simp
qed (use that in simp)

lemma crypto_changed_tag_refused:
  assumes "keyed_hash_ok H"
  shows "verify_hmac_rejects_invalid_tag H = Some ()"
proof -
  have len: "length (calculate_hmac H k ms) = AUTH_TAG_SIZE" for k ms by (rule length_calculate_hmac [OF assms])
  have "\<not> verify_hmac H k ms ((calculate_hmac H k ms)[0 := calculate_hmac H k ms ! 0 XOR 1])" for k ms
  proof -
    have "calculate_hmac H k ms \<noteq> []" using len [of k ms] by auto
    then show ?thesis using changed_first_byte len by (subst verify_hmac_iff [OF assms]) simp_all
  qed
  then show ?thesis by (simp add: verify_hmac_rejects_invalid_tag_def Let_def del: footer_sizes)
qed

lemma crypto_changed_part: "calculate_hmac_changes_when_part_changes checksum_hash = Some ()"
  by code_simp

section \<open>\<^verbatim>\<open>security/shared_secret.rs\<close>\<close>

text \<open>The \<^verbatim>\<open>hex\<close> crate is a parameter of the tests; they run with the decoder below.\<close>

definition hex_digit_value :: "char \<Rightarrow> u8 option" where
  "hex_digit_value c = map_of (zip ''0123456789abcdefABCDEF'' ([0..<16] @ [10..<16])) c \<bind> (\<lambda>n. Some (of_nat n))"

fun example_hex_decode :: "string \<Rightarrow> string + bytes" where
  "example_hex_decode [] = Inr []"
| "example_hex_decode [_] = Inl ''odd length''"
| "example_hex_decode (a # b # cs) =
     (case (hex_digit_value a, hex_digit_value b, example_hex_decode cs) of
        (Some x, Some y, Inr bs) \<Rightarrow> Inr ((16 * x + y) # bs)
      | (_, _, Inl e) \<Rightarrow> Inl e
      | _ \<Rightarrow> Inl ''invalid character'')"

definition parse_shared_secret_hex_accepts_plain_hex :: "(string \<Rightarrow> string + bytes) \<Rightarrow> unit option" where
  "parse_shared_secret_hex_accepts_plain_hex hex = do {
     let raw = ''00112233445566778899aabbccddeeff00112233445566778899aabbccddeeff'';
     parsed \<leftarrow> unwrap (parse_shared_secret_hex hex raw);
     expect (parsed ! 0 = 0x00);
     expect (parsed ! 1 = 0x11);
     expect (parsed ! 31 = 0xFF) }"

definition parse_shared_secret_hex_accepts_prefixed_hex :: "(string \<Rightarrow> string + bytes) \<Rightarrow> unit option" where
  "parse_shared_secret_hex_accepts_prefixed_hex hex = do {
     let raw = ''0x00112233445566778899aabbccddeeff00112233445566778899aabbccddeeff'';
     parsed \<leftarrow> unwrap (parse_shared_secret_hex hex raw);
     expect (length parsed = 32) }"

definition parse_shared_secret_hex_rejects_invalid_length :: "(string \<Rightarrow> string + bytes) \<Rightarrow> unit option" where
  "parse_shared_secret_hex_rejects_invalid_length hex =
     expect (is_err (parse_shared_secret_hex hex ''0011''))"

definition parse_shared_secret_hex_rejects_invalid_chars :: "(string \<Rightarrow> string + bytes) \<Rightarrow> unit option" where
  "parse_shared_secret_hex_rejects_invalid_chars hex =
     expect (is_err (parse_shared_secret_hex hex
       ''ZZ112233445566778899aabbccddeeff00112233445566778899aabbccddeeff''))"

lemma shared_secret_tests_pass:
  "parse_shared_secret_hex_accepts_plain_hex example_hex_decode = Some ()"
  "parse_shared_secret_hex_accepts_prefixed_hex example_hex_decode = Some ()"
  "parse_shared_secret_hex_rejects_invalid_length example_hex_decode = Some ()"
  "parse_shared_secret_hex_rejects_invalid_chars example_hex_decode = Some ()"
  by code_simp+

section \<open>\<^verbatim>\<open>l2_utils.rs\<close>\<close>

text \<open>\<open>TestProcessImage\<close>: its state is the payloads that were written.\<close>

definition test_process_image :: "bytes list process_image_access" where
  "test_process_image =
     \<lparr>get_layout = \<lambda>_. Inr [], read_outputs = \<lambda>_ _. Inr [],
      write_inputs = \<lambda>written data _. (Inr (), written @ [data])\<rparr>"

definition build_stream :: "u32 \<Rightarrow> stream_config" where
  "build_stream bit_len =
     \<lparr>sc_stream_id = 1001, sc_destination_mac = [0, 1, 2, 3, 4, 5], sc_vlan_id_pcp = 0x100,
      sc_cycle_time_nano = 1000000, sc_direction = direction_num Input,
      sc_stream_content = Some \<lparr>pos_byte_offset = 0, pos_bit_offset = 0, pos_bit_len = bit_len\<rparr>\<rparr>"

definition bit_len_to_byte_len_rounds_up :: "unit option" where
  "bit_len_to_byte_len_rounds_up = do {
     expect (bit_len_to_byte_len 0 = 0);
     expect (bit_len_to_byte_len 1 = 1);
     expect (bit_len_to_byte_len 7 = 1);
     expect (bit_len_to_byte_len 8 = 1);
     expect (bit_len_to_byte_len 9 = 2);
     expect (bit_len_to_byte_len 16 = 2) }"

definition gcd_all_returns_zero_for_empty_slice :: "unit option" where
  "gcd_all_returns_zero_for_empty_slice = expect (gcd_all [] = 0)"

definition gcd_all_reduces_values :: "unit option" where
  "gcd_all_reduces_values = do { expect (gcd_all [12, 18, 24] = 6); expect (gcd_all [7, 11] = 1) }"

definition ticks_per_cycle_ceil_and_minimum :: "unit option" where
  "ticks_per_cycle_ceil_and_minimum = do {
     expect (ticks_per_cycle 1 = 1);
     expect (ticks_per_cycle (ucast CYCLE_COUNTER_TICK_NS) = 1);
     expect (ticks_per_cycle (ucast (CYCLE_COUNTER_TICK_NS + 1)) = 2) }"

definition tolerance_ticks_matches_multiplier :: "unit option" where
  "tolerance_ticks_matches_multiplier = do {
     let cycle_ns = (ucast CYCLE_COUNTER_TICK_NS * 4 :: u32);
     let expected = f64_as_u32 (of_int \<lceil>f64_div
           (f64_mul (real (unat cycle_ns)) ALLOWED_MULTIPLE_OVER_CYCLE_TIME)
           (real (unat CYCLE_COUNTER_TICK_NS))\<rceil>);
     expect (tolerance_ticks cycle_ns = max expected 1) }"

definition handle_input_packet_accepts_ethernet_padding :: "unit option" where
  "handle_input_packet_accepts_ethernet_padding = do {
     let stream = build_stream 16;
     let payload_with_padding = [0x12, 0x34, 0x00, 0x00, 0x00];
     (_, writes) \<leftarrow> unwrapped (handle_input_packet test_process_image [] stream payload_with_padding);
     expect (length writes = 1);
     expect (writes ! 0 = [0x12, 0x34]) }"

definition handle_input_packet_rejects_payload_shorter_than_stream_size :: "unit option" where
  "handle_input_packet_rejects_payload_shorter_than_stream_size = do {
     let result = fst (handle_input_packet test_process_image [] (build_stream 16) [0x12]);
     expect (result = Inl ErrInvalidLen) }"

definition absolute_cycle_jitter_returns_absolute_delta :: "unit option" where
  "absolute_cycle_jitter_returns_absolute_delta = do {
     expect (absolute_cycle_jitter_ns 2000000 2000000 = 0);
     expect (absolute_cycle_jitter_ns 2200000 2000000 = 200000);
     expect (absolute_cycle_jitter_ns 1800000 2000000 = 200000) }"

lemma l2_utils_tests_pass:
  "bit_len_to_byte_len_rounds_up = Some ()" "gcd_all_returns_zero_for_empty_slice = Some ()"
  "gcd_all_reduces_values = Some ()" "ticks_per_cycle_ceil_and_minimum = Some ()"
  "handle_input_packet_accepts_ethernet_padding = Some ()"
  "handle_input_packet_rejects_payload_shorter_than_stream_size = Some ()"
  "absolute_cycle_jitter_returns_absolute_delta = Some ()"
  by code_simp+

lemma l2_utils_tolerance_test_passes: "tolerance_ticks_matches_multiplier = Some ()"
proof -
  have "max (ucast CYCLE_COUNTER_TICK_NS * 4) 1 = (ucast CYCLE_COUNTER_TICK_NS * 4 :: u32)" by code_simp
  then show ?thesis by (simp add: tolerance_ticks_matches_multiplier_def tolerance_ticks_def Let_def)
qed

section \<open>\<^verbatim>\<open>demo_runtime.rs\<close>\<close>

definition test_build_and_extract_vlan_fields :: "unit option" where
  "test_build_and_extract_vlan_fields = do {
     let tag = build_vlan_tag 100 5;
     expect (vlan_identifier tag = 100) }"

definition test_netmask_to_prefix :: "unit option" where
  "test_netmask_to_prefix = do {
     a \<leftarrow> unwrap (netmask_to_prefix_length [255, 255, 255, 0]);
     expect (a = 24);
     b \<leftarrow> unwrap (netmask_to_prefix_length [255, 255, 0, 0]);
     expect (b = 16) }"

definition test_netmask_to_prefix_rejects_non_contiguous :: "unit option" where
  "test_netmask_to_prefix_rejects_non_contiguous =
     expect (is_err (netmask_to_prefix_length [255, 0, 255, 0]))"

definition test_demo_interface_names_fit_linux_limit :: "unit option" where
  "test_demo_interface_names_fit_linux_limit =
     expect (list_all (\<lambda>interface_name. length interface_name \<le> 15)
       [DEFAULT_DEMO_BRIDGE, DEMO_MASTER_INTERFACE, DEMO_MASTER_BRIDGE_PEER, DEMO_TEMPERATURE_INTERFACE,
        DEMO_TEMPERATURE_BRIDGE_PEER, DEMO_VALVE_INTERFACE, DEMO_VALVE_BRIDGE_PEER])"

lemma demo_runtime_tests_pass:
  "test_build_and_extract_vlan_fields = Some ()" "test_netmask_to_prefix = Some ()"
  "test_netmask_to_prefix_rejects_non_contiguous = Some ()"
  "test_demo_interface_names_fit_linux_limit = Some ()"
  by code_simp+

end
