(* ===== verification/Tests_State.thy ===== *)
theory Tests_State
  imports Test_Support State_Machine Stream_Store Discovery_Auth
begin

text \<open>
  The unit tests of the state a station keeps, \<^verbatim>\<open>state_machine.rs\<close>, \<^verbatim>\<open>stream_store.rs\<close> and
  \<^verbatim>\<open>security/discovery_auth.rs\<close> in \<^verbatim>\<open>src/common/src\<close>, run on the model: every test is translated from
  the test of its name, and passes, with any keyed hash. In \<^verbatim>\<open>state_machine.rs\<close> the requests a test
  unwraps on its way are the list of \<open>requested\<close>.
\<close>

section \<open>\<^verbatim>\<open>state_machine.rs\<close>\<close>

primrec requested_from :: "device_state list \<Rightarrow> device_state \<Rightarrow> device_state option" where
  "requested_from [] m = Some m"
| "requested_from (t # ts) m = do { (_, m) \<leftarrow> unwrapped (set_target_state m t); requested_from ts m }"

abbreviation requested :: "device_state list \<Rightarrow> device_state option" where
  "requested ts \<equiv> requested_from ts state_manager_new"

definition test_initial_state :: "unit option" where
  "test_initial_state = expect (state_manager_new = Init)"

definition test_valid_init_to_discovery :: "unit option" where
  "test_valid_init_to_discovery = do {
     let (r, m) = set_target_state state_manager_new DiscoverySync;
     expect (is_ok r); expect (m = DiscoverySync) }"

definition test_valid_discovery_to_preop :: "unit option" where
  "test_valid_discovery_to_preop = do {
     m \<leftarrow> requested [DiscoverySync];
     let (r, m) = set_target_state m PreOp;
     expect (is_ok r); expect (m = PreOp) }"

definition test_valid_preop_to_safeop :: "unit option" where
  "test_valid_preop_to_safeop = do {
     m \<leftarrow> requested [DiscoverySync, PreOp];
     let (r, m) = set_target_state m SafeOp;
     expect (is_ok r); expect (m = SafeOp) }"

definition test_valid_safeop_to_op :: "unit option" where
  "test_valid_safeop_to_op = do {
     m \<leftarrow> requested [DiscoverySync, PreOp, SafeOp];
     let (r, m) = set_target_state m Op;
     expect (is_ok r); expect (m = Op) }"

definition test_valid_op_to_safeop :: "unit option" where
  "test_valid_op_to_safeop = do {
     m \<leftarrow> requested [DiscoverySync, PreOp, SafeOp, Op];
     let (r, m) = set_target_state m SafeOp;
     expect (is_ok r); expect (m = SafeOp) }"

definition test_valid_safeop_to_preop :: "unit option" where
  "test_valid_safeop_to_preop = do {
     m \<leftarrow> requested [DiscoverySync, PreOp, SafeOp];
     let (r, m) = set_target_state m PreOp;
     expect (is_ok r); expect (m = PreOp) }"

definition test_valid_safeop_to_shutdown :: "unit option" where
  "test_valid_safeop_to_shutdown = do {
     m \<leftarrow> requested [DiscoverySync, PreOp, SafeOp];
     let (r, m) = set_target_state m Shutdown;
     expect (is_ok r); expect (m = Shutdown) }"

definition test_valid_op_to_shutdown :: "unit option" where
  "test_valid_op_to_shutdown = do {
     m \<leftarrow> requested [DiscoverySync, PreOp, SafeOp, Op];
     let (r, m) = set_target_state m Shutdown;
     expect (is_ok r); expect (m = Shutdown) }"

definition test_valid_error_to_init :: "unit option" where
  "test_valid_error_to_init = do {
     m \<leftarrow> requested [Error];
     let (r, m) = set_target_state m Init;
     expect (is_ok r); expect (m = Init) }"

definition test_same_state_transition :: "unit option" where
  "test_same_state_transition = do {
     let (r, m) = set_target_state state_manager_new Init;
     expect (is_ok r); expect (m = Init) }"

definition test_error_transition_from_any_state :: "unit option" where
  "test_error_transition_from_any_state = do {
     m \<leftarrow> requested [DiscoverySync];
     let (r, m) = set_target_state m Error;
     expect (is_ok r); expect (m = Error) }"

definition test_invalid_init_to_preop :: "unit option" where
  "test_invalid_init_to_preop = do {
     let (r, m) = set_target_state state_manager_new PreOp;
     expect (is_err r); expect (m = Init) }"

definition test_invalid_init_to_op :: "unit option" where
  "test_invalid_init_to_op = do {
     let (r, m) = set_target_state state_manager_new Op;
     expect (is_err r); expect (m = Init) }"

definition test_invalid_discovery_to_op :: "unit option" where
  "test_invalid_discovery_to_op = do {
     m \<leftarrow> requested [DiscoverySync];
     let (r, m) = set_target_state m Op;
     expect (is_err r); expect (m = DiscoverySync) }"

definition test_invalid_preop_to_op :: "unit option" where
  "test_invalid_preop_to_op = do {
     m \<leftarrow> requested [DiscoverySync, PreOp];
     let (r, m) = set_target_state m Op;
     expect (is_err r); expect (m = PreOp) }"

lemma state_machine_tests_pass:
  "test_initial_state = Some ()" "test_valid_init_to_discovery = Some ()"
  "test_valid_discovery_to_preop = Some ()" "test_valid_preop_to_safeop = Some ()"
  "test_valid_safeop_to_op = Some ()" "test_valid_op_to_safeop = Some ()"
  "test_valid_safeop_to_preop = Some ()" "test_valid_safeop_to_shutdown = Some ()"
  "test_valid_op_to_shutdown = Some ()" "test_valid_error_to_init = Some ()"
  "test_same_state_transition = Some ()" "test_error_transition_from_any_state = Some ()"
  "test_invalid_init_to_preop = Some ()" "test_invalid_init_to_op = Some ()"
  "test_invalid_discovery_to_op = Some ()" "test_invalid_preop_to_op = Some ()"
  by (simp_all add: state_manager_new_def test_initial_state_def test_valid_init_to_discovery_def
      test_valid_discovery_to_preop_def test_valid_preop_to_safeop_def test_valid_safeop_to_op_def
      test_valid_op_to_safeop_def test_valid_safeop_to_preop_def test_valid_safeop_to_shutdown_def
      test_valid_op_to_shutdown_def test_valid_error_to_init_def test_same_state_transition_def
      test_error_transition_from_any_state_def test_invalid_init_to_preop_def test_invalid_init_to_op_def
      test_invalid_discovery_to_op_def test_invalid_preop_to_op_def)

section \<open>\<^verbatim>\<open>stream_store.rs\<close>\<close>

definition build_test_stream :: "u32 \<Rightarrow> direction \<Rightarrow> stream_config" where
  "build_test_stream stream_id dir =
     \<lparr>sc_stream_id = stream_id, sc_destination_mac = [0xAA, 0xBB, 0xCC, 0xDD, 0xEE, 0xFF],
      sc_vlan_id_pcp = 0x0001, sc_cycle_time_nano = 1000, sc_direction = direction_num dir,
      sc_stream_content = Some \<lparr>pos_byte_offset = 0, pos_bit_offset = 0, pos_bit_len = 16\<rparr>\<rparr>"

definition build_header :: "u16 \<Rightarrow> l2_header" where
  "build_header stream_id = l2_header_new stream_id 1 0"

definition test_add_and_get_stream :: "unit option" where
  "test_add_and_get_stream = do {
     let store = stream_store_new (replicate 32 0x11);
     (_, store) \<leftarrow> unwrapped (add_stream_config (build_test_stream 1 Input) store);
     stream \<leftarrow> get_stream_config 1 store;
     expect (sc_stream_id stream = 1) }"

definition test_duplicate_stream_rejected :: "unit option" where
  "test_duplicate_stream_rejected = do {
     let store = stream_store_new (replicate 32 0x11);
     (_, store) \<leftarrow> unwrapped (add_stream_config (build_test_stream 1 Input) store);
     let result = fst (add_stream_config (build_test_stream 1 Output) store);
     expect (result = Inl ErrParamInvalid) }"

text \<open>The order in which the map is walked is an argument, here and below.\<close>

definition test_add_multiple_streams :: "u16 list \<Rightarrow> unit option" where
  "test_add_multiple_streams order = do {
     let store = stream_store_new (replicate 32 0x11);
     (_, store) \<leftarrow> unwrapped (add_stream_configs [build_test_stream 1 Input, build_test_stream 2 Output] store);
     let inputs = get_streams_by_direction order Input store;
     let outputs = get_streams_by_direction order Output store;
     expect (length inputs = 1);
     expect (length outputs = 1) }"

definition test_reset_clears_store :: "u16 list \<Rightarrow> unit option" where
  "test_reset_clears_store order = do {
     let store = stream_store_new (replicate 32 0x11);
     (_, store) \<leftarrow> unwrapped (add_stream_config (build_test_stream 1 Input) store);
     let store = stream_store_reset store;
     expect (get_all_streams order store = []) }"

definition test_generate_stream_tag_increments_output_sequence :: "keyed_hash \<Rightarrow> unit option" where
  "test_generate_stream_tag_increments_output_sequence H = do {
     let store = stream_store_new (replicate 32 0x55);
     (_, store) \<leftarrow> unwrapped (add_stream_config (build_test_stream 1 Output) store);
     let header = build_header 1;
     let payload = [0x01, 0x02, 0x03];
     ((sequence_a, _), store) \<leftarrow> unwrapped (generate_stream_tag H header payload store);
     ((sequence_b, _), store) \<leftarrow> unwrapped (generate_stream_tag H header payload store);
     expect (sequence_a = 1);
     expect (sequence_b = 2) }"

definition test_validate_stream_tag_accepts_and_updates_sequence :: "keyed_hash \<Rightarrow> unit option" where
  "test_validate_stream_tag_accepts_and_updates_sequence H = do {
     let secret = replicate 32 0x66;
     (_, sender_store) \<leftarrow> unwrapped (add_stream_config (build_test_stream 1 Output) (stream_store_new secret));
     (_, receiver_store) \<leftarrow> unwrapped (add_stream_config (build_test_stream 1 Input) (stream_store_new secret));
     let header = build_header 1;
     let payload = [0xAA, 0xBB];
     ((sequence_number, auth_tag), sender_store) \<leftarrow> unwrapped (generate_stream_tag H header payload sender_store);
     (valid, receiver_store) \<leftarrow>
       unwrapped (validate_stream_tag H header payload sequence_number auth_tag receiver_store);
     expect valid }"

definition test_validate_stream_tag_rejects_replay :: "keyed_hash \<Rightarrow> unit option" where
  "test_validate_stream_tag_rejects_replay H = do {
     let secret = replicate 32 0x77;
     (_, sender_store) \<leftarrow> unwrapped (add_stream_config (build_test_stream 1 Output) (stream_store_new secret));
     (_, receiver_store) \<leftarrow> unwrapped (add_stream_config (build_test_stream 1 Input) (stream_store_new secret));
     let header = build_header 1;
     let payload = [0xAA, 0xBB];
     ((sequence_number, auth_tag), sender_store) \<leftarrow> unwrapped (generate_stream_tag H header payload sender_store);
     (valid, receiver_store) \<leftarrow>
       unwrapped (validate_stream_tag H header payload sequence_number auth_tag receiver_store);
     expect valid;
     (valid, receiver_store) \<leftarrow>
       unwrapped (validate_stream_tag H header payload sequence_number auth_tag receiver_store);
     expect (\<not> valid) }"

lemma add_test_stream [simp]:
  "add_stream_config (build_test_stream i d) (stream_store_new k) =
     (if unat i < 65536
      then (Inr (), \<lparr>ss_shared_secret = k, ss_streams = [ucast i \<mapsto> fresh_entry (build_test_stream i d)]\<rparr>)
      else (Inl ErrParamInvalid, stream_store_new k))"
  by (simp add: add_stream_config_def insert_stream_config_eq stream_store_new_def config_ok_def
      config_id_def build_test_stream_def)

lemma test_stream_direction [simp]: "sc_direction (build_test_stream i d) = direction_num d"
  by (simp add: build_test_stream_def)

lemma stream_store_tests_pass:
  "test_add_and_get_stream = Some ()" "test_duplicate_stream_rejected = Some ()"
  "test_add_multiple_streams [1, 2] = Some ()" "test_add_multiple_streams [2, 1] = Some ()"
  "test_reset_clears_store [] = Some ()"
  by code_simp+

lemma stream_tag_tests_pass:
  "test_generate_stream_tag_increments_output_sequence H = Some ()"
  "test_validate_stream_tag_accepts_and_updates_sequence H = Some ()"
  "test_validate_stream_tag_rejects_replay H = Some ()"
  by (simp_all add: test_generate_stream_tag_increments_output_sequence_def
      test_validate_stream_tag_accepts_and_updates_sequence_def test_validate_stream_tag_rejects_replay_def
      generate_stream_tag_def validate_stream_tag_def build_header_def l2_header_new_def fresh_entry_def
      saturating_add_def verify_hmac_own Let_def)

section \<open>\<^verbatim>\<open>security/discovery_auth.rs\<close>\<close>

definition DEVICE_MAC :: mac_addr where "DEVICE_MAC = MacAddr 0x10 0x11 0x12 0x13 0x14 0x15"

definition test_header :: sdcp_header where "test_header = sdcp_header_new DiscoverReq 1"

definition add_new_device_registers_context :: "unit option" where
  "add_new_device_registers_context = do {
     let handler = add_new_device DEVICE_MAC (discovery_auth_new (replicate 32 0x11));
     expect (has_device DEVICE_MAC handler) }"

definition create_auth_tag_increments_sequence :: "keyed_hash \<Rightarrow> unit option" where
  "create_auth_tag_increments_sequence H = do {
     let handler = add_new_device DEVICE_MAC (discovery_auth_new (replicate 32 0x11));
     let payload = [0xAA, 0xBB];
     let (r, handler) = create_auth_tag H DEVICE_MAC test_header payload handler;
     (seq_a, _) \<leftarrow> r;
     let (r, handler) = create_auth_tag H DEVICE_MAC test_header payload handler;
     (seq_b, _) \<leftarrow> r;
     expect (seq_a = 1);
     expect (seq_b = 2) }"

definition validate_auth_tag_accepts_fresh_valid_message :: "keyed_hash \<Rightarrow> unit option" where
  "validate_auth_tag_accepts_fresh_valid_message H = do {
     let secret = replicate 32 0x22;
     let sender = add_new_device DEVICE_MAC (discovery_auth_new secret);
     let receiver = add_new_device DEVICE_MAC (discovery_auth_new secret);
     let payload = [0x01, 0x02, 0x03];
     let header = test_header;
     (sequence, tag) \<leftarrow> fst (create_auth_tag H DEVICE_MAC header payload sender);
     expect (fst (validate_auth_tag H DEVICE_MAC header payload sequence tag receiver)) }"

definition validate_auth_tag_rejects_replay :: "keyed_hash \<Rightarrow> unit option" where
  "validate_auth_tag_rejects_replay H = do {
     let secret = replicate 32 0x33;
     let sender = add_new_device DEVICE_MAC (discovery_auth_new secret);
     let receiver = add_new_device DEVICE_MAC (discovery_auth_new secret);
     let payload = [0x77, 0x88];
     let header = test_header;
     (sequence, tag) \<leftarrow> fst (create_auth_tag H DEVICE_MAC header payload sender);
     let (valid, receiver) = validate_auth_tag H DEVICE_MAC header payload sequence tag receiver;
     expect valid;
     let (valid, receiver) = validate_auth_tag H DEVICE_MAC header payload sequence tag receiver;
     expect (\<not> valid) }"

definition validate_discovery_response_checks_sequence_one :: "keyed_hash \<Rightarrow> unit option" where
  "validate_discovery_response_checks_sequence_one H = do {
     let secret = replicate 32 0x44;
     let handler = discovery_auth_new secret;
     let payload = [0xAA, 0xBB, 0xCC];
     let header = sdcp_header_new DiscoverRes 5;
     let sequence = 1;
     let header_bytes = [sh_version header, op_u8 (sh_op_code header),
       ucast (drop_bit 8 (sh_transaction_id header)), ucast (sh_transaction_id header), sh_flags header];
     let tag = calculate_hmac H secret [header_bytes, payload, be64 sequence];
     expect (validate_discovery_response H header payload sequence tag handler);
     expect (\<not> validate_discovery_response H header payload 2 tag handler) }"

lemma discovery_auth_tests_pass:
  "add_new_device_registers_context = Some ()" "create_auth_tag_increments_sequence H = Some ()"
  "validate_auth_tag_accepts_fresh_valid_message H = Some ()" "validate_auth_tag_rejects_replay H = Some ()"
  "validate_discovery_response_checks_sequence_one H = Some ()"
  by (simp_all add: add_new_device_registers_context_def create_auth_tag_increments_sequence_def
      validate_auth_tag_accepts_fresh_valid_message_def validate_auth_tag_rejects_replay_def
      validate_discovery_response_checks_sequence_one_def add_new_device_def discovery_auth_new_def
      has_device_def create_auth_tag_def validate_auth_tag_def validate_discovery_response_def
      device_security_context_default_def serialize_header_def saturating_add_def verify_hmac_own Let_def)

end
