(* ===== verification/Tests_Mocks.thy ===== *)
theory Tests_Mocks
  imports Test_Support
begin

text \<open>
  The unit tests of the test support itself, \<^verbatim>\<open>src/common/src/test_mocks.rs\<close> and
  \<^verbatim>\<open>src/tests/src/mock_network.rs\<close>, run on its model. \<open>None\<close> is the error \<open>WouldBlock\<close> of a receiver,
  so \<open>unwrap\<close> of what it returns is the value itself.
\<close>

section \<open>\<^verbatim>\<open>test_mocks.rs\<close>\<close>

definition test_mock_device_info_default_values :: "unit option" where
  "test_mock_device_info_default_values = do {
     let mac = MacAddr 0x11 0x22 0x33 0x44 0x55 0x66;
     let mock = (mock_device_info_new mac, mock_interface_new);
     info \<leftarrow> unwrap (read_device_info mock_info_access mock);
     expect (di_mac_address info = [0x11, 0x22, 0x33, 0x44, 0x55, 0x66]);
     expect (di_ip_address info = [192, 168, 1, 100]);
     expect (di_vendor_id info = 0x1234);
     expect (di_device_id info = 0x5678);
     expect (di_serial_number info = 0xDEADBEEF) }"

definition test_mock_device_info_with_custom_ip :: "unit option" where
  "test_mock_device_info_with_custom_ip = do {
     let mac = MacAddr 0x11 0x22 0x33 0x44 0x55 0x66;
     let mock = (mock_device_info_with_ip mac [10, 0, 0, 50] [255, 255, 0, 0] [10, 0, 0, 1], mock_interface_new);
     info \<leftarrow> unwrap (read_device_info mock_info_access mock);
     expect (di_ip_address info = [10, 0, 0, 50]);
     expect (di_netmask info = [255, 255, 0, 0]);
     expect (di_gateway info = [10, 0, 0, 1]) }"

definition test_mock_device_info_write_read :: "unit option" where
  "test_mock_device_info_write_read = do {
     let mac = MacAddr 0x11 0x22 0x33 0x44 0x55 0x66;
     let mock = (mock_device_info_new mac, mock_interface_new);
     info \<leftarrow> unwrap (read_device_info mock_info_access mock);
     let info = info\<lparr>di_ip_address := [172, 16, 0, 1]\<rparr>;
     (_, mock) \<leftarrow> unwrapped (write_device_info mock_info_access mock info);
     updated \<leftarrow> unwrap (read_device_info mock_info_access mock);
     expect (di_ip_address updated = [172, 16, 0, 1]) }"

definition test_mock_network_interface_success :: "unit option" where
  "test_mock_network_interface_success = do {
     let (result, mock) = mock_apply_ip_config mock_interface_new [10, 0, 0, 1] [255, 255, 255, 0] [10, 0, 0, 254];
     expect (is_ok result);
     expect (was_called mock);
     let configs = mi_applied_configs mock;
     expect (length configs = 1);
     expect (configs ! 0 = ([10, 0, 0, 1], [255, 255, 255, 0], [10, 0, 0, 254])) }"

definition test_mock_network_interface_failure :: "unit option" where
  "test_mock_network_interface_failure = do {
     let (result, mock) = mock_apply_ip_config mock_interface_failing [10, 0, 0, 1] [255, 255, 255, 0] [10, 0, 0, 254];
     expect (is_err result);
     expect (\<not> was_called mock) }"

definition test_create_mock_interface :: "unit option" where
  "test_create_mock_interface = do {
     let mac = MacAddr 0xAA 0xBB 0xCC 0xDD 0xEE 0xFF;
     let interface = create_mock_interface ''test0'' mac;
     expect (ni_name interface = ''test0'');
     expect (ni_mac interface = Some mac) }"

definition test_mock_datalink_sender_captures_packets :: "unit option" where
  "test_mock_datalink_sender_captures_packets = do {
     let packet1 = [0x01, 0x02, 0x03, 0x04];
     let packet2 = [0xAA, 0xBB, 0xCC, 0xDD, 0xEE, 0xFF];
     let (result1, sent) = data_link_send_to packet1 [];
     let (result2, sent) = data_link_send_to packet2 sent;
     expect (result1 = Some True);
     expect (result2 = Some True);
     expect (length sent = 2);
     expect (sent ! 0 = packet1);
     expect (sent ! 1 = packet2) }"

definition test_mock_datalink_sender_build_and_send :: "unit option" where
  "test_mock_datalink_sender_build_and_send = expect (fst (data_link_build_and_send 1 64 []) = Some True)"

definition test_mock_datalink_receiver_returns_frames_in_order :: "unit option" where
  "test_mock_datalink_receiver_returns_frames_in_order = do {
     let frame1 = [0x01, 0x02, 0x03];
     let frame2 = [0x04, 0x05, 0x06];
     let frame3 = [0x07, 0x08, 0x09];
     let receiver = fold add_response_frame [frame1, frame2, frame3] data_link_receiver_new;
     let (r, receiver) = data_link_next receiver;
     received1 \<leftarrow> r;
     expect (received1 = frame1);
     let (r, receiver) = data_link_next receiver;
     received2 \<leftarrow> r;
     expect (received2 = frame2);
     let (r, receiver) = data_link_next receiver;
     received3 \<leftarrow> r;
     expect (received3 = frame3) }"

definition test_mock_datalink_receiver_empty_returns_would_block :: "unit option" where
  "test_mock_datalink_receiver_empty_returns_would_block =
     expect (fst (data_link_next data_link_receiver_new) = None)"

definition test_mock_datalink_receiver_exhausted_returns_would_block :: "unit option" where
  "test_mock_datalink_receiver_exhausted_returns_would_block = do {
     let (r, receiver) = data_link_next (add_response_frame [0x01, 0x02] data_link_receiver_new);
     _ \<leftarrow> r;
     expect (fst (data_link_next receiver) = None) }"

definition test_mock_datalink_receiver_large_frame :: "unit option" where
  "test_mock_datalink_receiver_large_frame = do {
     let large_frame = map (\<lambda>i. of_nat (i mod 256)) [0..<1500];
     let (r, receiver) = data_link_next (add_response_frame large_frame data_link_receiver_new);
     received \<leftarrow> r;
     expect (length received = 1500);
     expect (received = large_frame) }"

definition test_mock_datalink_receiver_can_add_frames_after_consumption :: "unit option" where
  "test_mock_datalink_receiver_can_add_frames_after_consumption = do {
     let (r, receiver) = data_link_next (add_response_frame [0x01] data_link_receiver_new);
     _ \<leftarrow> r;
     let (r, receiver) = data_link_next (add_response_frame [0x02] receiver);
     received \<leftarrow> r;
     expect (received = [0x02]) }"

lemma mock_device_tests_pass:
  "test_mock_device_info_default_values = Some ()" "test_mock_device_info_with_custom_ip = Some ()"
  "test_mock_device_info_write_read = Some ()" "test_mock_network_interface_success = Some ()"
  "test_mock_network_interface_failure = Some ()" "test_create_mock_interface = Some ()"
  by code_simp+

lemma mock_datalink_tests_pass:
  "test_mock_datalink_sender_captures_packets = Some ()"
  "test_mock_datalink_sender_build_and_send = Some ()"
  "test_mock_datalink_receiver_returns_frames_in_order = Some ()"
  "test_mock_datalink_receiver_empty_returns_would_block = Some ()"
  "test_mock_datalink_receiver_exhausted_returns_would_block = Some ()"
  "test_mock_datalink_receiver_can_add_frames_after_consumption = Some ()"
  by code_simp+

lemma mock_datalink_large_frame_passes: "test_mock_datalink_receiver_large_frame = Some ()"
  by (simp add: test_mock_datalink_receiver_large_frame_def data_link_next_def add_response_frame_def
      data_link_receiver_new_def del: upt_Suc upt_rec_numeral)

section \<open>\<^verbatim>\<open>mock_network.rs\<close>\<close>

definition test_mock_network_bidirectional :: "unit option" where
  "test_mock_network_bidirectional = do {
     let network = mock_network_new;
     let frame1 = [1, 2, 3, 4];
     let slave_inbox = snd (mock_send_to frame1 (master_to_slave network));
     expect (has_frames slave_inbox);
     got \<leftarrow> fst (mock_next (mock_receiver_new slave_inbox));
     expect (got = frame1);
     let frame2 = [5, 6, 7, 8];
     let master_inbox = snd (mock_send_to frame2 (slave_to_master network));
     expect (has_frames master_inbox);
     got \<leftarrow> fst (mock_next (mock_receiver_new master_inbox));
     expect (got = frame2) }"

definition test_mock_receiver_empty :: "unit option" where
  "test_mock_receiver_empty = do {
     let receiver = mock_receiver_new [];
     expect (\<not> has_frames (mr_inbox receiver));
     expect (fst (mock_next receiver) = None) }"

definition test_mock_receiver_multiple_frames :: "unit option" where
  "test_mock_receiver_multiple_frames = do {
     let receiver = mock_receiver_new [[1, 2], [3, 4], [5, 6]];
     expect (pending_count (mr_inbox receiver) = 3);
     let (r, receiver) = mock_next receiver;
     got \<leftarrow> r;
     expect (got = [1, 2]);
     let (r, receiver) = mock_next receiver;
     got \<leftarrow> r;
     expect (got = [3, 4]);
     let (r, receiver) = mock_next receiver;
     got \<leftarrow> r;
     expect (got = [5, 6]);
     expect (fst (mock_next receiver) = None) }"

lemma mock_network_tests_pass:
  "test_mock_network_bidirectional = Some ()" "test_mock_receiver_empty = Some ()"
  "test_mock_receiver_multiple_frames = Some ()"
  by code_simp+

end
