(* ===== verification/Tests_Slave.thy ===== *)
theory Tests_Slave
  imports Test_Support Token_Store Device_Status Slave_Hardware
begin

text \<open>
  The unit tests of \<^verbatim>\<open>src/slave/src/token_store.rs\<close>, \<^verbatim>\<open>device_status.rs\<close> and \<^verbatim>\<open>hardware_mock.rs\<close>, run on
  the model: every test is translated from the test of its name. What the tests read of clocks and random
  sources is an argument, as are the hash and the encoding of tokens, and they pass for all of them.
\<close>

section \<open>\<^verbatim>\<open>token_store.rs\<close>\<close>

definition test_from_bytes_valid :: "unit option" where
  "test_from_bytes_valid = do {
     let bytes = replicate 32 1;
     key \<leftarrow> pre_shared_key_from_bytes bytes;
     expect (key = bytes) }"

definition test_from_bytes_invalid_length_short :: "unit option" where
  "test_from_bytes_invalid_length_short = expect (pre_shared_key_from_bytes (replicate 31 1) = None)"

definition test_from_bytes_invalid_length_long :: "unit option" where
  "test_from_bytes_invalid_length_long = expect (pre_shared_key_from_bytes (replicate 33 1) = None)"

text \<open>A duration is a number of nanoseconds.\<close>

definition from_secs :: "nat \<Rightarrow> nat" where "from_secs s = s * 10 ^ 9"
definition from_millis :: "nat \<Rightarrow> nat" where "from_millis ms = ms * 10 ^ 6"

definition create_store_with_key :: "bytes \<Rightarrow> token_store" where
  "create_store_with_key key = token_store_new key"

definition test_issue_and_validate_token ::
    "token_hasher \<Rightarrow> (bytes \<Rightarrow> string) \<Rightarrow> token_inputs \<Rightarrow> nat \<Rightarrow> unit option" where
  "test_issue_and_validate_token H enc i now = do {
     let key = replicate 32 7;
     let store = create_store_with_key key;
     (token, store) \<leftarrow> unwrapped (issue_token H enc key (from_secs 10) i store);
     expect (fst (validate_token H now token store)) }"

definition test_issue_token_rejects_invalid_key ::
    "token_hasher \<Rightarrow> (bytes \<Rightarrow> string) \<Rightarrow> token_inputs \<Rightarrow> unit option" where
  "test_issue_token_rejects_invalid_key H enc i = do {
     let key = replicate 32 1;
     let store = create_store_with_key key;
     let invalid_key = replicate 32 2;
     let result = fst (issue_token H enc invalid_key (from_secs 10) i store);
     expect (result = Inl ErrAuthFailed) }"

definition test_token_expiry_invalidates_token ::
    "token_hasher \<Rightarrow> (bytes \<Rightarrow> string) \<Rightarrow> token_inputs \<Rightarrow> nat \<Rightarrow> unit option" where
  "test_token_expiry_invalidates_token H enc i now = do {
     let key = replicate 32 3;
     let store = create_store_with_key key;
     (token, store) \<leftarrow> unwrapped (issue_token H enc key (from_millis 10) i store);
     expect (\<not> fst (validate_token H now token store)) }"

definition test_new_token_keeps_previous_valid ::
    "token_hasher \<Rightarrow> (bytes \<Rightarrow> string) \<Rightarrow> token_inputs \<Rightarrow> token_inputs \<Rightarrow> nat \<Rightarrow> nat \<Rightarrow> unit option" where
  "test_new_token_keeps_previous_valid H enc i j now later = do {
     let key = replicate 32 9;
     let store = create_store_with_key key;
     (token_old, store) \<leftarrow> unwrapped (issue_token H enc key (from_secs 10) i store);
     (token_new, store) \<leftarrow> unwrapped (issue_token H enc key (from_secs 10) j store);
     let (valid, store) = validate_token H now token_old store;
     expect valid;
     expect (fst (validate_token H later token_new store)) }"

lemma pre_shared_key_tests_pass:
  "test_from_bytes_valid = Some ()" "test_from_bytes_invalid_length_short = Some ()"
  "test_from_bytes_invalid_length_long = Some ()"
  by code_simp+

lemmas token_tests = create_store_with_key_def token_store_new_def issue_token_def validate_token_def
  is_shared_key_valid_def pre_shared_key_from_bytes_def insert_token_def prune_expired_locked_def
  from_secs_def from_millis_def Let_def

text \<open>The tests pass when they take less than the ten seconds a token lives, and when the sleep of one
  of them was at least the ten milliseconds its token lives.\<close>

lemma token_tests_pass:
  "now < ti_issued i + 10 ^ 10 \<Longrightarrow> test_issue_and_validate_token H enc i now = Some ()"
  "test_issue_token_rejects_invalid_key H enc i = Some ()"
  "ti_issued i + 10 ^ 7 \<le> now \<Longrightarrow> test_token_expiry_invalidates_token H enc i now = Some ()"
  by (simp_all add: test_issue_and_validate_token_def test_issue_token_rejects_invalid_key_def
      test_token_expiry_invalidates_token_def token_tests)

lemma two_tokens_test_passes:
  assumes "ti_issued i \<le> ti_issued j" "ti_inserted j \<le> now" "now \<le> later" "later < ti_issued i + 10 ^ 10"
  shows "test_new_token_keeps_previous_valid H enc i j now later = Some ()"
  using assms by (simp add: test_new_token_keeps_previous_valid_def token_tests)

section \<open>\<^verbatim>\<open>device_status.rs\<close>\<close>

text \<open>What a subscriber receives next: the first status that was sent after it subscribed.\<close>

definition received_after :: "status_store \<Rightarrow> status_store \<Rightarrow> device_status option" where
  "received_after subscribed s =
     (case drop (length (st_sent subscribed)) (st_sent s) of [] \<Rightarrow> None | d # _ \<Rightarrow> Some d)"

definition test_initial_status_defaults :: "u64 \<Rightarrow> unit option" where
  "test_initial_status_defaults now = do {
     let status = st_current (status_store_new now);
     expect (ds_status_code status = status_num NoError);
     expect (ds_state status = state_num Init);
     expect (ds_temperature status = 0) }"

definition test_update_state_broadcasts_and_logs :: "u64 \<Rightarrow> u64 \<Rightarrow> unit option" where
  "test_update_state_broadcasts_and_logs start now = do {
     let subscribed = status_store_new start;
     let store = update_state DiscoverySync now subscribed;
     received \<leftarrow> received_after subscribed store;
     expect (ds_state received = state_num DiscoverySync);
     let (total, entries) = get_log 0 5 store;
     expect (1 \<le> total);
     expect (le_log_reason (entries ! 0) = log_reason_num StateChange) }"

definition test_update_temperature_logs_and_updates :: "u64 \<Rightarrow> u64 \<Rightarrow> unit option" where
  "test_update_temperature_logs_and_updates start now = do {
     let subscribed = status_store_new start;
     let store = update_temperature 42 now subscribed;
     received \<leftarrow> received_after subscribed store;
     expect (ds_temperature received = 42);
     let (total, entries) = get_log 0 5 store;
     expect (1 \<le> total);
     expect (le_log_reason (entries ! 0) = log_reason_num TemperatureChange) }"

definition test_log_pagination :: "u64 \<Rightarrow> u64 \<Rightarrow> u64 \<Rightarrow> u64 \<Rightarrow> unit option" where
  "test_log_pagination start t1 t2 t3 = do {
     let store = status_store_new start;
     let store = update_state DiscoverySync t1 store;
     let store = update_temperature 10 t2 store;
     let store = update_temperature 20 t3 store;
     let (total, first_page) = get_log 0 2 store;
     let (_, second_page) = get_log 2 2 store;
     expect (3 \<le> total);
     expect (length first_page = 2);
     expect (length second_page = 1) }"

lemma device_status_tests_pass:
  "test_initial_status_defaults now = Some ()" "test_update_state_broadcasts_and_logs start now = Some ()"
  "test_update_temperature_logs_and_updates start now = Some ()" "test_log_pagination start t1 t2 t3 = Some ()"
  by (simp_all add: test_initial_status_defaults_def test_update_state_broadcasts_and_logs_def
      test_update_temperature_logs_and_updates_def test_log_pagination_def received_after_def
      status_store_new_def initial_status_def update_state_def update_temperature_def publish_def
      append_log_def get_log_def Let_def)

section \<open>\<^verbatim>\<open>hardware_mock.rs\<close>\<close>

definition EXPECTED_MAC :: bytes where "EXPECTED_MAC = [0xAA, 0xBB, 0xCC, 0xDD, 0xEE, 0xFF]"

definition SENSOR_POSITION :: position where
  "SENSOR_POSITION = \<lparr>pos_byte_offset = 0, pos_bit_offset = 0, pos_bit_len = 16\<rparr>"

definition LED_POSITION :: position where
  "LED_POSITION = \<lparr>pos_byte_offset = 0, pos_bit_offset = 0, pos_bit_len = 1\<rparr>"

definition assert_sensor_bytes :: "dummy_hardware \<Rightarrow> u8 \<Rightarrow> u8 \<Rightarrow> unit option" where
  "assert_sensor_bytes hw expected_high expected_low = do {
     outputs \<leftarrow> unwrap (dummy_read_outputs hw SENSOR_POSITION);
     expect (outputs ! 0 = expected_high);
     expect (outputs ! 1 = expected_low) }"

definition test_initialization :: "unit option" where
  "test_initialization = do {
     let hw = dummy_new;
     outputs \<leftarrow> unwrap (dummy_read_outputs hw SENSOR_POSITION);
     expect (length outputs = 2);
     expect (outputs = [0, 0]);
     valve \<leftarrow> get_valve_status hw;
     expect (\<not> valve) }"

definition test_device_info_initialization :: "unit option" where
  "test_device_info_initialization = do {
     info \<leftarrow> unwrap (dummy_read_device_info dummy_new);
     expect (di_vendor_id info = 42);
     expect (di_device_id info = 42);
     expect (di_serial_number info = 0x12345678);
     expect (di_mac_address info = EXPECTED_MAC);
     expect (di_firmware_version info = 1);
     expect (di_capabilities info = 0) }"

definition test_simulate_sensor_change :: "unit option" where
  "test_simulate_sensor_change = do {
     hw \<leftarrow> simulate_sensor_change 1000 dummy_new;
     assert_sensor_bytes hw 0x03 0xE8;
     hw \<leftarrow> simulate_sensor_change (- 1) hw;
     assert_sensor_bytes hw 0xFF 0xFF;
     hw \<leftarrow> simulate_sensor_change 0 hw;
     assert_sensor_bytes hw 0x00 0x00 }"

definition test_temperature_sensor_access :: "unit option" where
  "test_temperature_sensor_access = do {
     hw \<leftarrow> simulate_sensor_change 1234 dummy_new;
     t \<leftarrow> unwrap (read_temperature hw);
     expect (t = 1234);
     hw \<leftarrow> simulate_sensor_change (- 10) hw;
     t \<leftarrow> unwrap (read_temperature hw);
     expect (t = - 10) }"

definition test_boundary_temperatures :: "unit option" where
  "test_boundary_temperatures = do {
     hw \<leftarrow> simulate_sensor_change 0x7FFF dummy_new;
     assert_sensor_bytes hw 0x7F 0xFF;
     hw \<leftarrow> simulate_sensor_change 0x8000 hw;
     assert_sensor_bytes hw 0x80 0x00 }"

text \<open>Writing the valve's byte, and the valve afterwards.\<close>

definition valve_after :: "bytes \<Rightarrow> dummy_hardware \<Rightarrow> (bool \<times> dummy_hardware) option" where
  "valve_after data hw = do {
     (_, hw) \<leftarrow> unwrapped (dummy_write_inputs hw data LED_POSITION);
     valve \<leftarrow> get_valve_status hw;
     Some (valve, hw) }"

definition test_write_outputs_single_byte :: "unit option" where
  "test_write_outputs_single_byte = do {
     (valve, hw) \<leftarrow> valve_after [0x01] dummy_new;
     expect valve;
     (valve, hw) \<leftarrow> valve_after [0x00] hw;
     expect (\<not> valve) }"

definition test_write_outputs_multiple_bits :: "unit option" where
  "test_write_outputs_multiple_bits = do {
     (valve, hw) \<leftarrow> valve_after [0x01] dummy_new;
     expect valve;
     (valve, hw) \<leftarrow> valve_after [0x00] hw;
     expect (\<not> valve);
     (valve, hw) \<leftarrow> valve_after [0x00] hw;
     expect (\<not> valve) }"

text \<open>A write that is refused leaves the valve closed.\<close>

definition refused_write :: "bytes \<Rightarrow> dummy_hardware \<Rightarrow> unit option" where
  "refused_write data hw = do {
     let (result, hw) = dummy_write_inputs hw data LED_POSITION;
     expect (result = Inl ErrInvalidLen);
     valve \<leftarrow> get_valve_status hw;
     expect (\<not> valve) }"

definition test_write_outputs_oversized_buffer :: "unit option" where
  "test_write_outputs_oversized_buffer = refused_write [0x01, 0xFF, 0xAA, 0xBB] dummy_new"

definition test_write_outputs_empty_buffer :: "unit option" where
  "test_write_outputs_empty_buffer = refused_write [] dummy_new"

definition test_get_layout :: "unit option" where
  "test_get_layout = do {
     layout \<leftarrow> unwrap (dummy_get_layout dummy_new);
     expect (length layout = 2);
     let led = layout ! 0;
     expect (pv_name led = ''Status_LED'');
     expect (pv_byte_offset led = 2);
     expect (pv_bit_len led = 1);
     expect (pv_direction led = direction_num Output);
     let temp = layout ! 1;
     expect (pv_name temp = ''Temperature'');
     expect (pv_byte_offset temp = 0);
     expect (pv_bit_len temp = 16);
     expect (pv_direction temp = direction_num Input) }"

definition test_sensor_and_led_independent :: "unit option" where
  "test_sensor_and_led_independent = do {
     hw \<leftarrow> simulate_sensor_change 500 dummy_new;
     assert_sensor_bytes hw 0x01 0xF4;
     valve \<leftarrow> get_valve_status hw;
     expect (\<not> valve);
     (valve, hw) \<leftarrow> valve_after [0x01] hw;
     expect valve;
     assert_sensor_bytes hw 0x01 0xF4 }"

definition test_round_trip_sensor_to_output :: "unit option" where
  "test_round_trip_sensor_to_output = do {
     hw \<leftarrow> simulate_sensor_change 256 dummy_new;
     outputs \<leftarrow> unwrap (dummy_read_outputs hw SENSOR_POSITION);
     refused_write outputs hw }"

definition test_write_device_info :: "unit option" where
  "test_write_device_info = do {
     let hw = dummy_new;
     new_info \<leftarrow> unwrap (dummy_read_device_info hw);
     let new_info = new_info\<lparr>di_ip_address := [192, 168, 1, 100], di_netmask := [255, 255, 255, 0],
       di_gateway := [192, 168, 1, 1]\<rparr>;
     (_, hw) \<leftarrow> unwrapped (dummy_write_device_info new_info hw);
     updated \<leftarrow> unwrap (dummy_read_device_info hw);
     expect (di_ip_address updated = [192, 168, 1, 100]);
     expect (di_netmask updated = [255, 255, 255, 0]);
     expect (di_gateway updated = [192, 168, 1, 1]) }"

lemma hardware_sensor_tests_pass:
  "test_initialization = Some ()" "test_device_info_initialization = Some ()"
  "test_simulate_sensor_change = Some ()" "test_temperature_sensor_access = Some ()"
  "test_boundary_temperatures = Some ()" "test_get_layout = Some ()" "test_write_device_info = Some ()"
  by code_simp+

lemma hardware_valve_tests_pass:
  "test_write_outputs_single_byte = Some ()" "test_write_outputs_multiple_bits = Some ()"
  "test_write_outputs_oversized_buffer = Some ()" "test_write_outputs_empty_buffer = Some ()"
  "test_sensor_and_led_independent = Some ()" "test_round_trip_sensor_to_output = Some ()"
  by code_simp+

subsection \<open>Threads\<close>

text \<open>The threads of a test share the hardware; each of their accesses is one critical section. Readers
  that change nothing see the same hardware in whatever order they run.\<close>

definition run_concurrent :: "dummy_hardware \<Rightarrow> nat \<Rightarrow> (dummy_hardware \<Rightarrow> unit option) \<Rightarrow> unit option" where
  "run_concurrent hw thread_count task = expect (list_all (\<lambda>_. task hw = Some ()) [0..<thread_count])"

definition test_concurrent_reads :: "unit option" where
  "test_concurrent_reads = do {
     hw \<leftarrow> simulate_sensor_change 42 dummy_new;
     run_concurrent hw 5 (\<lambda>hw. do {
       outputs \<leftarrow> unwrap (dummy_read_outputs hw SENSOR_POSITION);
       expect (outputs = [0x00, 0x2A]) }) }"

definition test_concurrent_device_info_reads :: "unit option" where
  "test_concurrent_device_info_reads =
     run_concurrent dummy_new 5 (\<lambda>hw. do {
       info \<leftarrow> unwrap (dummy_read_device_info hw);
       expect (di_serial_number info = 0x12345678);
       expect (di_mac_address info = EXPECTED_MAC) })"

lemma concurrent_read_tests_pass:
  "test_concurrent_reads = Some ()" "test_concurrent_device_info_reads = Some ()"
  by code_simp+

text \<open>A writer reads the information and later writes its own copy back; \<open>local\<close> has what the writers
  have read. A schedule is any sequence of the accesses.\<close>

datatype info_access = WriterReads u8 | WriterWrites u8 | ReaderReads

fun access_info :: "info_access \<Rightarrow> dummy_hardware \<times> (u8 \<rightharpoonup> device_info) \<Rightarrow> (dummy_hardware \<times> (u8 \<rightharpoonup> device_info)) option" where
  "access_info (WriterReads i) (hw, local) = do {
     info \<leftarrow> unwrap (dummy_read_device_info hw);
     Some (hw, local(i \<mapsto> info\<lparr>di_ip_address := [10, 0, 0, i]\<rparr>)) }"
| "access_info (WriterWrites i) (hw, local) =
     (case local i of
        None \<Rightarrow> Some (hw, local)
      | Some info \<Rightarrow> do { (_, hw) \<leftarrow> unwrapped (dummy_write_device_info info hw); Some (hw, local) })"
| "access_info ReaderReads (hw, local) = do {
     info \<leftarrow> unwrap (dummy_read_device_info hw);
     expect (length (di_ip_address info) = 4);
     Some (hw, local) }"

primrec info_accesses :: "info_access list \<Rightarrow> dummy_hardware \<times> (u8 \<rightharpoonup> device_info) \<Rightarrow> (dummy_hardware \<times> (u8 \<rightharpoonup> device_info)) option" where
  "info_accesses [] s = Some s"
| "info_accesses (a # as) s = access_info a s \<bind> info_accesses as"

definition test_concurrent_device_info_write_read :: "info_access list \<Rightarrow> unit option" where
  "test_concurrent_device_info_write_read schedule = do {
     _ \<leftarrow> info_accesses schedule (dummy_new, Map.empty);
     Some () }"

definition addresses_of_4 :: "dummy_hardware \<times> (u8 \<rightharpoonup> device_info) \<Rightarrow> bool" where
  "addresses_of_4 s \<longleftrightarrow> length (di_ip_address (dh_device_info (fst s))) = 4 \<and>
     (\<forall>i info. snd s i = Some info \<longrightarrow> length (di_ip_address info) = 4)"

lemma info_access_keeps: "addresses_of_4 s \<Longrightarrow> \<exists>s'. access_info a s = Some s' \<and> addresses_of_4 s'"
  by (cases s; cases a)
    (auto simp: addresses_of_4_def dummy_read_device_info_def dummy_write_device_info_def expect_def
      split: option.split)

lemma concurrent_write_test_passes: "test_concurrent_device_info_write_read schedule = Some ()"
proof -
  have "\<exists>s'. info_accesses schedule s = Some s'" if "addresses_of_4 s" for s
    using that
  proof (induction schedule arbitrary: s)
    case (Cons a schedule)
    obtain s1 where "access_info a s = Some s1" "addresses_of_4 s1" using info_access_keeps [OF Cons.prems] by blast
    with Cons.IH show ?case by auto
  qed simp
  moreover have "addresses_of_4 (dummy_new, Map.empty)"
    by (simp add: addresses_of_4_def dummy_new_def dummy_device_info_def)
  ultimately show ?thesis by (force simp: test_concurrent_device_info_write_read_def)
qed

end
