(* ===== verification/Tests_Master.thy ===== *)
theory Tests_Master
  imports Test_Support Master_Discovery
begin

text \<open>
  The unit tests of \<^verbatim>\<open>src/master/src/discovery.rs\<close>, run on the model: every test is translated from the
  test of its name. The frames are laid out as \<open>Ethernet.wire_pnet\<close> does; a test runs with the keyed
  hash it is given, and passes with the example of \<open>Security\<close>. The number of times a loop polls its
  receiver before the timeout is an argument; five are more than any test has frames.
\<close>

section \<open>Fixtures\<close>

definition SLAVE_MAC :: mac_addr where "SLAVE_MAC = MacAddr 0x11 0x22 0x33 0x44 0x55 0x66"
definition SLAVE2_MAC :: mac_addr where "SLAVE2_MAC = MacAddr 0x77 0x88 0x99 0xAA 0xBB 0xCC"
definition VENDOR_ID :: u16 where "VENDOR_ID = 0x1234"
definition DEVICE_ID :: u16 where "DEVICE_ID = 0x5678"
definition SERIAL_NUMBER :: u32 where "SERIAL_NUMBER = 0xDEADBEEF"
definition DEFAULT_IP :: bytes where "DEFAULT_IP = [192, 168, 1, 100]"
definition DEFAULT_NETMASK :: bytes where "DEFAULT_NETMASK = [255, 255, 255, 0]"
definition DEFAULT_GATEWAY :: bytes where "DEFAULT_GATEWAY = [192, 168, 1, 1]"
definition TEST_SHARED_SECRET :: bytes where "TEST_SHARED_SECRET = replicate 32 0x5A"

definition build_sdcp_frame ::
    "keyed_hash \<Rightarrow> mac_addr \<Rightarrow> mac_addr \<Rightarrow> u16 \<Rightarrow> sdcp_op_code \<Rightarrow> tlv option \<Rightarrow> bytes" where
  "build_sdcp_frame H source_mac dest_mac transaction_id op_code tlv =
     (let header = sdcp_header_new op_code transaction_id;
          sdcp_payload = sdcp_header_write_to header [];
          tlv_payload = (case tlv of None \<Rightarrow> [] | Some tlv \<Rightarrow> tlv_write_to tlv []);
          sdcp_payload = sdcp_payload @ tlv_payload;
          header_bytes = [sh_version header, op_u8 (sh_op_code header),
            ucast (drop_bit 8 (sh_transaction_id header)), ucast (sh_transaction_id header), sh_flags header];
          sequence_number = 1;
          auth_tag = calculate_hmac H TEST_SHARED_SECRET [header_bytes, tlv_payload, be64 sequence_number];
          sdcp_payload = footer_write_to \<lparr>sf_sequence_number = sequence_number, sf_auth_tag = auth_tag\<rparr> sdcp_payload
      in octets dest_mac @ octets source_mac @ be16 ETHERTYPE_SDCP @ sdcp_payload)"

definition create_discovery_response ::
    "keyed_hash \<Rightarrow> mac_addr \<Rightarrow> mac_addr \<Rightarrow> u16 \<Rightarrow> u16 \<Rightarrow> u16 \<Rightarrow> u32 \<Rightarrow> bytes" where
  "create_discovery_response H source_mac dest_mac transaction_id vendor_id device_id serial_number =
     build_sdcp_frame H source_mac dest_mac transaction_id DiscoverRes
       (Some (tlv_device_info vendor_id device_id serial_number))"

definition create_get_ip_response ::
    "keyed_hash \<Rightarrow> mac_addr \<Rightarrow> mac_addr \<Rightarrow> u16 \<Rightarrow> bytes \<Rightarrow> bytes \<Rightarrow> bytes \<Rightarrow> ip_source \<Rightarrow> bytes" where
  "create_get_ip_response H source_mac dest_mac transaction_id ip netmask gateway src =
     build_sdcp_frame H source_mac dest_mac transaction_id GetIpRes
       (Some (tlv_ip_report ip netmask gateway src))"

definition create_set_ip_response ::
    "keyed_hash \<Rightarrow> mac_addr \<Rightarrow> mac_addr \<Rightarrow> u16 \<Rightarrow> status_code \<Rightarrow> bytes" where
  "create_set_ip_response H source_mac dest_mac transaction_id status =
     build_sdcp_frame H source_mac dest_mac transaction_id SetIpRes (Some (tlv_status_report status))"

text \<open>\<open>new_with_mocks\<close>: unlike \<open>new\<close>, it does not register the broadcast address.\<close>

definition discovery_master_new_with_mocks :: "device_state \<Rightarrow> bytes \<Rightarrow> discovery_master" where
  "discovery_master_new_with_mocks state shared_secret =
     \<lparr>dm_state = state, dm_devices = Map.empty, dm_counter = 1, dm_auth = discovery_auth_new shared_secret\<rparr>"

text \<open>The master of a test: its environment, what its receiver gives, and its state.\<close>

record test_master =
  tm_env :: sdcp_env
  tm_receiver :: data_link_receiver
  tm_master :: discovery_master

definition create_test_master_with_responses :: "keyed_hash \<Rightarrow> bytes list \<Rightarrow> test_master" where
  "create_test_master_with_responses H responses =
     (let interface = create_mock_interface ''mock0'' TEST_MAC;
          device_state_manager = snd (set_target_state state_manager_new DiscoverySync);
          receiver = fold add_response_frame responses data_link_receiver_new
      in \<lparr>tm_env = \<lparr>sv_hash = H, sv_pnet = wire_pnet, sv_mac = ni_mac interface\<rparr>, tm_receiver = receiver,
          tm_master = discovery_master_new_with_mocks device_state_manager TEST_SHARED_SECRET\<rparr>)"

definition create_test_master :: "keyed_hash \<Rightarrow> test_master" where
  "create_test_master H =
     (let interface = create_mock_interface ''mock0'' TEST_MAC;
          device_state_manager = snd (set_target_state state_manager_new DiscoverySync)
      in \<lparr>tm_env = \<lparr>sv_hash = H, sv_pnet = wire_pnet, sv_mac = ni_mac interface\<rparr>,
          tm_receiver = data_link_receiver_new,
          tm_master = discovery_master_new_with_mocks device_state_manager TEST_SHARED_SECRET\<rparr>)"

text \<open>The operations of the master over the mock sender, whose result is that of \<open>send_to\<close>.\<close>

definition test_discover :: "nat \<Rightarrow> test_master \<Rightarrow> ((status_code + discovered_device list) \<times> discovery_master) option" where
  "test_discover polls t =
     map_option (\<lambda>(r, _, m). (r, m))
       (discover_devices (tm_env t) (fst (data_link_send_to [] [])) (polled polls (tm_receiver t)) (tm_master t))"

definition test_get_ip :: "nat \<Rightarrow> mac_addr \<Rightarrow> test_master \<Rightarrow> (status_code + ip_report) option" where
  "test_get_ip polls target t =
     map_option fst
       (get_ip_config (tm_env t) target (fst (data_link_send_to [] [])) (polled polls (tm_receiver t)) (tm_master t))"

definition test_set_ip :: "nat \<Rightarrow> mac_addr \<Rightarrow> bytes \<Rightarrow> bytes \<Rightarrow> bytes \<Rightarrow> test_master \<Rightarrow> (status_code + unit) option" where
  "test_set_ip polls target ip netmask gateway t =
     map_option fst
       (set_ip_config (tm_env t) target ip netmask gateway (fst (data_link_send_to [] []))
          (polled polls (tm_receiver t)) (tm_master t))"

definition default_discovery_response :: "keyed_hash \<Rightarrow> bytes" where
  "default_discovery_response H =
     create_discovery_response H SLAVE_MAC TEST_MAC 1 VENDOR_ID DEVICE_ID SERIAL_NUMBER"

definition default_get_ip_response :: "keyed_hash \<Rightarrow> bytes" where
  "default_get_ip_response H =
     create_get_ip_response H SLAVE_MAC TEST_MAC 1 DEFAULT_IP DEFAULT_NETMASK DEFAULT_GATEWAY Manuell"

definition default_set_ip_response :: "keyed_hash \<Rightarrow> status_code \<Rightarrow> bytes" where
  "default_set_ip_response H status = create_set_ip_response H SLAVE_MAC TEST_MAC 1 status"

section \<open>One frame\<close>

definition test_frame :: "keyed_hash \<Rightarrow> bytes \<Rightarrow> discovered_device option" where
  "test_frame H frame =
     fst (process_discover_frame \<lparr>sv_hash = H, sv_pnet = wire_pnet, sv_mac = Some TEST_MAC\<rparr> frame 1
       (discovery_auth_new TEST_SHARED_SECRET))"

definition test_process_discover_frame_valid :: "keyed_hash \<Rightarrow> unit option" where
  "test_process_discover_frame_valid H = do {
     device \<leftarrow> test_frame H (default_discovery_response H);
     expect (dd_mac_address device = SLAVE_MAC);
     expect (dd_vendor_id device = VENDOR_ID);
     expect (dd_device_id device = DEVICE_ID);
     expect (dd_serial_number device = SERIAL_NUMBER) }"

definition test_process_discover_frame_wrong_transaction_id :: "keyed_hash \<Rightarrow> unit option" where
  "test_process_discover_frame_wrong_transaction_id H = do {
     let frame = create_discovery_response H SLAVE_MAC TEST_MAC 0x9999 VENDOR_ID DEVICE_ID SERIAL_NUMBER;
     expect (test_frame H frame = None) }"

definition test_process_discover_frame_wrong_opcode :: "keyed_hash \<Rightarrow> unit option" where
  "test_process_discover_frame_wrong_opcode H = do {
     let frame = build_sdcp_frame H SLAVE_MAC TEST_MAC 1 DiscoverReq None;
     expect (test_frame H frame = None) }"

definition test_process_discover_frame_wrong_ethertype :: "keyed_hash \<Rightarrow> unit option" where
  "test_process_discover_frame_wrong_ethertype H = do {
     let frame = octets SLAVE_MAC @ octets TEST_MAC @ be16 0x0800 @ replicate 50 0;
     expect (test_frame H frame = None) }"

lemma master_frame_tests_pass:
  "test_process_discover_frame_valid checksum_hash = Some ()"
  "test_process_discover_frame_wrong_transaction_id checksum_hash = Some ()"
  "test_process_discover_frame_wrong_opcode checksum_hash = Some ()"
  "test_process_discover_frame_wrong_ethertype checksum_hash = Some ()"
  by code_simp+

section \<open>Discovery\<close>

definition test_discover_devices_with_single_response :: "nat \<Rightarrow> keyed_hash \<Rightarrow> unit option" where
  "test_discover_devices_with_single_response polls H = do {
     let master = create_test_master_with_responses H [default_discovery_response H];
     (r, m) \<leftarrow> test_discover polls master;
     devices \<leftarrow> unwrap r;
     expect (length devices = 1);
     expect (dd_mac_address (devices ! 0) = SLAVE_MAC);
     expect (dd_vendor_id (devices ! 0) = VENDOR_ID);
     expect (dd_device_id (devices ! 0) = DEVICE_ID);
     expect (dd_serial_number (devices ! 0) = SERIAL_NUMBER);
     expect (dm_devices m SLAVE_MAC \<noteq> None) }"

definition test_discover_devices_with_multiple_responses :: "nat \<Rightarrow> keyed_hash \<Rightarrow> unit option" where
  "test_discover_devices_with_multiple_responses polls H = do {
     let responses =
       [create_discovery_response H SLAVE_MAC TEST_MAC 1 0x1111 0x2222 0x11111111,
        create_discovery_response H SLAVE2_MAC TEST_MAC 1 0x3333 0x4444 0x22222222];
     let master = create_test_master_with_responses H responses;
     (r, m) \<leftarrow> test_discover polls master;
     devices \<leftarrow> unwrap r;
     expect (length devices = 2);
     expect (card (dom (dm_devices m)) = 2);
     a \<leftarrow> dm_devices m SLAVE_MAC;
     expect (dd_vendor_id a = 0x1111);
     b \<leftarrow> dm_devices m SLAVE2_MAC;
     expect (dd_vendor_id b = 0x3333) }"

definition test_discover_devices_no_responses :: "nat \<Rightarrow> keyed_hash \<Rightarrow> unit option" where
  "test_discover_devices_no_responses polls H = do {
     let master = create_test_master H;
     (r, m) \<leftarrow> test_discover polls master;
     devices \<leftarrow> unwrap r;
     expect (devices = []);
     expect (dom (dm_devices m) = {}) }"

definition test_discover_devices_ignores_wrong_transaction_id :: "nat \<Rightarrow> keyed_hash \<Rightarrow> unit option" where
  "test_discover_devices_ignores_wrong_transaction_id polls H = do {
     let response = create_discovery_response H SLAVE_MAC TEST_MAC 99 VENDOR_ID DEVICE_ID SERIAL_NUMBER;
     let master = create_test_master_with_responses H [response];
     (r, m) \<leftarrow> test_discover polls master;
     devices \<leftarrow> unwrap r;
     expect (devices = []) }"

definition test_clear_discovered_devices :: "nat \<Rightarrow> keyed_hash \<Rightarrow> unit option" where
  "test_clear_discovered_devices polls H = do {
     let master = create_test_master_with_responses H [default_discovery_response H];
     (_, m) \<leftarrow> test_discover polls master;
     expect (card (dom (dm_devices m)) = 1);
     let m = clear_discovered_devices m;
     expect (dom (dm_devices m) = {}) }"

text \<open>A cache that starts empty holds the devices a discovery returns, and none twice.\<close>

definition cache_is :: "discovered_device list \<times> discovery_master \<Rightarrow> bool" where
  "cache_is nm \<longleftrightarrow> dom (dm_devices (snd nm)) = dd_mac_address ` set (fst nm) \<and> distinct (map dd_mac_address (fst nm))"

lemma discover_step_cache: "cache_is nm \<Longrightarrow> cache_is (discover_step env tid nm received)"
  by (cases nm) (auto simp: cache_is_def discover_step_def Let_def case_prod_beta domIff
      split: option.splits)

lemma discover_loop_cache: "cache_is nm \<Longrightarrow> cache_is (discover_loop env tid received nm)"
  unfolding discover_loop_def
  by (induction received arbitrary: nm) (simp_all add: discover_step_cache)

lemma build_request_devices:
  "build_request_frame env d op tid tlv m = Some (r, m') \<Longrightarrow> dm_devices m' = dm_devices m"
  by (auto simp: build_request_frame_def Let_def split: option.splits if_splits prod.splits)

lemma test_discover_cache:
  assumes "test_discover polls t = Some (Inr devices, m)" and "dm_devices (tm_master t) = Map.empty"
  shows "dom (dm_devices m) = dd_mac_address ` set devices \<and> card (dom (dm_devices m)) = length devices"
proof -
  from assms(1) obtain tid m1 m2 frame where
    req: "build_request_frame (tm_env t) BROADCAST_MAC DiscoverReq tid None m1 = Some (Inr frame, m2)"
    and m1: "dm_devices m1 = dm_devices (tm_master t)"
    and loop: "discover_loop (tm_env t) tid (polled polls (tm_receiver t)) ([], m2) = (devices, m)"
    by (auto simp: test_discover_def discover_devices_def next_transaction_id_def Let_def
        split: option.splits sum.splits prod.splits if_splits)
  have "cache_is ([], m2)"
    using build_request_devices [OF req] m1 assms(2) by (simp add: cache_is_def)
  from discover_loop_cache [OF this, of "tm_env t" tid "polled polls (tm_receiver t)"] have "cache_is (devices, m)"
    unfolding loop .
  then have "dom (dm_devices m) = set (map dd_mac_address devices)" and "distinct (map dd_mac_address devices)"
    by (simp_all add: cache_is_def)
  with distinct_card [OF this(2)] show ?thesis by simp
qed

lemma mock_master_devices [simp]:
  "dm_devices (tm_master (create_test_master H)) = Map.empty"
  "dm_devices (tm_master (create_test_master_with_responses H responses)) = Map.empty"
  by (simp_all add: create_test_master_def create_test_master_with_responses_def
      discovery_master_new_with_mocks_def)

lemma master_discover_tests_pass:
  "test_discover_devices_with_single_response 5 checksum_hash = Some ()"
  "test_discover_devices_ignores_wrong_transaction_id 5 checksum_hash = Some ()"
  by code_simp+

lemma discover_results:
  assumes "map_option (\<lambda>(r, m). case r of Inl _ \<Rightarrow> None | Inr ds \<Rightarrow> Some (f ds m)) x = Some (Some z)"
  obtains ds m where "x = Some (Inr ds, m)" "f ds m = z"
proof (cases x)
  case (Some rm)
  with assms that show thesis by (cases rm; cases "fst rm") auto
qed (use assms in simp)

lemma master_discover_multiple_passes:
  "test_discover_devices_with_multiple_responses 5 checksum_hash = Some ()"
proof -
  let ?t = "create_test_master_with_responses checksum_hash
     [create_discovery_response checksum_hash SLAVE_MAC TEST_MAC 1 0x1111 0x2222 0x11111111,
      create_discovery_response checksum_hash SLAVE2_MAC TEST_MAC 1 0x3333 0x4444 0x22222222]"
  have "map_option (\<lambda>(r, m). case r of Inl _ \<Rightarrow> None | Inr ds \<Rightarrow> Some (length ds,
      map_option dd_vendor_id (dm_devices m SLAVE_MAC), map_option dd_vendor_id (dm_devices m SLAVE2_MAC)))
    (test_discover 5 ?t) = Some (Some (2, Some 0x1111, Some 0x3333))" by code_simp
  then obtain ds m where "test_discover 5 ?t = Some (Inr ds, m)" "length ds = 2"
    "map_option dd_vendor_id (dm_devices m SLAVE_MAC) = Some 0x1111"
    "map_option dd_vendor_id (dm_devices m SLAVE2_MAC) = Some 0x3333"
    by (rule discover_results) simp
  with test_discover_cache [OF this(1)] show ?thesis
    by (auto simp: test_discover_devices_with_multiple_responses_def)
qed

lemma master_discover_none_passes: "test_discover_devices_no_responses 5 checksum_hash = Some ()"
proof -
  have "map_option fst (test_discover 5 (create_test_master checksum_hash)) = Some (Inr [])" by code_simp
  then obtain m where "test_discover 5 (create_test_master checksum_hash) = Some (Inr [], m)" by auto
  with test_discover_cache [OF this] show ?thesis
    by (simp add: test_discover_devices_no_responses_def)
qed

lemma master_clear_passes: "test_clear_discovered_devices 5 checksum_hash = Some ()"
proof -
  let ?t = "create_test_master_with_responses checksum_hash [default_discovery_response checksum_hash]"
  have "map_option (\<lambda>(r, m). case r of Inl _ \<Rightarrow> None | Inr ds \<Rightarrow> Some (length ds)) (test_discover 5 ?t) = Some (Some 1)"
    by code_simp
  then obtain ds m where "test_discover 5 ?t = Some (Inr ds, m)" "length ds = 1" by (rule discover_results)
  with conjunct2 [OF test_discover_cache [OF this(1)]] show ?thesis
    by (simp add: test_clear_discovered_devices_def clear_discovered_devices_def)
qed

section \<open>Addresses\<close>

definition test_get_ip_config_success :: "nat \<Rightarrow> keyed_hash \<Rightarrow> unit option" where
  "test_get_ip_config_success polls H = do {
     let master = create_test_master_with_responses H [default_get_ip_response H];
     r \<leftarrow> test_get_ip polls SLAVE_MAC master;
     ip_report \<leftarrow> unwrap r;
     expect (ir_ip ip_report = DEFAULT_IP);
     expect (ir_netmask ip_report = DEFAULT_NETMASK);
     expect (ir_gateway ip_report = DEFAULT_GATEWAY);
     expect (ir_ip_source ip_report = Manuell) }"

definition test_get_ip_config_timeout :: "nat \<Rightarrow> keyed_hash \<Rightarrow> unit option" where
  "test_get_ip_config_timeout polls H = do {
     result \<leftarrow> test_get_ip polls SLAVE_MAC (create_test_master H);
     expect (result = Inl ErrTimeout) }"

definition test_get_ip_config_wrong_source_mac :: "nat \<Rightarrow> keyed_hash \<Rightarrow> unit option" where
  "test_get_ip_config_wrong_source_mac polls H = do {
     let wrong_source_mac = MacAddr 0xFF 0xEE 0xDD 0xCC 0xBB 0xAA;
     let response = create_get_ip_response H wrong_source_mac TEST_MAC 1
       DEFAULT_IP DEFAULT_NETMASK DEFAULT_GATEWAY Manuell;
     result \<leftarrow> test_get_ip polls SLAVE_MAC (create_test_master_with_responses H [response]);
     expect (result = Inl ErrTimeout) }"

definition test_set_ip_config_success :: "nat \<Rightarrow> keyed_hash \<Rightarrow> unit option" where
  "test_set_ip_config_success polls H = do {
     let master = create_test_master_with_responses H [default_set_ip_response H NoError];
     result \<leftarrow> test_set_ip polls SLAVE_MAC [10, 0, 0, 50] DEFAULT_NETMASK [10, 0, 0, 1] master;
     expect (is_ok result) }"

definition test_set_ip_config_ip_conflict :: "nat \<Rightarrow> keyed_hash \<Rightarrow> unit option" where
  "test_set_ip_config_ip_conflict polls H = do {
     let master = create_test_master_with_responses H [default_set_ip_response H ErrHardwareAccess];
     result \<leftarrow> test_set_ip polls SLAVE_MAC [10, 0, 0, 50] DEFAULT_NETMASK [10, 0, 0, 1] master;
     expect (result = Inl ErrHardwareAccess) }"

definition test_set_ip_config_timeout :: "nat \<Rightarrow> keyed_hash \<Rightarrow> unit option" where
  "test_set_ip_config_timeout polls H = do {
     result \<leftarrow> test_set_ip polls SLAVE_MAC [10, 0, 0, 50] DEFAULT_NETMASK [10, 0, 0, 1] (create_test_master H);
     expect (result = Inl ErrTimeout) }"

definition test_set_ip_config_os_failure :: "nat \<Rightarrow> keyed_hash \<Rightarrow> unit option" where
  "test_set_ip_config_os_failure polls H = do {
     let master = create_test_master_with_responses H [default_set_ip_response H ErrHardwareAccess];
     result \<leftarrow> test_set_ip polls SLAVE_MAC [10, 0, 0, 50] DEFAULT_NETMASK [10, 0, 0, 1] master;
     expect (result = Inl ErrHardwareAccess) }"

lemma master_get_ip_tests_pass:
  "test_get_ip_config_success 5 checksum_hash = Some ()" "test_get_ip_config_timeout 5 checksum_hash = Some ()"
  "test_get_ip_config_wrong_source_mac 5 checksum_hash = Some ()"
  by code_simp+

lemma master_set_ip_tests_pass:
  "test_set_ip_config_success 5 checksum_hash = Some ()"
  "test_set_ip_config_ip_conflict 5 checksum_hash = Some ()"
  "test_set_ip_config_timeout 5 checksum_hash = Some ()"
  "test_set_ip_config_os_failure 5 checksum_hash = Some ()"
  by code_simp+

end
