(* ===== verification/Tests_Slave_Discovery.thy ===== *)
theory Tests_Slave_Discovery
  imports Test_Support Slave_Discovery
begin

text \<open>
  The unit tests of \<^verbatim>\<open>src/slave/src/discovery.rs\<close>, run on the model: every test is translated from the
  test of its name, with the mock device of \<open>Test_Support\<close>. The interface of the tests is the first of the
  machine they run on; its address is an argument. They pass with the example hash of \<open>Security\<close> and the
  frames of \<open>Ethernet.wire_pnet\<close>.
\<close>

definition MASTER_MAC :: mac_addr where "MASTER_MAC = MacAddr 0xAA 0xBB 0xCC 0xDD 0xEE 0x01"
definition TEST_BROADCAST_MAC :: mac_addr where "TEST_BROADCAST_MAC = MacAddr 0xFF 0xFF 0xFF 0xFF 0xFF 0xFF"
definition SLAVE_TEST_IP :: bytes where "SLAVE_TEST_IP = [10, 0, 0, 50]"
definition SLAVE_TEST_NETMASK :: bytes where "SLAVE_TEST_NETMASK = [255, 255, 255, 0]"
definition SLAVE_TEST_GATEWAY :: bytes where "SLAVE_TEST_GATEWAY = [10, 0, 0, 1]"
definition SLAVE_TEST_SECRET :: bytes where "SLAVE_TEST_SECRET = replicate 32 0x5A"

definition mock_listener_env :: "keyed_hash \<Rightarrow> mac_addr \<Rightarrow> mock_device listener_env" where
  "mock_listener_env H mac =
     \<lparr>sv_hash = H, sv_pnet = wire_pnet, sv_mac = Some mac, lv_info = mock_info_access,
      lv_network = mock_network_access\<rparr>"

text \<open>\<open>TestContext\<close>: the packets that were sent, and the state the handlers work on.\<close>

type_synonym test_context = "bytes list \<times> mock_device listener"

definition test_context_over :: "mock_interface \<Rightarrow> test_context" where
  "test_context_over network =
     ([], \<lparr>ln_state = snd (set_target_state state_manager_new DiscoverySync),
           ln_hardware = (mock_device_info_new TEST_MAC, network),
           ln_auth = add_new_device MASTER_MAC (discovery_auth_new SLAVE_TEST_SECRET)\<rparr>)"

definition test_context_new :: test_context where
  "test_context_new = test_context_over mock_interface_new"

definition test_context_with_failing_network :: test_context where
  "test_context_with_failing_network = test_context_over mock_interface_failing"

definition build_sdcp_payload :: "sdcp_op_code \<Rightarrow> u16 \<Rightarrow> tlv option \<Rightarrow> (bytes \<times> sdcp_header) option" where
  "build_sdcp_payload op_code transaction_id tlv = do {
     let header = sdcp_header_new op_code transaction_id;
     let payload = sdcp_header_write_to header [];
     let payload = (case tlv of None \<Rightarrow> payload | Some tlv \<Rightarrow> tlv_write_to tlv payload);
     header_read \<leftarrow> unwrap (sdcp_header_read_from payload);
     Some (payload, header_read) }"

definition create_ethernet_frame :: "mac_addr \<Rightarrow> mac_addr \<Rightarrow> bytes" where
  "create_ethernet_frame source destination = octets destination @ octets source @ replicate 52 0"

definition handle_request ::
    "keyed_hash \<Rightarrow> mac_addr \<Rightarrow> sdcp_op_code \<Rightarrow> u16 \<Rightarrow> tlv option \<Rightarrow> test_context \<Rightarrow> test_context option" where
  "handle_request H mac op_code transaction_id tlv ctx = do {
     (payload, header) \<leftarrow> build_sdcp_payload op_code transaction_id tlv;
     let tlv_payload = drop SDCP_HEADER_SIZE payload;
     eth_frame \<leftarrow> pn_new wire_pnet (create_ethernet_frame MASTER_MAC TEST_BROADCAST_MAC);
     let sequence_number = 1;
     let header_bytes = [sh_version header, op_u8 (sh_op_code header),
       ucast (drop_bit 8 (sh_transaction_id header)), ucast (sh_transaction_id header), sh_flags header];
     let auth_tag = calculate_hmac H SLAVE_TEST_SECRET [header_bytes, tlv_payload, be64 sequence_number];
     let parsed = \<lparr>sp_header = header, sp_tlv_payload = tlv_payload, sp_sequence_number = sequence_number,
       sp_auth_tag = auth_tag\<rparr>;
     (frame, s) \<leftarrow> handle_packet (mock_listener_env H mac) parsed eth_frame (snd ctx);
     Some (case frame of None \<Rightarrow> fst ctx | Some f \<Rightarrow> snd (data_link_send_to f (fst ctx)), s) }"

definition assert_response_sent :: "test_context \<Rightarrow> unit option" where
  "assert_response_sent ctx = do {
     let sent = fst ctx;
     expect (sent \<noteq> []);
     expect (sent ! 0 \<noteq> []) }"

definition test_handle_packet_discover_req :: "keyed_hash \<Rightarrow> mac_addr \<Rightarrow> unit option" where
  "test_handle_packet_discover_req H mac = do {
     ctx \<leftarrow> handle_request H mac DiscoverReq 0x0001 None test_context_new;
     assert_response_sent ctx }"

definition test_handle_packet_set_ip_req_success :: "keyed_hash \<Rightarrow> mac_addr \<Rightarrow> unit option" where
  "test_handle_packet_set_ip_req_success H mac = do {
     let tlv = tlv_ip_config SLAVE_TEST_IP SLAVE_TEST_NETMASK SLAVE_TEST_GATEWAY;
     ctx \<leftarrow> handle_request H mac SetIpReq 0x0002 (Some tlv) test_context_new;
     assert_response_sent ctx;
     updated_info \<leftarrow> unwrap (read_device_info mock_info_access (ln_hardware (snd ctx)));
     expect (di_ip_address updated_info = SLAVE_TEST_IP);
     expect (di_netmask updated_info = SLAVE_TEST_NETMASK);
     expect (di_gateway updated_info = SLAVE_TEST_GATEWAY) }"

definition test_handle_packet_set_ip_req_failure :: "keyed_hash \<Rightarrow> mac_addr \<Rightarrow> unit option" where
  "test_handle_packet_set_ip_req_failure H mac = do {
     let tlv = tlv_ip_config SLAVE_TEST_IP SLAVE_TEST_NETMASK SLAVE_TEST_GATEWAY;
     ctx \<leftarrow> handle_request H mac SetIpReq 0x0003 (Some tlv) test_context_with_failing_network;
     assert_response_sent ctx;
     info \<leftarrow> unwrap (read_device_info mock_info_access (ln_hardware (snd ctx)));
     expect (di_ip_address info = [192, 168, 1, 100]) }"

definition test_handle_packet_get_ip_req :: "keyed_hash \<Rightarrow> mac_addr \<Rightarrow> unit option" where
  "test_handle_packet_get_ip_req H mac = do {
     ctx \<leftarrow> handle_request H mac GetIpReq 0x0004 None test_context_new;
     assert_response_sent ctx }"

text \<open>A response to \<open>target_mac\<close> from a handler with an empty table.\<close>

definition test_response :: "keyed_hash \<Rightarrow> mac_addr \<Rightarrow> mac_addr \<Rightarrow> sdcp_op_code \<Rightarrow> bytes list option" where
  "test_response H mac target_mac op_code = do {
     (frame, _) \<leftarrow> send_response (mock_listener_env H mac) target_mac op_code 0x0001 (tlv_status_report NoError)
       ((snd test_context_new)\<lparr>ln_auth := discovery_auth_new SLAVE_TEST_SECRET\<rparr>);
     Some (case frame of None \<Rightarrow> [] | Some f \<Rightarrow> snd (data_link_send_to f [])) }"

definition test_send_response_creates_valid_frame :: "keyed_hash \<Rightarrow> mac_addr \<Rightarrow> unit option" where
  "test_send_response_creates_valid_frame H mac = do {
     let target_mac = MacAddr 0xAA 0xBB 0xCC 0xDD 0xEE 0x99;
     sent \<leftarrow> test_response H mac target_mac DiscoverRes;
     expect (sent \<noteq> []);
     expect (14 \<le> length (sent ! 0));
     frame \<leftarrow> pn_new wire_pnet (sent ! 0);
     expect (ep_destination frame = target_mac);
     expect (ep_ethertype frame = ETHERTYPE_SDCP) }"

definition test_send_response_with_different_opcodes :: "keyed_hash \<Rightarrow> mac_addr \<Rightarrow> unit option" where
  "test_send_response_with_different_opcodes H mac = do {
     let target_mac = MacAddr 0xAA 0xBB 0xCC 0xDD 0xEE 0xFF;
     expect (list_all (\<lambda>opcode. case test_response H mac target_mac opcode of
         None \<Rightarrow> False | Some sent \<Rightarrow> sent \<noteq> []) [DiscoverRes, GetIpRes, SetIpRes]) }"

definition test_device_info_persistence_across_operations :: "unit option" where
  "test_device_info_persistence_across_operations = do {
     let device_info = (mock_device_info_new TEST_MAC, mock_interface_new);
     initial \<leftarrow> unwrap (read_device_info mock_info_access device_info);
     expect (di_vendor_id initial = 0x1234);
     let updated = initial\<lparr>di_ip_address := [10, 0, 0, 1]\<rparr>;
     let (_, device_info) = write_device_info mock_info_access device_info updated;
     persisted \<leftarrow> unwrap (read_device_info mock_info_access device_info);
     expect (di_ip_address persisted = [10, 0, 0, 1]);
     expect (di_vendor_id persisted = 0x1234) }"

lemma slave_request_tests_pass:
  "test_handle_packet_discover_req checksum_hash TEST_MAC = Some ()"
  "test_handle_packet_set_ip_req_success checksum_hash TEST_MAC = Some ()"
  "test_handle_packet_set_ip_req_failure checksum_hash TEST_MAC = Some ()"
  "test_handle_packet_get_ip_req checksum_hash TEST_MAC = Some ()"
  by code_simp+

lemma slave_response_tests_pass:
  "test_send_response_creates_valid_frame checksum_hash TEST_MAC = Some ()"
  "test_send_response_with_different_opcodes checksum_hash TEST_MAC = Some ()"
  "test_device_info_persistence_across_operations = Some ()"
  by code_simp+

end
