(* ===== verification/Tests_Discovery.thy ===== *)
theory Tests_Discovery
  imports Tests_Master Tests_Slave_Discovery Token_Store
begin

text \<open>
  The integration tests of \<^verbatim>\<open>src/tests/src/discovery_integration_tests.rs\<close>: a master and its slaves on
  the mock network. The slave's thread takes one frame from its queue while the master polls; what the
  master sends does not depend on what it receives, so an exchange is the master's operation on an empty
  queue, the slave on what was sent, and the master's operation on what the slave answered.
\<close>

section \<open>Fixture\<close>

definition INTEGRATION_IP :: bytes where "INTEGRATION_IP = [10, 0, 0, 50]"
definition INTEGRATION_NETMASK :: bytes where "INTEGRATION_NETMASK = [255, 255, 255, 0]"
definition INTEGRATION_GATEWAY :: bytes where "INTEGRATION_GATEWAY = [10, 0, 0, 1]"

record slave_context =
  sx_interface :: network_interface
  sx_device :: mock_device
  sx_auth :: discovery_auth_handler

definition slave_context_over :: "string \<Rightarrow> mac_addr \<Rightarrow> mock_device \<Rightarrow> slave_context" where
  "slave_context_over name mac device =
     \<lparr>sx_interface = create_mock_interface name mac, sx_device = device,
      sx_auth = add_new_device MASTER_MAC (discovery_auth_new TEST_SHARED_SECRET)\<rparr>"

definition slave_context_new :: "mac_addr \<Rightarrow> slave_context" where
  "slave_context_new mac = slave_context_over ''slave0'' mac (mock_device_info_new mac, mock_interface_new)"

definition slave_context_with_ip :: "mac_addr \<Rightarrow> bytes \<Rightarrow> bytes \<Rightarrow> bytes \<Rightarrow> slave_context" where
  "slave_context_with_ip mac ip netmask gateway =
     slave_context_over ''slave0'' mac (mock_device_info_with_ip mac ip netmask gateway, mock_interface_new)"

definition slave_context_with_failing_network :: "mac_addr \<Rightarrow> slave_context" where
  "slave_context_with_failing_network mac =
     slave_context_over ''slave0'' mac (mock_device_info_new mac, mock_interface_failing)"

definition create_slave_with_device_info :: "mac_addr \<Rightarrow> u32 \<Rightarrow> u32 \<Rightarrow> u32 \<Rightarrow> slave_context option" where
  "create_slave_with_device_info mac vendor_id device_id serial_number = do {
     let device = (mock_device_info_new mac, mock_interface_new);
     info \<leftarrow> unwrap (read_device_info mock_info_access device);
     let info = info\<lparr>di_vendor_id := vendor_id, di_device_id := device_id, di_serial_number := serial_number\<rparr>;
     let (_, device) = write_device_info mock_info_access device info;
     let last = unat (octets mac ! 5);
     Some (slave_context_over (''slave_'' @ [hex_digit (last div 16), hex_digit (last mod 16)]) mac device) }"

definition create_integration_master :: "keyed_hash \<Rightarrow> mac_addr \<Rightarrow> test_master" where
  "create_integration_master H mac =
     (let interface = create_mock_interface ''master0'' mac;
          device_state_manager = snd (set_target_state state_manager_new DiscoverySync)
      in \<lparr>tm_env = \<lparr>sv_hash = H, sv_pnet = wire_pnet, sv_mac = ni_mac interface\<rparr>,
          tm_receiver = data_link_receiver_new,
          tm_master = discovery_master_new_with_mocks device_state_manager TEST_SHARED_SECRET\<rparr>)"

section \<open>The slave's thread\<close>

definition slave_env :: "keyed_hash \<Rightarrow> slave_context \<Rightarrow> mock_device listener_env" where
  "slave_env H slave =
     \<lparr>sv_hash = H, sv_pnet = wire_pnet, sv_mac = ni_mac (sx_interface slave), lv_info = mock_info_access,
      lv_network = mock_network_access\<rparr>"

text \<open>The message of a frame, when it is one of the protocol.\<close>

definition sdcp_message :: "bytes \<Rightarrow> (parsed_sdcp_payload \<times> eth_packet) option" where
  "sdcp_message frame_data = do {
     eth_packet \<leftarrow> pn_new wire_pnet frame_data;
     if ep_ethertype eth_packet \<noteq> ETHERTYPE_SDCP then None else do {
       (payload_without_footer, footer) \<leftarrow> unwrap (split_payload_and_footer (ep_payload eth_packet));
       header \<leftarrow> unwrap (sdcp_header_read_from payload_without_footer);
       Some (\<lparr>sp_header = header, sp_tlv_payload = drop SDCP_HEADER_SIZE payload_without_footer,
         sp_sequence_number = sf_sequence_number footer, sp_auth_tag = sf_auth_tag footer\<rparr>, eth_packet) } }"

text \<open>The handler of a slave on a message; \<open>None\<close> is a panic. The state machine is that of the thread.\<close>

definition thread_state_manager :: device_state where
  "thread_state_manager = snd (set_target_state state_manager_new DiscoverySync)"

definition slave_handles ::
    "keyed_hash \<Rightarrow> parsed_sdcp_payload \<times> eth_packet \<Rightarrow> device_state \<Rightarrow> bytes list \<times> slave_context \<Rightarrow>
       (device_state \<times> bytes list \<times> slave_context) option" where
  "slave_handles H message state ts = do {
     let (outbox, slave) = ts;
     (frame, s) \<leftarrow> handle_packet (slave_env H slave) (fst message) (snd message)
       \<lparr>ln_state = state, ln_hardware = sx_device slave, ln_auth = sx_auth slave\<rparr>;
     Some (ln_state s, case frame of None \<Rightarrow> outbox | Some f \<Rightarrow> snd (mock_send_to f outbox),
       slave\<lparr>sx_device := ln_hardware s, sx_auth := ln_auth s\<rparr>) }"

definition try_process_sdcp_frame ::
    "keyed_hash \<Rightarrow> bytes \<Rightarrow> bytes list \<times> slave_context \<Rightarrow> (bool \<times> bytes list \<times> slave_context) option" where
  "try_process_sdcp_frame H frame_data ts =
     (case sdcp_message frame_data of
        None \<Rightarrow> Some (False, ts)
      | Some message \<Rightarrow>
          map_option (\<lambda>(_, ts). (True, ts)) (slave_handles H message thread_state_manager ts))"

text \<open>The loop on the frames that arrive; it leaves with the first message. After the last frame the
  thread sleeps and looks again; then nothing more changes.\<close>

fun process_single_frame ::
    "keyed_hash \<Rightarrow> bytes list \<Rightarrow> bytes list \<times> slave_context \<Rightarrow> (bytes list \<times> slave_context) option" where
  "process_single_frame H [] ts = Some ts"
| "process_single_frame H (frame_data # rest) ts = do {
     (processed, ts) \<leftarrow> try_process_sdcp_frame H frame_data ts;
     if processed then Some ts else process_single_frame H rest ts }"

text \<open>Several slaves on one queue: each handles the first message, with the state machine they share.\<close>

fun all_handle ::
    "keyed_hash \<Rightarrow> parsed_sdcp_payload \<times> eth_packet \<Rightarrow> device_state \<Rightarrow> slave_context list \<Rightarrow> bytes list \<Rightarrow>
       (bytes list \<times> slave_context list) option" where
  "all_handle H message state [] outbox = Some (outbox, [])"
| "all_handle H message state (slave # slaves) outbox = do {
     (state, outbox, slave) \<leftarrow> slave_handles H message state (outbox, slave);
     (outbox, slaves) \<leftarrow> all_handle H message state slaves outbox;
     Some (outbox, slave # slaves) }"

fun multi_slave_handler ::
    "keyed_hash \<Rightarrow> bytes list \<Rightarrow> slave_context list \<Rightarrow> bytes list \<Rightarrow> (bytes list \<times> slave_context list) option" where
  "multi_slave_handler H [] slaves outbox = Some (outbox, slaves)"
| "multi_slave_handler H (frame # rest) slaves outbox =
     (case sdcp_message frame of
        None \<Rightarrow> multi_slave_handler H rest slaves outbox
      | Some message \<Rightarrow> all_handle H message thread_state_manager slaves outbox)"

section \<open>An exchange\<close>

type_synonym 'r master_call = "bool option \<Rightarrow> bytes option list \<Rightarrow> ('r \<times> bytes list \<times> discovery_master) option"

definition exchange ::
    "'r master_call \<Rightarrow> (bytes list \<Rightarrow> (bytes list \<times> 's) option) \<Rightarrow> mock_network \<Rightarrow>
       ('r \<times> discovery_master \<times> 's) option" where
  "exchange call slaves network = do {
     let sending = fst (mock_send_to [] []);
     (_, frames, _) \<leftarrow> call sending [];
     let network = network\<lparr>master_to_slave := master_to_slave network @ frames\<rparr>;
     (answers, s) \<leftarrow> slaves (master_to_slave network);
     let network = network\<lparr>slave_to_master := slave_to_master network @ answers\<rparr>;
     (r, _, m) \<leftarrow> call sending (None # map Some (slave_to_master network) @ [None]);
     Some (r, m, s) }"

definition single_slave :: "keyed_hash \<Rightarrow> slave_context \<Rightarrow> bytes list \<Rightarrow> (bytes list \<times> slave_context) option" where
  "single_slave H slave frames = process_single_frame H frames ([], slave)"

text \<open>The first call of an exchange sends what the second one sends.\<close>

lemma discover_frames:
  "map_option (\<lambda>(_, frames, _). frames) (discover_devices env sent received m) =
   map_option (\<lambda>(_, frames, _). frames) (discover_devices env sent [] m)"
  by (simp add: discover_devices_def Let_def split: option.splits sum.splits prod.splits)

lemma unicast_frames:
  "map_option (\<lambda>(_, frames, _). frames) (unicast_request env target req res tlv sent received m) =
   map_option (\<lambda>(_, frames, _). frames) (unicast_request env target req res tlv sent [] m)"
  by (simp add: unicast_request_def Let_def split: option.splits sum.splits prod.splits)

section \<open>Tests\<close>

definition test_discovery_full_cycle :: "keyed_hash \<Rightarrow> unit option" where
  "test_discovery_full_cycle H = do {
     let master = create_integration_master H MASTER_MAC;
     (discovered, m, slave) \<leftarrow> exchange (\<lambda>sent received. discover_devices (tm_env master) sent received (tm_master master))
       (single_slave H (slave_context_new SLAVE_MAC)) mock_network_new;
     devices \<leftarrow> unwrap discovered;
     expect (length devices = 1);
     let device = devices ! 0;
     expect (dd_mac_address device = SLAVE_MAC);
     expect (dd_vendor_id device = 0x1234);
     expect (dd_device_id device = 0x5678);
     expect (dd_serial_number device = 0xDEADBEEF);
     expect (dm_devices m SLAVE_MAC \<noteq> None) }"

definition test_get_ip_config_full_cycle :: "keyed_hash \<Rightarrow> unit option" where
  "test_get_ip_config_full_cycle H = do {
     let master = create_integration_master H MASTER_MAC;
     let slave = slave_context_with_ip SLAVE_MAC INTEGRATION_IP INTEGRATION_NETMASK INTEGRATION_GATEWAY;
     (ip_report, m, slave) \<leftarrow> exchange (\<lambda>sent received. get_ip_config (tm_env master) SLAVE_MAC sent received (tm_master master))
       (single_slave H slave) mock_network_new;
     report \<leftarrow> unwrap ip_report;
     expect (ir_ip report = INTEGRATION_IP);
     expect (ir_netmask report = INTEGRATION_NETMASK);
     expect (ir_gateway report = INTEGRATION_GATEWAY);
     expect (ir_ip_source report = Manuell) }"

definition integration_test_set_ip_config_success :: "keyed_hash \<Rightarrow> unit option" where
  "integration_test_set_ip_config_success H = do {
     let master = create_integration_master H MASTER_MAC;
     let new_ip = [172, 16, 0, 100];
     let new_netmask = [255, 255, 0, 0];
     let new_gateway = [172, 16, 0, 1];
     (result, m, slave) \<leftarrow> exchange (\<lambda>sent received. set_ip_config (tm_env master) SLAVE_MAC new_ip new_netmask
         new_gateway sent received (tm_master master))
       (single_slave H (slave_context_new SLAVE_MAC)) mock_network_new;
     expect (is_ok result);
     let applied = mi_applied_configs (snd (sx_device slave));
     expect (length applied = 1);
     expect (applied ! 0 = (new_ip, new_netmask, new_gateway));
     updated_info \<leftarrow> unwrap (read_device_info mock_info_access (sx_device slave));
     expect (di_ip_address updated_info = new_ip);
     expect (di_netmask updated_info = new_netmask);
     expect (di_gateway updated_info = new_gateway) }"

definition test_set_ip_config_failure :: "keyed_hash \<Rightarrow> unit option" where
  "test_set_ip_config_failure H = do {
     let master = create_integration_master H MASTER_MAC;
     (result, m, slave) \<leftarrow> exchange (\<lambda>sent received. set_ip_config (tm_env master) SLAVE_MAC [172, 16, 0, 100]
         [255, 255, 0, 0] [172, 16, 0, 1] sent received (tm_master master))
       (single_slave H (slave_context_with_failing_network SLAVE_MAC)) mock_network_new;
     expect (result = Inl ErrHardwareAccess);
     info \<leftarrow> unwrap (read_device_info mock_info_access (sx_device slave));
     expect (di_ip_address info = [192, 168, 1, 100]) }"

definition test_multiple_devices_discovery :: "keyed_hash \<Rightarrow> unit option" where
  "test_multiple_devices_discovery H = do {
     let slave1_mac = MacAddr 0x11 0x22 0x33 0x44 0x55 0x01;
     let slave2_mac = MacAddr 0x11 0x22 0x33 0x44 0x55 0x02;
     let master = create_integration_master H MASTER_MAC;
     slave1 \<leftarrow> create_slave_with_device_info slave1_mac 0x1111 0x1111 0x11111111;
     slave2 \<leftarrow> create_slave_with_device_info slave2_mac 0x2222 0x2222 0x22222222;
     (discovered, m, slaves) \<leftarrow> exchange (\<lambda>sent received. discover_devices (tm_env master) sent received (tm_master master))
       (\<lambda>frames. multi_slave_handler H frames [slave1, slave2] []) mock_network_new;
     devices \<leftarrow> unwrap discovered;
     expect (length devices = 2);
     dev1 \<leftarrow> dm_devices m slave1_mac;
     expect (dd_vendor_id dev1 = 0x1111);
     dev2 \<leftarrow> dm_devices m slave2_mac;
     expect (dd_vendor_id dev2 = 0x2222) }"

lemma discovery_integration_tests_pass:
  "test_discovery_full_cycle checksum_hash = Some ()"
  "test_get_ip_config_full_cycle checksum_hash = Some ()"
  by code_simp+

lemma set_ip_integration_tests_pass:
  "integration_test_set_ip_config_success checksum_hash = Some ()"
  "test_set_ip_config_failure checksum_hash = Some ()"
  by code_simp+

lemma multiple_devices_integration_test_passes:
  "test_multiple_devices_discovery checksum_hash = Some ()"
  by code_simp

end
