(* ===== verification/Tests_L2.thy ===== *)
theory Tests_L2
  imports Test_Support Cyclic_Exchange "HOL-Library.Code_Target_Nat"
begin

text \<open>
  The integration tests of \<^verbatim>\<open>src/tests/src/l2_integration_tests.rs\<close>: the cyclic threads of a master and
  a slave on the mock network, and the stream stores of two stations. The first test lets the threads run for
  fifty milliseconds; here each sender makes one tick, with the clocks it is given, and each receiver gets
  what the other side sent.
\<close>

section \<open>Fixture\<close>

definition L2_MASTER_MAC :: mac_addr where "L2_MASTER_MAC = MacAddr 0xAA 0xBB 0xCC 0xDD 0xEE 0x01"
definition L2_SLAVE_MAC :: mac_addr where "L2_SLAVE_MAC = MacAddr 0x11 0x22 0x33 0x44 0x55 0x66"
definition L2_TEST_SECRET :: bytes where "L2_TEST_SECRET = replicate 32 0x5A"

record test_image =
  ti_input_image :: bytes
  ti_output_image :: bytes

definition test_image_new :: "nat \<Rightarrow> nat \<Rightarrow> test_image" where
  "test_image_new input_size output_size =
     \<lparr>ti_input_image = replicate input_size 0, ti_output_image = replicate output_size 0\<rparr>"

text \<open>\<open>None\<close>: the slice is out of range.\<close>

definition set_output :: "bytes \<Rightarrow> test_image \<Rightarrow> test_image option" where
  "set_output data img =
     (if length (ti_output_image img) < length data then None
      else Some (img\<lparr>ti_output_image := data @ drop (length data) (ti_output_image img)\<rparr>))"

definition test_read_outputs :: "test_image \<Rightarrow> position \<Rightarrow> status_code + bytes" where
  "test_read_outputs img pos =
     (let offset = unat (pos_byte_offset pos);
          len = unat (div_ceil (pos_bit_len pos) 8)
      in if length (ti_output_image img) < offset + len then Inl ErrInvalidLen
         else Inr (take len (drop offset (ti_output_image img))))"

definition test_write_inputs :: "test_image \<Rightarrow> bytes \<Rightarrow> position \<Rightarrow> (status_code + unit) \<times> test_image" where
  "test_write_inputs img data pos =
     (let offset = unat (pos_byte_offset pos);
          len = unat (div_ceil (pos_bit_len pos) 8);
          guard = ti_input_image img
      in if length data \<noteq> len \<or> length guard < offset + len then (Inl ErrInvalidLen, img)
         else (Inr (), img\<lparr>ti_input_image := take offset guard @ data @ drop (offset + len) guard\<rparr>))"

definition test_image_access :: "test_image process_image_access" where
  "test_image_access =
     \<lparr>get_layout = \<lambda>_. Inr [], read_outputs = test_read_outputs, write_inputs = test_write_inputs\<rparr>"

definition build_l2_stream :: "u32 \<Rightarrow> direction \<Rightarrow> mac_addr \<Rightarrow> u32 \<Rightarrow> stream_config" where
  "build_l2_stream stream_id dir destination cycle_time_nano =
     \<lparr>sc_stream_id = stream_id, sc_destination_mac = octets destination, sc_vlan_id_pcp = 0x0001,
      sc_cycle_time_nano = cycle_time_nano, sc_direction = direction_num dir,
      sc_stream_content = Some \<lparr>pos_byte_offset = 0, pos_bit_offset = 0, pos_bit_len = 8\<rparr>\<rparr>"

section \<open>Both directions\<close>

text \<open>The store of a station with two streams.\<close>

definition store_with :: "stream_config list \<Rightarrow> stream_store option" where
  "store_with streams =
     foldl (\<lambda>store stream. store \<bind> (\<lambda>s. map_option snd (unwrapped (add_stream_config stream s))))
       (Some (stream_store_new L2_TEST_SECRET)) streams"

text \<open>What a receiver makes of the frames in its queue; \<open>None\<close> when the thread ends.\<close>

fun master_receives ::
    "keyed_hash \<Rightarrow> (u16 \<rightharpoonup> stream_config) \<Rightarrow> device_state \<Rightarrow> bytes list \<Rightarrow> master_rx \<times> test_image master_l2 \<Rightarrow>
       (master_rx \<times> test_image master_l2) option" where
  "master_receives H streams state [] rs = Some rs"
| "master_receives H streams state (frame # frames) rs = do {
     rs \<leftarrow> master_receive_turn H test_image_access streams state (Some frame) 0 rs;
     master_receives H streams state frames rs }"

fun slave_receives ::
    "keyed_hash \<Rightarrow> (u16 \<rightharpoonup> stream_config) \<Rightarrow> bytes list \<Rightarrow> rx_state \<times> test_image slave_l2 \<Rightarrow>
       (rx_state \<times> test_image slave_l2) option" where
  "slave_receives H streams [] rs = Some rs"
| "slave_receives H streams (frame # frames) rs =
     (case slave_receive_turn H test_image_access streams (Some frame) 0 0 rs of
        Continue rs \<Rightarrow> slave_receives H streams frames rs
      | _ \<Rightarrow> None)"

text \<open>Both stations up to the first tick of their senders: for each receiver its streams, its queue and
  its station.\<close>

definition l2_senders ::
    "keyed_hash \<Rightarrow> master_send_inputs \<Rightarrow> send_inputs \<Rightarrow>
       (((u16 \<rightharpoonup> stream_config) \<times> bytes list \<times> test_image slave_l2) \<times>
        (u16 \<rightharpoonup> stream_config) \<times> device_state \<times> bytes list \<times> test_image master_l2) option" where
  "l2_senders H mi si = do {
     let network = mock_network_new;
     let master_interface = create_mock_interface ''master0'' L2_MASTER_MAC;
     let slave_interface = create_mock_interface ''slave0'' L2_SLAVE_MAC;
     master_store \<leftarrow> store_with [build_l2_stream 1 Output L2_SLAVE_MAC 1000000, build_l2_stream 2 Input L2_MASTER_MAC 1000000];
     slave_store \<leftarrow> store_with [build_l2_stream 1 Input L2_SLAVE_MAC 1000000, build_l2_stream 2 Output L2_MASTER_MAC 1000000];
     master_image \<leftarrow> set_output [0x01] (test_image_new 1 1);
     slave_image \<leftarrow> set_output [0x02] (test_image_new 1 1);
     let state = foldl (\<lambda>s t. snd (set_target_state s t)) state_manager_new [DiscoverySync, PreOp, SafeOp, Op];
     let status_store = update_state Op 0 (status_store_new 0);
     let master = \<lparr>ml_store = master_store, ml_image = master_image\<rparr>;
     let slave = \<lparr>sl_store = slave_store, sl_status = status_store, sl_image = slave_image\<rparr>;
     (_, master_threads) \<leftarrow> unwrapped (master_start_l2_handler_with_mocks master_interface [2] [1] master_store);
     let slave_threads = slave_start_l2_handler_with_mocks slave_interface [1] [2] slave_store;
     case (master_threads, slave_threads) of
       ([ReceiverThread _ master_in, SenderThread _ source_m _ master_out],
        [ReceiverThread _ slave_in, SenderThread _ source_s _ slave_out]) \<Rightarrow> do {
          r \<leftarrow> master_send_tick H test_image_access source_m state (map (\<lambda>s. (s, mi)) master_out) (tx_new, master);
          (frames, _, master) \<leftarrow> unwrap r;
          let network = network\<lparr>master_to_slave := fold (\<lambda>f q. snd (mock_send_to f q)) frames (master_to_slave network)\<rparr>;
          (frames, _, slave) \<leftarrow> (case slave_send_tick H test_image_access source_s (map (\<lambda>s. (s, si)) slave_out) (tx_new, slave) of
             Continue x \<Rightarrow> Some x | _ \<Rightarrow> None);
          let network = network\<lparr>slave_to_master := fold (\<lambda>f q. snd (mock_send_to f q)) frames (slave_to_master network)\<rparr>;
          Some ((slave_in, master_to_slave network, slave), (master_in, state, slave_to_master network, master)) }
     | _ \<Rightarrow> None }"

definition test_l2_handler_bidirectional_streams ::
    "keyed_hash \<Rightarrow> master_send_inputs \<Rightarrow> send_inputs \<Rightarrow> unit option" where
  "test_l2_handler_bidirectional_streams H mi si = do {
     ((slave_in, to_slave, slave), (master_in, state, to_master, master)) \<leftarrow> l2_senders H mi si;
     (_, slave) \<leftarrow> slave_receives H slave_in to_slave (rx_new, slave);
     (_, master) \<leftarrow> master_receives H master_in state to_master (master_rx_new, master);
     expect (ti_input_image (sl_image slave) ! 0 = 0x01);
     expect (ti_input_image (ml_image master) ! 0 = 0x02) }"

text \<open>What a receiver in \<open>Op\<close> makes of a frame it admits.\<close>

lemma slave_receives_one:
  assumes "slave_state s = Op" and "fst (slave_admit H streams f s) = Some (p, c)"
  shows "\<exists>rx' s'. slave_receives H streams [f] (rx, s) = Some (rx', s') \<and>
    sl_image s' = snd (handle_input_packet test_image_access (sl_image s) c (pf_payload p))"
proof -
  obtain s1 where a: "slave_admit H streams f s = (Some (p, c), s1)" using assms(2) by (metis prod.collapse)
  have "sl_image s1 = sl_image s" using slave_admit_image [of H streams f s] a by simp
  with slave_consume_image [of test_image_access 0 0 p c "rx_enter Op rx" s1] show ?thesis
    using assms(1) a
    by (cases "slave_consume test_image_access 0 0 p c (rx_enter Op rx, s1)") (simp add: slave_receive_turn_eq)
qed

lemma master_receives_one:
  assumes "fst (master_admit H streams f (ml_store m)) = Some (p, c)"
  shows "\<exists>mr' m'. master_receives H streams Op [f] (mr, m) = Some (mr', m') \<and>
    ml_image m' = snd (handle_input_packet test_image_access (ml_image m) c (pf_payload p))"
proof -
  obtain st where a: "master_admit H streams f (ml_store m) = (Some (p, c), st)" using assms by (metis prod.collapse)
  let ?rs = "(mr\<lparr>mr_rx := rx_enter Op (mr_rx mr)\<rparr>, m\<lparr>ml_store := st\<rparr>)"
  show ?thesis
    using a master_consume_image [of test_image_access Op 0 p c "fst ?rs" "snd ?rs"]
    by (cases "master_consume test_image_access Op 0 p c ?rs") (simp add: master_receive_turn_def Let_def)
qed

definition delivers :: "keyed_hash \<Rightarrow>
     (((u16 \<rightharpoonup> stream_config) \<times> bytes list \<times> test_image slave_l2) \<times>
        (u16 \<rightharpoonup> stream_config) \<times> device_state \<times> bytes list \<times> test_image master_l2) \<Rightarrow> bool" where
  "delivers H x =
     (case x of ((slave_in, [f], slave), (master_in, state, [g], master)) \<Rightarrow>
        slave_state slave = Op \<and> state = Op \<and>
        (case (fst (slave_admit H slave_in f slave), fst (master_admit H master_in g (ml_store master))) of
           (Some (p, c), Some (q, d)) \<Rightarrow>
             ti_input_image (snd (handle_input_packet test_image_access (sl_image slave) c (pf_payload p))) ! 0 = 0x01 \<and>
             ti_input_image (snd (handle_input_packet test_image_access (ml_image master) d (pf_payload q))) ! 0 = 0x02
         | _ \<Rightarrow> False)
      | _ \<Rightarrow> False)"

lemma delivers_passes:
  assumes "map_option (delivers H) (l2_senders H mi si) = Some True"
  shows "test_l2_handler_bidirectional_streams H mi si = Some ()"
proof -
  obtain slave_in f slave master_in g master p c q d where
    run: "l2_senders H mi si = Some ((slave_in, [f], slave), (master_in, Op, [g], master))"
    and s: "slave_state slave = Op" "fst (slave_admit H slave_in f slave) = Some (p, c)"
      "ti_input_image (snd (handle_input_packet test_image_access (sl_image slave) c (pf_payload p))) ! 0 = 0x01"
    and m: "fst (master_admit H master_in g (ml_store master)) = Some (q, d)"
      "ti_input_image (snd (handle_input_packet test_image_access (ml_image master) d (pf_payload q))) ! 0 = 0x02"
    using assms by (fastforce simp: delivers_def split: prod.splits list.splits option.splits)
  obtain rx' s' mr' m' where "slave_receives H slave_in [f] (rx_new, slave) = Some (rx', s')"
    "sl_image s' = snd (handle_input_packet test_image_access (sl_image slave) c (pf_payload p))"
    "master_receives H master_in Op [g] (master_rx_new, master) = Some (mr', m')"
    "ml_image m' = snd (handle_input_packet test_image_access (ml_image master) d (pf_payload q))"
    using slave_receives_one [OF s(1,2)] master_receives_one [OF m(1)] by meson
  with run s(3) m(2) show ?thesis by (simp add: test_l2_handler_bidirectional_streams_def del: slave_receives.simps master_receives.simps)
qed

lemma l2_bidirectional_test_passes:
  "test_l2_handler_bidirectional_streams checksum_hash
     \<lparr>mi_state = Op, mi_clock = 0, mi_now = 0, mi_micros = 0\<rparr>
     \<lparr>si_clock = 0, si_now = 0, si_micros = 0, si_wall = 0, si_send_failed = False\<rparr> = Some ()"
  by (rule delivers_passes) code_simp

section \<open>Sequence numbers\<close>

definition test_stream_security_unidirectional_sequence_logic :: "keyed_hash \<Rightarrow> unit option" where
  "test_stream_security_unidirectional_sequence_logic H = do {
     output_store \<leftarrow> store_with [build_l2_stream 1 Output L2_SLAVE_MAC 1000000];
     let output_header = l2_header_new 1 1 (status_u8 NoError);
     let payload = [0x11, 0x22];
     ((sequence_number_a, _), output_store) \<leftarrow> unwrapped (generate_stream_tag H output_header payload output_store);
     ((sequence_number_b, _), output_store) \<leftarrow> unwrapped (generate_stream_tag H output_header payload output_store);
     expect (sequence_number_a = 1);
     expect (sequence_number_b = 2);
     input_sender \<leftarrow> store_with [build_l2_stream 2 Output L2_MASTER_MAC 1000000];
     input_receiver \<leftarrow> store_with [build_l2_stream 2 Input L2_MASTER_MAC 1000000];
     let input_header = l2_header_new 2 1 (status_u8 NoError);
     ((received_sequence_number, received_auth_tag), _) \<leftarrow> unwrapped (generate_stream_tag H input_header payload input_sender);
     (valid, _) \<leftarrow> unwrapped (validate_stream_tag H input_header payload received_sequence_number received_auth_tag input_receiver);
     expect valid }"

definition test_replay_protection_isolated_per_stream :: "keyed_hash \<Rightarrow> unit option" where
  "test_replay_protection_isolated_per_stream H = do {
     sender_store \<leftarrow> store_with [build_l2_stream 10 Output L2_SLAVE_MAC 1000000, build_l2_stream 11 Output L2_SLAVE_MAC 1000000];
     receiver_store \<leftarrow> store_with [build_l2_stream 10 Input L2_MASTER_MAC 1000000, build_l2_stream 11 Input L2_MASTER_MAC 1000000];
     let payload_stream_a = [0xAA, 0x01];
     let payload_stream_b = [0xBB, 0x02];
     let header_stream_a = l2_header_new 10 1 (status_u8 NoError);
     let header_stream_b = l2_header_new 11 1 (status_u8 NoError);
     ((sequence_number_stream_a, auth_tag_stream_a), sender_store) \<leftarrow> unwrapped (generate_stream_tag H header_stream_a payload_stream_a sender_store);
     ((sequence_number_stream_b, auth_tag_stream_b), sender_store) \<leftarrow> unwrapped (generate_stream_tag H header_stream_b payload_stream_b sender_store);
     (valid, receiver_store) \<leftarrow> unwrapped (validate_stream_tag H header_stream_a payload_stream_a sequence_number_stream_a auth_tag_stream_a receiver_store);
     expect valid;
     (valid, receiver_store) \<leftarrow> unwrapped (validate_stream_tag H header_stream_a payload_stream_a sequence_number_stream_a auth_tag_stream_a receiver_store);
     expect (\<not> valid);
     (valid, receiver_store) \<leftarrow> unwrapped (validate_stream_tag H header_stream_b payload_stream_b sequence_number_stream_b auth_tag_stream_b receiver_store);
     expect valid }"

lemma l2_security_tests_pass:
  "test_stream_security_unidirectional_sequence_logic checksum_hash = Some ()"
  "test_replay_protection_isolated_per_stream checksum_hash = Some ()"
  by code_simp+

end
