(* ===== verification/Tests_Api.thy ===== *)
theory Tests_Api
  imports Tests_Formats Api_Client "HOL-Library.Code_Target_Nat"
begin

text \<open>
  The integration tests of \<^verbatim>\<open>src/tests/src/slave_api_integration_tests.rs\<close>: the client of the master on
  the service of a slave with the test hardware. The server and the connection are those of
  \<open>Api_Client.service_connection\<close>; the hash and the text of tokens, and what the rounds read of clocks and
  random source, are arguments. The tests pass with the examples of \<open>Api_Client\<close>.
\<close>

definition SHARED_KEY_HEX :: string where
  "SHARED_KEY_HEX = ''00112233445566778899aabbccddeeff00112233445566778899aabbccddeeff''"

definition SHARED_KEY_BYTES :: bytes where
  "SHARED_KEY_BYTES =
     [0x00, 0x11, 0x22, 0x33, 0x44, 0x55, 0x66, 0x77, 0x88, 0x99, 0xAA, 0xBB, 0xCC, 0xDD, 0xEE, 0xFF,
      0x00, 0x11, 0x22, 0x33, 0x44, 0x55, 0x66, 0x77, 0x88, 0x99, 0xAA, 0xBB, 0xCC, 0xDD, 0xEE, 0xFF]"

text \<open>What is outside the program: the decoder of the key, the hash and the text of tokens, and what the
  rounds of the server read.\<close>

record api_setting =
  as_hex :: "string \<Rightarrow> string + bytes"
  as_hash :: token_hasher
  as_encode :: "bytes \<Rightarrow> string"
  as_rounds :: "nat \<Rightarrow> round_inputs"

definition example_setting :: api_setting where
  "example_setting = \<lparr>as_hex = example_hex_decode, as_hash = \<lambda>t. map of_char t, as_encode = \<lambda>_. [],
     as_rounds = \<lambda>n. \<lparr>ri_token = \<lparr>ti_random = [], ti_timestamp = n, ti_issued = 0, ti_inserted = 0\<rparr>,
                        ri_now = n, ri_wall = 0\<rparr>\<rparr>"

definition start_slave_server :: "api_setting \<Rightarrow> dummy_hardware service option" where
  "start_slave_server E = do {
     let hardware = dummy_new;
     let state_manager = state_manager_new;
     let status_store = status_store_new 0;
     token_store \<leftarrow> unwrap (token_store_from_env (as_hex E) (Inr SHARED_KEY_HEX));
     let stream_store = stream_store_new SHARED_KEY_BYTES;
     Some \<lparr>sv_api = \<lparr>sa_state = state_manager, sa_status = status_store, sa_tokens = token_store,
       sa_streams = stream_store, sa_hardware = hardware\<rparr>, sv_calls = 0\<rparr> }"

definition connect_client :: "api_setting \<Rightarrow> bytes \<Rightarrow> dummy_hardware service connection \<times> api_client" where
  "connect_client E shared_key =
     (service_connection \<lparr>env_hash = as_hash E, env_info = dummy_device_access, env_image = dummy_process_image\<rparr>
        (as_encode E) (\<lambda>_. True) (as_rounds E),
      api_client_connect shared_key)"

text \<open>The store of the server changes its state outside of a call.\<close>

definition server_updates :: "device_state \<Rightarrow> dummy_hardware service \<Rightarrow> dummy_hardware service" where
  "server_updates state w = w\<lparr>sv_api := (sv_api w)\<lparr>sa_status := update_state state 0 (sa_status (sv_api w))\<rparr>\<rparr>"

definition status_of_reply :: "reply \<Rightarrow> int option" where
  "status_of_reply r = (case r of StatusResponse code \<Rightarrow> Some code | _ \<Rightarrow> None)"

definition test_slave_api_endpoints :: "api_setting \<Rightarrow> unit option" where
  "test_slave_api_endpoints E = do {
     w \<leftarrow> start_slave_server E;
     let (con, c) = connect_client E SHARED_KEY_BYTES;
     ((token, status), c, w) \<leftarrow> unwrapped (client_get_token con c w);
     expect (status = status_num NoError);
     expect (token \<noteq> []);
     (r, c, w) \<leftarrow> unwrapped (client_get_status con c w);
     status \<leftarrow> (case r of DeviceStatusReply d \<Rightarrow> Some d | _ \<Rightarrow> None);
     expect (ds_state status = state_num Init);
     (r, c, w) \<leftarrow> unwrapped (client_set_target_state con DiscoverySync c w);
     code \<leftarrow> status_of_reply r;
     expect (code = status_num NoError);
     (r, c, w) \<leftarrow> unwrapped (client_get_status con c w);
     status \<leftarrow> (case r of DeviceStatusReply d \<Rightarrow> Some d | _ \<Rightarrow> None);
     expect (ds_state status = state_num DiscoverySync);
     (r, c, w) \<leftarrow> unwrapped (client_get_device_info con c w);
     (code, info) \<leftarrow> (case r of DeviceInfoReply code info \<Rightarrow> Some (code, info) | _ \<Rightarrow> None);
     expect (code = status_num NoError);
     device_info \<leftarrow> info;
     expect (di_mac_address device_info \<noteq> []);
     (r, c, w) \<leftarrow> unwrapped (client_get_process_data_layout con c w);
     (code, variables) \<leftarrow> (case r of LayoutReply code variables \<Rightarrow> Some (code, variables) | _ \<Rightarrow> None);
     expect (code = status_num NoError);
     expect (variables \<noteq> []);
     let w = server_updates DiscoverySync w;
     (r, c, w) \<leftarrow> unwrapped (client_get_device_status_log con 0 10 c w);
     total_entries \<leftarrow> (case r of LogReply n entries \<Rightarrow> Some n | _ \<Rightarrow> None);
     expect (1 \<le> total_entries) }"

text \<open>The publishing task of the subscription on the status the store sends next.\<close>

definition test_subscribe_stream_receives_updates :: "api_setting \<Rightarrow> unit option" where
  "test_subscribe_stream_receives_updates E = do {
     w \<leftarrow> start_slave_server E;
     let (con, c) = connect_client E SHARED_KEY_BYTES;
     (_, c, w) \<leftarrow> unwrapped (client_get_token con c w);
     (_, c, w) \<leftarrow> unwrapped (client_subscribe_to_device_status con None c w);
     let subscribed = length (st_sent (sa_status (sv_api w)));
     let w = server_updates DiscoverySync w;
     let sent = drop subscribed (st_sent (sa_status (sv_api w)));
     status \<leftarrow> (case sent of [] \<Rightarrow> None | d # _ \<Rightarrow> Some d);
     let messages = fst (subscription_turn (Message status) True (sv_api w));
     message \<leftarrow> (case messages of [] \<Rightarrow> None | m # _ \<Rightarrow> Some m);
     expect (ds_state message = state_num DiscoverySync) }"

definition test_invalid_shared_key_fails_authentication :: "api_setting \<Rightarrow> unit option" where
  "test_invalid_shared_key_fails_authentication E = do {
     w \<leftarrow> start_slave_server E;
     let invalid_key = replicate 32 0xFF;
     let (con, c) = connect_client E invalid_key;
     ((token, status), c, w) \<leftarrow> unwrapped (client_get_token con c w);
     expect (status = status_num ErrAuthFailed);
     expect (token = []);
     e \<leftarrow> unwrap_err (fst (client_get_status con c w));
     expect (ce_code e = CodeUnauthenticated) }"

definition test_api_stream :: "u32 \<Rightarrow> stream_config" where
  "test_api_stream stream_id =
     \<lparr>sc_stream_id = stream_id, sc_destination_mac = [0xAA, 0xBB, 0xCC, 0xDD, 0xEE, 0xFF],
      sc_vlan_id_pcp = 0x0001, sc_cycle_time_nano = 1000000, sc_direction = direction_num Input,
      sc_stream_content = Some \<lparr>pos_byte_offset = 0, pos_bit_offset = 0, pos_bit_len = 16\<rparr>\<rparr>"

definition test_configure_streams_preop_only_and_validation :: "api_setting \<Rightarrow> unit option" where
  "test_configure_streams_preop_only_and_validation E = do {
     w \<leftarrow> start_slave_server E;
     let (con, c) = connect_client E SHARED_KEY_BYTES;
     (_, c, w) \<leftarrow> unwrapped (client_get_token con c w);
     (r, c, w) \<leftarrow> unwrapped (client_configure_streams con [test_api_stream 1] c w);
     code \<leftarrow> status_of_reply r;
     expect (code = status_num ErrNotReady);
     (_, c, w) \<leftarrow> unwrapped (client_set_target_state con DiscoverySync c w);
     (_, c, w) \<leftarrow> unwrapped (client_set_target_state con PreOp c w);
     (r, c, w) \<leftarrow> unwrapped (client_configure_streams con [test_api_stream 1] c w);
     code \<leftarrow> status_of_reply r;
     expect (code = status_num NoError);
     (r, c, w) \<leftarrow> unwrapped (client_configure_streams con [test_api_stream 2, test_api_stream 2] c w);
     code \<leftarrow> status_of_reply r;
     expect (code = status_num ErrParamInvalid) }"

section \<open>The tests pass\<close>

lemma invalid_key_test_passes: "test_invalid_shared_key_fails_authentication example_setting = Some ()"
  by code_simp

lemma subscription_test_passes: "test_subscribe_stream_receives_updates example_setting = Some ()"
  by code_simp

lemma configure_streams_test_passes:
  "test_configure_streams_preop_only_and_validation example_setting = Some ()"
  by code_simp

lemma endpoints_test_passes: "test_slave_api_endpoints example_setting = Some ()"
  by code_simp

end
